(* ===== verification/Prelude.thy ===== *)
theory Prelude
  imports Main "HOL-Library.Multiset" "HOL-Library.Sublist"
begin

text \<open>
  What the components share: JavaScript strings as lists of UTF-16 code units, the string
  and number functions of the language that the client uses (\<open>trim\<close>, \<open>split\<close>, \<open>join\<close>,
  \<open>parseInt\<close>, \<open>String(n)\<close>, \<open>includes\<close>, \<open>startsWith\<close>), \<open>Array.prototype.sort\<close> as a stable
  sort driven by a comparator that answers a number, and the contract such a comparator
  has to meet (the locale \<open>comparison\<close>).

  Numbers that are identifiers, counts or epoch milliseconds are \<open>int\<close>. They agree with
  the doubles of the code up to \<open>2 ^ 53\<close>; \<open>Number.isFinite\<close> on a parsed number is kept,
  because a run of digits that is long enough parses to \<open>Infinity\<close>.
\<close>

section \<open>Lemma collections\<close>

named_theorems str_simps \<open>string functions of the language on constructors and literals\<close>
named_theorems model_defs \<open>non-recursive definitions of the model, for evaluation\<close>

section \<open>Strings\<close>

type_synonym str = "nat list"

definition lit :: "string \<Rightarrow> str" where
  "lit s = map of_char s"

lemma lit_simps [simp]:
  "lit [] = []"
  "lit (c # s) = of_char c # lit s"
  by (simp_all add: lit_def)

text \<open>WhiteSpace and LineTerminator of ECMAScript, what \<open>trim\<close> and \<open>\s\<close> match.\<close>

definition is_ws :: "nat \<Rightarrow> bool" where
  "is_ws c \<longleftrightarrow> (9 \<le> c \<and> c \<le> 13) \<or> c = 32 \<or> c = 160 \<or> c = 5760
     \<or> (8192 \<le> c \<and> c \<le> 8202) \<or> c = 8232 \<or> c = 8233 \<or> c = 8239 \<or> c = 8287
     \<or> c = 12288 \<or> c = 65279"

definition is_digit :: "nat \<Rightarrow> bool" where
  "is_digit c \<longleftrightarrow> 48 \<le> c \<and> c \<le> 57"

definition trim :: "str \<Rightarrow> str" where
  "trim s = rev (dropWhile is_ws (rev (dropWhile is_ws s)))"

text \<open>The regular expression \<open>/^\d+$/\<close>.\<close>

definition all_digits :: "str \<Rightarrow> bool" where
  "all_digits s \<longleftrightarrow> s \<noteq> [] \<and> list_all is_digit s"

definition starts_with :: "str \<Rightarrow> str \<Rightarrow> bool" where
  "starts_with s p \<longleftrightarrow> take (length p) s = p"

definition ends_with :: "str \<Rightarrow> str \<Rightarrow> bool" where
  "ends_with s p \<longleftrightarrow> starts_with (rev s) (rev p)"

fun has_sub :: "str \<Rightarrow> str \<Rightarrow> bool" where
  "has_sub [] needle = (needle = [])"
| "has_sub (c # s) needle = (starts_with (c # s) needle \<or> has_sub s needle)"

fun split_on :: "nat \<Rightarrow> str \<Rightarrow> str list" where
  "split_on d [] = [[]]"
| "split_on d (c # s) =
     (if c = d then [] # split_on d s
      else (case split_on d s of [] \<Rightarrow> [[c]] | w # ws \<Rightarrow> (c # w) # ws))"

fun join :: "str \<Rightarrow> str list \<Rightarrow> str" where
  "join sep [] = []"
| "join sep [w] = w"
| "join sep (w # v # ws) = w @ sep @ join sep (v # ws)"

text \<open>\<open>s || d\<close> on a string that may be absent: the empty string is falsy too.\<close>

fun or_str :: "str option \<Rightarrow> str \<Rightarrow> str" where
  "or_str (Some (c # s)) d = c # s"
| "or_str x d = d"

text \<open>\<open>s || undefined\<close>: the same with nothing to fall back to.\<close>

fun nonempty :: "str option \<Rightarrow> str option" where
  "nonempty (Some (c # s)) = Some (c # s)"
| "nonempty x = None"

text \<open>\<open>x ?? d\<close>.\<close>

definition nullish :: "'a option \<Rightarrow> 'a \<Rightarrow> 'a" where
  "nullish x d = (case x of None \<Rightarrow> d | Some v \<Rightarrow> v)"

lemma nullish_simps [simp]:
  "nullish None d = d"
  "nullish (Some v) d = v"
  by (simp_all add: nullish_def)

section \<open>Numbers\<close>

fun show_nat :: "nat \<Rightarrow> str" where
  "show_nat n = (if n < 10 then [48 + n] else show_nat (n div 10) @ [48 + n mod 10])"

declare show_nat.simps [simp del]

definition show_int :: "int \<Rightarrow> str" where
  "show_int i = (if i < 0 then 45 # show_nat (nat (- i)) else show_nat (nat i))"

definition digits_val :: "str \<Rightarrow> nat" where
  "digits_val s = foldl (\<lambda>n c. 10 * n + (c - 48)) 0 s"

text \<open>
  \<open>Number.parseInt(s, 10)\<close>: leading white space, a sign, the longest run of digits;
  \<open>None\<close> is \<open>NaN\<close>.
\<close>

definition parse_digits :: "str \<Rightarrow> nat option" where
  "parse_digits s = (let ds = takeWhile is_digit s
     in if ds = [] then None else Some (digits_val ds))"

definition parse_int :: "str \<Rightarrow> int option" where
  "parse_int s =
     (case dropWhile is_ws s of
        [] \<Rightarrow> None
      | c # cs \<Rightarrow>
          if c = 45 then map_option (\<lambda>n. - int n) (parse_digits cs)
          else if c = 43 then map_option int (parse_digits cs)
          else map_option int (parse_digits (c # cs)))"

text \<open>The integers that round to a finite double.\<close>

definition num_finite :: "int \<Rightarrow> bool" where
  "num_finite n \<longleftrightarrow> \<bar>n\<bar> < 2 ^ 1024 - 2 ^ 970"

section \<open>Lists\<close>

text \<open>\<open>findIndex\<close>, with \<open>None\<close> for \<open>-1\<close>.\<close>

fun find_index :: "('a \<Rightarrow> bool) \<Rightarrow> 'a list \<Rightarrow> nat option" where
  "find_index P [] = None"
| "find_index P (x # xs) = (if P x then Some 0 else map_option Suc (find_index P xs))"

text \<open>\<open>xs[i]\<close>: \<open>undefined\<close> out of range.\<close>

definition nth_opt :: "'a list \<Rightarrow> int \<Rightarrow> 'a option" where
  "nth_opt xs i = (if 0 \<le> i \<and> i < int (length xs) then Some (xs ! nat i) else None)"

text \<open>\<open>[...xs].sort(cmp)\<close>: stable, ordered by the sign of the comparator's answer.\<close>

fun sort_insert :: "('a \<Rightarrow> 'a \<Rightarrow> int) \<Rightarrow> 'a \<Rightarrow> 'a list \<Rightarrow> 'a list" where
  "sort_insert cmp x [] = [x]"
| "sort_insert cmp x (y # ys) =
     (if cmp x y \<le> 0 then x # y # ys else y # sort_insert cmp x ys)"

definition js_sort :: "('a \<Rightarrow> 'a \<Rightarrow> int) \<Rightarrow> 'a list \<Rightarrow> 'a list" where
  "js_sort cmp xs = foldr (sort_insert cmp) xs []"

text \<open>\<open>c || d\<close> on two numbers.\<close>

definition or_num :: "int \<Rightarrow> int \<Rightarrow> int" where
  "or_num c d = (if c = 0 then d else c)"


section \<open>Laws of the string functions\<close>

lemma digit_not_ws [simp]: "is_digit c \<Longrightarrow> \<not> is_ws c"
  by (auto simp: is_digit_def is_ws_def)

lemma has_sub_Nil [simp]: "has_sub s []"
  by (cases s) (simp_all add: starts_with_def)

lemma starts_with_append [simp]: "starts_with (p @ s) p"
  by (simp add: starts_with_def)

lemma starts_with_self [simp]: "starts_with s s"
  by (simp add: starts_with_def)

lemma starts_with_iff_prefix: "starts_with s p \<longleftrightarrow> prefix p s"
  unfolding starts_with_def prefix_def
  by (metis append_eq_conv_conj append_take_drop_id)

lemma has_sub_iff_sublist: "has_sub s p \<longleftrightarrow> sublist p s"
  by (induction s) (auto simp: starts_with_iff_prefix sublist_Cons_right)

lemma split_on_nonempty [simp]: "split_on d s \<noteq> []"
  by (induction s) (auto split: list.splits)

lemma split_on_no_sep: "d \<notin> set s \<Longrightarrow> split_on d s = [s]"
  by (induction s) auto

lemma split_on_append: "d \<notin> set w \<Longrightarrow> split_on d (w @ d # s) = w # split_on d s"
  by (induction w) (auto split: list.splits)

text \<open>Joining with a separator that occurs in no part, then splitting, gives the parts back.\<close>

lemma split_on_join:
  assumes "ws \<noteq> []" and "\<And>w. w \<in> set ws \<Longrightarrow> d \<notin> set w"
  shows "split_on d (join [d] ws) = ws"
  using assms
  by (induction "[d]" ws rule: join.induct) (auto simp: split_on_no_sep split_on_append)

lemma join_nonempty: "ws \<noteq> [] \<Longrightarrow> \<forall>w \<in> set ws. w \<noteq> [] \<Longrightarrow> join sep ws \<noteq> []"
  by (induction sep ws rule: join.induct) auto

lemma join_Cons: "ws \<noteq> [] \<Longrightarrow> join sep (w # ws) = w @ sep @ join sep ws"
  by (cases ws) auto

lemma show_nat_small [simp]: "n < 10 \<Longrightarrow> show_nat n = [48 + n]"
  by (simp add: show_nat.simps)

lemma show_nat_nonempty [simp]: "show_nat n \<noteq> []"
  by (subst show_nat.simps) simp

lemma show_nat_digits: "list_all is_digit (show_nat n)"
proof (induction n rule: show_nat.induct)
  case (1 n)
  have "is_digit (48 + n mod 10)" "n < 10 \<Longrightarrow> is_digit (48 + n)"
    by (auto simp: is_digit_def)
  with "1" show ?case by (subst show_nat.simps) auto
qed

lemma show_nat_digitD: "c \<in> set (show_nat n) \<Longrightarrow> is_digit c"
  using show_nat_digits [of n] by (simp add: list_all_iff)

lemma digits_val_append: "digits_val (s @ [c]) = 10 * digits_val s + (c - 48)"
  by (simp add: digits_val_def)

lemma digits_val_show_nat [simp]: "digits_val (show_nat n) = n"
proof (induction n rule: show_nat.induct)
  case (1 n)
  show ?case
  proof (cases "n < 10")
    case True
    then show ?thesis by (simp add: digits_val_def)
  next
    case False
    with "1.IH" show ?thesis
      by (subst show_nat.simps) (simp add: digits_val_append)
  qed
qed

lemma takeWhile_show_nat [simp]: "takeWhile is_digit (show_nat n) = show_nat n"
  using show_nat_digitD by (metis takeWhile_eq_all_conv)

lemma dropWhile_ws_show_nat [simp]: "dropWhile is_ws (show_nat n) = show_nat n"
  using show_nat_nonempty show_nat_digitD
  by (metis digit_not_ws dropWhile_eq_self_iff hd_in_set)

lemma parse_digits_show_nat [simp]: "parse_digits (show_nat n) = Some n"
  by (simp add: parse_digits_def Let_def)

lemma show_nat_Cons: "show_nat n = c # cs \<Longrightarrow> is_digit c"
  using show_nat_digitD [of c n] by simp

lemma parse_int_show_int [simp]: "parse_int (show_int i) = Some i"
proof (cases "i < 0")
  case True
  then show ?thesis by (simp add: parse_int_def show_int_def is_ws_def)
next
  case False
  obtain c cs where eq: "show_nat (nat i) = c # cs"
    by (meson neq_Nil_conv show_nat_nonempty)
  then have d: "is_digit c" by (rule show_nat_Cons)
  then have ne: "c \<noteq> 45" "c \<noteq> 43" by (auto simp: is_digit_def)
  have dw: "dropWhile is_ws (show_nat (nat i)) = c # cs" by (metis dropWhile_ws_show_nat eq)
  have "parse_digits (c # cs) = Some (nat i)" by (simp flip: eq)
  with False ne dw d show ?thesis
    unfolding parse_int_def show_int_def by simp
qed

lemma show_int_nonempty [simp]: "show_int i \<noteq> []"
  by (simp add: show_int_def)

lemma show_int_inject [simp]: "show_int i = show_int j \<longleftrightarrow> i = j"
  by (metis option.inject parse_int_show_int)

lemma show_int_no: "c \<in> set (show_int i) \<Longrightarrow> c = 45 \<or> is_digit c"
  using show_nat_digitD by (auto simp: show_int_def split: if_splits)

lemma show_int_pos_digits: "0 \<le> i \<Longrightarrow> c \<in> set (show_int i) \<Longrightarrow> is_digit c"
  using show_nat_digitD by (auto simp: show_int_def split: if_splits)

lemma all_digits_show_int: "0 \<le> i \<Longrightarrow> all_digits (show_int i)"
  by (simp add: all_digits_def show_int_def show_nat_digits)

lemma or_str_Some [simp]: "s \<noteq> [] \<Longrightarrow> or_str (Some s) d = s"
  by (cases s) auto

lemma nonempty_Some [simp]: "s \<noteq> [] \<Longrightarrow> nonempty (Some s) = Some s"
  by (cases s) auto

lemma or_str_nonempty [simp]: "d \<noteq> [] \<Longrightarrow> or_str x d \<noteq> []"
  by (cases x; cases "the x") auto

text \<open>Trimming is idempotent, and it leaves a text without outer white space alone.\<close>

lemma trim_id:
  assumes "s = [] \<or> (\<not> is_ws (hd s) \<and> \<not> is_ws (last s))"
  shows "trim s = s"
proof -
  have "dropWhile is_ws s = s" and "dropWhile is_ws (rev s) = rev s"
    using assms by (auto simp: dropWhile_eq_self_iff hd_rev)
  then show ?thesis by (simp add: trim_def)
qed

lemma dropWhile_hd: "dropWhile P s \<noteq> [] \<Longrightarrow> \<not> P (hd (dropWhile P s))"
  by (rule hd_dropWhile)

lemma trim_ends: "trim s \<noteq> [] \<Longrightarrow> \<not> is_ws (hd (trim s)) \<and> \<not> is_ws (last (trim s))"
proof -
  assume ne: "trim s \<noteq> []"
  let ?t = "dropWhile is_ws s"
  have last: "\<not> is_ws (last (trim s))"
    using ne dropWhile_hd [of is_ws "rev ?t"] by (simp add: trim_def last_rev)
  have "suffix (dropWhile is_ws (rev ?t)) (rev ?t)"
    by (rule suffix_dropWhile)
  then have "prefix (trim s) ?t"
    by (simp add: trim_def suffix_to_prefix)
  then obtain zs where zs: "?t = trim s @ zs" by (auto simp: prefix_def)
  with ne have "hd ?t = hd (trim s)" and "?t \<noteq> []" by auto
  with dropWhile_hd [of is_ws s] have "\<not> is_ws (hd (trim s))" by simp
  with last show ?thesis by simp
qed

lemma trim_trim [simp]: "trim (trim s) = trim s"
  using trim_id trim_ends by blast

lemma trim_show_int [simp]: "0 \<le> i \<Longrightarrow> trim (show_int i) = show_int i"
  using show_int_pos_digits by (intro trim_id) (auto dest: digit_not_ws)

section \<open>Laws of the list functions\<close>

lemma find_index_Some:
  "find_index P xs = Some i \<longleftrightarrow> i < length xs \<and> P (xs ! i) \<and> (\<forall>j < i. \<not> P (xs ! j))"
proof (induction xs arbitrary: i)
  case Nil
  then show ?case by simp
next
  case (Cons x xs)
  then show ?case
    by (cases i) (auto simp: less_Suc_eq_0_disj)
qed

lemma find_index_None: "find_index P xs = None \<longleftrightarrow> (\<forall>x \<in> set xs. \<not> P x)"
  by (induction xs) auto

lemma find_None: "List.find P xs = None \<longleftrightarrow> (\<forall>x \<in> set xs. \<not> P x)"
  by (induction xs) auto

lemma find_SomeD: "List.find P xs = Some x \<Longrightarrow> x \<in> set xs \<and> P x"
  by (induction xs) (auto split: if_splits)

lemma nth_opt_in: "nth_opt xs i = Some x \<Longrightarrow> x \<in> set xs"
  by (auto simp: nth_opt_def split: if_splits)

section \<open>Sorting\<close>

lemma mset_sort_insert [simp]: "mset (sort_insert cmp x xs) = add_mset x (mset xs)"
  by (induction xs) auto

lemma mset_js_sort [simp]: "mset (js_sort cmp xs) = mset xs"
  by (induction xs) (simp_all add: js_sort_def)

lemma set_js_sort [simp]: "set (js_sort cmp xs) = set xs"
  by (metis mset_js_sort set_mset_mset)

lemma js_sort_map:
  assumes "\<And>a b. cmp (f a) (f b) = cmp a b"
  shows "js_sort cmp (map f xs) = map f (js_sort cmp xs)"
proof -
  have "sort_insert cmp (f x) (map f ys) = map f (sort_insert cmp x ys)" for x ys
    using assms by (induction ys) simp_all
  then show ?thesis by (induction xs) (simp_all add: js_sort_def)
qed

lemma length_js_sort [simp]: "length (js_sort cmp xs) = length xs"
  by (metis mset_js_sort size_mset)

text \<open>
  The contract of a comparator: its sign is antisymmetric and \<open>cmp a b \<le> 0\<close> is transitive.
  Under it the sort answers an ordered permutation that keeps equal elements in order.
\<close>

locale comparison =
  fixes cmp :: "'a \<Rightarrow> 'a \<Rightarrow> int"
  assumes antisym: "0 < cmp a b \<longleftrightarrow> cmp b a < 0"
    and trans: "cmp a b \<le> 0 \<Longrightarrow> cmp b c \<le> 0 \<Longrightarrow> cmp a c \<le> 0"
begin

lemma refl [simp]: "cmp a a = 0"
  using antisym [of a a] by linarith

lemma total: "cmp a b \<le> 0 \<or> cmp b a \<le> 0"
  using antisym [of a b] by linarith

lemma equal_sym: "cmp a b = 0 \<longleftrightarrow> cmp b a = 0"
  using antisym [of a b] antisym [of b a] by linarith

lemma equal_trans: "cmp a b = 0 \<Longrightarrow> cmp b c = 0 \<Longrightarrow> cmp a c = 0"
  using trans [of a b c] trans [of c b a] equal_sym [of a b] equal_sym [of b c]
    equal_sym [of a c] antisym [of a c] by simp

lemma sorted_sort_insert:
  "sorted_wrt (\<lambda>a b. cmp a b \<le> 0) ys \<Longrightarrow>
   sorted_wrt (\<lambda>a b. cmp a b \<le> 0) (sort_insert cmp x ys)"
proof (induction ys)
  case Nil
  then show ?case by simp
next
  case (Cons y ys)
  have ins: "set (sort_insert cmp x ys) = insert x (set ys)"
    by (metis mset_sort_insert set_mset_add_mset_insert set_mset_mset)
  from Cons total [of x y] trans show ?case
    by (auto simp: ins)
qed

lemma sorted_js_sort: "sorted_wrt (\<lambda>a b. cmp a b \<le> 0) (js_sort cmp xs)"
  by (induction xs) (simp_all add: js_sort_def sorted_sort_insert)

lemma stable_sort_insert:
  "sorted_wrt (\<lambda>a b. cmp a b \<le> 0) ys \<Longrightarrow>
   filter (\<lambda>y. cmp k y = 0) (sort_insert cmp x ys) =
   (if cmp k x = 0 then x # filter (\<lambda>y. cmp k y = 0) ys else filter (\<lambda>y. cmp k y = 0) ys)"
proof (induction ys)
  case Nil
  then show ?case by simp
next
  case (Cons y ys)
  show ?case
  proof (cases "cmp x y \<le> 0")
    case True
    then show ?thesis by simp
  next
    case False
    have "cmp k x = 0 \<Longrightarrow> cmp k y \<noteq> 0"
      using False equal_trans equal_sym by (metis order_refl)
    with Cons False show ?thesis by auto
  qed
qed

lemma sort_insert_front: "\<forall>y \<in> set ys. cmp x y \<le> 0 \<Longrightarrow> sort_insert cmp x ys = x # ys"
  by (cases ys) simp_all

lemma js_sort_sorted: "sorted_wrt (\<lambda>a b. cmp a b \<le> 0) xs \<Longrightarrow> js_sort cmp xs = xs"
  by (induction xs) (simp_all add: js_sort_def sort_insert_front)

lemma filter_sort_insert:
  "sorted_wrt (\<lambda>a b. cmp a b \<le> 0) ys \<Longrightarrow>
   filter P (sort_insert cmp x ys) = (if P x then sort_insert cmp x (filter P ys) else filter P ys)"
proof (induction ys)
  case Nil
  then show ?case by simp
next
  case (Cons y ys)
  have "cmp x y \<le> 0 \<Longrightarrow> \<forall>z \<in> set (y # ys). cmp x z \<le> 0"
    using Cons.prems trans by auto
  then have "cmp x y \<le> 0 \<Longrightarrow> sort_insert cmp x (filter P (y # ys)) = x # filter P (y # ys)"
    by (intro sort_insert_front) auto
  with Cons show ?case by auto
qed

text \<open>Sorting commutes with filtering, so a part of a list that is in order stays as it is.\<close>

lemma filter_js_sort: "filter P (js_sort cmp xs) = js_sort cmp (filter P xs)"
proof (induction xs)
  case Nil
  then show ?case by (simp add: js_sort_def)
next
  case (Cons x xs)
  have "js_sort cmp (z # zs) = sort_insert cmp z (js_sort cmp zs)" for z zs
    by (simp add: js_sort_def)
  with Cons filter_sort_insert [OF sorted_js_sort] show ?case by simp
qed

text \<open>An element above all others, and not below the equal ones before it, comes last.\<close>

lemma sort_insert_before: "cmp y x \<le> 0 \<Longrightarrow> sort_insert cmp y (zs @ [x]) = sort_insert cmp y zs @ [x]"
  by (induction zs) simp_all

lemma js_sort_last:
  assumes "\<forall>y \<in> set ys. cmp y x \<le> 0" and "\<forall>z \<in> set zs. 0 < cmp x z"
  shows "js_sort cmp (ys @ x # zs) = js_sort cmp (ys @ zs) @ [x]"
proof -
  have "sort_insert cmp x ws = ws @ [x]" if "\<forall>z \<in> set ws. 0 < cmp x z" for ws
    using that by (induction ws) simp_all
  then have "js_sort cmp (x # zs) = js_sort cmp zs @ [x]"
    using assms(2) by (simp add: js_sort_def [of cmp "x # zs"] flip: js_sort_def)
  with assms(1) show ?thesis
    by (induction ys) (simp_all add: js_sort_def sort_insert_before)
qed

text \<open>Stability: the elements that compare equal to any \<open>k\<close> stay in their order.\<close>

lemma stable_js_sort: "filter (\<lambda>y. cmp k y = 0) (js_sort cmp xs) = filter (\<lambda>y. cmp k y = 0) xs"
proof (induction xs)
  case Nil
  then show ?case by (simp add: js_sort_def)
next
  case (Cons x xs)
  have "js_sort cmp (x # xs) = sort_insert cmp x (js_sort cmp xs)"
    by (simp add: js_sort_def)
  with Cons stable_sort_insert [OF sorted_js_sort] show ?case by simp
qed

end

text \<open>
  A comparator that tells the elements of a list apart by a key: the order it gives does not
  depend on the order it starts from.
\<close>

locale keyed_comparison = comparison cmp
  for cmp :: "'a \<Rightarrow> 'a \<Rightarrow> int" +
  fixes key :: "'a \<Rightarrow> int"
  assumes equal_key: "cmp a b = 0 \<Longrightarrow> key a = key b"
begin

lemma sorted_unique:
  assumes "sorted_wrt (\<lambda>a b. cmp a b \<le> 0) xs" and "sorted_wrt (\<lambda>a b. cmp a b \<le> 0) ys"
    and "mset xs = mset ys" and "inj_on key (set xs)"
  shows "xs = ys"
  using assms
proof (induction xs arbitrary: ys)
  case Nil
  then show ?case by simp
next
  case (Cons x xs)
  then obtain y ys' where ys: "ys = y # ys'" by (cases ys) auto
  have sets: "set (x # xs) = set ys" using Cons.prems(3) by (metis set_mset_mset)
  have "y = x \<or> y \<in> set xs" and "x = y \<or> x \<in> set ys'" using sets ys by auto
  then have "cmp x y \<le> 0" and "cmp y x \<le> 0" using Cons.prems(1,2) ys by auto
  then have "cmp x y = 0" using antisym [of y x] by linarith
  with equal_key have "key x = key y" by simp
  with Cons.prems(4) sets ys have eq: "x = y" by (auto dest: inj_onD)
  with Cons.prems ys have "xs = ys'"
    by (intro Cons.IH) auto
  with eq ys show ?case by simp
qed

lemma js_sort_unique:
  "mset xs = mset ys \<Longrightarrow> inj_on key (set xs) \<Longrightarrow> js_sort cmp xs = js_sort cmp ys"
  by (rule sorted_unique) (simp_all add: sorted_js_sort)

end

text \<open>Building comparators: a difference, a comparator under a key, the other direction, a tie-break.\<close>

lemma comparison_diff: "comparison (\<lambda>a b. f a - f b)" for f :: "'a \<Rightarrow> int"
  by standard auto

lemma comparison_key:
  assumes "comparison c"
  shows "comparison (\<lambda>a b. c (f a) (f b))"
  using assms unfolding comparison_def by blast

lemma comparison_reverse:
  assumes "comparison c"
  shows "comparison (\<lambda>a b. - c a b)"
proof
  fix a b d
  show "0 < - c a b \<longleftrightarrow> - c b a < 0"
    using comparison.antisym [OF assms, of b a] by linarith
  show "- c a b \<le> 0 \<Longrightarrow> - c b d \<le> 0 \<Longrightarrow> - c a d \<le> 0"
    using comparison.trans [OF assms, of d b a] comparison.antisym [OF assms, of a b]
      comparison.antisym [OF assms, of b a] comparison.antisym [OF assms, of b d]
      comparison.antisym [OF assms, of d b] comparison.antisym [OF assms, of a d]
      comparison.antisym [OF assms, of d a] by linarith
qed

lemma comparison_dir: "comparison c \<Longrightarrow> dir = 1 \<or> dir = -1 \<Longrightarrow> comparison (\<lambda>a b. dir * c a b)"
  using comparison_reverse [of c] by (elim disjE) simp_all

lemma comparison_tie:
  assumes "comparison c" and "comparison d"
  shows "comparison (\<lambda>a b. or_num (c a b) (d a b))"
proof
  fix x y z
  note c = comparison.antisym [OF assms(1)] comparison.equal_sym [OF assms(1)]
  show "0 < or_num (c x y) (d x y) \<longleftrightarrow> or_num (c y x) (d y x) < 0"
    using c [of x y] comparison.antisym [OF assms(2), of x y] by (auto simp: or_num_def)
  assume le: "or_num (c x y) (d x y) \<le> 0" "or_num (c y z) (d y z) \<le> 0"
  then have cle: "c x y \<le> 0" "c y z \<le> 0" by (auto simp: or_num_def split: if_splits)
  then have xz: "c x z \<le> 0" by (rule comparison.trans [OF assms(1)])
  show "or_num (c x z) (d x z) \<le> 0"
  proof (cases "c x z = 0")
    case True
    then have "c z x \<le> 0" using c(2) [of x z] by simp
    with cle(2) have "c y x \<le> 0" by (rule comparison.trans [OF assms(1)])
    with cle(1) have "c y x = 0" using c(1) [of x y] c(1) [of y x] by linarith
    then have "c x y = 0" "c y z = 0"
      using True comparison.equal_sym [OF assms(1)] comparison.equal_trans [OF assms(1)] by metis+
    with le True show ?thesis
      using comparison.trans [OF assms(2), of x y z] by (simp add: or_num_def)
  next
    case False
    with xz show ?thesis by (simp add: or_num_def)
  qed
qed

end
