(* ===== verification/Protos.thy ===== *)
theory Protos
  imports Prelude
begin

text \<open>
  The wire contract as the client sees it: the messages of \<open>proto/ocf/ims\<close> whose generated
  TypeScript the client reads and writes. A message is a record, an optional field or a
  message field is an \<open>option\<close>, a repeated field is a list, an enum is a datatype with its
  wire number. Field names carry a prefix per message, because record fields are global.

  The record \<open>host\<close> collects what the client takes from code outside the repository: the
  conversion of a protobuf timestamp to epoch milliseconds, Unicode lower-casing, the
  locale's string comparison and the engine's regular expressions. Definitions that use one
  of these take the record as an argument, so what is proved holds for each of them.
\<close>

section \<open>Common messages\<close>

record timestamp =
  seconds :: int
  nanos :: int

record PersonRef =
  ref_personId :: int
  ref_handle :: "str option"
  ref_name :: "str option"

record IncidentRef =
  link_eventName :: str
  link_eventId :: int
  link_incidentNumber :: int
  link_summary :: str

record host =
  ts_ms :: "timestamp \<Rightarrow> int"
  lower :: "str \<Rightarrow> str"
  locale_compare :: "str \<Rightarrow> str \<Rightarrow> int"
  regex :: "str \<Rightarrow> (str \<Rightarrow> bool) option"

section \<open>Journal entries\<close>

record Attachment =
  att_id :: str
  att_previewable :: bool
  att_mediaType :: str

record JournalEntry =
  je_id :: int
  je_created :: "timestamp option"
  je_author :: str
  je_systemEntry :: bool
  je_text :: str
  je_stricken :: "bool option"
  je_attachment :: "Attachment option"
  je_mentions :: "PersonRef list"
  je_onBehalfOf :: "PersonRef option"

section \<open>Incidents\<close>

datatype IncidentState = STATE_UNSPECIFIED | STATE_OPEN | STATE_CLOSED

fun state_num :: "IncidentState \<Rightarrow> int" where
  "state_num STATE_UNSPECIFIED = 0"
| "state_num STATE_OPEN = 1"
| "state_num STATE_CLOSED = 2"

datatype IncidentPriority =
  PRIORITY_UNSPECIFIED | PRIORITY_LOW | PRIORITY_NORMAL | PRIORITY_HIGH

fun priority_num :: "IncidentPriority \<Rightarrow> int" where
  "priority_num PRIORITY_UNSPECIFIED = 0"
| "priority_num PRIORITY_LOW = 1"
| "priority_num PRIORITY_NORMAL = 3"
| "priority_num PRIORITY_HIGH = 5"

lemma state_num_inject [simp]: "state_num a = state_num b \<longleftrightarrow> a = b"
  by (cases a; cases b) simp_all

lemma priority_num_inject [simp]: "priority_num a = priority_num b \<longleftrightarrow> a = b"
  by (cases a; cases b) simp_all

text \<open>Enums compare by their wire number, as the code's subtraction does.\<close>

instantiation IncidentState :: linorder
begin

definition less_eq_IncidentState :: "IncidentState \<Rightarrow> IncidentState \<Rightarrow> bool" where
  "less_eq_IncidentState a b \<longleftrightarrow> state_num a \<le> state_num b"

definition less_IncidentState :: "IncidentState \<Rightarrow> IncidentState \<Rightarrow> bool" where
  "less_IncidentState a b \<longleftrightarrow> state_num a < state_num b"

instance
  by standard (auto simp: less_eq_IncidentState_def less_IncidentState_def)

end

instantiation IncidentPriority :: linorder
begin

definition less_eq_IncidentPriority :: "IncidentPriority \<Rightarrow> IncidentPriority \<Rightarrow> bool" where
  "less_eq_IncidentPriority a b \<longleftrightarrow> priority_num a \<le> priority_num b"

definition less_IncidentPriority :: "IncidentPriority \<Rightarrow> IncidentPriority \<Rightarrow> bool" where
  "less_IncidentPriority a b \<longleftrightarrow> priority_num a < priority_num b"

instance
  by standard (auto simp: less_eq_IncidentPriority_def less_IncidentPriority_def)

end

record IncidentLocation =
  loc_areaSlug :: "str option"
  loc_description :: "str option"
  loc_booth :: "str option"

record IncidentPerson =
  ip_person :: "PersonRef option"
  ip_involvement :: "str option"
  ip_grantedAccess :: bool
  ip_hasEventAccess :: bool
  ip_reportRequested :: "timestamp option"
  ip_reportNumber :: "int option"

record Incident =
  inc_event :: str
  inc_eventId :: int
  inc_number :: int
  inc_created :: "timestamp option"
  inc_lastModified :: "timestamp option"
  inc_createdBy :: "PersonRef option"
  inc_state :: IncidentState
  inc_private :: "bool option"
  inc_outcomeId :: "int option"
  inc_started :: "timestamp option"
  inc_closed :: "timestamp option"
  inc_priority :: IncidentPriority
  inc_summary :: "str option"
  inc_location :: "IncidentLocation option"
  inc_incidentTypeIds :: "int list"
  inc_reports :: "int list"
  inc_people :: "IncidentPerson list"
  inc_linkedIncidents :: "IncidentRef list"
  inc_journalEntries :: "JournalEntry list"

record IncidentView =
  iv_incident :: "Incident option"
  iv_viewerMayAddJournal :: bool

section \<open>Reports\<close>

record Report =
  rep_event :: str
  rep_number :: int
  rep_created :: "timestamp option"
  rep_createdBy :: "PersonRef option"
  rep_summary :: "str option"
  rep_incident :: "int option"
  rep_journalEntries :: "JournalEntry list"

record ReportView =
  rv_report :: "Report option"
  rv_mayEditSummary :: bool
  rv_mayAddJournalEntry :: bool

section \<open>Taxonomies and events\<close>

record Area =
  area_slug :: str
  area_name :: "str option"

record IncidentType =
  type_id :: int
  type_name :: "str option"
  type_hidden :: "bool option"

record Outcome =
  out_id :: int
  out_name :: "str option"
  out_hidden :: "bool option"

record Event =
  ev_id :: int
  ev_name :: "str option"

section \<open>People and access\<close>

datatype ParticipationType =
    PT_UNSPECIFIED | PT_WRITER | PT_CREW_LEADER | PT_REPORTER
  | PT_VOLUNTEER | PT_PUBLIC | PT_NOT_PRESENT | PT_EJECTED

record PersonCrew =
  crew_name :: str
  crew_slug :: str
  crew_isLeader :: bool

record Person =
  p_handle :: "str option"
  p_name :: "str option"
  p_email :: "str option"
  p_phone :: "str option"
  p_hasPassword :: bool
  p_isAdmin :: bool
  p_personId :: int
  p_profilePictureUrl :: "str option"
  p_wristband :: "str option"
  p_participationType :: ParticipationType
  p_crews :: "PersonCrew list"

record AccessForEvent =
  acc_eventId :: int
  acc_readIncidents :: bool
  acc_writeIncidents :: bool
  acc_writeReports :: bool
  acc_readVisits :: bool
  acc_writeVisits :: bool
  acc_attachFiles :: bool
  acc_readAreas :: bool
  acc_readIncidentsViaGrant :: bool
  acc_inviteReporters :: bool

record GetAuthStatusResponse =
  auth_authenticated :: bool
  auth_user :: str
  auth_personId :: int
  auth_admin :: bool
  auth_canManagePersonnel :: bool
  auth_eventAccess :: "int \<rightharpoonup> AccessForEvent"
  auth_pushVapidPublicKey :: str
  auth_usingDefaultPassword :: bool

section \<open>Notifications\<close>

datatype NotificationType =
  NT_UNSPECIFIED | NT_MENTIONED | NT_ADDED_TO_INCIDENT | NT_REPORT_REQUESTED

record Notification =
  nt_id :: int
  nt_type :: NotificationType
  nt_event :: str
  nt_incidentNumber :: "int option"
  nt_incidentSummary :: "str option"
  nt_reportNumber :: "int option"
  nt_reportSummary :: "str option"
  nt_journalEntryId :: "int option"
  nt_actor :: "str option"
  nt_created :: "timestamp option"
  nt_read :: bool

section \<open>Sample messages for evaluation\<close>

text \<open>
  \<open>create(Schema)\<close> with no fields: the proto3 defaults. \<open>plain_host\<close> is one concrete host,
  used where a property is evaluated: ASCII lower-casing, comparison by code units, no
  regular expressions, whole milliseconds rounded up.
\<close>

definition blank_entry :: JournalEntry where
  "blank_entry = \<lparr>je_id = 0, je_created = None, je_author = [], je_systemEntry = False,
     je_text = [], je_stricken = None, je_attachment = None, je_mentions = [],
     je_onBehalfOf = None\<rparr>"

definition blank_location :: IncidentLocation where
  "blank_location = \<lparr>loc_areaSlug = None, loc_description = None, loc_booth = None\<rparr>"

definition blank_incident :: Incident where
  "blank_incident = \<lparr>inc_event = [], inc_eventId = 0, inc_number = 0, inc_created = None,
     inc_lastModified = None, inc_createdBy = None, inc_state = STATE_UNSPECIFIED,
     inc_private = None, inc_outcomeId = None, inc_started = None, inc_closed = None,
     inc_priority = PRIORITY_UNSPECIFIED, inc_summary = None, inc_location = None,
     inc_incidentTypeIds = [], inc_reports = [], inc_people = [], inc_linkedIncidents = [],
     inc_journalEntries = []\<rparr>"

definition blank_report :: Report where
  "blank_report = \<lparr>rep_event = [], rep_number = 0, rep_created = None, rep_createdBy = None,
     rep_summary = None, rep_incident = None, rep_journalEntries = []\<rparr>"

definition blank_person :: Person where
  "blank_person = \<lparr>p_handle = None, p_name = None, p_email = None, p_phone = None,
     p_hasPassword = False, p_isAdmin = False, p_personId = 0, p_profilePictureUrl = None,
     p_wristband = None, p_participationType = PT_UNSPECIFIED, p_crews = []\<rparr>"

definition blank_access :: AccessForEvent where
  "blank_access = \<lparr>acc_eventId = 0, acc_readIncidents = False, acc_writeIncidents = False,
     acc_writeReports = False, acc_readVisits = False, acc_writeVisits = False,
     acc_attachFiles = False, acc_readAreas = False, acc_readIncidentsViaGrant = False,
     acc_inviteReporters = False\<rparr>"

definition blank_auth :: GetAuthStatusResponse where
  "blank_auth = \<lparr>auth_authenticated = False, auth_user = [], auth_personId = 0,
     auth_admin = False, auth_canManagePersonnel = False, auth_eventAccess = Map.empty,
     auth_pushVapidPublicKey = [], auth_usingDefaultPassword = False\<rparr>"

definition blank_notification :: Notification where
  "blank_notification = \<lparr>nt_id = 0, nt_type = NT_UNSPECIFIED, nt_event = [],
     nt_incidentNumber = None, nt_incidentSummary = None, nt_reportNumber = None,
     nt_reportSummary = None, nt_journalEntryId = None, nt_actor = None, nt_created = None,
     nt_read = False\<rparr>"

definition ascii_lower :: "str \<Rightarrow> str" where
  "ascii_lower = map (\<lambda>c. if 65 \<le> c \<and> c \<le> 90 then c + 32 else c)"

fun code_unit_compare :: "str \<Rightarrow> str \<Rightarrow> int" where
  "code_unit_compare [] [] = 0"
| "code_unit_compare [] (d # t) = -1"
| "code_unit_compare (c # s) [] = 1"
| "code_unit_compare (c # s) (d # t) =
     (if c < d then -1 else if d < c then 1 else code_unit_compare s t)"

definition plain_host :: host where
  "plain_host = \<lparr>ts_ms = (\<lambda>t. seconds t * 1000 + (nanos t + 999999) div 1000000),
     lower = ascii_lower, locale_compare = code_unit_compare, regex = (\<lambda>_. None)\<rparr>"

lemmas blank_defs [model_defs] =
  blank_entry_def blank_location_def blank_incident_def blank_report_def blank_person_def
  blank_access_def blank_auth_def blank_notification_def

text \<open>Comparison by code units meets the contract of a comparator.\<close>

lemma code_unit_compare_antisym: "0 < code_unit_compare a b \<longleftrightarrow> code_unit_compare b a < 0"
  by (induction a b rule: code_unit_compare.induct) auto

lemma code_unit_compare_trans:
  "code_unit_compare a b \<le> 0 \<Longrightarrow> code_unit_compare b c \<le> 0 \<Longrightarrow> code_unit_compare a c \<le> 0"
proof (induction a arbitrary: b c)
  case Nil
  then show ?case by (cases c) simp_all
next
  case (Cons x s)
  then obtain y t where b: "b = y # t" by (cases b) auto
  with Cons.prems obtain z u where c: "c = z # u" by (cases c) auto
  from Cons.prems b c have "x \<le> y" "y \<le> z" by (simp_all split: if_splits)
  with Cons b c show ?case
    by (cases "x = y"; cases "y = z") (simp_all split: if_splits)
qed

interpretation code_unit: comparison code_unit_compare
  by standard (fact code_unit_compare_antisym code_unit_compare_trans)+

end
