(* ===== verification/Uri.thy ===== *)
theory Uri
  imports Prelude
begin

text \<open>
  \<open>encodeURIComponent\<close> and \<open>decodeURIComponent\<close> of the language, over UTF-16 code units:
  a lone surrogate makes the first throw, a malformed escape the second (both \<open>None\<close> here).
  The client builds route segments with the first and reads a push link with the second.
\<close>

section \<open>UTF-16 and UTF-8\<close>

fun code_points :: "str \<Rightarrow> nat list option" where
  "code_points [] = Some []"
| "code_points (c # cs) =
     (if 55296 \<le> c \<and> c \<le> 56319 then
        (case cs of
           [] \<Rightarrow> None
         | d # ds \<Rightarrow>
             if 56320 \<le> d \<and> d \<le> 57343
             then map_option ((#) (65536 + (c - 55296) * 1024 + (d - 56320))) (code_points ds)
             else None)
      else if 56320 \<le> c \<and> c \<le> 57343 then None
      else map_option ((#) c) (code_points cs))"

definition units_of :: "nat \<Rightarrow> str" where
  "units_of p = (if p < 65536 then [p]
     else [55296 + (p - 65536) div 1024, 56320 + (p - 65536) mod 1024])"

definition utf8 :: "nat \<Rightarrow> nat list" where
  "utf8 p =
     (if p < 128 then [p]
      else if p < 2048 then [192 + p div 64, 128 + p mod 64]
      else if p < 65536 then [224 + p div 4096, 128 + p div 64 mod 64, 128 + p mod 64]
      else [240 + p div 262144, 128 + p div 4096 mod 64, 128 + p div 64 mod 64, 128 + p mod 64])"

section \<open>Escapes\<close>

definition hex_digit :: "nat \<Rightarrow> nat" where
  "hex_digit n = (if n < 10 then 48 + n else 55 + n)"

definition hex_val :: "nat \<Rightarrow> nat option" where
  "hex_val c =
     (if 48 \<le> c \<and> c \<le> 57 then Some (c - 48)
      else if 65 \<le> c \<and> c \<le> 70 then Some (c - 55)
      else if 97 \<le> c \<and> c \<le> 102 then Some (c - 87)
      else None)"

definition percent :: "nat \<Rightarrow> str" where
  "percent b = [37, hex_digit (b div 16), hex_digit (b mod 16)]"

text \<open>Letters, digits and \<open>- _ . ! ~ * ' ( )\<close> are not escaped.\<close>

definition unreserved :: "nat \<Rightarrow> bool" where
  "unreserved c \<longleftrightarrow> (65 \<le> c \<and> c \<le> 90) \<or> (97 \<le> c \<and> c \<le> 122) \<or> is_digit c
     \<or> c \<in> {45, 95, 46, 33, 126, 42, 39, 40, 41}"

definition encode_point :: "nat \<Rightarrow> str" where
  "encode_point p = (if unreserved p then [p] else concat (map percent (utf8 p)))"

definition encodeURIComponent :: "str \<Rightarrow> str option" where
  "encodeURIComponent s = map_option (\<lambda>ps. concat (map encode_point ps)) (code_points s)"

text \<open>One \<open>%XX\<close> at the front.\<close>

fun octet :: "str \<Rightarrow> (nat \<times> str) option" where
  "octet (c # h # l # s) =
     (if c = 37 then
        (case (hex_val h, hex_val l) of
           (Some x, Some y) \<Rightarrow> Some (16 * x + y, s)
         | _ \<Rightarrow> None)
      else None)"
| "octet s = None"

text \<open>\<open>k\<close> continuation octets, folded into the code point read so far.\<close>

fun continuation :: "nat \<Rightarrow> nat \<Rightarrow> str \<Rightarrow> (nat \<times> str) option" where
  "continuation 0 p s = Some (p, s)"
| "continuation (Suc k) p s =
     (case octet s of
        None \<Rightarrow> None
      | Some (b, s') \<Rightarrow> if 128 \<le> b \<and> b < 192 then continuation k (64 * p + (b - 128)) s' else None)"

text \<open>The code point an escape sequence stands for: no overlong form, no surrogate.\<close>

definition escape :: "str \<Rightarrow> (nat \<times> str) option" where
  "escape s =
     (case octet s of
        None \<Rightarrow> None
      | Some (b, s') \<Rightarrow>
          if b < 128 then Some (b, s')
          else if 192 \<le> b \<and> b < 224 then
            (case continuation 1 (b - 192) s' of
               Some (p, t) \<Rightarrow> if 128 \<le> p then Some (p, t) else None
             | None \<Rightarrow> None)
          else if 224 \<le> b \<and> b < 240 then
            (case continuation 2 (b - 224) s' of
               Some (p, t) \<Rightarrow>
                 if 2048 \<le> p \<and> \<not> (55296 \<le> p \<and> p \<le> 57343) then Some (p, t) else None
             | None \<Rightarrow> None)
          else if 240 \<le> b \<and> b < 248 then
            (case continuation 3 (b - 240) s' of
               Some (p, t) \<Rightarrow> if 65536 \<le> p \<and> p \<le> 1114111 then Some (p, t) else None
             | None \<Rightarrow> None)
          else None)"

lemma octet_shorter: "octet s = Some (b, t) \<Longrightarrow> length t < length s"
  by (induction s rule: octet.induct) (auto split: if_splits option.splits)

lemma continuation_shorter: "continuation k p s = Some (q, t) \<Longrightarrow> length t \<le> length s"
  by (induction k p s rule: continuation.induct)
    (fastforce split: option.splits if_splits dest: octet_shorter)+

lemma escape_shorter:
  assumes "escape s = Some (p, t)"
  shows "length t < length s"
proof -
  obtain b s' where o: "octet s = Some (b, s')"
    using assms by (auto simp: escape_def split: option.splits)
  have "length t \<le> length s'"
    using assms o by (auto simp: escape_def split: if_splits option.splits
        simp del: continuation.simps dest: continuation_shorter)
  with octet_shorter [OF o] show ?thesis by simp
qed

function decodeURIComponent :: "str \<Rightarrow> str option" where
  "decodeURIComponent [] = Some []"
| "decodeURIComponent (c # s) =
     (if c = 37 then
        (case escape (c # s) of
           None \<Rightarrow> None
         | Some (p, t) \<Rightarrow> map_option ((@) (units_of p)) (decodeURIComponent t))
      else map_option ((#) c) (decodeURIComponent s))"
  by pat_completeness auto
termination
  by (relation "measure length") (auto dest: escape_shorter)

section \<open>Decoding inverts encoding\<close>

definition scalar :: "nat \<Rightarrow> bool" where
  "scalar p \<longleftrightarrow> p \<le> 1114111 \<and> \<not> (55296 \<le> p \<and> p \<le> 57343)"

lemma hex_val_digit: "n < 16 \<Longrightarrow> hex_val (hex_digit n) = Some n"
  by (auto simp: hex_val_def hex_digit_def)

lemma octet_percent: "b < 256 \<Longrightarrow> octet (percent b @ s) = Some (b, s)"
  by (simp add: percent_def hex_val_digit)

lemma percent_Cons: "percent b @ s = 37 # hex_digit (b div 16) # hex_digit (b mod 16) # s"
  by (simp add: percent_def)

lemma continuation_1:
  "x < 64 \<Longrightarrow> continuation 1 p (percent (128 + x) @ s) = Some (64 * p + x, s)"
  by (simp add: octet_percent)

lemma continuation_2:
  "x < 64 \<Longrightarrow> y < 64 \<Longrightarrow>
   continuation 2 p (percent (128 + x) @ percent (128 + y) @ s) = Some (64 * (64 * p + x) + y, s)"
  by (simp add: octet_percent numeral_2_eq_2)

lemma continuation_3:
  "x < 64 \<Longrightarrow> y < 64 \<Longrightarrow> z < 64 \<Longrightarrow>
   continuation 3 p (percent (128 + x) @ percent (128 + y) @ percent (128 + z) @ s) =
     Some (64 * (64 * (64 * p + x) + y) + z, s)"
  by (simp add: octet_percent numeral_3_eq_3)

lemma sextets:
  fixes p :: nat
  shows "64 * (p div 64) + p mod 64 = p"
    and "64 * (64 * (p div 4096) + p div 64 mod 64) + p mod 64 = p"
    and "64 * (64 * (64 * (p div 262144) + p div 4096 mod 64) + p div 64 mod 64) + p mod 64 = p"
proof -
  show one: "64 * (p div 64) + p mod 64 = p" by simp
  have "64 * (p div 4096) + p div 64 mod 64 = p div 64"
    using div_mult2_eq [of p 64 64] mult_div_mod_eq [of 64 "p div 64"] by simp
  with one show two: "64 * (64 * (p div 4096) + p div 64 mod 64) + p mod 64 = p" by simp
  have "64 * (p div 262144) + p div 4096 mod 64 = p div 4096"
    using div_mult2_eq [of p 4096 64] mult_div_mod_eq [of 64 "p div 4096"] by simp
  with two show
    "64 * (64 * (64 * (p div 262144) + p div 4096 mod 64) + p div 64 mod 64) + p mod 64 = p"
    by simp
qed

lemma escape_utf8:
  assumes "scalar p"
  shows "escape (concat (map percent (utf8 p)) @ s) = Some (p, s)"
proof -
  have m: "p mod 64 < 64" "p div 64 mod 64 < 64" "p div 4096 mod 64 < 64" by simp_all
  consider (a) "p < 128" | (b) "128 \<le> p" "p < 2048" | (c) "2048 \<le> p" "p < 65536"
    | (d) "65536 \<le> p" by linarith
  then show ?thesis
  proof cases
    case a
    then show ?thesis by (simp add: utf8_def escape_def octet_percent)
  next
    case b
    let ?h = "p div 64"
    have h: "?h < 32" using b by simp
    have o: "octet (percent (192 + ?h) @ t) = Some (192 + ?h, t)" for t
      using h by (intro octet_percent) simp
    have u: "utf8 p = [192 + ?h, 128 + p mod 64]" using b by (simp add: utf8_def)
    show ?thesis
      using b(1) h m sextets(1) [of p]
      by (simp add: u escape_def o continuation_1 del: continuation.simps One_nat_def)
  next
    case c
    let ?h = "p div 4096"
    have h: "?h < 16" using c by simp
    have o: "octet (percent (224 + ?h) @ t) = Some (224 + ?h, t)" for t
      using h by (intro octet_percent) simp
    have k: "continuation 2 ?h (percent (128 + p div 64 mod 64) @ percent (128 + p mod 64) @ s) =
        Some (p, s)"
      unfolding continuation_2 [OF m(2,1)] sextets(2) by (rule refl)
    have sur: "\<not> (55296 \<le> p \<and> p \<le> 57343)" using assms by (simp add: scalar_def)
    show ?thesis
      using c h sur
      by (simp add: utf8_def escape_def o k del: continuation.simps)
  next
    case d
    let ?h = "p div 262144"
    have top: "p \<le> 1114111" using assms by (simp add: scalar_def)
    then have h: "?h < 8" by simp
    have k: "continuation 3 ?h (percent (128 + p div 4096 mod 64) @
        percent (128 + p div 64 mod 64) @ percent (128 + p mod 64) @ s) = Some (p, s)"
      unfolding continuation_3 [OF m(3,2,1)] sextets(3) by (rule refl)
    have o: "octet (percent (240 + ?h) @ t) = Some (240 + ?h, t)" for t
      using h by (intro octet_percent) simp
    show ?thesis
      using d h top
      by (simp add: utf8_def escape_def o k del: continuation.simps)
  qed
qed

text \<open>Code units read as code points, and the points written back as units.\<close>

definition units :: "str \<Rightarrow> bool" where
  "units s \<longleftrightarrow> (\<forall>c \<in> set s. c < 65536)"

lemma code_points_scalar:
  "code_points s = Some ps \<Longrightarrow> units s \<Longrightarrow>
   (\<forall>p \<in> set ps. scalar p) \<and> concat (map units_of ps) = s"
proof (induction s arbitrary: ps rule: code_points.induct)
  case 1
  then show ?case by simp
next
  case (2 c cs)
  show ?case
  proof (cases "55296 \<le> c \<and> c \<le> 56319")
    case True
    with "2.prems" obtain d ds qs where cs: "cs = d # ds" and d: "56320 \<le> d" "d \<le> 57343"
      and qs: "code_points ds = Some qs"
      and ps: "ps = (65536 + (c - 55296) * 1024 + (d - 56320)) # qs"
      by (auto split: list.splits if_splits)
    from "2.prems"(2) cs have "units ds" by (simp add: units_def)
    with "2.IH"(1) [OF True cs _ qs] d have IH: "\<forall>p \<in> set qs. scalar p" "concat (map units_of qs) = ds"
      by auto
    let ?p = "65536 + (c - 55296) * 1024 + (d - 56320)"
    have "(c - 55296) * 1024 + (d - 56320) < 1048576" using True d by linarith
    then have "scalar ?p" by (simp add: scalar_def)
    moreover have "units_of ?p = [c, d]"
    proof -
      obtain k where k: "c = 55296 + k" using True le_Suc_ex by blast
      obtain l where l: "d = 56320 + l" "l < 1024" using d le_Suc_ex by fastforce
      show ?thesis using k l by (simp add: units_of_def)
    qed
    ultimately show ?thesis using IH cs ps by simp
  next
    case False
    with "2.prems" obtain qs where lo: "\<not> (56320 \<le> c \<and> c \<le> 57343)"
      and qs: "code_points cs = Some qs" and ps: "ps = c # qs"
      by (auto split: if_splits)
    from "2.prems"(2) have "units cs" "c < 65536" by (auto simp: units_def)
    with "2.IH"(2) [OF False lo qs] False lo ps show ?thesis
      by (auto simp: scalar_def units_of_def)
  qed
qed

lemma decode_encode_point:
  assumes "scalar p"
  shows "decodeURIComponent (encode_point p @ s) =
    map_option ((@) (units_of p)) (decodeURIComponent s)"
proof (cases "unreserved p")
  case True
  then have "p \<noteq> 37" "p < 65536" by (auto simp: unreserved_def is_digit_def)
  with True show ?thesis
    by (simp add: encode_point_def units_of_def cong: option.map_cong)
next
  case False
  have "utf8 p \<noteq> []" by (simp add: utf8_def)
  then obtain b bs where "utf8 p = b # bs" by (cases "utf8 p") auto
  then obtain t where ct: "concat (map percent (utf8 p)) @ s = 37 # t"
    by (simp add: percent_def)
  with escape_utf8 [OF assms, of s] have "escape (37 # t) = Some (p, s)" by simp
  with False ct show ?thesis by (simp add: encode_point_def)
qed

lemma decode_encode_points:
  "\<forall>p \<in> set ps. scalar p \<Longrightarrow>
   decodeURIComponent (concat (map encode_point ps)) = Some (concat (map units_of ps))"
  by (induction ps) (simp_all add: decode_encode_point)

lemma decode_encode:
  assumes "units s" and "encodeURIComponent s = Some e"
  shows "decodeURIComponent e = Some s"
proof -
  obtain ps where "code_points s = Some ps" and e: "e = concat (map encode_point ps)"
    using assms(2) by (auto simp: encodeURIComponent_def)
  with assms(1) code_points_scalar have "\<forall>p \<in> set ps. scalar p" "concat (map units_of ps) = s"
    by blast+
  with decode_encode_points e show ?thesis by simp
qed

text \<open>An encoded text holds only unreserved characters and escapes: no \<open>/\<close>, \<open>?\<close> or \<open>#\<close>.\<close>

lemma hex_digit_unreserved: "n < 16 \<Longrightarrow> unreserved (hex_digit n)"
  by (auto simp: hex_digit_def unreserved_def is_digit_def)

lemma utf8_octet: "scalar p \<Longrightarrow> b \<in> set (utf8 p) \<Longrightarrow> b < 256"
  by (auto simp: utf8_def scalar_def split: if_splits)

lemma encode_point_chars: "scalar p \<Longrightarrow> c \<in> set (encode_point p) \<Longrightarrow> unreserved c \<or> c = 37"
  using hex_digit_unreserved utf8_octet
  by (fastforce simp: encode_point_def percent_def split: if_splits)

lemma encode_chars:
  assumes "units s" and "encodeURIComponent s = Some e" and "c \<in> set e"
  shows "unreserved c \<or> c = 37"
proof -
  obtain ps where "code_points s = Some ps" and e: "e = concat (map encode_point ps)"
    using assms(2) by (auto simp: encodeURIComponent_def)
  with assms(1) code_points_scalar have "\<forall>p \<in> set ps. scalar p" by blast
  with e assms(3) encode_point_chars show ?thesis by auto
qed

lemma encode_no_delimiter:
  assumes "units s" and "encodeURIComponent s = Some e"
  shows "47 \<notin> set e" and "63 \<notin> set e" and "35 \<notin> set e"
  using encode_chars [OF assms] by (fastforce simp: unreserved_def is_digit_def)+

end
