(* ===== verification/Lib.thy ===== *)
theory Lib
  imports Protos Uri
begin

text \<open>
  The shared helpers: display labels (\<open>lib/format.ts\<close>), name lookups
  (\<open>features/incidents/lookups.ts\<close>), permissions (\<open>lib/permissions.ts\<close>), route parameters
  (\<open>lib/params.ts\<close>), the sign-in return path (\<open>lib/returnPath.ts\<close>), the server address
  (\<open>config/env.ts\<close>) and the throttle countdown (\<open>lib/useCountdown.ts\<close>).
\<close>

section \<open>Labels\<close>

datatype Tone = Neutral | Info | Success | Warning | Danger | Restricted

record Labelled =
  lb_label :: str
  lb_tone :: Tone

fun stateLabel :: "IncidentState \<Rightarrow> Labelled option" where
  "stateLabel STATE_OPEN = Some \<lparr>lb_label = lit ''Open'', lb_tone = Info\<rparr>"
| "stateLabel STATE_CLOSED = Some \<lparr>lb_label = lit ''Closed'', lb_tone = Neutral\<rparr>"
| "stateLabel STATE_UNSPECIFIED = None"

fun priorityLabel :: "IncidentPriority \<Rightarrow> Labelled option" where
  "priorityLabel PRIORITY_HIGH = Some \<lparr>lb_label = lit ''High'', lb_tone = Danger\<rparr>"
| "priorityLabel PRIORITY_LOW = Some \<lparr>lb_label = lit ''Low'', lb_tone = Neutral\<rparr>"
| "priorityLabel PRIORITY_NORMAL = None"
| "priorityLabel PRIORITY_UNSPECIFIED = None"

definition personLabel :: "PersonRef option \<Rightarrow> str" where
  "personLabel ref =
     (case ref of
        None \<Rightarrow> lit ''Unknown''
      | Some r \<Rightarrow> or_str (ref_handle r)
          (or_str (ref_name r) (lit ''Person #'' @ show_int (ref_personId r))))"

lemma personLabel_nonempty: "personLabel ref \<noteq> []"
  by (simp add: personLabel_def split: option.split)

section \<open>Lookups\<close>

definition areaName :: "Area list option \<Rightarrow> str option \<Rightarrow> str option" where
  "areaName areas slug =
     (case nonempty slug of
        None \<Rightarrow> None
      | Some s \<Rightarrow>
          Some (or_str
            (case areas of
               None \<Rightarrow> None
             | Some as \<Rightarrow> Option.bind (List.find (\<lambda>a. area_slug a = s) as) area_name) s))"

definition typeName :: "IncidentType list option \<Rightarrow> int \<Rightarrow> str" where
  "typeName types i =
     or_str
       (case types of
          None \<Rightarrow> None
        | Some ts \<Rightarrow> Option.bind (List.find (\<lambda>t. type_id t = i) ts) type_name)
       (lit ''Type #'' @ show_int i)"

lemma typeName_nonempty: "typeName types i \<noteq> []"
  by (simp add: typeName_def)

lemma nonempty_SomeD: "nonempty x = Some s \<Longrightarrow> x = Some s \<and> s \<noteq> []"
  by (induction x rule: nonempty.induct) auto

lemma areaName_None: "areaName areas slug = None \<longleftrightarrow> slug = None \<or> slug = Some []"
  by (cases slug; cases "the slug") (simp_all add: areaName_def)

lemma areaName_nonempty: "areaName areas slug = Some n \<Longrightarrow> n \<noteq> []"
  by (auto simp: areaName_def dest: nonempty_SomeD split: option.splits)

definition view_number :: "IncidentView \<Rightarrow> int" where
  "view_number v = (case iv_incident v of None \<Rightarrow> 0 | Some i \<Rightarrow> inc_number i)"

definition sortIncidentsNewestFirst :: "IncidentView list \<Rightarrow> IncidentView list" where
  "sortIncidentsNewestFirst views = js_sort (\<lambda>a b. view_number b - view_number a) views"

interpretation newest_incident: keyed_comparison "\<lambda>a b. view_number b - view_number a" view_number
  by standard auto

lemma sortIncidentsNewestFirst_sorted:
  "sorted_wrt (\<lambda>a b. view_number b \<le> view_number a) (sortIncidentsNewestFirst views)"
  using newest_incident.sorted_js_sort [of views] by (simp add: sortIncidentsNewestFirst_def)

text \<open>The order does not depend on the order the server answered in.\<close>

lemma sortIncidentsNewestFirst_unique:
  "mset views = mset views' \<Longrightarrow> inj_on view_number (set views) \<Longrightarrow>
   sortIncidentsNewestFirst views = sortIncidentsNewestFirst views'"
  unfolding sortIncidentsNewestFirst_def by (rule newest_incident.js_sort_unique)

section \<open>Permissions\<close>

definition eventAccess :: "GetAuthStatusResponse option \<Rightarrow> int \<Rightarrow> AccessForEvent" where
  "eventAccess auth eventId =
     nullish (Option.bind auth (\<lambda>a. auth_eventAccess a eventId)) blank_access"

definition isAdmin :: "GetAuthStatusResponse option \<Rightarrow> bool" where
  "isAdmin auth \<longleftrightarrow> (case auth of None \<Rightarrow> False | Some a \<Rightarrow> auth_authenticated a \<and> auth_admin a)"

section \<open>Route parameters\<close>

datatype param_value = One str | Many "str list"

type_synonym Params = "string \<Rightarrow> str option"

definition flatParams :: "(string \<Rightarrow> param_value option) \<Rightarrow> Params" where
  "flatParams params k =
     (case params k of
        None \<Rightarrow> None
      | Some (One v) \<Rightarrow> Some v
      | Some (Many vs) \<Rightarrow> nth_opt vs 0)"

section \<open>The return path\<close>

definition RETURN_PATH_PREFIX :: str where
  "RETURN_PATH_PREFIX = lit ''/events''"

text \<open>The class \<open>[A-Za-z0-9_\-/]\<close>.\<close>

definition safe_char :: "nat \<Rightarrow> bool" where
  "safe_char c \<longleftrightarrow> (65 \<le> c \<and> c \<le> 90) \<or> (97 \<le> c \<and> c \<le> 122) \<or> is_digit c \<or> c = 95 \<or> c = 45 \<or> c = 47"

text \<open>The argument comes from the URL: \<open>None\<close> is anything that is not a string.\<close>

definition safeReturnPath :: "str option \<Rightarrow> str option" where
  "safeReturnPath x =
     (case x of
        None \<Rightarrow> None
      | Some p \<Rightarrow>
          if \<not> (p \<noteq> [] \<and> list_all safe_char p) then None
          else if starts_with p (lit ''//'') then None
          else if p \<noteq> RETURN_PATH_PREFIX \<and> \<not> starts_with p (RETURN_PATH_PREFIX @ lit ''/'') then None
          else Some p)"

definition loginHref :: "str option \<Rightarrow> string \<Rightarrow> str option" where
  "loginHref pathname platform =
     (if platform \<noteq> ''web'' then Some (lit ''/login'')
      else (case safeReturnPath pathname of
              None \<Rightarrow> Some (lit ''/login'')
            | Some back \<Rightarrow> map_option ((@) (lit ''/login?o='')) (encodeURIComponent back)))"

lemma safe_char_plain: "safe_char c \<Longrightarrow> c < 128"
  by (auto simp: safe_char_def is_digit_def)

lemma code_points_plain: "\<forall>c \<in> set s. c < 55296 \<Longrightarrow> code_points s = Some s"
  by (induction s rule: code_points.induct) auto

lemma encode_plain: "\<forall>c \<in> set s. c < 55296 \<Longrightarrow> \<exists>e. encodeURIComponent s = Some e"
  by (simp add: encodeURIComponent_def code_points_plain)

lemma safeReturnPath_SomeD:
  assumes "safeReturnPath x = Some p"
  shows "x = Some p \<and> list_all safe_char p \<and> starts_with p RETURN_PATH_PREFIX"
proof -
  obtain q where x: "x = Some q" using assms by (cases x) (auto simp: safeReturnPath_def)
  with assms have q: "q = p" by (auto simp: safeReturnPath_def split: if_splits)
  have "list_all safe_char p"
    using assms by (auto simp: safeReturnPath_def x q split: if_splits)
  moreover have "starts_with p RETURN_PATH_PREFIX"
    using assms by (auto simp: safeReturnPath_def x q starts_with_iff_prefix
        split: if_splits dest: append_prefixD)
  ultimately show ?thesis using x q by simp
qed

section \<open>The server address\<close>

record ApiBaseUrlInputs =
  in_envUrl :: "str option"
  in_platform :: string
  in_origin :: "str option"
  in_hostUri :: "str option"
  in_dev :: bool

definition DEV_STACK_PORT :: int where
  "DEV_STACK_PORT = 8090"

definition stripTrailingSlash :: "str \<Rightarrow> str" where
  "stripTrailingSlash url = (if ends_with url (lit ''/'') then butlast url else url)"

text \<open>\<open>None\<close> is the thrown error: nothing names the server.\<close>

definition resolveApiBaseUrl :: "ApiBaseUrlInputs \<Rightarrow> str option" where
  "resolveApiBaseUrl inputs =
     (case nonempty (map_option trim (in_envUrl inputs)) of
        Some url \<Rightarrow> Some (stripTrailingSlash url)
      | None \<Rightarrow>
          (case (if in_platform inputs = ''web'' then nonempty (in_origin inputs) else None) of
             Some origin \<Rightarrow> Some (stripTrailingSlash origin)
           | None \<Rightarrow>
               (case (if in_dev inputs then nonempty (in_hostUri inputs) else None) of
                  None \<Rightarrow> None
                | Some uri \<Rightarrow>
                    (case nonempty (nth_opt (split_on 58 uri) 0) of
                       None \<Rightarrow> None
                     | Some h \<Rightarrow> Some (lit ''http://'' @ h @ lit '':'' @ show_int DEV_STACK_PORT)))))"

section \<open>The countdown\<close>

text \<open>
  The state of \<open>useCountdown\<close>: what is left and whether the interval still runs. \<open>restart\<close> is
  the effect on a new \<open>seconds\<close> or \<open>restartKey\<close>, \<open>tick\<close> one callback of the interval.
\<close>

record countdown =
  cd_remaining :: int
  cd_running :: bool

definition countdown_restart :: "int option \<Rightarrow> countdown" where
  "countdown_restart s =
     (case s of
        None \<Rightarrow> \<lparr>cd_remaining = 0, cd_running = False\<rparr>
      | Some n \<Rightarrow> \<lparr>cd_remaining = n, cd_running = (0 < n)\<rparr>)"

definition countdown_tick :: "countdown \<Rightarrow> countdown" where
  "countdown_tick c =
     (if \<not> cd_running c then c
      else if cd_remaining c \<le> 1 then \<lparr>cd_remaining = 0, cd_running = False\<rparr>
      else c\<lparr>cd_remaining := cd_remaining c - 1\<rparr>)"

lemma countdown_ticks_down:
  assumes "0 < n" and "int k \<le> n"
  shows "(countdown_tick ^^ k) (countdown_restart (Some n)) =
    \<lparr>cd_remaining = n - int k, cd_running = (int k < n)\<rparr>"
  using assms
  by (induction k) (auto simp: countdown_restart_def countdown_tick_def)

lemma countdown_ticks_stop:
  assumes "0 < n" and "n \<le> int k"
  shows "(countdown_tick ^^ k) (countdown_restart (Some n)) = \<lparr>cd_remaining = 0, cd_running = False\<rparr>"
proof -
  have stopped: "(countdown_tick ^^ j) \<lparr>cd_remaining = 0, cd_running = False\<rparr> =
      \<lparr>cd_remaining = 0, cd_running = False\<rparr>" for j
    by (induction j) (simp_all add: countdown_tick_def)
  have "k = (k - nat n) + nat n" using assms by simp
  then obtain j where "k = j + nat n" by blast
  with assms countdown_ticks_down [of n "nat n"] stopped show ?thesis
    by (simp add: funpow_add)
qed

section \<open>Properties\<close>

lemma safe_char_units: "list_all safe_char p \<Longrightarrow> \<forall>c \<in> set p. c < 128"
  using safe_char_plain by (auto simp: list_all_iff)

text \<open>
  C33: The sign-in link round trips. On the web, the link built for a path either carries
  nothing, because the path is one the guard refuses, or carries an encoded text without a
  delimiter that decodes to the very path, and the path read back passes the guard again and
  stays under \<open>/events\<close>. Off the web the link never carries a path.
\<close>

theorem login_link_round_trip:
  "loginHref pathname platform =
     (if platform = ''web'' then
        (case safeReturnPath pathname of
           None \<Rightarrow> Some (lit ''/login'')
         | Some path \<Rightarrow> map_option ((@) (lit ''/login?o='')) (encodeURIComponent path))
      else Some (lit ''/login'')) \<and>
   (case safeReturnPath pathname of
      None \<Rightarrow> True
    | Some path \<Rightarrow>
        \<exists>e. encodeURIComponent path = Some e \<and> 47 \<notin> set e \<and> 63 \<notin> set e \<and> 35 \<notin> set e \<and>
          decodeURIComponent e = Some path \<and> safeReturnPath (decodeURIComponent e) = Some path \<and>
          starts_with path (lit ''/events'') \<and> \<not> starts_with path (lit ''//''))"
proof (cases "safeReturnPath pathname")
  case None
  then show ?thesis by (simp add: loginHref_def)
next
  case (Some path)
  note D = safeReturnPath_SomeD [OF Some]
  have small: "\<forall>c \<in> set path. c < 128" using D safe_char_units by blast
  then obtain e where e: "encodeURIComponent path = Some e"
    using encode_plain [of path] by force
  have u: "units path" using small by (force simp: units_def)
  have "\<not> starts_with path (lit ''//'')"
    using Some D by (auto simp: safeReturnPath_def split: if_splits)
  with Some D e decode_encode [OF u e] encode_no_delimiter [OF u e] show ?thesis
    by (auto simp: loginHref_def RETURN_PATH_PREFIX_def)
qed

end
