(* ===== verification/Work.thy ===== *)
theory Work
  imports Lib
begin

text \<open>
  The Board's domain logic (\<open>features/board/work.ts\<close>): whose an item is, when it last changed,
  what it is called; and the unread watermarks of a device (\<open>features/board/seen.ts\<close>).
\<close>

section \<open>Work items\<close>

datatype item_kind = KIncident | KReport

datatype MineReason = Created | Owed | Attached | Mentioned

datatype item_state = ItemOpen | ItemClosed

datatype item_priority = ItemHigh | ItemNormal | ItemLow

record WorkItem =
  wi_kind :: item_kind
  wi_number :: int
  wi_summary :: str
  wi_where :: "str option"
  wi_mine :: bool
  wi_why :: MineReason
  wi_state :: "item_state option"
  wi_priority :: "item_priority option"
  wi_private :: "bool option"
  wi_owesReport :: "bool option"
  wi_changedAt :: int

fun whyLabel :: "MineReason \<Rightarrow> str" where
  "whyLabel Created = lit ''You filed''"
| "whyLabel Owed = lit ''Report requested''"
| "whyLabel Attached = lit ''You'' @ [39] @ lit ''re on it''"
| "whyLabel Mentioned = lit ''Mentions you''"

definition item_label :: "item_kind \<Rightarrow> int \<Rightarrow> str" where
  "item_label k n = (case k of KIncident \<Rightarrow> lit ''#'' @ show_int n | KReport \<Rightarrow> lit ''R-'' @ show_int n)"

section \<open>When an item changed\<close>

definition time_of :: "host \<Rightarrow> timestamp option \<Rightarrow> int" where
  "time_of h ts = (case ts of None \<Rightarrow> 0 | Some t \<Rightarrow> ts_ms h t)"

definition changedAtIncident :: "host \<Rightarrow> IncidentView \<Rightarrow> int" where
  "changedAtIncident h view = time_of h (Option.bind (iv_incident view) inc_lastModified)"

definition changedAtReport :: "host \<Rightarrow> ReportView \<Rightarrow> int" where
  "changedAtReport h view =
     (case rv_report view of
        None \<Rightarrow> 0
      | Some report \<Rightarrow>
          foldl (\<lambda>newest entry. max newest (time_of h (je_created entry)))
            (time_of h (rep_created report)) (rep_journalEntries report))"

section \<open>Whose an item is\<close>

definition mentionsMe :: "JournalEntry list \<Rightarrow> int \<Rightarrow> bool" where
  "mentionsMe entries me \<longleftrightarrow>
     list_ex (\<lambda>entry. list_ex (\<lambda>ref. ref_personId ref = me) (je_mentions entry)) entries"

definition is_person :: "int \<Rightarrow> PersonRef option \<Rightarrow> bool" where
  "is_person me ref \<longleftrightarrow> map_option ref_personId ref = Some me"

definition owesReport :: "IncidentView \<Rightarrow> int \<Rightarrow> bool" where
  "owesReport view me =
     (if me = 0 then False
      else
        (case Option.bind (iv_incident view)
                (\<lambda>i. List.find (\<lambda>p. is_person me (ip_person p)) (inc_people i)) of
           None \<Rightarrow> False
         | Some mine \<Rightarrow> ip_reportRequested mine \<noteq> None \<and> ip_reportNumber mine = None))"

definition whyMineIncident :: "IncidentView \<Rightarrow> int \<Rightarrow> MineReason option" where
  "whyMineIncident view me =
     (case iv_incident view of
        None \<Rightarrow> None
      | Some incident \<Rightarrow>
          if me = 0 then None
          else if is_person me (inc_createdBy incident) then Some Created
          else if owesReport view me then Some Owed
          else if list_ex (\<lambda>p. is_person me (ip_person p)) (inc_people incident) then Some Attached
          else if mentionsMe (inc_journalEntries incident) me then Some Mentioned
          else None)"

definition whyMineReport :: "ReportView \<Rightarrow> int \<Rightarrow> MineReason option" where
  "whyMineReport view me =
     (case rv_report view of
        None \<Rightarrow> None
      | Some report \<Rightarrow>
          if me = 0 then None
          else if is_person me (rep_createdBy report) then Some Created
          else if mentionsMe (rep_journalEntries report) me then Some Mentioned
          else None)"

section \<open>Flattening to a row\<close>

definition priorityOf :: "IncidentPriority \<Rightarrow> item_priority" where
  "priorityOf p =
     (if p = PRIORITY_HIGH then ItemHigh else if p = PRIORITY_LOW then ItemLow else ItemNormal)"

text \<open>The parts are joined by a middle dot between spaces.\<close>

definition locationOf ::
  "str option \<Rightarrow> str option \<Rightarrow> str option \<Rightarrow> (str \<Rightarrow> str) \<Rightarrow> str" where
  "locationOf areaSlug description booth area_of =
     (let parts =
        (case nonempty areaSlug of None \<Rightarrow> [] | Some s \<Rightarrow> [area_of s]) @
        (case nonempty description of None \<Rightarrow> [] | Some d \<Rightarrow> [d]) @
        (case nonempty booth of None \<Rightarrow> [] | Some b \<Rightarrow> [lit ''Booth '' @ b])
      in if parts \<noteq> [] then join [32, 183, 32] parts else lit ''No location'')"

definition toIncidentItem :: "host \<Rightarrow> IncidentView \<Rightarrow> int \<Rightarrow> (str \<Rightarrow> str) \<Rightarrow> WorkItem option" where
  "toIncidentItem h view me area_of =
     (case iv_incident view of
        None \<Rightarrow> None
      | Some incident \<Rightarrow>
          (let why = whyMineIncident view me;
               loc = inc_location incident
           in Some \<lparr>wi_kind = KIncident, wi_number = inc_number incident,
                wi_summary = or_str (inc_summary incident) (lit ''(no summary)''),
                wi_where = Some (locationOf (Option.bind loc loc_areaSlug)
                  (Option.bind loc loc_description) (Option.bind loc loc_booth) area_of),
                wi_mine = (why \<noteq> None), wi_why = nullish why Created,
                wi_state = Some (if inc_state incident = STATE_CLOSED then ItemClosed else ItemOpen),
                wi_priority = Some (priorityOf (inc_priority incident)),
                wi_private = inc_private incident,
                wi_owesReport = Some (owesReport view me),
                wi_changedAt = changedAtIncident h view\<rparr>))"

definition toReportItem :: "host \<Rightarrow> ReportView \<Rightarrow> int \<Rightarrow> WorkItem option" where
  "toReportItem h view me =
     (case rv_report view of
        None \<Rightarrow> None
      | Some report \<Rightarrow>
          (let why = whyMineReport view me
           in Some \<lparr>wi_kind = KReport, wi_number = rep_number report,
                wi_summary = or_str (rep_summary report) (lit ''(no summary)''),
                wi_where = None, wi_mine = (why \<noteq> None), wi_why = nullish why Created,
                wi_state = None, wi_priority = None, wi_private = None, wi_owesReport = None,
                wi_changedAt = changedAtReport h view\<rparr>))"

definition newestFirst :: "WorkItem \<Rightarrow> WorkItem \<Rightarrow> int" where
  "newestFirst a b = wi_changedAt b - wi_changedAt a"

section \<open>Watermarks\<close>

text \<open>\<open>SeenMarks\<close> is a map from a mark key to the change time of the row when it was opened.\<close>

type_synonym SeenMarks = "str \<Rightarrow> int option"

definition seenKey :: "int \<Rightarrow> str" where
  "seenKey eventId = lit ''ocf-ims/seen/'' @ show_int eventId"

definition markOf :: "item_kind \<Rightarrow> int \<Rightarrow> str" where
  "markOf k n = (if k = KIncident then lit ''i'' else lit ''r'') @ show_int n"

definition item_mark :: "WorkItem \<Rightarrow> str" where
  "item_mark item = markOf (wi_kind item) (wi_number item)"

definition isUnread :: "WorkItem \<Rightarrow> SeenMarks \<Rightarrow> bool" where
  "isUnread item marks =
     (if \<not> wi_mine item then False
      else (case marks (item_mark item) of
              None \<Rightarrow> wi_why item \<noteq> Created
            | Some mark \<Rightarrow> mark < wi_changedAt item))"

definition withSeen :: "SeenMarks \<Rightarrow> WorkItem \<Rightarrow> SeenMarks" where
  "withSeen marks item =
     (case marks (item_mark item) of
        Some mark \<Rightarrow>
          if wi_changedAt item \<le> mark then marks
          else marks(item_mark item \<mapsto> wi_changedAt item)
      | None \<Rightarrow> marks(item_mark item \<mapsto> wi_changedAt item))"

section \<open>Lemmas\<close>

lemma foldl_max_ge: "a \<le> foldl (\<lambda>m x. max m (f x)) a xs" for a :: int
proof (induction xs arbitrary: a)
  case (Cons x xs)
  have "a \<le> max a (f x)" by simp
  also have "\<dots> \<le> foldl (\<lambda>m x. max m (f x)) (max a (f x)) xs" by (rule Cons.IH)
  finally show ?case by simp
qed simp

lemma foldl_max_mem: "x \<in> set xs \<Longrightarrow> f x \<le> foldl (\<lambda>m x. max m (f x)) a xs" for a :: int
proof (induction xs arbitrary: a)
  case (Cons y ys)
  show ?case
  proof (cases "x = y")
    case True
    then have "f x \<le> max a (f y)" by simp
    also have "\<dots> \<le> foldl (\<lambda>m x. max m (f x)) (max a (f y)) ys" by (rule foldl_max_ge)
    finally show ?thesis by simp
  next
    case False
    with Cons show ?thesis by simp
  qed
qed simp

lemma markOf_inject: "markOf k n = markOf k' n' \<longleftrightarrow> k = k' \<and> n = n'"
  by (cases k; cases k') (simp_all add: markOf_def)

lemma item_label_inject: "item_label k n = item_label k' n' \<longleftrightarrow> k = k' \<and> n = n'"
  by (cases k; cases k') (simp_all add: item_label_def)

lemma owesReport_attached:
  assumes "owesReport view me"
  shows "\<exists>i. iv_incident view = Some i \<and> list_ex (\<lambda>p. is_person me (ip_person p)) (inc_people i)"
proof -
  obtain i p where i: "iv_incident view = Some i"
    and p: "List.find (\<lambda>p. is_person me (ip_person p)) (inc_people i) = Some p"
    using assms by (auto simp: owesReport_def split: if_splits option.splits bind_splits)
  from find_SomeD [OF p] have "list_ex (\<lambda>p. is_person me (ip_person p)) (inc_people i)"
    by (auto simp: list_ex_iff)
  with i show ?thesis by blast
qed

text \<open>The rules of "mine" as a set: the code's cascade answers the first that holds.\<close>

definition mine_reasons :: "Incident \<Rightarrow> bool \<Rightarrow> int \<Rightarrow> MineReason set" where
  "mine_reasons i owes me =
     (if is_person me (inc_createdBy i) then {Created} else {}) \<union>
     (if owes then {Owed} else {}) \<union>
     (if \<exists>p \<in> set (inc_people i). is_person me (ip_person p) then {Attached} else {}) \<union>
     (if \<exists>e \<in> set (inc_journalEntries i). \<exists>r \<in> set (je_mentions e). ref_personId r = me
      then {Mentioned} else {})"

fun reason_rank :: "MineReason \<Rightarrow> nat" where
  "reason_rank Created = 0"
| "reason_rank Owed = 1"
| "reason_rank Attached = 2"
| "reason_rank Mentioned = 3"

lemma mine_cascade:
  assumes "iv_incident view = Some i" and "me \<noteq> 0"
  shows "case whyMineIncident view me of
      None \<Rightarrow> mine_reasons i (owesReport view me) me = {}
    | Some r \<Rightarrow> r \<in> mine_reasons i (owesReport view me) me \<and>
        (\<forall>r' \<in> mine_reasons i (owesReport view me) me. reason_rank r \<le> reason_rank r')"
  using assms
  by (auto simp: whyMineIncident_def mine_reasons_def mentionsMe_def list_ex_iff)

lemma withSeen_mark:
  "withSeen marks item k =
     (if k = item_mark item
      then Some (case marks k of None \<Rightarrow> wi_changedAt item | Some m \<Rightarrow> max m (wi_changedAt item))
      else marks k)"
  by (auto simp: withSeen_def split: option.split)

lemma withSeen_not_backwards: "marks k = Some m \<Longrightarrow> \<exists>m'. withSeen marks item k = Some m' \<and> m \<le> m'"
  by (auto simp: withSeen_mark)

text \<open>
  The watermarks as an interface: a store of marks and the read test the Board renders with.
  Opening a row marks it read, and a read row stays read unless it is opened at an older
  version of itself.
\<close>

locale watermark =
  fixes see :: "'m \<Rightarrow> 'i \<Rightarrow> 'm"
    and unread :: "'i \<Rightarrow> 'm \<Rightarrow> bool"
    and same_row :: "'i \<Rightarrow> 'i \<Rightarrow> bool"
    and changed :: "'i \<Rightarrow> int"
  assumes see_read: "\<not> unread i (see m i)"
    and see_keeps: "\<not> unread i m \<Longrightarrow> (same_row i j \<Longrightarrow> changed i \<le> changed j) \<Longrightarrow> \<not> unread i (see m j)"
begin

lemma reads_stay_read:
  "\<not> unread i m \<Longrightarrow> \<forall>j \<in> set js. same_row i j \<longrightarrow> changed i \<le> changed j \<Longrightarrow>
   \<not> unread i (foldl see m js)"
proof (induction js arbitrary: m)
  case (Cons j js)
  from Cons.prems have "\<not> unread i (see m j)" by (intro see_keeps) auto
  with Cons show ?case by auto
qed simp

lemma opened_stays_read:
  "\<forall>j \<in> set js. same_row i j \<longrightarrow> changed i \<le> changed j \<Longrightarrow> \<not> unread i (foldl see (see m i) js)"
  by (rule reads_stay_read [OF see_read])

end

definition same_item :: "WorkItem \<Rightarrow> WorkItem \<Rightarrow> bool" where
  "same_item i j \<longleftrightarrow> wi_kind i = wi_kind j \<and> wi_number i = wi_number j"

interpretation seen: watermark withSeen isUnread same_item wi_changedAt
proof
  show "\<not> isUnread i (withSeen m i)" for i m
    by (auto simp: isUnread_def withSeen_mark split: option.split)
  show "\<not> isUnread i m \<Longrightarrow> (same_item i j \<Longrightarrow> wi_changedAt i \<le> wi_changedAt j) \<Longrightarrow>
      \<not> isUnread i (withSeen m j)" for i j m
    by (auto simp: isUnread_def withSeen_mark same_item_def item_mark_def markOf_inject
        split: option.splits if_splits)
qed

text \<open>A row that changed after it was last opened is unread again.\<close>

lemma changed_again_unread:
  assumes "same_item i j" and "wi_mine j" and "wi_changedAt i < wi_changedAt j"
    and "\<And>m. marks (item_mark i) = Some m \<Longrightarrow> m < wi_changedAt j"
  shows "isUnread j (withSeen marks i)"
proof -
  have "item_mark j = item_mark i"
    using assms(1) by (simp add: item_mark_def same_item_def)
  with assms show ?thesis
    by (auto simp: isUnread_def withSeen_mark split: option.split)
qed

interpretation newest_first: comparison newestFirst
  by standard (auto simp: newestFirst_def)

section \<open>Properties\<close>

text \<open>
  C37: "Mine" and its reason. An incident is nobody's for the person 0 and for a view without
  an incident; otherwise the reason shown is one of the rules that hold (filed, a report owed,
  attached, mentioned), the first of them in that order, and there is none exactly when no
  rule holds.
\<close>

theorem mine_shows_first_reason:
  "case iv_incident view of
     None \<Rightarrow> whyMineIncident view me = None
   | Some i \<Rightarrow>
       if me = 0 then whyMineIncident view me = None
       else (case whyMineIncident view me of
           None \<Rightarrow> mine_reasons i (owesReport view me) me = {}
         | Some r \<Rightarrow> r \<in> mine_reasons i (owesReport view me) me \<and>
             (\<forall>r' \<in> mine_reasons i (owesReport view me) me. reason_rank r \<le> reason_rank r'))"
proof (cases "iv_incident view")
  case None
  then show ?thesis by (simp add: whyMineIncident_def)
next
  case (Some i)
  show ?thesis
  proof (cases "me = 0")
    case True
    with Some show ?thesis by (simp add: whyMineIncident_def)
  next
    case False
    with Some mine_cascade [OF Some False] show ?thesis by simp
  qed
qed

definition sample_ref :: "int \<Rightarrow> PersonRef" where
  "sample_ref n = \<lparr>ref_personId = n, ref_handle = None, ref_name = None\<rparr>"

definition sample_view :: IncidentView where
  "sample_view =
     \<lparr>iv_incident = Some (blank_incident\<lparr>inc_number := 12, inc_createdBy := Some (sample_ref 4),
        inc_people := [\<lparr>ip_person = Some (sample_ref 7), ip_involvement = None,
          ip_grantedAccess = False, ip_hasEventAccess = True,
          ip_reportRequested = Some \<lparr>seconds = 5, nanos = 0\<rparr>, ip_reportNumber = None\<rparr>]\<rparr>),
      iv_viewerMayAddJournal = False\<rparr>"

theorem mine_shows_first_reason_witness:
  "whyMineIncident sample_view 7 = Some Owed \<and>
   (\<exists>i. iv_incident sample_view = Some i \<and> Owed \<in> mine_reasons i True 7 \<and>
     (\<forall>r' \<in> mine_reasons i True 7. reason_rank Owed \<le> reason_rank r'))"
proof -
  obtain i where i: "iv_incident sample_view = Some i" by (simp add: sample_view_def)
  have why: "whyMineIncident sample_view 7 = Some Owed" and owes: "owesReport sample_view 7"
    by (simp_all add: whyMineIncident_def owesReport_def sample_view_def sample_ref_def
        is_person_def blank_defs)
  from mine_shows_first_reason [of sample_view 7] i why owes show ?thesis by simp
qed

text \<open>
  Opening an item marks it read, and it stays read whatever other rows are opened after
  it, as long as the same row is not opened at an older version of itself.
\<close>

theorem opened_item_stays_read:
  assumes "\<forall>j \<in> set js. same_item i j \<longrightarrow> wi_changedAt i \<le> wi_changedAt j"
  shows "\<not> isUnread i (foldl withSeen (withSeen marks i) js)"
  using assms by (rule seen.opened_stays_read)

definition sample_item :: "item_kind \<Rightarrow> int \<Rightarrow> int \<Rightarrow> WorkItem" where
  "sample_item k n changed =
     \<lparr>wi_kind = k, wi_number = n, wi_summary = lit ''Lost child'', wi_where = None,
      wi_mine = True, wi_why = Mentioned, wi_state = None, wi_priority = None,
      wi_private = None, wi_owesReport = None, wi_changedAt = changed\<rparr>"

theorem opened_item_stays_read_witness:
  "isUnread (sample_item KIncident 12 500) Map.empty \<and>
   \<not> isUnread (sample_item KIncident 12 500)
     (foldl withSeen (withSeen Map.empty (sample_item KIncident 12 500))
        [sample_item KReport 12 100, sample_item KIncident 12 800])"
  by (intro conjI opened_item_stays_read)
    (simp_all add: sample_item_def isUnread_def same_item_def)

text \<open>
  Opening an item moves no other row's mark and never moves a mark back, and the row is
  unread again once it changes.
\<close>

theorem marks_only_advance:
  assumes "wi_mine j" and "same_item i j" and "wi_changedAt i < wi_changedAt j"
    and "\<forall>m. marks (item_mark i) = Some m \<longrightarrow> m < wi_changedAt j"
  shows "isUnread j (withSeen marks i) \<and>
    (\<forall>k. k \<noteq> item_mark i \<longrightarrow> withSeen marks i k = marks k) \<and>
    (\<forall>m. marks (item_mark i) = Some m \<longrightarrow>
       (\<exists>m'. withSeen marks i (item_mark i) = Some m' \<and> m \<le> m'))"
  using changed_again_unread [OF assms(2,1,3)] assms(4) withSeen_not_backwards
  by (auto simp: withSeen_mark)

theorem marks_only_advance_witness:
  "isUnread (sample_item KIncident 12 800)
     (withSeen [markOf KIncident 12 \<mapsto> 600, markOf KReport 3 \<mapsto> 9] (sample_item KIncident 12 500)) \<and>
   withSeen [markOf KIncident 12 \<mapsto> 600, markOf KReport 3 \<mapsto> 9] (sample_item KIncident 12 500)
     (markOf KReport 3) = Some 9"
  using marks_only_advance [of "sample_item KIncident 12 800" "sample_item KIncident 12 500"
      "[markOf KIncident 12 \<mapsto> 600, markOf KReport 3 \<mapsto> 9]"]
  by (simp add: sample_item_def same_item_def item_mark_def markOf_inject)

end
