(* ===== verification/Storage.thy ===== *)
theory Storage
  imports Work
begin

text \<open>
  What a device keeps between launches. The storage the client is handed
  (\<open>AsyncStorageLike\<close> of \<open>api/persist.ts\<close>) is an interface: the locale \<open>key_value\<close> states what
  it promises, and the model's device, a map from keys to texts, provides it. On top of it:
  the unread watermarks (\<open>features/board/seen.ts\<close>), the remembered event
  (\<open>features/events/selected.ts\<close>), the dispatch table's state preference
  (\<open>features/dispatch/statePreference.ts\<close>) and the serializer of the persisted read cache
  (\<open>api/persist.ts\<close>).

  \<open>JSON.parse\<close> and \<open>JSON.stringify\<close> work between texts and the values of type \<open>json\<close>; a pair
  of functions stands for them (\<open>codec\<close>), and a text that does not parse is \<open>None\<close>.
\<close>

section \<open>The storage interface\<close>

locale key_value =
  fixes getItem :: "'s \<Rightarrow> str \<Rightarrow> str option"
    and setItem :: "'s \<Rightarrow> str \<Rightarrow> str \<Rightarrow> 's"
    and removeItem :: "'s \<Rightarrow> str \<Rightarrow> 's"
  assumes get_set: "getItem (setItem s k v) j = (if j = k then Some v else getItem s j)"
    and get_remove: "getItem (removeItem s k) j = (if j = k then None else getItem s j)"
begin

lemma get_set_same [simp]: "getItem (setItem s k v) k = Some v"
  by (simp add: get_set)

lemma get_set_other: "j \<noteq> k \<Longrightarrow> getItem (setItem s k v) j = getItem s j"
  by (simp add: get_set)

lemma set_frame: "inj_on f A \<Longrightarrow> i \<in> A \<Longrightarrow> j \<in> A \<Longrightarrow> i \<noteq> j \<Longrightarrow>
    getItem (setItem s (f i) v) (f j) = getItem s (f j)"
  by (rule get_set_other) (auto dest: inj_onD)

lemma remove_set [simp]: "getItem (removeItem (setItem s k v) k) j = getItem (removeItem s k) j"
  by (simp add: get_set get_remove)

end

type_synonym device = "str \<Rightarrow> str option"

definition dev_get :: "device \<Rightarrow> str \<Rightarrow> str option" where
  "dev_get d k = d k"

definition dev_set :: "device \<Rightarrow> str \<Rightarrow> str \<Rightarrow> device" where
  "dev_set d k v = d(k \<mapsto> v)"

definition dev_remove :: "device \<Rightarrow> str \<Rightarrow> device" where
  "dev_remove d k = d(k := None)"

interpretation device: key_value dev_get dev_set dev_remove
  by standard (auto simp: dev_get_def dev_set_def dev_remove_def)

section \<open>JSON values\<close>

datatype json =
    JNull
  | JBool bool
  | JNum int
  | JStr str
  | JArr "json list"
  | JObj "(str \<times> json) list"

record codec =
  json_parse :: "str \<Rightarrow> json option"
  json_stringify :: "json \<Rightarrow> str"

text \<open>What ECMAScript promises of the pair: parsing a written value gives it back.\<close>

definition codec_ok :: "codec \<Rightarrow> bool" where
  "codec_ok c \<longleftrightarrow> (\<forall>v. json_parse c (json_stringify c v) = Some v)"

text \<open>A property of a JSON object, by key; a repeated key keeps its last value.\<close>

definition obj_get :: "(str \<times> json) list \<Rightarrow> str \<Rightarrow> json option" where
  "obj_get kvs k = map_of (rev kvs) k"

section \<open>Watermarks on the device\<close>

definition parseSeen :: "codec \<Rightarrow> str \<Rightarrow> SeenMarks" where
  "parseSeen c raw =
     (case json_parse c raw of
        Some (JObj kvs) \<Rightarrow>
          foldl (\<lambda>marks (key, value).
              case value of
                JNum n \<Rightarrow> if num_finite n then marks(key \<mapsto> n) else marks
              | _ \<Rightarrow> marks)
            Map.empty kvs
      | _ \<Rightarrow> Map.empty)"

definition loadSeen :: "codec \<Rightarrow> device \<Rightarrow> int \<Rightarrow> SeenMarks" where
  "loadSeen c d eventId =
     (case dev_get d (seenKey eventId) of None \<Rightarrow> Map.empty | Some raw \<Rightarrow> parseSeen c raw)"

text \<open>
  The marks are written as the object that lists them; \<open>kvs\<close> is its listing
  (\<open>Object.entries\<close>), any one that \<open>map_of\<close> reads back as the marks.
\<close>

definition saveSeen :: "codec \<Rightarrow> device \<Rightarrow> int \<Rightarrow> (str \<times> int) list \<Rightarrow> device" where
  "saveSeen c d eventId kvs =
     dev_set d (seenKey eventId) (json_stringify c (JObj (map (\<lambda>(k, n). (k, JNum n)) kvs)))"

lemma seenKey_inject: "seenKey i = seenKey j \<longleftrightarrow> i = j"
  by (simp add: seenKey_def)

lemma foldl_marks:
  assumes "\<forall>(k, n) \<in> set kvs. num_finite n" and "distinct (map fst kvs)"
  shows "foldl (\<lambda>marks (key, value).
      case value of JNum n \<Rightarrow> if num_finite n then marks(key \<mapsto> n) else marks | _ \<Rightarrow> marks)
    m (map (\<lambda>(k, n). (k, JNum n)) kvs) = m ++ map_of kvs"
  using assms
proof (induction kvs arbitrary: m)
  case (Cons kv kvs)
  obtain k n where kv: "kv = (k, n)" by force
  from Cons.prems kv have n: "num_finite n" and k: "map_of kvs k = None"
    by (auto simp: map_of_eq_None_iff)
  have "m ++ map_of (kv # kvs) = m(k \<mapsto> n) ++ map_of kvs"
    using k kv by (auto simp: map_add_def fun_eq_iff split: option.split)
  with Cons kv n show ?case by (simp del: map_of.simps)
qed simp

lemma load_save_seen:
  assumes "codec_ok c" and "\<forall>(k, n) \<in> set kvs. num_finite n" and "distinct (map fst kvs)"
  shows "loadSeen c (saveSeen c d e kvs) e' = (if e' = e then map_of kvs else loadSeen c d e')"
proof (cases "e' = e")
  case True
  with assms foldl_marks [OF assms(2,3), of Map.empty] show ?thesis
    by (simp add: loadSeen_def saveSeen_def codec_ok_def parseSeen_def)
next
  case False
  then show ?thesis
    by (simp add: loadSeen_def saveSeen_def device.get_set seenKey_inject)
qed

section \<open>The remembered event and the state preference\<close>

definition SELECTED_EVENT_KEY :: str where
  "SELECTED_EVENT_KEY = lit ''ocf-ims/selectedEventId''"

definition loadSelectedEventId :: "device \<Rightarrow> int option" where
  "loadSelectedEventId d =
     (case dev_get d SELECTED_EVENT_KEY of
        None \<Rightarrow> None
      | Some raw \<Rightarrow>
          (case parse_int raw of
             None \<Rightarrow> None
           | Some i \<Rightarrow> if num_finite i \<and> 0 < i then Some i else None))"

definition saveSelectedEventId :: "device \<Rightarrow> int \<Rightarrow> device" where
  "saveSelectedEventId d i = dev_set d SELECTED_EVENT_KEY (show_int i)"

lemma load_save_selected:
  "loadSelectedEventId (saveSelectedEventId d i) = (if num_finite i \<and> 0 < i then Some i else None)"
  by (simp add: loadSelectedEventId_def saveSelectedEventId_def)

datatype StateFilter = FOpen | FClosed | FAll

fun state_filter_str :: "StateFilter \<Rightarrow> str" where
  "state_filter_str FOpen = lit ''open''"
| "state_filter_str FClosed = lit ''closed''"
| "state_filter_str FAll = lit ''all''"

definition parse_state_filter :: "str option \<Rightarrow> StateFilter option" where
  "parse_state_filter raw =
     (if raw = Some (lit ''open'') then Some FOpen
      else if raw = Some (lit ''closed'') then Some FClosed
      else if raw = Some (lit ''all'') then Some FAll
      else None)"

definition STATE_PREFERENCE_KEY :: str where
  "STATE_PREFERENCE_KEY = lit ''ocf-ims/dispatch/statePreference''"

definition loadStatePreference :: "device \<Rightarrow> StateFilter option" where
  "loadStatePreference d = parse_state_filter (dev_get d STATE_PREFERENCE_KEY)"

definition saveStatePreference :: "device \<Rightarrow> StateFilter \<Rightarrow> device" where
  "saveStatePreference d f = dev_set d STATE_PREFERENCE_KEY (state_filter_str f)"

lemma parse_state_filter_str [simp]: "parse_state_filter (Some (state_filter_str f)) = Some f"
  by (cases f) (simp_all add: parse_state_filter_def)

lemma load_save_preference: "loadStatePreference (saveStatePreference d f) = Some f"
  by (simp add: loadStatePreference_def saveStatePreference_def)

section \<open>The persisted cache\<close>

text \<open>
  In memory, a message holds two kinds of value JSON cannot carry: \<open>bigint\<close> and
  \<open>Uint8Array\<close>. \<open>undefined\<close> properties are dropped by \<open>JSON.stringify\<close>, in an array they
  become \<open>null\<close>. Base 64 is the protobuf library's: a pair of functions.
\<close>

datatype pvalue =
    PNull
  | PUndefined
  | PBool bool
  | PNum int
  | PStr str
  | PBig int
  | PBytes "nat list"
  | PArr "pvalue list"
  | PObj "(str \<times> pvalue) list"

record base64 =
  base64Encode :: "nat list \<Rightarrow> str"
  base64Decode :: "str \<Rightarrow> nat list option"

definition BIGINT_TAG :: str where
  "BIGINT_TAG = lit ''$bigint''"

definition BYTES_TAG :: str where
  "BYTES_TAG = lit ''$bytes''"

fun to_json :: "base64 \<Rightarrow> pvalue \<Rightarrow> json option" where
  "to_json b PNull = Some JNull"
| "to_json b PUndefined = None"
| "to_json b (PBool x) = Some (JBool x)"
| "to_json b (PNum n) = Some (JNum n)"
| "to_json b (PStr s) = Some (JStr s)"
| "to_json b (PBig i) = Some (JObj [(BIGINT_TAG, JStr (show_int i))])"
| "to_json b (PBytes bs) = Some (JObj [(BYTES_TAG, JStr (base64Encode b bs))])"
| "to_json b (PArr vs) = Some (JArr (map (\<lambda>v. nullish (to_json b v) JNull) vs))"
| "to_json b (PObj kvs) =
     Some (JObj (concat (map (\<lambda>(k, v). case to_json b v of None \<Rightarrow> [] | Some j \<Rightarrow> [(k, j)]) kvs)))"

text \<open>\<open>BigInt(text)\<close> on a decimal text; \<open>None\<close> stands for the thrown SyntaxError.\<close>

definition js_BigInt :: "str \<Rightarrow> int option" where
  "js_BigInt s =
     (let t = trim s in
      if t = [] then Some 0
      else if all_digits t then Some (int (digits_val t))
      else if hd t = 45 \<and> all_digits (tl t) then Some (- int (digits_val (tl t)))
      else if hd t = 43 \<and> all_digits (tl t) then Some (int (digits_val (tl t)))
      else None)"

text \<open>The reviver on one object whose properties are already revived.\<close>

definition revive :: "base64 \<Rightarrow> (str \<times> pvalue) list \<Rightarrow> pvalue option" where
  "revive b kvs =
     (case kvs of
        [(k, PStr s)] \<Rightarrow>
          if k = BIGINT_TAG then map_option PBig (js_BigInt s)
          else if k = BYTES_TAG then map_option PBytes (base64Decode b s)
          else Some (PObj kvs)
      | _ \<Rightarrow> Some (PObj kvs))"

fun all_some :: "'a option list \<Rightarrow> 'a list option" where
  "all_some [] = Some []"
| "all_some (None # xs) = None"
| "all_some (Some x # xs) = map_option ((#) x) (all_some xs)"

fun from_json :: "base64 \<Rightarrow> json \<Rightarrow> pvalue option" where
  "from_json b JNull = Some PNull"
| "from_json b (JBool x) = Some (PBool x)"
| "from_json b (JNum n) = Some (PNum n)"
| "from_json b (JStr s) = Some (PStr s)"
| "from_json b (JArr vs) = map_option PArr (all_some (map (from_json b) vs))"
| "from_json b (JObj kvs) =
     Option.bind (all_some (map (\<lambda>(k, v). map_option (Pair k) (from_json b v)) kvs)) (revive b)"

definition serializePersistedClient :: "codec \<Rightarrow> base64 \<Rightarrow> pvalue \<Rightarrow> str option" where
  "serializePersistedClient c b client = map_option (json_stringify c) (to_json b client)"

definition deserializePersistedClient :: "codec \<Rightarrow> base64 \<Rightarrow> str \<Rightarrow> pvalue option" where
  "deserializePersistedClient c b raw = Option.bind (json_parse c raw) (from_json b)"

definition cacheBuster :: "str option \<Rightarrow> str" where
  "cacheBuster appVersion = lit ''s1-'' @ nullish appVersion (lit ''dev'')"

text \<open>
  A value that the serializer can carry: no \<open>undefined\<close>, and no object of one text property
  that is named as a tag (it would be read back as the tagged value).
\<close>

definition tag_shaped :: "(str \<times> pvalue) list \<Rightarrow> bool" where
  "tag_shaped kvs \<longleftrightarrow>
     (case kvs of [(k, PStr s)] \<Rightarrow> k = BIGINT_TAG \<or> k = BYTES_TAG | _ \<Rightarrow> False)"

fun carried :: "pvalue \<Rightarrow> bool" where
  "carried PUndefined = False"
| "carried (PArr vs) = list_all carried vs"
| "carried (PObj kvs) = (\<not> tag_shaped kvs \<and> list_all (\<lambda>(k, v). carried v) kvs)"
| "carried v = True"

lemma all_some_map: "(\<And>x. x \<in> set xs \<Longrightarrow> f x = Some (g x)) \<Longrightarrow> all_some (map f xs) = Some (map g xs)"
  by (induction xs) auto

lemma js_BigInt_show [simp]: "js_BigInt (show_int i) = Some i"
proof (cases "i < 0")
  case True
  have s: "show_int i = 45 # show_nat (nat (- i))" using True by (simp add: show_int_def)
  have "last (show_int i) = 45 \<or> is_digit (last (show_int i))"
    using show_int_no [of "last (show_int i)" i] by (simp add: s)
  then have "\<not> is_ws (last (show_int i))" using digit_not_ws by (auto simp: is_ws_def)
  moreover have "\<not> is_ws (hd (show_int i))" by (simp add: s is_ws_def)
  ultimately have "trim (show_int i) = show_int i" by (intro trim_id disjI2 conjI)
  moreover have "\<not> all_digits (show_int i)" by (simp add: s all_digits_def is_digit_def)
  moreover have "all_digits (tl (show_int i))" by (simp add: s all_digits_def show_nat_digits)
  ultimately have "js_BigInt (show_int i) = Some (- int (digits_val (tl (show_int i))))"
    by (simp add: js_BigInt_def Let_def s)
  then show ?thesis using True by (simp add: s)
next
  case False
  then have "trim (show_nat (nat i)) = show_nat (nat i)"
    using trim_show_int [of i] by (simp add: show_int_def)
  with False show ?thesis
    using all_digits_show_int [of i] by (simp add: js_BigInt_def show_int_def)
qed

lemma revive_untagged: "\<not> tag_shaped kvs \<Longrightarrow> revive b kvs = Some (PObj kvs)"
  by (auto simp: revive_def tag_shaped_def split: list.splits pvalue.splits)

lemma from_to_json:
  assumes "\<And>bs. base64Decode b (base64Encode b bs) = Some bs" and "carried v"
  shows "Option.bind (to_json b v) (from_json b) = Some v"
  using assms(2)
proof (induction v)
  case (PArr vs)
  have "from_json b (nullish (to_json b v) JNull) = Some v" if v: "v \<in> set vs" for v
  proof -
    have "carried v" using PArr.prems v by (simp add: list_all_iff)
    with PArr.IH [OF v] show ?thesis by (cases "to_json b v") simp_all
  qed
  then show ?case by (simp add: all_some_map [where g = id, simplified] comp_def)
next
  case (PObj kvs)
  have each: "\<exists>j. to_json b v = Some j \<and> from_json b j = Some v" if "(k, v) \<in> set kvs" for k v
    using PObj that by (cases "to_json b v") (fastforce simp: list_all_iff)+
  have "all_some (map (\<lambda>(k, v). map_option (Pair k) (from_json b v))
      (concat (map (\<lambda>(k, v). case to_json b v of None \<Rightarrow> [] | Some j \<Rightarrow> [(k, j)]) kvs))) = Some kvs"
    using each by (induction kvs) fastforce+
  with PObj.prems revive_untagged show ?case by simp
qed (auto simp: revive_def BIGINT_TAG_def BYTES_TAG_def assms(1))

lemma carried_to_json: "carried v \<Longrightarrow> to_json b v \<noteq> None"
  by (cases v) auto

lemma persist_round_trip:
  assumes "codec_ok c" and "\<And>bs. base64Decode b (base64Encode b bs) = Some bs" and "carried v"
  shows "Option.bind (serializePersistedClient c b v) (deserializePersistedClient c b) = Some v"
  using assms from_to_json [OF assms(2,3)] carried_to_json [OF assms(3), of b]
  by (auto simp: serializePersistedClient_def deserializePersistedClient_def codec_ok_def)

section \<open>Properties\<close>

text \<open>A toy codec for evaluation: it knows one text.\<close>

definition one_text_codec :: "json \<Rightarrow> codec" where
  "one_text_codec v = \<lparr>json_parse = (\<lambda>s. if s = [1] then Some v else None),
     json_stringify = (\<lambda>w. if w = v then [1] else [2])\<rparr>"

text \<open>
  C34: The persisted cache comes back as it was. Whatever is written with the tags for
  \<open>bigint\<close> and bytes is read back with every such value restored, provided \<open>JSON\<close> and base 64
  invert themselves on this value and the value holds no \<open>undefined\<close> and no object shaped as a
  tag.
\<close>

theorem persisted_cache_restored:
  assumes "\<And>j. to_json b client = Some j \<Longrightarrow> json_parse c (json_stringify c j) = Some j"
    and "\<And>bs. base64Decode b (base64Encode b bs) = Some bs" and "carried client"
  shows "\<exists>raw. serializePersistedClient c b client = Some raw \<and>
    deserializePersistedClient c b raw = Some client"
proof -
  obtain j where j: "to_json b client = Some j" using carried_to_json [OF assms(3)] by blast
  with assms(1) from_to_json [OF assms(2,3)] show ?thesis
    by (simp add: serializePersistedClient_def deserializePersistedClient_def)
qed

definition identity_base64 :: base64 where
  "identity_base64 = \<lparr>base64Encode = id, base64Decode = Some\<rparr>"

definition sample_client :: pvalue where
  "sample_client = PObj [(lit ''cursor'', PBig (-12)), (lit ''photo'', PArr [PBytes [1, 255], PNull])]"

theorem persisted_cache_restored_witness:
  "\<exists>c raw. serializePersistedClient c identity_base64 sample_client = Some raw \<and>
     deserializePersistedClient c identity_base64 raw = Some sample_client"
proof -
  obtain j where j: "to_json identity_base64 sample_client = Some j"
    using carried_to_json [of sample_client] by (auto simp: sample_client_def tag_shaped_def)
  have "\<exists>raw. serializePersistedClient (one_text_codec j) identity_base64 sample_client = Some raw \<and>
     deserializePersistedClient (one_text_codec j) identity_base64 raw = Some sample_client"
    using j by (intro persisted_cache_restored)
      (simp_all add: one_text_codec_def identity_base64_def sample_client_def tag_shaped_def)
  then show ?thesis by blast
qed

text \<open>
  What the device remembers of an event's read marks is what was last saved for that event,
  and saving for one event leaves the marks of every other event, the remembered event and the
  state preference alone.
\<close>

theorem saved_marks_come_back:
  assumes "json_parse c (json_stringify c (JObj (map (\<lambda>(k, n). (k, JNum n)) kvs))) =
      Some (JObj (map (\<lambda>(k, n). (k, JNum n)) kvs))"
    and "\<forall>(k, n) \<in> set kvs. num_finite n" and "distinct (map fst kvs)"
  shows "loadSeen c (saveSeen c d e kvs) e' = (if e' = e then map_of kvs else loadSeen c d e') \<and>
    loadSelectedEventId (saveSeen c d e kvs) = loadSelectedEventId d \<and>
    loadStatePreference (saveSeen c d e kvs) = loadStatePreference d"
proof -
  have own: "loadSeen c (saveSeen c d e kvs) e = map_of kvs"
    using assms foldl_marks [OF assms(2,3), of Map.empty]
    by (simp add: loadSeen_def saveSeen_def parseSeen_def)
  have "seenKey e \<noteq> SELECTED_EVENT_KEY" and "seenKey e \<noteq> STATE_PREFERENCE_KEY"
    by (simp_all add: seenKey_def SELECTED_EVENT_KEY_def STATE_PREFERENCE_KEY_def)
  then have "loadSelectedEventId (saveSeen c d e kvs) = loadSelectedEventId d"
    and "loadStatePreference (saveSeen c d e kvs) = loadStatePreference d"
    by (simp_all add: loadSelectedEventId_def loadStatePreference_def saveSeen_def device.get_set)
  with own show ?thesis
    by (simp add: loadSeen_def saveSeen_def device.get_set seenKey_inject)
qed

theorem saved_marks_come_back_witness:
  "\<exists>c. loadSeen c (saveSeen c Map.empty 3 [(markOf KIncident 4, 90)]) 3 (markOf KIncident 4) = Some 90"
proof -
  let ?c = "one_text_codec (JObj [(markOf KIncident 4, JNum 90)])"
  have "loadSeen ?c (saveSeen ?c Map.empty 3 [(markOf KIncident 4, 90)]) 3 =
      map_of [(markOf KIncident 4, 90)]"
    using saved_marks_come_back [of ?c "[(markOf KIncident 4, 90)]" Map.empty 3 3]
    by (simp add: one_text_codec_def num_finite_def)
  then have "loadSeen ?c (saveSeen ?c Map.empty 3 [(markOf KIncident 4, 90)]) 3 (markOf KIncident 4) = Some 90"
    by simp
  then show ?thesis by blast
qed

end
