(* ===== verification/Dispatch.thy ===== *)
theory Dispatch
  imports Storage "HOL-Library.AList"
begin

text \<open>
  The dispatch table's query (\<open>features/dispatch/query.ts\<close>): every filter, the sort, the search
  and the selection are query keys of the route; \<open>parseQuery\<close> reads them, \<open>serializeQuery\<close>
  writes them, \<open>applyQuery\<close> filters, searches and sorts the incidents of an event.
\<close>

section \<open>The query\<close>

datatype PriorityKey = KHigh | KNormal | KLow

datatype SortKey =
  SKNumber | SKState | SKPriority | SKTypes | SKArea | SKSummary | SKStarted | SKModified | SKPeople

datatype SortDir = Asc | Desc

record Query =
  q_state :: StateFilter
  q_priority :: "PriorityKey list"
  q_type :: "int list"
  q_area :: "str list"
  q_person :: "int option"
  q_mine :: bool
  q_days :: "int option"
  q_q :: str
  q_sort :: "SortKey \<times> SortDir"
  q_sel :: "int option"
  q_open :: "int option"

definition DEFAULT_SORT :: "SortKey \<times> SortDir" where
  "DEFAULT_SORT = (SKNumber, Desc)"

definition SORT_KEYS :: "SortKey list" where
  "SORT_KEYS = [SKNumber, SKState, SKPriority, SKTypes, SKArea, SKSummary, SKStarted,
     SKModified, SKPeople]"

fun sort_key_str :: "SortKey \<Rightarrow> str" where
  "sort_key_str SKNumber = lit ''number''"
| "sort_key_str SKState = lit ''state''"
| "sort_key_str SKPriority = lit ''priority''"
| "sort_key_str SKTypes = lit ''types''"
| "sort_key_str SKArea = lit ''area''"
| "sort_key_str SKSummary = lit ''summary''"
| "sort_key_str SKStarted = lit ''started''"
| "sort_key_str SKModified = lit ''modified''"
| "sort_key_str SKPeople = lit ''people''"

fun sort_dir_str :: "SortDir \<Rightarrow> str" where
  "sort_dir_str Asc = lit ''asc''"
| "sort_dir_str Desc = lit ''desc''"

fun priority_key_str :: "PriorityKey \<Rightarrow> str" where
  "priority_key_str KHigh = lit ''high''"
| "priority_key_str KNormal = lit ''normal''"
| "priority_key_str KLow = lit ''low''"

fun defaultDir :: "SortKey \<Rightarrow> SortDir" where
  "defaultDir SKNumber = Desc"
| "defaultDir SKPriority = Desc"
| "defaultDir SKStarted = Desc"
| "defaultDir SKModified = Desc"
| "defaultDir _ = Asc"

section \<open>Reading and writing the route\<close>

definition param_int :: "str option \<Rightarrow> int option" where
  "param_int value =
     (case nonempty value of
        None \<Rightarrow> None
      | Some s \<Rightarrow>
          (case parse_int s of
             None \<Rightarrow> None
           | Some n \<Rightarrow> if num_finite n \<and> 0 < n then Some n else None))"

definition param_list :: "str option \<Rightarrow> str list" where
  "param_list value =
     (case nonempty value of
        None \<Rightarrow> []
      | Some s \<Rightarrow> filter (\<lambda>w. w \<noteq> []) (split_on 44 s))"

definition parse_priority :: "str \<Rightarrow> PriorityKey option" where
  "parse_priority p =
     (if p = lit ''high'' then Some KHigh
      else if p = lit ''normal'' then Some KNormal
      else if p = lit ''low'' then Some KLow
      else None)"

definition parse_sort :: "str option \<Rightarrow> SortKey \<times> SortDir" where
  "parse_sort value =
     (let parts = split_on 58 (nullish value []);
          sortKey = nth_opt parts 0;
          sortDir = nth_opt parts 1
      in case List.find (\<lambda>k. Some (sort_key_str k) = sortKey) SORT_KEYS of
           None \<Rightarrow> DEFAULT_SORT
         | Some key \<Rightarrow> (key, if sortDir = Some (lit ''asc'') then Asc else Desc))"

definition parseQuery :: "Params \<Rightarrow> StateFilter \<Rightarrow> Query" where
  "parseQuery params fallbackState =
     \<lparr>q_state = nullish (parse_state_filter (params ''state'')) fallbackState,
      q_priority = List.map_filter parse_priority (param_list (params ''priority'')),
      q_type = List.map_filter (\<lambda>t. param_int (Some t)) (param_list (params ''type'')),
      q_area = param_list (params ''area''),
      q_person = param_int (params ''person''),
      q_mine = (params ''mine'' = Some (lit ''1'')),
      q_days = param_int (params ''days''),
      q_q = nullish (params ''q'') [],
      q_sort = parse_sort (params ''sort''),
      q_sel = param_int (params ''sel''),
      q_open = param_int (params ''open'')\<rparr>"

definition join_param :: "str list \<Rightarrow> str option" where
  "join_param ws = (if ws = [] then None else Some (join [44] ws))"

definition serialize_sort :: "SortKey \<times> SortDir \<Rightarrow> str option" where
  "serialize_sort s =
     (if s = DEFAULT_SORT then None
      else Some (sort_key_str (fst s) @ [58] @ sort_dir_str (snd s)))"

definition serializeQuery :: "Query \<Rightarrow> Params" where
  "serializeQuery query = Map.empty(
     ''state'' := (if q_state query = FOpen then None else Some (state_filter_str (q_state query))),
     ''priority'' := join_param (map priority_key_str (q_priority query)),
     ''type'' := join_param (map show_int (q_type query)),
     ''area'' := join_param (q_area query),
     ''person'' := map_option show_int (q_person query),
     ''mine'' := (if q_mine query then Some (lit ''1'') else None),
     ''days'' := map_option show_int (q_days query),
     ''q'' := nonempty (Some (q_q query)),
     ''sort'' := serialize_sort (q_sort query),
     ''sel'' := map_option show_int (q_sel query),
     ''open'' := map_option show_int (q_open query))"

definition isFiltered :: "Query \<Rightarrow> bool" where
  "isFiltered query \<longleftrightarrow>
     q_state query \<noteq> FOpen \<or> q_priority query \<noteq> [] \<or> q_type query \<noteq> [] \<or> q_area query \<noteq> []
     \<or> q_person query \<noteq> None \<or> q_mine query \<or> q_days query \<noteq> None \<or> q_q query \<noteq> []"

definition clearFilters :: "Query \<Rightarrow> Query" where
  "clearFilters query =
     query\<lparr>q_state := FOpen, q_priority := [], q_type := [], q_area := [], q_person := None,
       q_mine := False, q_days := None, q_q := []\<rparr>"

section \<open>Rows\<close>

record Lookups =
  lk_types :: "IncidentType list"
  lk_areas :: "Area list"

text \<open>A view whose incident is set, with that incident.\<close>

type_synonym Row = "IncidentView \<times> Incident"

definition toRows :: "IncidentView list \<Rightarrow> Row list" where
  "toRows views = List.map_filter (\<lambda>v. map_option (Pair v) (iv_incident v)) views"

definition row_number :: "Row \<Rightarrow> int" where
  "row_number row = inc_number (snd row)"

fun priorityKey :: "IncidentPriority \<Rightarrow> PriorityKey" where
  "priorityKey PRIORITY_HIGH = KHigh"
| "priorityKey PRIORITY_LOW = KLow"
| "priorityKey _ = KNormal"

definition typesText :: "Row \<Rightarrow> Lookups \<Rightarrow> str" where
  "typesText row lookups =
     join (lit '', '') (map (typeName (Some (lk_types lookups))) (inc_incidentTypeIds (snd row)))"

definition row_area :: "Row \<Rightarrow> str option" where
  "row_area row = Option.bind (inc_location (snd row)) loc_areaSlug"

definition areaText :: "Row \<Rightarrow> Lookups \<Rightarrow> str" where
  "areaText row lookups = nullish (areaName (Some (lk_areas lookups)) (row_area row)) []"

definition peopleText :: "Row \<Rightarrow> str" where
  "peopleText row = join (lit '', '') (map (\<lambda>p. personLabel (ip_person p)) (inc_people (snd row)))"

text \<open>
  The people on any loaded row: a map by id in insertion order, the last label of a person
  winning, sorted by label.
\<close>

definition person_labels :: "IncidentView list \<Rightarrow> (int \<times> str) list" where
  "person_labels rows =
     fold (\<lambda>p. AList.update (ref_personId p) (personLabel (Some p)))
       (concat (map (\<lambda>v. case iv_incident v of
            None \<Rightarrow> []
          | Some i \<Rightarrow> List.map_filter ip_person (inc_people i)) rows))
       []"

definition peopleOptions :: "host \<Rightarrow> IncidentView list \<Rightarrow> (str \<times> str) list" where
  "peopleOptions h rows =
     js_sort (\<lambda>a b. locale_compare h (snd a) (snd b))
       (map (\<lambda>(i, label). (show_int i, label)) (person_labels rows))"

section \<open>Search\<close>

definition bareNumber :: "str \<Rightarrow> int option" where
  "bareNumber q = (if all_digits (trim q) then parse_int q else None)"

definition line_terminator :: "nat \<Rightarrow> bool" where
  "line_terminator c \<longleftrightarrow> c = 10 \<or> c = 13 \<or> c = 8232 \<or> c = 8233"

text \<open>The regular expression \<open>/^\/(.+)\/$/\<close>: the text between the slashes.\<close>

definition regex_body :: "str \<Rightarrow> str option" where
  "regex_body s =
     (if 3 \<le> length s \<and> hd s = 47 \<and> last s = 47
         \<and> list_all (\<lambda>c. \<not> line_terminator c) (butlast (tl s))
      then Some (butlast (tl s)) else None)"

definition matcher :: "host \<Rightarrow> str \<Rightarrow> str \<Rightarrow> bool" where
  "matcher h q haystack =
     (let trimmed = trim q in
      if trimmed = [] then True
      else (case regex_body trimmed of
              Some body \<Rightarrow>
                (case regex h body of
                   Some test \<Rightarrow> test haystack
                 | None \<Rightarrow> False)
            | None \<Rightarrow> has_sub (lower h haystack) (lower h trimmed)))"

definition row_haystack :: "Row \<Rightarrow> Lookups \<Rightarrow> str" where
  "row_haystack row lookups =
     join [32]
       [lit ''#'' @ show_int (row_number row), nullish (inc_summary (snd row)) [],
        typesText row lookups, areaText row lookups, peopleText row]"

section \<open>Filter and sort\<close>

definition row_kept :: "host \<Rightarrow> Query \<Rightarrow> Lookups \<Rightarrow> int \<Rightarrow> int \<Rightarrow> Row \<Rightarrow> bool" where
  "row_kept h query lookups me now row =
     (let incident = snd row;
          since = map_option (\<lambda>d. now - d * 86400000) (q_days query)
      in if q_state query = FOpen \<and> inc_state incident \<noteq> STATE_OPEN then False
         else if q_state query = FClosed \<and> inc_state incident \<noteq> STATE_CLOSED then False
         else if q_priority query \<noteq> []
           \<and> priorityKey (inc_priority incident) \<notin> set (q_priority query) then False
         else if q_type query \<noteq> []
           \<and> \<not> list_ex (\<lambda>i. i \<in> set (q_type query)) (inc_incidentTypeIds incident) then False
         else if q_area query \<noteq> [] \<and> nullish (row_area row) [] \<notin> set (q_area query) then False
         else if q_person query \<noteq> None
           \<and> \<not> list_ex (\<lambda>p. map_option ref_personId (ip_person p) = q_person query)
                (inc_people incident) then False
         else if q_mine query \<and> whyMineIncident (fst row) me = None then False
         else if (case since of None \<Rightarrow> False | Some t \<Rightarrow> time_of h (inc_started incident) < t)
           then False
         else (case bareNumber (q_q query) of
                 Some number \<Rightarrow> starts_with (show_int (inc_number incident)) (show_int number)
               | None \<Rightarrow> matcher h (q_q query) (row_haystack row lookups)))"

fun column_cmp :: "host \<Rightarrow> Lookups \<Rightarrow> SortKey \<Rightarrow> Row \<Rightarrow> Row \<Rightarrow> int" where
  "column_cmp h lookups SKNumber a b = row_number a - row_number b"
| "column_cmp h lookups SKState a b =
     state_num (inc_state (snd a)) - state_num (inc_state (snd b))"
| "column_cmp h lookups SKPriority a b =
     priority_num (inc_priority (snd a)) - priority_num (inc_priority (snd b))"
| "column_cmp h lookups SKTypes a b =
     locale_compare h (typesText a lookups) (typesText b lookups)"
| "column_cmp h lookups SKArea a b =
     locale_compare h (areaText a lookups) (areaText b lookups)"
| "column_cmp h lookups SKSummary a b =
     locale_compare h (nullish (inc_summary (snd a)) []) (nullish (inc_summary (snd b)) [])"
| "column_cmp h lookups SKStarted a b =
     time_of h (inc_started (snd a)) - time_of h (inc_started (snd b))"
| "column_cmp h lookups SKModified a b =
     time_of h (inc_lastModified (snd a)) - time_of h (inc_lastModified (snd b))"
| "column_cmp h lookups SKPeople a b = locale_compare h (peopleText a) (peopleText b)"

definition dir_num :: "SortDir \<Rightarrow> int" where
  "dir_num d = (if d = Asc then 1 else -1)"

definition row_cmp :: "host \<Rightarrow> SortKey \<times> SortDir \<Rightarrow> Lookups \<Rightarrow> Row \<Rightarrow> Row \<Rightarrow> int" where
  "row_cmp h order lookups a b =
     or_num (dir_num (snd order) * column_cmp h lookups (fst order) a b)
       (dir_num (snd order) * (row_number b - row_number a))"

definition sortRows :: "host \<Rightarrow> Row list \<Rightarrow> SortKey \<times> SortDir \<Rightarrow> Lookups \<Rightarrow> Row list" where
  "sortRows h rows order lookups = js_sort (row_cmp h order lookups) rows"

definition applyQuery ::
  "host \<Rightarrow> IncidentView list \<Rightarrow> Query \<Rightarrow> Lookups \<Rightarrow> int \<Rightarrow> int \<Rightarrow> Row list" where
  "applyQuery h rows query lookups me now =
     sortRows h (filter (row_kept h query lookups me now) (toRows rows)) (q_sort query) lookups"

section \<open>Round trip\<close>

text \<open>
  What \<open>parseQuery\<close> can answer: positive finite ids, and area slugs that are non-empty and hold
  no comma.
\<close>

definition positive_id :: "int \<Rightarrow> bool" where
  "positive_id n \<longleftrightarrow> num_finite n \<and> 0 < n"

definition slug_ok :: "str \<Rightarrow> bool" where
  "slug_ok s \<longleftrightarrow> s \<noteq> [] \<and> 44 \<notin> set s"

definition wf_query :: "Query \<Rightarrow> bool" where
  "wf_query query \<longleftrightarrow>
     list_all positive_id (q_type query) \<and> list_all slug_ok (q_area query)
     \<and> pred_option positive_id (q_person query) \<and> pred_option positive_id (q_days query)
     \<and> pred_option positive_id (q_sel query) \<and> pred_option positive_id (q_open query)"

lemma param_int_wf: "pred_option positive_id (param_int v)"
  by (auto simp: param_int_def positive_id_def split: option.split)

lemma param_int_show [simp]: "positive_id n \<Longrightarrow> param_int (Some (show_int n)) = Some n"
  by (simp add: param_int_def positive_id_def)

lemma param_int_None [simp]: "param_int None = None"
  by (simp add: param_int_def)

lemma param_int_map_show [simp]:
  "pred_option positive_id v \<Longrightarrow> param_int (map_option show_int v) = v"
  by (cases v) simp_all

lemma split_on_no_sep_parts: "w \<in> set (split_on d s) \<Longrightarrow> d \<notin> set w"
  by (induction s arbitrary: w) (auto split: if_splits list.splits)

lemma param_list_wf: "list_all slug_ok (param_list v)"
  by (auto simp: param_list_def slug_ok_def list_all_iff dest: split_on_no_sep_parts
      split: option.split)

lemma param_list_None [simp]: "param_list None = []"
  by (simp add: param_list_def)

lemma param_list_join:
  assumes "list_all slug_ok ws"
  shows "param_list (join_param ws) = ws"
proof (cases "ws = []")
  case True
  then show ?thesis by (simp add: join_param_def)
next
  case False
  have "join [44] ws \<noteq> []"
    using False assms by (intro join_nonempty) (auto simp: list_all_iff slug_ok_def)
  moreover have "split_on 44 (join [44] ws) = ws"
    using False assms by (intro split_on_join) (auto simp: list_all_iff slug_ok_def)
  moreover have "filter (\<lambda>w. w \<noteq> []) ws = ws"
    using assms by (auto simp: filter_id_conv list_all_iff slug_ok_def)
  ultimately show ?thesis using False by (simp add: param_list_def join_param_def)
qed

lemma slug_ok_show_int: "positive_id n \<Longrightarrow> slug_ok (show_int n)"
  using show_int_pos_digits [of n 44] by (auto simp: slug_ok_def positive_id_def is_digit_def)

lemma slug_ok_priority: "slug_ok (priority_key_str k)"
  by (cases k) (simp_all add: slug_ok_def)

lemma parse_priority_str [simp]: "parse_priority (priority_key_str k) = Some k"
  by (cases k) (simp_all add: parse_priority_def)

lemma map_filter_map_some: "(\<And>x. x \<in> set xs \<Longrightarrow> f (g x) = Some x) \<Longrightarrow> List.map_filter f (map g xs) = xs"
  by (induction xs) (simp_all add: map_filter_simps)

lemma sort_key_str_inject [simp]: "sort_key_str a = sort_key_str b \<longleftrightarrow> a = b"
  by (cases a; cases b) simp_all

lemma sort_key_no_colon: "58 \<notin> set (sort_key_str k)"
  by (cases k) simp_all

lemma sort_dir_no_colon: "58 \<notin> set (sort_dir_str d)"
  by (cases d) simp_all

lemma find_sort_key: "List.find (\<lambda>k. k = key) SORT_KEYS = Some key"
  by (cases key) (simp_all add: SORT_KEYS_def)

lemma sort_dir_asc [simp]: "sort_dir_str d = lit ''asc'' \<longleftrightarrow> d = Asc"
  by (cases d) simp_all

lemma parse_serialize_sort: "parse_sort (serialize_sort s) = s"
proof (cases "s = DEFAULT_SORT")
  case True
  have "List.find (\<lambda>k. Some (sort_key_str k) = Some []) SORT_KEYS = None"
    by (simp add: SORT_KEYS_def)
  with True show ?thesis by (simp add: serialize_sort_def parse_sort_def nth_opt_def)
next
  case False
  obtain key dir where s: "s = (key, dir)" by force
  have "split_on 58 (sort_key_str key @ [58] @ sort_dir_str dir) = [sort_key_str key, sort_dir_str dir]"
    by (simp add: split_on_append split_on_no_sep sort_key_no_colon sort_dir_no_colon)
  with False s show ?thesis
    by (cases dir) (simp_all add: serialize_sort_def parse_sort_def nth_opt_def find_sort_key)
qed

lemma nullish_nonempty [simp]: "nullish (nonempty (Some s)) [] = s"
  by (cases s) simp_all

lemma serializeQuery_keys:
  "serializeQuery query ''priority'' = join_param (map priority_key_str (q_priority query))"
  "serializeQuery query ''type'' = join_param (map show_int (q_type query))"
  "serializeQuery query ''area'' = join_param (q_area query)"
  "serializeQuery query ''person'' = map_option show_int (q_person query)"
  "serializeQuery query ''mine'' = (if q_mine query then Some (lit ''1'') else None)"
  "serializeQuery query ''days'' = map_option show_int (q_days query)"
  "serializeQuery query ''q'' = nonempty (Some (q_q query))"
  "serializeQuery query ''sort'' = serialize_sort (q_sort query)"
  "serializeQuery query ''sel'' = map_option show_int (q_sel query)"
  "serializeQuery query ''open'' = map_option show_int (q_open query)"
  by (simp_all add: serializeQuery_def)

text \<open>
  Parsing what was serialized gives the query back, but for the state: \<open>open\<close> is written as an
  absent key, so it is read as the fallback.
\<close>

definition with_fallback :: "StateFilter \<Rightarrow> Query \<Rightarrow> Query" where
  "with_fallback fallback query =
     query\<lparr>q_state := (if q_state query = FOpen then fallback else q_state query)\<rparr>"

lemma parse_serialize_gen:
  assumes "wf_query query" and "\<And>k. k \<in> {''state'', ''priority'', ''type'', ''area'', ''person'',
      ''mine'', ''days'', ''q'', ''sort'', ''sel'', ''open''} \<Longrightarrow> params k = serializeQuery query k"
  shows "parseQuery params fallback = with_fallback fallback query"
proof -
  have ids: "list_all slug_ok (map show_int (q_type query))"
    using assms(1) slug_ok_show_int by (auto simp: wf_query_def list_all_iff)
  have pri: "list_all slug_ok (map priority_key_str (q_priority query))"
    using slug_ok_priority by (simp add: list_all_iff)
  have state: "nullish (parse_state_filter (serializeQuery query ''state'')) fallback =
      (if q_state query = FOpen then fallback else q_state query)"
    by (cases "q_state query") (auto simp: serializeQuery_def parse_state_filter_def)
  have types: "List.map_filter (\<lambda>t. param_int (Some t)) (map show_int (q_type query)) = q_type query"
    using assms(1) by (intro map_filter_map_some) (auto simp: wf_query_def list_all_iff)
  have pris: "List.map_filter parse_priority (map priority_key_str (q_priority query)) = q_priority query"
    by (intro map_filter_map_some) simp
  show ?thesis
    using assms(1)
    by (intro Query.equality)
      (simp_all add: parseQuery_def assms(2) serializeQuery_keys state param_list_join ids pri types
        pris parse_serialize_sort wf_query_def with_fallback_def)
qed

lemma parse_serialize_query:
  "wf_query query \<Longrightarrow> parseQuery (serializeQuery query) fallback = with_fallback fallback query"
  by (rule parse_serialize_gen) simp_all

lemma with_fallback_open [simp]: "with_fallback FOpen query = query"
  by (simp add: with_fallback_def)

lemma parseQuery_wf: "wf_query (parseQuery params fallback)"
proof -
  have "positive_id n" if "n \<in> set (List.map_filter (\<lambda>t. param_int (Some t)) ts)" for n ts
    using that param_int_wf by (auto simp: List.map_filter_def) (metis option.pred_inject(2))
  then show ?thesis
    using param_list_wf [of "params ''area''"]
    by (simp add: wf_query_def parseQuery_def param_int_wf list_all_iff)
qed

section \<open>The order of the rows\<close>

lemma column_comparison:
  assumes "comparison (locale_compare h)"
  shows "comparison (column_cmp h lookups key)"
  using comparison_key [OF assms] comparison_diff
  unfolding comparison_def by (cases key) (simp_all del: split_paired_All)

lemma row_comparison:
  assumes "comparison (locale_compare h)"
  shows "keyed_comparison (row_cmp h order lookups) row_number"
proof -
  have dir: "dir_num (snd order) = 1 \<or> dir_num (snd order) = -1" by (simp add: dir_num_def)
  have ties: "comparison (\<lambda>a b. row_number b - row_number a)"
    using comparison_reverse [OF comparison_diff [of row_number]] by simp
  have "comparison (\<lambda>a b. row_cmp h order lookups a b)"
    unfolding row_cmp_def
    by (intro comparison_tie comparison_dir column_comparison assms dir ties)
  then have "comparison (row_cmp h order lookups)" .
  moreover have "row_number a = row_number b" if "row_cmp h order lookups a b = 0" for a b
    using that dir by (auto simp: row_cmp_def or_num_def split: if_splits)
  ultimately show ?thesis
    by (simp add: keyed_comparison_def keyed_comparison_axioms_def)
qed

lemma toRows_iff: "(v, i) \<in> set (toRows views) \<longleftrightarrow> v \<in> set views \<and> iv_incident v = Some i"
  by (force simp: toRows_def List.map_filter_def)

lemma mset_toRows: "mset views = mset views' \<Longrightarrow> mset (toRows views) = mset (toRows views')"
  by (simp add: toRows_def List.map_filter_def)

lemma applyQuery_set:
  "set (applyQuery h views query lookups me now) =
     {row \<in> set (toRows views). row_kept h query lookups me now row}"
  by (simp add: applyQuery_def sortRows_def)

lemma applyQuery_sorted:
  assumes "comparison (locale_compare h)"
  shows "sorted_wrt (\<lambda>a b. row_cmp h (q_sort query) lookups a b \<le> 0)
    (applyQuery h views query lookups me now)"
  unfolding applyQuery_def sortRows_def
  by (rule comparison.sorted_js_sort [OF keyed_comparison.axioms(1) [OF row_comparison [OF assms]]])

lemma applyQuery_order_free:
  assumes "comparison (locale_compare h)" and "mset views = mset views'"
    and "inj_on row_number (set (toRows views))"
  shows "applyQuery h views query lookups me now = applyQuery h views' query lookups me now"
proof -
  have "mset (filter P (toRows views)) = mset (filter P (toRows views'))" for P
    by (simp add: mset_filter mset_toRows [OF assms(2)])
  moreover have "inj_on row_number (set (filter P (toRows views)))" for P
    using assms(3) by (auto simp: inj_on_def)
  ultimately show ?thesis
    unfolding applyQuery_def sortRows_def by (intro keyed_comparison.js_sort_unique [OF row_comparison [OF assms(1)]])
qed

section \<open>Properties\<close>


definition sample_query :: Query where
  "sample_query = \<lparr>q_state = FClosed, q_priority = [KHigh, KLow], q_type = [3, 14],
     q_area = [lit ''main-camp''], q_person = Some 9, q_mine = True, q_days = Some 2,
     q_q = lit ''lost'', q_sort = (SKSummary, Asc), q_sel = Some 12, q_open = None\<rparr>"

lemma sample_query_wf: "wf_query sample_query"
  by (simp add: wf_query_def sample_query_def positive_id_def num_finite_def slug_ok_def)


text \<open>
  What a row must meet to be shown, filter by filter; an empty list of choices filters nothing.
\<close>

definition passes :: "host \<Rightarrow> Query \<Rightarrow> Lookups \<Rightarrow> int \<Rightarrow> int \<Rightarrow> Row \<Rightarrow> bool" where
  "passes h query lookups me now row \<longleftrightarrow>
     (let i = snd row in
        (q_state query = FOpen \<longrightarrow> inc_state i = STATE_OPEN) \<and>
        (q_state query = FClosed \<longrightarrow> inc_state i = STATE_CLOSED) \<and>
        (q_priority query \<noteq> [] \<longrightarrow> priorityKey (inc_priority i) \<in> set (q_priority query)) \<and>
        (q_type query \<noteq> [] \<longrightarrow> set (q_type query) \<inter> set (inc_incidentTypeIds i) \<noteq> {}) \<and>
        (q_area query \<noteq> [] \<longrightarrow> nullish (row_area row) [] \<in> set (q_area query)) \<and>
        (\<forall>k. q_person query = Some k \<longrightarrow>
           (\<exists>p \<in> set (inc_people i). map_option ref_personId (ip_person p) = Some k)) \<and>
        (q_mine query \<longrightarrow> whyMineIncident (fst row) me \<noteq> None) \<and>
        (\<forall>d. q_days query = Some d \<longrightarrow> now - d * 86400000 \<le> time_of h (inc_started i)) \<and>
        (case bareNumber (q_q query) of
           Some n \<Rightarrow> starts_with (show_int (inc_number i)) (show_int n)
         | None \<Rightarrow> matcher h (q_q query) (row_haystack row lookups)))"

lemma row_kept_passes: "row_kept h query lookups me now row = passes h query lookups me now row"
proof -
  have guard: "(if P then False else Q) \<longleftrightarrow> \<not> P \<and> Q" for P Q by simp
  have area: "list_ex (\<lambda>i. i \<in> set xs) ys \<longleftrightarrow> set xs \<inter> set ys \<noteq> {}" for xs ys :: "int list"
    by (auto simp: list_ex_iff)
  have person: "(k \<noteq> None \<and> \<not> list_ex (\<lambda>p. f p = k) ps) \<longleftrightarrow>
      \<not> (\<forall>n. k = Some n \<longrightarrow> (\<exists>p \<in> set ps. f p = Some n))" for k :: "int option" and f ps
    by (cases k) (simp_all add: list_ex_iff)
  have since: "(case map_option g d of None \<Rightarrow> False | Some t \<Rightarrow> x < t) \<longleftrightarrow>
      \<not> (\<forall>n. d = Some n \<longrightarrow> g n \<le> x)" for d :: "int option" and g and x :: int
    by (cases d) (simp_all add: not_le)
  show ?thesis
    unfolding row_kept_def passes_def Let_def guard person since area
    by (simp only: de_Morgan_conj imp_conv_disj not_not)
qed

text \<open>
  C1: What the table shows. It holds exactly the loaded incidents that pass every filter and
  the search, each as often as it was loaded, ordered by the chosen column with the number as
  tie-break; and where the numbers are distinct the order does not depend on the order in which
  the incidents arrived.
\<close>

theorem table_shows_kept_rows_in_order:
  assumes "comparison (locale_compare h)"
  shows "mset (applyQuery h views query lookups me now) =
      mset (filter (passes h query lookups me now) (toRows views)) \<and>
    sorted_wrt (\<lambda>a b. row_cmp h (q_sort query) lookups a b \<le> 0)
      (applyQuery h views query lookups me now) \<and>
    (\<forall>views'. mset views' = mset views \<and> inj_on row_number (set (toRows views)) \<longrightarrow>
       applyQuery h views' query lookups me now = applyQuery h views query lookups me now)"
proof (intro conjI allI impI)
  show "mset (applyQuery h views query lookups me now) =
      mset (filter (passes h query lookups me now) (toRows views))"
    by (simp add: applyQuery_def sortRows_def row_kept_passes [abs_def])
  fix views' assume "mset views' = mset views \<and> inj_on row_number (set (toRows views))"
  then show "applyQuery h views' query lookups me now = applyQuery h views query lookups me now"
    using applyQuery_order_free [OF assms, of views views'] by simp
qed (rule applyQuery_sorted [OF assms])

definition sample_incident_view :: "int \<Rightarrow> str \<Rightarrow> IncidentView" where
  "sample_incident_view n summary =
     \<lparr>iv_incident = Some (blank_incident\<lparr>inc_number := n, inc_state := STATE_OPEN,
        inc_summary := Some summary\<rparr>), iv_viewerMayAddJournal = False\<rparr>"

definition bare_query :: Query where
  "bare_query = parseQuery Map.empty FOpen"

theorem table_shows_kept_rows_in_order_witness:
  "sorted_wrt (\<lambda>a b. row_number b \<le> row_number a)
     (applyQuery plain_host [sample_incident_view 3 [], sample_incident_view 8 []]
        bare_query \<lparr>lk_types = [], lk_areas = []\<rparr> 1 0)"
proof -
  have "comparison (locale_compare plain_host)"
    using code_unit.comparison_axioms by (simp add: plain_host_def)
  from table_shows_kept_rows_in_order [OF this, THEN conjunct2, THEN conjunct1]
  have *: "sorted_wrt (\<lambda>a b. row_cmp plain_host (q_sort bare_query) \<lparr>lk_types = [], lk_areas = []\<rparr> a b \<le> 0)
      (applyQuery plain_host [sample_incident_view 3 [], sample_incident_view 8 []]
        bare_query \<lparr>lk_types = [], lk_areas = []\<rparr> 1 0)" .
  have sort: "q_sort bare_query = (SKNumber, Desc)"
    using parse_serialize_sort [of DEFAULT_SORT]
    by (simp add: bare_query_def parseQuery_def serialize_sort_def DEFAULT_SORT_def)
  show ?thesis
    using * by (rule sorted_wrt_mono_rel [rotated]) (simp add: row_cmp_def or_num_def dir_num_def sort split: if_splits)
qed

end
