(* ===== verification/Route.thy ===== *)
theory Route
  imports Dispatch
begin

text \<open>
  The contract between a table's screen and its route. Each table (incidents, reports, people)
  keeps its whole view in the route's parameters: it parses them into a query, changes the query
  and writes it back with \<open>router.setParams\<close>, which replaces the query's keys and leaves the
  others. The locale \<open>route_state\<close> states what a table's parser and serializer owe each other,
  and what follows for selecting, opening, closing and for the effect that keeps the open row
  and the selected row in step; the tables interpret it.
\<close>

definition set_params :: "string list \<Rightarrow> Params \<Rightarrow> Params \<Rightarrow> Params" where
  "set_params keys new old k = (if k \<in> set keys then new k else old k)"

lemma set_params_other: "k \<notin> set keys \<Longrightarrow> set_params keys new old k = old k"
  by (simp add: set_params_def)

locale route_state =
  fixes parse :: "Params \<Rightarrow> 'q"
    and serialize :: "'q \<Rightarrow> Params"
    and keys :: "string list"
    and wf :: "'q \<Rightarrow> bool"
    and sel_of :: "'q \<Rightarrow> int option"
    and open_of :: "'q \<Rightarrow> int option"
    and with_sel :: "int option \<Rightarrow> 'q \<Rightarrow> 'q"
    and with_open :: "int option \<Rightarrow> 'q \<Rightarrow> 'q"
  assumes parse_wf: "wf (parse p)"
    and parse_back: "wf q \<Longrightarrow> (\<And>k. k \<in> set keys \<Longrightarrow> p k = serialize q k) \<Longrightarrow> parse p = q"
    and wf_with_sel: "wf q \<Longrightarrow> pred_option positive_id v \<Longrightarrow> wf (with_sel v q)"
    and wf_with_open: "wf q \<Longrightarrow> pred_option positive_id v \<Longrightarrow> wf (with_open v q)"
    and open_positive: "wf q \<Longrightarrow> open_of q = Some n \<Longrightarrow> positive_id n"
    and sel_with_sel: "sel_of (with_sel v q) = v"
    and open_with_sel: "open_of (with_sel v q) = open_of q"
    and open_with_open: "open_of (with_open v q) = v"
    and sel_with_open: "sel_of (with_open v q) = sel_of q"
begin

lemmas lens = sel_with_sel open_with_sel open_with_open sel_with_open

lemma parse_navigate: "wf q \<Longrightarrow> parse (set_params keys (serialize q) p) = q"
  by (rule parse_back) (simp_all add: set_params_def)

lemma parse_serialize: "wf q \<Longrightarrow> parse (serialize q) = q"
  by (rule parse_back) simp_all

lemma serialize_stable: "wf q \<Longrightarrow> serialize (parse (serialize q)) = serialize q"
  by (simp add: parse_serialize)

lemma after_select:
  "pred_option positive_id v \<Longrightarrow>
   parse (set_params keys (serialize (with_sel v (parse p))) p) = with_sel v (parse p)"
  by (intro parse_navigate wf_with_sel parse_wf)

lemma after_open:
  "positive_id n \<Longrightarrow>
   parse (set_params keys (serialize (with_open (Some n) (with_sel (Some n) (parse p)))) p) =
     with_open (Some n) (with_sel (Some n) (parse p))"
  by (intro parse_navigate wf_with_open wf_with_sel parse_wf) simp_all

lemma after_close:
  "parse (set_params keys (serialize (with_open None (parse p))) p) = with_open None (parse p)"
  by (intro parse_navigate wf_with_open parse_wf) simp

text \<open>One run of the effect, whatever its rows are: \<open>present\<close> tells which numbers are loaded.\<close>

lemma effect_in_step:
  assumes "step =
    (case open_of (parse p) of
       None \<Rightarrow> p
     | Some n \<Rightarrow>
         if loaded \<and> \<not> present n
         then set_params keys (serialize (with_sel None (with_open None (parse p)))) p
         else if sel_of (parse p) \<noteq> Some n
         then set_params keys (serialize (with_sel (Some n) (parse p))) p
         else p)"
  shows "case open_of (parse step) of
       None \<Rightarrow> True
     | Some n \<Rightarrow> sel_of (parse step) = Some n \<and> (loaded \<longrightarrow> present n)"
proof (cases "open_of (parse p)")
  case None
  with assms show ?thesis by simp
next
  case (Some n)
  have pos: "positive_id n" using open_positive [OF parse_wf Some] .
  have clear: "parse (set_params keys (serialize (with_sel None (with_open None (parse p)))) p) =
      with_sel None (with_open None (parse p))"
    by (intro parse_navigate wf_with_sel wf_with_open parse_wf) simp_all
  have pick: "parse (set_params keys (serialize (with_sel (Some n) (parse p))) p) =
      with_sel (Some n) (parse p)"
    using pos by (intro after_select) simp
  show ?thesis
    using assms Some by (simp add: clear pick lens)
qed

end

text \<open>The incident table's query, without the stored preference, meets the contract.\<close>

definition dispatch_keys :: "string list" where
  "dispatch_keys = [''state'', ''priority'', ''type'', ''area'', ''person'', ''mine'', ''days'', ''q'',
     ''sort'', ''sel'', ''open'']"

interpretation dispatch_route: route_state
  "\<lambda>p. parseQuery p FOpen" serializeQuery dispatch_keys wf_query q_sel q_open
  "\<lambda>v. q_sel_update (\<lambda>_. v)" "\<lambda>v. q_open_update (\<lambda>_. v)"
proof
  show "parseQuery p FOpen = q"
    if "wf_query q" "\<And>k. k \<in> set dispatch_keys \<Longrightarrow> p k = serializeQuery q k" for p q
    using parse_serialize_gen [OF that(1), of p FOpen] that(2) by (auto simp: dispatch_keys_def)
qed (auto simp: parseQuery_wf, auto simp: wf_query_def)

end
