(* ===== verification/DispatchView.thy ===== *)
theory DispatchView
  imports Route
begin

text \<open>
  The dispatch table around its query: the columns a table of a given width shows
  (\<open>features/dispatch/columns.ts\<close>), the open row's neighbours (\<open>neighbours.ts\<close>) and the state
  and actions of \<open>useDispatchQuery\<close>: the route's keys, the stored state preference, selection,
  opening, walking the rows, the search box's Enter and the effect that keeps \<open>open\<close> and \<open>sel\<close>
  in step.
\<close>

section \<open>Columns\<close>

record Column =
  col_key :: SortKey
  col_label :: str
  col_width :: "int option"
  col_right :: bool

definition COLUMNS :: "Column list" where
  "COLUMNS =
     [\<lparr>col_key = SKNumber, col_label = lit ''#'', col_width = Some 58, col_right = True\<rparr>,
      \<lparr>col_key = SKState, col_label = lit ''State'', col_width = Some 128, col_right = False\<rparr>,
      \<lparr>col_key = SKPriority, col_label = lit ''Priority'', col_width = Some 68, col_right = False\<rparr>,
      \<lparr>col_key = SKTypes, col_label = lit ''Type'', col_width = Some 150, col_right = False\<rparr>,
      \<lparr>col_key = SKArea, col_label = lit ''Area'', col_width = Some 130, col_right = False\<rparr>,
      \<lparr>col_key = SKSummary, col_label = lit ''Summary'', col_width = None, col_right = False\<rparr>,
      \<lparr>col_key = SKStarted, col_label = lit ''Started'', col_width = Some 72, col_right = True\<rparr>,
      \<lparr>col_key = SKModified, col_label = lit ''Changed'', col_width = Some 72, col_right = True\<rparr>,
      \<lparr>col_key = SKPeople, col_label = lit ''People'', col_width = Some 150, col_right = False\<rparr>]"

definition HIDE_ORDER :: "SortKey list" where
  "HIDE_ORDER = [SKPeople, SKStarted, SKTypes, SKArea, SKModified]"

definition ROW_PADDING :: int where
  "ROW_PADDING = 2 * 14"

definition CELL_GAP :: int where
  "CELL_GAP = 10"

definition SUMMARY_MIN :: int where
  "SUMMARY_MIN = 200"

definition summaryWidth :: "Column list \<Rightarrow> int \<Rightarrow> int" where
  "summaryWidth columns tableWidth =
     (let fixed = foldl (\<lambda>sum c. sum + nullish (col_width c) 0) 0 columns
      in tableWidth - ROW_PADDING - fixed - CELL_GAP * (int (length columns) - 1))"

text \<open>The loop over \<open>HIDE_ORDER\<close>, which stops as soon as the summary is wide enough.\<close>

fun hide_columns :: "SortKey list \<Rightarrow> Column list \<Rightarrow> int \<Rightarrow> Column list" where
  "hide_columns [] columns tableWidth = columns"
| "hide_columns (key # keys) columns tableWidth =
     (if SUMMARY_MIN \<le> summaryWidth columns tableWidth then columns
      else hide_columns keys (filter (\<lambda>c. col_key c \<noteq> key) columns) tableWidth)"

definition columnsFor :: "int \<Rightarrow> Column list" where
  "columnsFor tableWidth = hide_columns HIDE_ORDER COLUMNS tableWidth"

lemma hide_columns_keeps:
  "c \<in> set columns \<Longrightarrow> col_key c \<notin> set keys \<Longrightarrow> c \<in> set (hide_columns keys columns w)"
  by (induction keys columns w rule: hide_columns.induct) auto

lemma hide_columns_subseq: "subseq (hide_columns keys columns w) columns"
proof (induction keys columns w rule: hide_columns.induct)
  case (2 key keys columns w)
  then show ?case
    using subseq_filter_left subseq_order.trans by (metis hide_columns.simps(2) subseq_order.refl)
qed simp

lemma hide_columns_subset: "set (hide_columns keys columns w) \<subseteq> set columns"
  by (induction keys columns w rule: hide_columns.induct) auto

text \<open>What is hidden is hidden for need: either the summary fits, or every key is gone.\<close>

lemma hide_columns_fit:
  "SUMMARY_MIN \<le> summaryWidth (hide_columns keys columns w) w \<or>
   (\<forall>c \<in> set (hide_columns keys columns w). col_key c \<notin> set keys)"
proof (induction keys columns w rule: hide_columns.induct)
  case (2 key keys columns w)
  show ?case
  proof (cases "SUMMARY_MIN \<le> summaryWidth columns w")
    case False
    then show ?thesis
      using "2.IH" hide_columns_subset [of keys "filter (\<lambda>c. col_key c \<noteq> key) columns" w] by auto
  qed simp
qed simp

text \<open>A wider table never shows less.\<close>

lemma summaryWidth_mono: "w \<le> w' \<Longrightarrow> summaryWidth columns w \<le> summaryWidth columns w'"
  by (simp add: summaryWidth_def)

lemma hide_columns_mono:
  "w \<le> w' \<Longrightarrow> set (hide_columns keys columns w) \<subseteq> set (hide_columns keys columns w')"
proof (induction keys columns w rule: hide_columns.induct)
  case (2 key keys columns w)
  show ?case
  proof (cases "SUMMARY_MIN \<le> summaryWidth columns w")
    case True
    with summaryWidth_mono [OF "2.prems", of columns] show ?thesis by simp
  next
    case False
    with "2" hide_columns_subset [of keys "filter (\<lambda>c. col_key c \<noteq> key) columns" w] show ?thesis
      by auto
  qed
qed simp

section \<open>Neighbours and steps\<close>

definition neighboursOf :: "Row list \<Rightarrow> int \<Rightarrow> int option \<times> int option" where
  "neighboursOf visible number =
     (case find_index (\<lambda>row. row_number row = number) visible of
        None \<Rightarrow> (None, None)
      | Some index \<Rightarrow>
          (map_option row_number (nth_opt visible (int index - 1)),
           map_option row_number (nth_opt visible (int index + 1))))"

text \<open>
  The step of \<open>j\<close> and \<open>k\<close> over a list of \<open>n\<close> rows: from nowhere to the first or the last, else
  one row along, held at the ends.
\<close>

definition step_index :: "nat \<Rightarrow> nat option \<Rightarrow> int \<Rightarrow> int" where
  "step_index n index delta =
     (case index of
        None \<Rightarrow> if delta = 1 then 0 else int n - 1
      | Some i \<Rightarrow> min (int n - 1) (max 0 (int i + delta)))"

lemma step_index_in:
  "0 < n \<Longrightarrow> (\<And>i. index = Some i \<Longrightarrow> i < n) \<Longrightarrow>
   0 \<le> step_index n index delta \<and> step_index n index delta < int n"
  by (auto simp: step_index_def split: option.split)

section \<open>The state of the table\<close>

text \<open>
  The route's parameters, the stored preference once it is loaded, and the device it is stored on.
\<close>

record dispatch =
  ds_params :: Params
  ds_stored :: "StateFilter option"
  ds_stateLoaded :: bool
  ds_device :: device

text \<open>\<open>router.setParams\<close>: the keys of the query are replaced, the others stay.\<close>

definition setParams :: "Params \<Rightarrow> Params \<Rightarrow> Params" where
  "setParams new old = set_params dispatch_keys new old"

definition fallbackState :: "dispatch \<Rightarrow> StateFilter" where
  "fallbackState s = (if ds_stateLoaded s then nullish (ds_stored s) FOpen else FOpen)"

definition current_query :: "dispatch \<Rightarrow> Query" where
  "current_query s = parseQuery (ds_params s) (fallbackState s)"

text \<open>The route's own state, without the stored fallback.\<close>

definition rawState :: "dispatch \<Rightarrow> StateFilter" where
  "rawState s = q_state (parseQuery (ds_params s) FOpen)"

definition visible_rows ::
  "host \<Rightarrow> IncidentView list \<Rightarrow> Lookups \<Rightarrow> int \<Rightarrow> int \<Rightarrow> dispatch \<Rightarrow> Row list" where
  "visible_rows h rows lookups me now s = applyQuery h rows (current_query s) lookups me now"

definition byNumber :: "IncidentView list \<Rightarrow> int \<Rightarrow> Row option" where
  "byNumber rows = foldl (\<lambda>m row. m(row_number row \<mapsto> row)) Map.empty (toRows rows)"

definition selected_row :: "IncidentView list \<Rightarrow> dispatch \<Rightarrow> Row option" where
  "selected_row rows s = Option.bind (q_sel (current_query s)) (byNumber rows)"

definition opened_row :: "IncidentView list \<Rightarrow> dispatch \<Rightarrow> Row option" where
  "opened_row rows s = Option.bind (q_open (current_query s)) (byNumber rows)"

text \<open>The keys a patch may carry; a key that is present overrides, \<open>undefined\<close> included.\<close>

datatype change =
    ChState StateFilter
  | ChPriority "PriorityKey list"
  | ChType "int list"
  | ChArea "str list"
  | ChPerson "int option"
  | ChMine bool
  | ChDays "int option"
  | ChQ str
  | ChSort "SortKey \<times> SortDir"
  | ChSel "int option"
  | ChOpen "int option"

fun apply_change :: "change \<Rightarrow> Query \<Rightarrow> Query" where
  "apply_change (ChState v) query = query\<lparr>q_state := v\<rparr>"
| "apply_change (ChPriority v) query = query\<lparr>q_priority := v\<rparr>"
| "apply_change (ChType v) query = query\<lparr>q_type := v\<rparr>"
| "apply_change (ChArea v) query = query\<lparr>q_area := v\<rparr>"
| "apply_change (ChPerson v) query = query\<lparr>q_person := v\<rparr>"
| "apply_change (ChMine v) query = query\<lparr>q_mine := v\<rparr>"
| "apply_change (ChDays v) query = query\<lparr>q_days := v\<rparr>"
| "apply_change (ChQ v) query = query\<lparr>q_q := v\<rparr>"
| "apply_change (ChSort v) query = query\<lparr>q_sort := v\<rparr>"
| "apply_change (ChSel v) query = query\<lparr>q_sel := v\<rparr>"
| "apply_change (ChOpen v) query = query\<lparr>q_open := v\<rparr>"

fun patch_state :: "change list \<Rightarrow> StateFilter option" where
  "patch_state [] = None"
| "patch_state (ChState v # patch) = Some (nullish (patch_state patch) v)"
| "patch_state (c # patch) = patch_state patch"

definition navigate :: "Query \<Rightarrow> dispatch \<Rightarrow> dispatch" where
  "navigate target s = s\<lparr>ds_params := setParams (serializeQuery target) (ds_params s)\<rparr>"

definition setQuery :: "change list \<Rightarrow> dispatch \<Rightarrow> dispatch" where
  "setQuery patch s =
     (let s' =
        (case patch_state patch of
           None \<Rightarrow> s
         | Some f \<Rightarrow>
             s\<lparr>ds_stored := Some f, ds_device := saveStatePreference (ds_device s) f\<rparr>)
      in navigate (fold apply_change patch ((current_query s)\<lparr>q_state := rawState s\<rparr>)) s')"

definition setState :: "StateFilter \<Rightarrow> dispatch \<Rightarrow> dispatch" where
  "setState f = setQuery [ChState f]"

definition select :: "int option \<Rightarrow> dispatch \<Rightarrow> dispatch" where
  "select number = setQuery [ChSel number]"

definition open_row :: "int \<Rightarrow> dispatch \<Rightarrow> dispatch" where
  "open_row number s =
     navigate ((current_query s)\<lparr>q_state := rawState s, q_sel := Some number, q_open := Some number\<rparr>) s"

definition close_row :: "dispatch \<Rightarrow> dispatch" where
  "close_row = setQuery [ChOpen None]"

definition move :: "Row list \<Rightarrow> int \<Rightarrow> dispatch \<Rightarrow> dispatch" where
  "move visible delta s =
     (if visible = [] then s
      else
        (let index = find_index (\<lambda>row. Some (row_number row) = q_sel (current_query s)) visible;
             nextIndex = step_index (length visible) index delta
         in case map_option row_number (nth_opt visible nextIndex) of
              None \<Rightarrow> s
            | Some number \<Rightarrow>
                if q_open (current_query s) \<noteq> None then open_row number s
                else select (Some number) s))"

definition submitSearch :: "IncidentView list \<Rightarrow> Row list \<Rightarrow> dispatch \<Rightarrow> dispatch" where
  "submitSearch rows visible s =
     (case bareNumber (q_q (current_query s)) of
        Some number \<Rightarrow>
          if byNumber rows number \<noteq> None then open_row number s
          else if q_sel (current_query s) = None \<and> visible \<noteq> []
          then select (Some (row_number (hd visible))) s else s
      | None \<Rightarrow>
          if q_sel (current_query s) = None \<and> visible \<noteq> []
          then select (Some (row_number (hd visible))) s else s)"

text \<open>The effect that keeps the selection on what is open and drops an \<open>open\<close> whose row is gone.\<close>

definition normalise :: "IncidentView list \<Rightarrow> bool \<Rightarrow> dispatch \<Rightarrow> dispatch" where
  "normalise rows loaded s =
     (case q_open (current_query s) of
        None \<Rightarrow> s
      | Some number \<Rightarrow>
          if loaded \<and> byNumber rows number = None then setQuery [ChOpen None, ChSel None] s
          else if q_sel (current_query s) \<noteq> Some number then setQuery [ChSel (Some number)] s
          else s)"

text \<open>The answer of the stored preference's first read.\<close>

definition preference_loaded :: "StateFilter option \<Rightarrow> dispatch \<Rightarrow> dispatch" where
  "preference_loaded value s = s\<lparr>ds_stored := value, ds_stateLoaded := True\<rparr>"

section \<open>What an action leaves behind\<close>

lemma wf_current [simp]: "wf_query (current_query s)"
  by (simp add: current_query_def parseQuery_wf)

lemma parse_setParams:
  "wf_query target \<Longrightarrow>
   parseQuery (setParams (serializeQuery target) old) fallback = with_fallback fallback target"
  by (rule parse_serialize_gen) (auto simp: setParams_def set_params_def dispatch_keys_def)

lemma current_navigate:
  "wf_query target \<Longrightarrow> current_query (navigate target s) = with_fallback (fallbackState s) target"
  by (simp add: current_query_def navigate_def fallbackState_def parse_setParams)

lemma rawState_navigate: "wf_query target \<Longrightarrow> rawState (navigate target s) = q_state target"
  by (simp add: rawState_def navigate_def parse_setParams)

lemma wf_query_state [simp]: "wf_query (query\<lparr>q_state := f\<rparr>) = wf_query query"
  by (simp add: wf_query_def)

lemma wf_query_sel [simp]:
  "wf_query query \<Longrightarrow> wf_query (query\<lparr>q_sel := v\<rparr>) \<longleftrightarrow> pred_option positive_id v"
  by (auto simp: wf_query_def)

lemma wf_query_open [simp]:
  "wf_query query \<Longrightarrow> wf_query (query\<lparr>q_open := v\<rparr>) \<longleftrightarrow> pred_option positive_id v"
  by (auto simp: wf_query_def)

text \<open>The state a row-level action (selecting, opening, closing, moving) leaves the table with.\<close>

definition kept_state :: "dispatch \<Rightarrow> StateFilter" where
  "kept_state s = (if rawState s = FOpen then fallbackState s else rawState s)"

lemma current_select:
  assumes "pred_option positive_id v"
  shows "current_query (select v s) = (current_query s)\<lparr>q_state := kept_state s, q_sel := v\<rparr>"
  using assms
  by (simp add: select_def setQuery_def current_navigate with_fallback_def kept_state_def)

lemma current_open_row:
  assumes "positive_id n"
  shows "current_query (open_row n s) =
    (current_query s)\<lparr>q_state := kept_state s, q_sel := Some n, q_open := Some n\<rparr>"
proof -
  have "wf_query ((current_query s)\<lparr>q_state := rawState s, q_sel := Some n, q_open := Some n\<rparr>)"
    using assms wf_current [of s] by (simp add: wf_query_def)
  then show ?thesis
    by (simp add: open_row_def current_navigate with_fallback_def kept_state_def)
qed

lemma current_close_row:
  "current_query (close_row s) = (current_query s)\<lparr>q_state := kept_state s, q_open := None\<rparr>"
  by (simp add: close_row_def setQuery_def current_navigate with_fallback_def kept_state_def)

lemma current_clear_open:
  "current_query (setQuery [ChOpen None, ChSel None] s) =
    (current_query s)\<lparr>q_state := kept_state s, q_open := None, q_sel := None\<rparr>"
proof -
  have "wf_query ((current_query s)\<lparr>q_state := rawState s, q_open := None, q_sel := None\<rparr>)"
    using wf_current [of s] by (simp add: wf_query_def)
  then show ?thesis
    by (simp add: setQuery_def current_navigate with_fallback_def kept_state_def)
qed

lemma open_positive: "q_open (current_query s) = Some n \<Longrightarrow> positive_id n"
  using wf_current [of s] by (simp add: wf_query_def)

text \<open>What the effect establishes: an \<open>open\<close> is selected, and its row is loaded.\<close>

definition in_step :: "IncidentView list \<Rightarrow> bool \<Rightarrow> dispatch \<Rightarrow> bool" where
  "in_step rows loaded s \<longleftrightarrow>
     (\<forall>n. q_open (current_query s) = Some n \<longrightarrow>
        q_sel (current_query s) = Some n \<and> (loaded \<longrightarrow> byNumber rows n \<noteq> None))"

lemma normalise_in_step: "in_step rows loaded (normalise rows loaded s)"
proof (cases "q_open (current_query s)")
  case None
  then show ?thesis by (simp add: in_step_def normalise_def)
next
  case (Some n)
  note pos = open_positive [OF Some]
  have sel: "current_query (setQuery [ChSel (Some n)] s) =
      (current_query s)\<lparr>q_state := kept_state s, q_sel := Some n\<rparr>"
    using current_select [of "Some n" s] pos by (simp add: select_def)
  show ?thesis
    using Some by (auto simp: in_step_def normalise_def current_clear_open sel)
qed

lemma normalise_id: "in_step rows loaded s \<Longrightarrow> normalise rows loaded s = s"
  by (auto simp: in_step_def normalise_def split: option.split)

lemma nth_opt_step:
  assumes "visible \<noteq> []"
  shows "\<exists>row \<in> set visible.
    nth_opt visible (step_index (length visible) (find_index P visible) delta) = Some row"
proof -
  let ?i = "step_index (length visible) (find_index P visible) delta"
  have "0 \<le> ?i \<and> ?i < int (length visible)"
    using assms by (intro step_index_in) (auto simp: find_index_Some)
  then have "nth_opt visible ?i = Some (visible ! nat ?i)" and "nat ?i < length visible"
    by (auto simp: nth_opt_def)
  then show ?thesis by auto
qed

text \<open>A step lands on a row the table shows, and carries what is open along.\<close>

lemma move_lands:
  assumes "visible \<noteq> []" and "\<forall>row \<in> set visible. positive_id (row_number row)"
  shows "\<exists>row \<in> set visible.
    q_sel (current_query (move visible delta s)) = Some (row_number row) \<and>
    q_open (current_query (move visible delta s)) =
      (if q_open (current_query s) = None then None else Some (row_number row))"
proof -
  obtain row where row: "row \<in> set visible"
    and at: "nth_opt visible (step_index (length visible)
        (find_index (\<lambda>row. Some (row_number row) = q_sel (current_query s)) visible) delta) = Some row"
    using nth_opt_step [OF assms(1)] by blast
  have pos: "positive_id (row_number row)" using assms(2) row by blast
  have "move visible delta s =
      (if q_open (current_query s) \<noteq> None then open_row (row_number row) s
       else select (Some (row_number row)) s)"
    using assms(1) at by (simp add: move_def Let_def)
  with row pos show ?thesis
    by (intro bexI [of _ row]) (simp_all add: current_open_row current_select)
qed

text \<open>The preference reaches the route only through an explicit state.\<close>

lemma fold_change_state:
  "patch_state patch = None \<Longrightarrow> q_state (fold apply_change patch query) = q_state query"
proof (induction patch arbitrary: query)
  case (Cons c patch)
  then show ?case by (cases c) auto
qed simp

lemma rawState_absent: "parse_state_filter (ds_params s ''state'') = None \<Longrightarrow> rawState s = FOpen"
  by (simp add: rawState_def parseQuery_def)

lemma setQuery_no_leak:
  assumes "patch_state patch = None" and "parse_state_filter (ds_params s ''state'') = None"
  shows "ds_params (setQuery patch s) ''state'' = None"
    and "ds_device (setQuery patch s) = ds_device s"
  using fold_change_state [OF assms(1)] rawState_absent [OF assms(2)] assms(1)
  by (simp_all add: setQuery_def navigate_def setParams_def set_params_def dispatch_keys_def serializeQuery_def)

section \<open>Properties\<close>



text \<open>
  Walking the table with the keyboard lands on a row the table shows; with the drawer
  closed it only selects, with the drawer open it takes the drawer along; every other filter of
  the query stays as it was.
\<close>

theorem walking_lands_on_a_shown_row:
  assumes "visible \<noteq> []" and "\<forall>row \<in> set visible. positive_id (row_number row)"
  shows "\<exists>row \<in> set visible.
    current_query (move visible delta s) =
      (current_query s)\<lparr>q_state := kept_state s, q_sel := Some (row_number row),
        q_open := if q_open (current_query s) = None then None else Some (row_number row)\<rparr>"
proof -
  obtain row where row: "row \<in> set visible" and at: "nth_opt visible (step_index (length visible)
        (find_index (\<lambda>row. Some (row_number row) = q_sel (current_query s)) visible) delta) = Some row"
    using nth_opt_step [OF assms(1)] by blast
  have pos: "positive_id (row_number row)" using assms(2) row by blast
  have "move visible delta s =
      (if q_open (current_query s) \<noteq> None then open_row (row_number row) s
       else select (Some (row_number row)) s)"
    using assms(1) at by (simp add: move_def Let_def)
  with row pos show ?thesis
    by (intro bexI [of _ row]) (auto simp: current_open_row current_select intro!: Query.equality)
qed

definition sample_row :: "int \<Rightarrow> Row" where
  "sample_row n = (sample_incident_view n [], blank_incident\<lparr>inc_number := n\<rparr>)"

definition empty_dispatch :: dispatch where
  "empty_dispatch = \<lparr>ds_params = Map.empty, ds_stored = None, ds_stateLoaded = True, ds_device = Map.empty\<rparr>"

theorem walking_lands_on_a_shown_row_witness:
  "\<exists>n \<in> {4, 9}. q_sel (current_query (move [sample_row 9, sample_row 4] 1 empty_dispatch)) = Some n"
proof -
  have "\<exists>row \<in> set [sample_row 9, sample_row 4].
      current_query (move [sample_row 9, sample_row 4] 1 empty_dispatch) =
      (current_query empty_dispatch)\<lparr>q_state := kept_state empty_dispatch, q_sel := Some (row_number row),
        q_open := if q_open (current_query empty_dispatch) = None then None else Some (row_number row)\<rparr>"
    by (intro walking_lands_on_a_shown_row)
      (simp_all add: sample_row_def row_number_def positive_id_def num_finite_def)
  then show ?thesis by (auto simp: sample_row_def row_number_def)
qed

text \<open>
  C38: An explicit \<open>state=open\<close> does not survive a row action. On a device whose stored
  preference is another state, a link with \<open>state=open\<close> shows the open incidents, but
  selecting a row drops the key from the route, and the table then shows the stored state.
\<close>

theorem explicit_open_lost_on_select:
  assumes "ds_params s ''state'' = Some (lit ''open'')" and "ds_stateLoaded s"
    and "ds_stored s = Some f" and "positive_id n"
  shows "q_state (current_query s) = FOpen \<and>
    ds_params (select (Some n) s) ''state'' = None \<and>
    q_state (current_query (select (Some n) s)) = f"
proof -
  have raw: "rawState s = FOpen" and "q_state (current_query s) = FOpen" and "fallbackState s = f"
    using assms by (simp_all add: rawState_def current_query_def parseQuery_def
        parse_state_filter_def fallbackState_def)
  moreover have "current_query (select (Some n) s) = (current_query s)\<lparr>q_state := kept_state s, q_sel := Some n\<rparr>"
    using assms(4) by (intro current_select) simp
  moreover have "ds_params (select (Some n) s) ''state'' = None"
    by (simp add: select_def setQuery_def navigate_def setParams_def set_params_def dispatch_keys_def serializeQuery_def raw)
  ultimately show ?thesis by (simp add: kept_state_def)
qed

theorem explicit_open_lost_on_select_witness:
  "\<exists>s. ds_params s ''state'' = Some (lit ''open'') \<and> q_state (current_query s) = FOpen \<and>
     q_state (current_query (select (Some 5) s)) = FClosed"
proof -
  let ?s = "empty_dispatch\<lparr>ds_params := [''state'' \<mapsto> lit ''open''], ds_stored := Some FClosed\<rparr>"
  have "q_state (current_query ?s) = FOpen \<and> ds_params (select (Some 5) ?s) ''state'' = None \<and>
      q_state (current_query (select (Some 5) ?s)) = FClosed"
    by (rule explicit_open_lost_on_select) (simp_all add: empty_dispatch_def positive_id_def num_finite_def)
  then show ?thesis by (intro exI [of _ ?s]) simp
qed

end
