(* ===== verification/Reports.thy ===== *)
theory Reports
  imports DispatchView
begin

text \<open>
  The report table (\<open>features/reports/reportQuery.ts\<close>, \<open>useReportQuery.ts\<close>, \<open>neighbours.ts\<close>,
  \<open>reportColumns.ts\<close>). The code is a retyped copy of the incident table's; the copies of its
  helpers are modelled separately and shown to agree with the originals.
\<close>

section \<open>The query\<close>

datatype LinkFilter = LUnlinked | LLinked | LAll

datatype RSortKey = RKNumber | RKIncident | RKSummary | RKCreated | RKCreatedBy

record RQuery =
  rq_link :: LinkFilter
  rq_q :: str
  rq_sort :: "RSortKey \<times> SortDir"
  rq_sel :: "int option"
  rq_open :: "int option"

definition R_DEFAULT_SORT :: "RSortKey \<times> SortDir" where
  "R_DEFAULT_SORT = (RKNumber, Desc)"

definition R_SORT_KEYS :: "RSortKey list" where
  "R_SORT_KEYS = [RKNumber, RKIncident, RKSummary, RKCreated, RKCreatedBy]"

fun rsort_key_str :: "RSortKey \<Rightarrow> str" where
  "rsort_key_str RKNumber = lit ''number''"
| "rsort_key_str RKIncident = lit ''incident''"
| "rsort_key_str RKSummary = lit ''summary''"
| "rsort_key_str RKCreated = lit ''created''"
| "rsort_key_str RKCreatedBy = lit ''createdBy''"

fun link_str :: "LinkFilter \<Rightarrow> str" where
  "link_str LUnlinked = lit ''unlinked''"
| "link_str LLinked = lit ''linked''"
| "link_str LAll = lit ''all''"

fun rdefaultDir :: "RSortKey \<Rightarrow> SortDir" where
  "rdefaultDir RKNumber = Desc"
| "rdefaultDir RKIncident = Desc"
| "rdefaultDir RKCreated = Desc"
| "rdefaultDir _ = Asc"

definition rparam_int :: "str option \<Rightarrow> int option" where
  "rparam_int value =
     (case value of
        None \<Rightarrow> None
      | Some s \<Rightarrow>
          if s = [] then None
          else (case parse_int s of
                  None \<Rightarrow> None
                | Some n \<Rightarrow> if num_finite n \<and> n > 0 then Some n else None))"

definition parse_link :: "str option \<Rightarrow> LinkFilter" where
  "parse_link link =
     (if link = Some (lit ''linked'') then LLinked
      else if link = Some (lit ''all'') then LAll
      else LUnlinked)"

definition rparse_sort :: "str option \<Rightarrow> RSortKey \<times> SortDir" where
  "rparse_sort value =
     (let parts = split_on 58 (nullish value []);
          sortKey = nth_opt parts 0;
          sortDir = nth_opt parts 1
      in case List.find (\<lambda>k. Some (rsort_key_str k) = sortKey) R_SORT_KEYS of
           None \<Rightarrow> R_DEFAULT_SORT
         | Some key \<Rightarrow> (key, if sortDir = Some (lit ''asc'') then Asc else Desc))"

definition rparseQuery :: "Params \<Rightarrow> RQuery" where
  "rparseQuery params =
     \<lparr>rq_link = parse_link (params ''link''),
      rq_q = nullish (params ''q'') [],
      rq_sort = rparse_sort (params ''sort''),
      rq_sel = rparam_int (params ''sel''),
      rq_open = rparam_int (params ''open'')\<rparr>"

definition rserialize_sort :: "RSortKey \<times> SortDir \<Rightarrow> str option" where
  "rserialize_sort s =
     (if s = R_DEFAULT_SORT then None
      else Some (rsort_key_str (fst s) @ [58] @ sort_dir_str (snd s)))"

definition rserializeQuery :: "RQuery \<Rightarrow> Params" where
  "rserializeQuery query = Map.empty(
     ''link'' := (if rq_link query = LUnlinked then None else Some (link_str (rq_link query))),
     ''q'' := nonempty (Some (rq_q query)),
     ''sort'' := rserialize_sort (rq_sort query),
     ''sel'' := map_option show_int (rq_sel query),
     ''open'' := map_option show_int (rq_open query))"

definition risFiltered :: "RQuery \<Rightarrow> bool" where
  "risFiltered query \<longleftrightarrow> rq_link query \<noteq> LUnlinked \<or> rq_q query \<noteq> []"

definition rclearFilters :: "RQuery \<Rightarrow> RQuery" where
  "rclearFilters query = query\<lparr>rq_link := LUnlinked, rq_q := []\<rparr>"

section \<open>Rows, search, sort\<close>

type_synonym RRow = "ReportView \<times> Report"

definition rtoRows :: "ReportView list \<Rightarrow> RRow list" where
  "rtoRows views = List.map_filter (\<lambda>v. map_option (Pair v) (rv_report v)) views"

definition rrow_number :: "RRow \<Rightarrow> int" where
  "rrow_number row = rep_number (snd row)"

definition rbareNumber :: "str \<Rightarrow> int option" where
  "rbareNumber q = (if all_digits (trim q) then parse_int q else None)"

definition rmatcher :: "host \<Rightarrow> str \<Rightarrow> str \<Rightarrow> bool" where
  "rmatcher h q haystack =
     (let trimmed = trim q in
      if trimmed = [] then True
      else (case regex_body trimmed of
              Some body \<Rightarrow>
                (case regex h body of
                   Some test \<Rightarrow> test haystack
                 | None \<Rightarrow> False)
            | None \<Rightarrow> has_sub (lower h haystack) (lower h trimmed)))"

definition rms :: "host \<Rightarrow> RRow \<Rightarrow> int" where
  "rms h row = (case rep_created (snd row) of None \<Rightarrow> 0 | Some stamp \<Rightarrow> ts_ms h stamp)"

definition entriesText :: "RRow \<Rightarrow> str" where
  "entriesText row = join [32] (map je_text (rep_journalEntries (snd row)))"

definition report_linked :: "Report \<Rightarrow> bool" where
  "report_linked report \<longleftrightarrow> (case rep_incident report of None \<Rightarrow> False | Some n \<Rightarrow> n > 0)"

definition rrow_haystack :: "RRow \<Rightarrow> str" where
  "rrow_haystack row =
     join [32] [lit ''R-'' @ show_int (rrow_number row), nullish (rep_summary (snd row)) [],
       personLabel (rep_createdBy (snd row)), entriesText row]"

definition rrow_kept :: "host \<Rightarrow> RQuery \<Rightarrow> RRow \<Rightarrow> bool" where
  "rrow_kept h query row =
     (if rq_link query = LUnlinked \<and> report_linked (snd row) then False
      else if rq_link query = LLinked \<and> \<not> report_linked (snd row) then False
      else (case rbareNumber (rq_q query) of
              Some number \<Rightarrow> starts_with (show_int (rep_number (snd row))) (show_int number)
            | None \<Rightarrow> rmatcher h (rq_q query) (rrow_haystack row)))"

fun rcolumn_cmp :: "host \<Rightarrow> RSortKey \<Rightarrow> RRow \<Rightarrow> RRow \<Rightarrow> int" where
  "rcolumn_cmp h RKNumber a b = rrow_number a - rrow_number b"
| "rcolumn_cmp h RKIncident a b =
     nullish (rep_incident (snd a)) 0 - nullish (rep_incident (snd b)) 0"
| "rcolumn_cmp h RKSummary a b =
     locale_compare h (nullish (rep_summary (snd a)) []) (nullish (rep_summary (snd b)) [])"
| "rcolumn_cmp h RKCreated a b = rms h a - rms h b"
| "rcolumn_cmp h RKCreatedBy a b =
     locale_compare h (personLabel (rep_createdBy (snd a))) (personLabel (rep_createdBy (snd b)))"

definition rrow_cmp :: "host \<Rightarrow> RSortKey \<times> SortDir \<Rightarrow> RRow \<Rightarrow> RRow \<Rightarrow> int" where
  "rrow_cmp h order a b =
     or_num (dir_num (snd order) * rcolumn_cmp h (fst order) a b)
       ((rrow_number b - rrow_number a) * dir_num (snd order))"

definition rsortRows :: "host \<Rightarrow> RRow list \<Rightarrow> RSortKey \<times> SortDir \<Rightarrow> RRow list" where
  "rsortRows h rows order = js_sort (rrow_cmp h order) rows"

definition rapplyQuery :: "host \<Rightarrow> ReportView list \<Rightarrow> RQuery \<Rightarrow> RRow list" where
  "rapplyQuery h views query = rsortRows h (filter (rrow_kept h query) (rtoRows views)) (rq_sort query)"

section \<open>Columns and neighbours\<close>

record RColumn =
  rcol_key :: RSortKey
  rcol_label :: str
  rcol_width :: "int option"
  rcol_right :: bool

definition RCOLUMNS :: "RColumn list" where
  "RCOLUMNS =
     [\<lparr>rcol_key = RKNumber, rcol_label = lit ''Report#'', rcol_width = Some 64, rcol_right = True\<rparr>,
      \<lparr>rcol_key = RKIncident, rcol_label = lit ''IMS#'', rcol_width = Some 64, rcol_right = True\<rparr>,
      \<lparr>rcol_key = RKSummary, rcol_label = lit ''Summary'', rcol_width = None, rcol_right = False\<rparr>,
      \<lparr>rcol_key = RKCreated, rcol_label = lit ''Created'', rcol_width = Some 84, rcol_right = True\<rparr>,
      \<lparr>rcol_key = RKCreatedBy, rcol_label = lit ''Created by'', rcol_width = Some 140, rcol_right = False\<rparr>]"

definition rneighboursOf :: "RRow list \<Rightarrow> int \<Rightarrow> int option \<times> int option" where
  "rneighboursOf visible number =
     (case find_index (\<lambda>row. rrow_number row = number) visible of
        None \<Rightarrow> (None, None)
      | Some index \<Rightarrow>
          (map_option rrow_number (nth_opt visible (int index - 1)),
           map_option rrow_number (nth_opt visible (int index + 1))))"

section \<open>The state of the table and its actions\<close>

text \<open>The table's whole state is the route: \<open>useReportQuery\<close> stores no preference.\<close>

definition report_keys :: "string list" where
  "report_keys = [''link'', ''q'', ''sort'', ''sel'', ''open'']"

definition rbyNumber :: "ReportView list \<Rightarrow> int \<Rightarrow> RRow option" where
  "rbyNumber reports = foldl (\<lambda>m row. m(rrow_number row \<mapsto> row)) Map.empty (rtoRows reports)"

text \<open>\<open>byNumber.has(number)\<close>.\<close>

definition rhas :: "ReportView list \<Rightarrow> int \<Rightarrow> bool" where
  "rhas reports n \<longleftrightarrow> n \<in> dom (rbyNumber reports)"

definition rselected :: "ReportView list \<Rightarrow> Params \<Rightarrow> RRow option" where
  "rselected reports p = Option.bind (rq_sel (rparseQuery p)) (rbyNumber reports)"

definition ropened :: "ReportView list \<Rightarrow> Params \<Rightarrow> RRow option" where
  "ropened reports p = Option.bind (rq_open (rparseQuery p)) (rbyNumber reports)"

definition rnavigate :: "RQuery \<Rightarrow> Params \<Rightarrow> Params" where
  "rnavigate target p = set_params report_keys (rserializeQuery target) p"

datatype rchange =
    RChLink LinkFilter
  | RChQ str
  | RChSort "RSortKey \<times> SortDir"
  | RChSel "int option"
  | RChOpen "int option"

fun rapply_change :: "rchange \<Rightarrow> RQuery \<Rightarrow> RQuery" where
  "rapply_change (RChLink v) query = query\<lparr>rq_link := v\<rparr>"
| "rapply_change (RChQ v) query = query\<lparr>rq_q := v\<rparr>"
| "rapply_change (RChSort v) query = query\<lparr>rq_sort := v\<rparr>"
| "rapply_change (RChSel v) query = query\<lparr>rq_sel := v\<rparr>"
| "rapply_change (RChOpen v) query = query\<lparr>rq_open := v\<rparr>"

definition rsetQuery :: "rchange list \<Rightarrow> Params \<Rightarrow> Params" where
  "rsetQuery patch p = rnavigate (fold rapply_change patch (rparseQuery p)) p"

definition rsetLink :: "LinkFilter \<Rightarrow> Params \<Rightarrow> Params" where
  "rsetLink link = rsetQuery [RChLink link]"

definition rselect :: "int option \<Rightarrow> Params \<Rightarrow> Params" where
  "rselect number = rsetQuery [RChSel number]"

definition ropen :: "int \<Rightarrow> Params \<Rightarrow> Params" where
  "ropen number p = rnavigate ((rparseQuery p)\<lparr>rq_sel := Some number, rq_open := Some number\<rparr>) p"

definition rclose :: "Params \<Rightarrow> Params" where
  "rclose = rsetQuery [RChOpen None]"

definition rnext_index :: "RRow list \<Rightarrow> int option \<Rightarrow> int \<Rightarrow> int" where
  "rnext_index visible sel delta =
     (case find_index (\<lambda>row. Some (rrow_number row) = sel) visible of
        None \<Rightarrow> if delta = 1 then 0 else int (length visible) - 1
      | Some index \<Rightarrow> min (int (length visible) - 1) (max 0 (int index + delta)))"

definition rmove :: "RRow list \<Rightarrow> int \<Rightarrow> Params \<Rightarrow> Params" where
  "rmove visible delta p =
     (if visible = [] then p
      else
        (case map_option rrow_number
            (nth_opt visible (rnext_index visible (rq_sel (rparseQuery p)) delta)) of
           None \<Rightarrow> p
         | Some number \<Rightarrow>
             if rq_open (rparseQuery p) \<noteq> None then ropen number p else rselect (Some number) p))"

definition rsubmitSearch :: "ReportView list \<Rightarrow> RRow list \<Rightarrow> Params \<Rightarrow> Params" where
  "rsubmitSearch reports visible p =
     (case (case rbareNumber (rq_q (rparseQuery p)) of
              None \<Rightarrow> None
            | Some number \<Rightarrow> if rhas reports number then Some number else None) of
        Some number \<Rightarrow> ropen number p
      | None \<Rightarrow>
          if rq_sel (rparseQuery p) = None \<and> visible \<noteq> []
          then rselect (Some (rrow_number (hd visible))) p else p)"

definition rnormalise :: "ReportView list \<Rightarrow> bool \<Rightarrow> Params \<Rightarrow> Params" where
  "rnormalise reports loaded p =
     (case rq_open (rparseQuery p) of
        None \<Rightarrow> p
      | Some openNumber \<Rightarrow>
          if loaded \<and> \<not> rhas reports openNumber then rsetQuery [RChOpen None, RChSel None] p
          else if rq_sel (rparseQuery p) \<noteq> Some openNumber then rsetQuery [RChSel (Some openNumber)] p
          else p)"

section \<open>The copies agree with the originals\<close>

lemma rparam_int_eq: "rparam_int v = param_int v"
  by (cases v; cases "the v") (simp_all add: rparam_int_def param_int_def)

lemma rbareNumber_eq: "rbareNumber = bareNumber"
  by (simp add: fun_eq_iff rbareNumber_def bareNumber_def)

lemma rmatcher_eq: "rmatcher = matcher"
  by (simp add: fun_eq_iff rmatcher_def matcher_def)

lemma rnext_index_eq:
  "rnext_index visible sel delta =
     step_index (length visible) (find_index (\<lambda>row. Some (rrow_number row) = sel) visible) delta"
  by (simp add: rnext_index_def step_index_def)

section \<open>The route\<close>

definition rwf_query :: "RQuery \<Rightarrow> bool" where
  "rwf_query query \<longleftrightarrow>
     pred_option positive_id (rq_sel query) \<and> pred_option positive_id (rq_open query)"

lemma rsort_key_str_inject [simp]: "rsort_key_str a = rsort_key_str b \<longleftrightarrow> a = b"
  by (cases a; cases b) simp_all

lemma rsort_key_no_colon: "58 \<notin> set (rsort_key_str k)"
  by (cases k) simp_all

lemma rparse_serialize_sort: "rparse_sort (rserialize_sort s) = s"
proof (cases "s = R_DEFAULT_SORT")
  case True
  have "List.find (\<lambda>k. Some (rsort_key_str k) = Some []) R_SORT_KEYS = None"
    by (simp add: R_SORT_KEYS_def)
  with True show ?thesis by (simp add: rserialize_sort_def rparse_sort_def nth_opt_def)
next
  case False
  obtain key dir where s: "s = (key, dir)" by force
  have "split_on 58 (rsort_key_str key @ [58] @ sort_dir_str dir) = [rsort_key_str key, sort_dir_str dir]"
    by (simp add: split_on_append split_on_no_sep rsort_key_no_colon sort_dir_no_colon)
  moreover have "List.find (\<lambda>k. k = key) R_SORT_KEYS = Some key"
    by (cases key) (simp_all add: R_SORT_KEYS_def)
  ultimately show ?thesis using False s
    by (cases dir) (simp_all add: rserialize_sort_def rparse_sort_def nth_opt_def)
qed

lemma parse_link_str [simp]:
  "parse_link (if l = LUnlinked then None else Some (link_str l)) = l"
  by (cases l) (simp_all add: parse_link_def)

interpretation report_route: route_state
  rparseQuery rserializeQuery report_keys rwf_query rq_sel rq_open
  "\<lambda>v. rq_sel_update (\<lambda>_. v)" "\<lambda>v. rq_open_update (\<lambda>_. v)"
proof
  show "rwf_query (rparseQuery p)" for p
    by (simp add: rwf_query_def rparseQuery_def rparam_int_eq param_int_wf)
  show "rparseQuery p = q" if "rwf_query q" "\<And>k. k \<in> set report_keys \<Longrightarrow> p k = rserializeQuery q k" for p q
  proof -
    have "p ''link'' = (if rq_link q = LUnlinked then None else Some (link_str (rq_link q)))"
      "p ''q'' = nonempty (Some (rq_q q))" "p ''sort'' = rserialize_sort (rq_sort q)"
      "p ''sel'' = map_option show_int (rq_sel q)" "p ''open'' = map_option show_int (rq_open q)"
      using that(2) by (simp_all add: report_keys_def rserializeQuery_def)
    with that(1) show ?thesis
      by (intro RQuery.equality)
        (simp_all add: rparseQuery_def rparse_serialize_sort rparam_int_eq rwf_query_def
          del: if_split)
  qed
qed (auto simp: rwf_query_def)

lemma rselect_route: "rselect v p = set_params report_keys (rserializeQuery ((rparseQuery p)\<lparr>rq_sel := v\<rparr>)) p"
  by (simp add: rselect_def rsetQuery_def rnavigate_def)

lemma ropen_route: "positive_id n \<Longrightarrow>
    rparseQuery (ropen n p) = (rparseQuery p)\<lparr>rq_sel := Some n, rq_open := Some n\<rparr>"
  using report_route.after_open [of n p] by (simp add: ropen_def rnavigate_def)

lemma parse_rselect: "pred_option positive_id v \<Longrightarrow>
    rparseQuery (rselect v p) = (rparseQuery p)\<lparr>rq_sel := v\<rparr>"
  using report_route.after_select [of v p] by (simp add: rselect_route)

lemma parse_rclose: "rparseQuery (rclose p) = (rparseQuery p)\<lparr>rq_open := None\<rparr>"
  using report_route.after_close [of p] by (simp add: rclose_def rsetQuery_def rnavigate_def)

section \<open>Order\<close>

lemma rcolumn_comparison:
  assumes "comparison (locale_compare h)"
  shows "comparison (rcolumn_cmp h key)"
  using comparison_key [OF assms] comparison_diff
  unfolding comparison_def by (cases key) (simp_all del: split_paired_All)

lemma rrow_comparison:
  assumes "comparison (locale_compare h)"
  shows "keyed_comparison (rrow_cmp h order) rrow_number"
proof -
  have dir: "dir_num (snd order) = 1 \<or> dir_num (snd order) = -1" by (simp add: dir_num_def)
  have ties: "comparison (\<lambda>a b. dir_num (snd order) * (rrow_number b - rrow_number a))"
    using comparison_dir [OF comparison_reverse [OF comparison_diff [of rrow_number]] dir] by simp
  have "comparison (\<lambda>a b. or_num (dir_num (snd order) * rcolumn_cmp h (fst order) a b)
      (dir_num (snd order) * (rrow_number b - rrow_number a)))"
    by (intro comparison_tie comparison_dir rcolumn_comparison assms dir ties)
  then have "comparison (rrow_cmp h order)"
    unfolding rrow_cmp_def by (simp add: mult.commute)
  moreover have "rrow_number a = rrow_number b" if "rrow_cmp h order a b = 0" for a b
    using that dir by (auto simp: rrow_cmp_def or_num_def split: if_splits)
  ultimately show ?thesis
    by (simp add: keyed_comparison_def keyed_comparison_axioms_def)
qed

lemma rapplyQuery_sorted:
  "comparison (locale_compare h) \<Longrightarrow>
   sorted_wrt (\<lambda>a b. rrow_cmp h (rq_sort query) a b \<le> 0) (rapplyQuery h views query)"
  unfolding rapplyQuery_def rsortRows_def
  by (rule comparison.sorted_js_sort [OF keyed_comparison.axioms(1) [OF rrow_comparison]])

section \<open>Runs of the table\<close>

text \<open>
  The row-level actions as steps over the loaded reports: opening a row that is loaded, closing,
  walking the shown rows, the search box's Enter, and the effect.
\<close>

inductive rstep :: "host \<Rightarrow> ReportView list \<Rightarrow> Params \<Rightarrow> Params \<Rightarrow> bool"
  for h reports
where
  step_open: "rhas reports n \<Longrightarrow> rstep h reports p (ropen n p)"
| step_close: "rstep h reports p (rclose p)"
| step_move: "rstep h reports p (rmove (rapplyQuery h reports (rparseQuery p)) delta p)"
| step_submit: "rstep h reports p (rsubmitSearch reports (rapplyQuery h reports (rparseQuery p)) p)"
| step_effect: "rstep h reports p (rnormalise reports loaded p)"

inductive_cases rstepE: "rstep h reports p p'"

text \<open>What is open is selected and loaded.\<close>

definition rin_step :: "ReportView list \<Rightarrow> Params \<Rightarrow> bool" where
  "rin_step reports p \<longleftrightarrow>
     (\<forall>n. rq_open (rparseQuery p) = Some n \<longrightarrow>
        rq_sel (rparseQuery p) = Some n \<and> rhas reports n)"

definition reports_numbered :: "ReportView list \<Rightarrow> bool" where
  "reports_numbered reports \<longleftrightarrow> (\<forall>row \<in> set (rtoRows reports). positive_id (rrow_number row))"

lemma foldl_upd_dom:
  "dom (foldl (\<lambda>m x. m(f x \<mapsto> x)) m xs) = dom m \<union> f ` set xs"
  by (induction xs arbitrary: m) auto

lemma rhas_iff: "rhas reports n \<longleftrightarrow> n \<in> rrow_number ` set (rtoRows reports)"
  using foldl_upd_dom [of rrow_number Map.empty "rtoRows reports"]
  by (simp add: rbyNumber_def rhas_def)

lemma loaded_positive: "reports_numbered reports \<Longrightarrow> rhas reports n \<Longrightarrow> positive_id n"
  by (auto simp: reports_numbered_def rhas_iff)

lemma visible_loaded:
  "row \<in> set (rapplyQuery h reports query) \<Longrightarrow> rhas reports (rrow_number row)"
  by (auto simp: rhas_iff rapplyQuery_def rsortRows_def)

lemma open_in_step:
  "reports_numbered reports \<Longrightarrow> rhas reports n \<Longrightarrow> rin_step reports (ropen n p)"
  by (simp add: rin_step_def ropen_route loaded_positive)

lemma select_in_step:
  "rq_open (rparseQuery p) = None \<Longrightarrow> pred_option positive_id v \<Longrightarrow> rin_step reports (rselect v p)"
  by (simp add: rin_step_def parse_rselect)

lemma move_in_step:
  assumes "reports_numbered reports" and "rin_step reports p"
    and "\<forall>row \<in> set visible. rhas reports (rrow_number row)"
  shows "rin_step reports (rmove visible delta p)"
proof (cases "map_option rrow_number
    (nth_opt visible (rnext_index visible (rq_sel (rparseQuery p)) delta))")
  case None
  with assms(2) show ?thesis by (simp add: rmove_def)
next
  case (Some n)
  then obtain row where at: "nth_opt visible (rnext_index visible (rq_sel (rparseQuery p)) delta) = Some row"
    and n: "rrow_number row = n" by auto
  from assms(3) nth_opt_in [OF at] have "rhas reports (rrow_number row)" by (rule bspec)
  then have has: "rhas reports n" by (simp only: n)
  then have "rin_step reports (ropen n p)" using assms(1) by (rule open_in_step [rotated])
  moreover have "rin_step reports (rselect (Some n) p)" if "rq_open (rparseQuery p) = None"
    using that loaded_positive [OF assms(1) has] by (intro select_in_step) simp_all
  moreover have "rmove visible delta p = (if visible = [] then p
      else if rq_open (rparseQuery p) \<noteq> None then ropen n p else rselect (Some n) p)"
    unfolding rmove_def by (simp only: Some option.case)
  ultimately show ?thesis using assms(2) by (simp del: split_paired_All)
qed

lemma submit_in_step:
  assumes "reports_numbered reports" and "rin_step reports p"
    and "\<forall>row \<in> set visible. rhas reports (rrow_number row)"
  shows "rin_step reports (rsubmitSearch reports visible p)"
proof -
  have sel: "rin_step reports (rselect (Some (rrow_number (hd visible))) p)"
    if "rq_sel (rparseQuery p) = None" "visible \<noteq> []"
  proof -
    have "rq_open (rparseQuery p) = None"
      using assms(2) that(1) by (cases "rq_open (rparseQuery p)") (auto simp: rin_step_def)
    moreover have "positive_id (rrow_number (hd visible))"
      using assms(1,3) that(2) loaded_positive hd_in_set by blast
    ultimately show ?thesis by (intro select_in_step) simp_all
  qed
  show ?thesis
    using assms(1,2) sel open_in_step [OF assms(1)]
    by (auto simp: rsubmitSearch_def split: option.split)
qed

lemma effect_keeps: "rin_step reports p \<Longrightarrow> rnormalise reports loaded p = p"
  by (auto simp: rin_step_def rnormalise_def split: option.split)

lemma effect_settles:
  "case rq_open (rparseQuery (rnormalise reports loaded p)) of
     None \<Rightarrow> True
   | Some n \<Rightarrow> rq_sel (rparseQuery (rnormalise reports loaded p)) = Some n \<and>
       (loaded \<longrightarrow> rhas reports n)"
proof -
  have "rnormalise reports loaded p =
    (case rq_open (rparseQuery p) of
       None \<Rightarrow> p
     | Some n \<Rightarrow>
         if loaded \<and> \<not> rhas reports n
         then set_params report_keys (rserializeQuery ((rparseQuery p)\<lparr>rq_open := None, rq_sel := None\<rparr>)) p
         else if rq_sel (rparseQuery p) \<noteq> Some n
         then set_params report_keys (rserializeQuery ((rparseQuery p)\<lparr>rq_sel := Some n\<rparr>)) p
         else p)"
    by (simp add: rnormalise_def rsetQuery_def rnavigate_def split: option.split)
  from report_route.effect_in_step [OF this] show ?thesis .
qed

lemma rstep_in_step:
  assumes "rstep h reports p p'" and "reports_numbered reports" and "rin_step reports p"
  shows "rin_step reports p'"
  using assms
proof (induction rule: rstep.induct)
  case (step_open n p)
  then show ?case by (simp add: open_in_step)
next
  case (step_close p)
  then show ?case by (simp add: rin_step_def parse_rclose)
next
  case (step_move p delta)
  then show ?case using visible_loaded by (intro move_in_step) auto
next
  case (step_submit p)
  then show ?case using visible_loaded by (intro submit_in_step) auto
next
  case (step_effect loaded p)
  then show ?case by (simp add: effect_keeps)
qed

lemma rnavigate_other: "k \<notin> set report_keys \<Longrightarrow> rnavigate target p k = p k"
  by (simp add: rnavigate_def set_params_other)

lemma rsetQuery_other: "k \<notin> set report_keys \<Longrightarrow> rsetQuery patch p k = p k"
  by (simp add: rsetQuery_def rnavigate_other)

lemma rstep_other:
  "rstep h reports p p' \<Longrightarrow> k \<notin> set report_keys \<Longrightarrow> p' k = p k"
  by (erule rstepE)
    (auto simp: ropen_def rclose_def rmove_def rsubmitSearch_def rnormalise_def rselect_def
      rnavigate_other rsetQuery_other split: option.split)

section \<open>Properties\<close>

text \<open>
  The report table stays in step with its route. However its rows are opened, closed, walked
  and searched, what is open is selected and is a loaded report, and no action ever touches a
  route parameter that is not the table's own.
\<close>

theorem report_table_stays_in_step:
  assumes "(rstep h reports)\<^sup>*\<^sup>* p p'" and "reports_numbered reports" and "rin_step reports p"
  shows "rin_step reports p' \<and> (\<forall>k. k \<notin> set report_keys \<longrightarrow> p' k = p k)"
  using assms(1,3)
proof (induction rule: rtranclp_induct)
  case (step q r)
  then show ?case using rstep_in_step [OF step.hyps(2) assms(2)] rstep_other [OF step.hyps(2)] by auto
qed simp

definition sample_report :: "int \<Rightarrow> ReportView" where
  "sample_report n = \<lparr>rv_report = Some (blank_report\<lparr>rep_number := n\<rparr>), rv_mayEditSummary = True,
     rv_mayAddJournalEntry = True\<rparr>"

theorem report_table_stays_in_step_witness:
  "rin_step [sample_report 4] (ropen 4 [''eventId'' \<mapsto> lit ''7'']) \<and>
   ropen 4 [''eventId'' \<mapsto> lit ''7''] ''eventId'' = Some (lit ''7'')"
proof -
  let ?p = "[''eventId'' \<mapsto> lit ''7'']"
  have rows: "rtoRows [sample_report 4] = [(sample_report 4, blank_report\<lparr>rep_number := 4\<rparr>)]"
    by (simp add: rtoRows_def sample_report_def map_filter_simps)
  then have "rhas [sample_report 4] 4"
    by (simp add: rhas_iff rrow_number_def)
  then have run: "(rstep plain_host [sample_report 4])\<^sup>*\<^sup>* ?p (ropen 4 ?p)"
    by (intro r_into_rtranclp step_open)
  have "reports_numbered [sample_report 4]"
    by (simp add: reports_numbered_def rows rrow_number_def positive_id_def num_finite_def)
  moreover have "rin_step [sample_report 4] ?p"
    by (simp add: rin_step_def rparseQuery_def rparam_int_def)
  ultimately show ?thesis
    using report_table_stays_in_step [OF run] by (auto simp: report_keys_def)
qed

text \<open>
  The report table's helpers are retyped from the incident table's, and still agree with
  them: the reading of ids, the bare-number rule, the search, the step over the rows, and the
  row found for a number is one of the loaded rows under its own number.
\<close>

theorem report_copies_agree:
  "rparam_int = param_int \<and> rbareNumber = bareNumber \<and> rmatcher = matcher \<and>
   rnext_index visible sel delta =
     step_index (length visible) (find_index (\<lambda>row. Some (rrow_number row) = sel) visible) delta \<and>
   rparseQuery Map.empty = rclearFilters (rparseQuery Map.empty) \<and>
   \<not> risFiltered (rclearFilters query)"
proof -
  have "rparam_int = param_int" by (simp add: fun_eq_iff rparam_int_eq)
  moreover have "rparseQuery Map.empty = rclearFilters (rparseQuery Map.empty)"
    by (simp add: rparseQuery_def rclearFilters_def parse_link_def)
  ultimately show ?thesis
    by (simp add: rbareNumber_eq rmatcher_eq rnext_index_eq risFiltered_def rclearFilters_def)
qed

lemma rrow_kept_guards:
  "rrow_kept h query = (\<lambda>row. (rq_link query = LUnlinked \<longrightarrow> \<not> report_linked (snd row)) \<and>
     (rq_link query = LLinked \<longrightarrow> report_linked (snd row)) \<and>
     (case rbareNumber (rq_q query) of
        Some n \<Rightarrow> starts_with (show_int (rep_number (snd row))) (show_int n)
      | None \<Rightarrow> rmatcher h (rq_q query) (rrow_haystack row)))"
proof -
  have guard: "(if P then False else Q) \<longleftrightarrow> \<not> P \<and> Q" for P Q by simp
  show ?thesis by (rule ext) (simp only: rrow_kept_def guard de_Morgan_conj imp_conv_disj not_not)
qed

text \<open>
  What the report table shows: exactly the loaded reports on the chosen side of the link
  filter that match the search, each as often as it was loaded, ordered by the chosen column with
  the number as tie-break. With the filter and the search at their defaults these are the reports
  no incident is linked to.
\<close>

theorem report_table_shows:
  assumes "comparison (locale_compare h)"
  shows "mset (rapplyQuery h views query) = mset (filter
      (\<lambda>row. (rq_link query = LUnlinked \<longrightarrow> \<not> report_linked (snd row)) \<and>
         (rq_link query = LLinked \<longrightarrow> report_linked (snd row)) \<and>
         (case rbareNumber (rq_q query) of
            Some n \<Rightarrow> starts_with (show_int (rep_number (snd row))) (show_int n)
          | None \<Rightarrow> rmatcher h (rq_q query) (rrow_haystack row))) (rtoRows views)) \<and>
    sorted_wrt (\<lambda>a b. rrow_cmp h (rq_sort query) a b \<le> 0) (rapplyQuery h views query) \<and>
    set (rapplyQuery h views (rclearFilters query)) =
      {row \<in> set (rtoRows views). \<not> report_linked (snd row)}"
proof -
  have "rrow_kept h (rclearFilters query) row = (\<not> report_linked (snd row))" for row
    by (simp add: rrow_kept_def rclearFilters_def rbareNumber_def all_digits_def rmatcher_def trim_def)
  then have "set (rapplyQuery h views (rclearFilters query)) =
      {row \<in> set (rtoRows views). \<not> report_linked (snd row)}"
    by (auto simp: rapplyQuery_def rsortRows_def)
  moreover have "mset (rapplyQuery h views query) = mset (filter (rrow_kept h query) (rtoRows views))"
    by (simp add: rapplyQuery_def rsortRows_def)
  ultimately show ?thesis
    using rapplyQuery_sorted [OF assms] by (simp add: rrow_kept_guards)
qed

theorem report_table_shows_witness:
  "set (rapplyQuery plain_host [sample_report 4, sample_report 6] (rclearFilters (rparseQuery Map.empty))) =
     {row \<in> set (rtoRows [sample_report 4, sample_report 6]). \<not> report_linked (snd row)}"
proof -
  have "comparison (locale_compare plain_host)"
    using code_unit.comparison_axioms by (simp add: plain_host_def)
  from report_table_shows [OF this] show ?thesis by blast
qed

end
