(* ===== verification/Keyboard.thy ===== *)
theory Keyboard
  imports Reports
begin

text \<open>
  The keyboard of the tables (\<open>features/dispatch/useKeyboardMap.ts\<close>), web only: one key event is
  mapped to the one callback it calls, given what the screen passes in. What the callbacks do to
  the report table's route is \<open>Reports\<close>; the incident table's is \<open>DispatchView\<close>. A callback the
  caller leaves out is called with \<open>?.\<close>, so its action then does nothing.
\<close>

section \<open>Events and actions\<close>

record key_event =
  ke_key :: string
  ke_metaKey :: bool
  ke_ctrlKey :: bool
  ke_altKey :: bool
  ke_inInput :: bool

datatype key_action =
    ActBlur
  | ActSetHelp bool
  | ActClose
  | ActSelect "int option"
  | ActClearSearch
  | ActFocusSearch
  | ActMove int
  | ActFull
  | ActOpen int
  | ActNew
  | ActFocusComposer
  | ActToggleSystem
  | ActClosePanel

record key_deps =
  kd_open :: "int option"
  kd_sel :: "int option"
  kd_q :: "str option"
  kd_help :: bool

definition modified :: "key_event \<Rightarrow> bool" where
  "modified e \<longleftrightarrow> ke_metaKey e \<or> ke_ctrlKey e \<or> ke_altKey e"

text \<open>The branch of \<open>Escape\<close>: one layer at a time.\<close>

definition onEscape :: "key_deps \<Rightarrow> bool \<Rightarrow> key_action option" where
  "onEscape d inInput =
     (if inInput then Some ActBlur
      else if kd_help d then Some (ActSetHelp False)
      else if kd_open d \<noteq> None then Some ActClose
      else if kd_sel d \<noteq> None then Some (ActSelect None)
      else if nonempty (kd_q d) \<noteq> None then Some ActClearSearch
      else None)"

text \<open>The key switch; the flag is \<open>preventDefault\<close>.\<close>

definition onPlainKey :: "key_deps \<Rightarrow> string \<Rightarrow> bool \<times> key_action option" where
  "onPlainKey d key =
     (if key = ''/'' then (True, Some ActFocusSearch)
      else if key = ''j'' \<or> key = ''ArrowDown'' then (True, Some (ActMove 1))
      else if key = ''k'' \<or> key = ''ArrowUp'' then (True, Some (ActMove (-1)))
      else if key = ''Enter'' then
        (False,
          if kd_open d \<noteq> None then Some ActFull
          else (case kd_sel d of Some n \<Rightarrow> Some (ActOpen n) | None \<Rightarrow> Some (ActMove 1)))
      else if key = ''n'' then (False, Some ActNew)
      else if key = ''a'' then (if kd_open d \<noteq> None then (True, Some ActFocusComposer) else (False, None))
      else if key = ''h'' then (False, if kd_open d \<noteq> None then Some ActToggleSystem else None)
      else if key = ''?'' then (False, Some (ActSetHelp (\<not> kd_help d)))
      else (False, None))"

definition onKey :: "bool \<Rightarrow> key_deps \<Rightarrow> key_event \<Rightarrow> bool \<times> key_action option" where
  "onKey focused d e =
     (if \<not> focused then (False, None)
      else if modified e then (False, None)
      else if ke_key e = ''Escape'' then (False, onEscape d (ke_inInput e))
      else if ke_inInput e then (False, None)
      else onPlainKey d (ke_key e))"

section \<open>The keys on the report table\<close>

text \<open>
  The report table's screen: the overlay of shortcuts, whether an input has the focus, and the
  route. \<open>ActFull\<close>, \<open>ActNew\<close> and the open screen's handles leave the table alone.
\<close>

record report_screen =
  rs_help :: bool
  rs_typing :: bool
  rs_route :: Params

definition rdeps :: "report_screen \<Rightarrow> key_deps" where
  "rdeps s = \<lparr>kd_open = rq_open (rparseQuery (rs_route s)), kd_sel = rq_sel (rparseQuery (rs_route s)),
     kd_q = Some (rq_q (rparseQuery (rs_route s))), kd_help = rs_help s\<rparr>"

fun rperform :: "host \<Rightarrow> ReportView list \<Rightarrow> key_action option \<Rightarrow> report_screen \<Rightarrow> report_screen" where
  "rperform h reports (Some ActBlur) s = s\<lparr>rs_typing := False\<rparr>"
| "rperform h reports (Some (ActSetHelp b)) s = s\<lparr>rs_help := b\<rparr>"
| "rperform h reports (Some ActClose) s = s\<lparr>rs_route := rclose (rs_route s)\<rparr>"
| "rperform h reports (Some (ActSelect v)) s = s\<lparr>rs_route := rselect v (rs_route s)\<rparr>"
| "rperform h reports (Some ActClearSearch) s = s\<lparr>rs_route := rsetQuery [RChQ []] (rs_route s)\<rparr>"
| "rperform h reports (Some ActFocusSearch) s = s\<lparr>rs_typing := True\<rparr>"
| "rperform h reports (Some (ActMove delta)) s =
     s\<lparr>rs_route := rmove (rapplyQuery h reports (rparseQuery (rs_route s))) delta (rs_route s)\<rparr>"
| "rperform h reports (Some (ActOpen n)) s = s\<lparr>rs_route := ropen n (rs_route s)\<rparr>"
| "rperform h reports _ s = s"

definition rpress :: "host \<Rightarrow> ReportView list \<Rightarrow> key_event \<Rightarrow> report_screen \<Rightarrow> report_screen" where
  "rpress h reports e s =
     rperform h reports (snd (onKey True (rdeps s) (e\<lparr>ke_inInput := rs_typing s\<rparr>))) s"

definition plain_key :: "string \<Rightarrow> key_event" where
  "plain_key key = \<lparr>ke_key = key, ke_metaKey = False, ke_ctrlKey = False, ke_altKey = False,
     ke_inInput = False\<rparr>"

text \<open>The layers \<open>Escape\<close> peels off.\<close>

definition layers :: "report_screen \<Rightarrow> nat" where
  "layers s =
     (if rs_typing s then 1 else 0) + (if rs_help s then 1 else 0)
     + (if rq_open (rparseQuery (rs_route s)) \<noteq> None then 1 else 0)
     + (if rq_sel (rparseQuery (rs_route s)) \<noteq> None then 1 else 0)
     + (if rq_q (rparseQuery (rs_route s)) \<noteq> [] then 1 else 0)"

lemma parse_rclear: "rparseQuery (rsetQuery [RChQ []] p) = (rparseQuery p)\<lparr>rq_q := []\<rparr>"
proof -
  have "rwf_query ((rparseQuery p)\<lparr>rq_q := []\<rparr>)"
    using report_route.parse_wf [of p] by (simp add: rwf_query_def)
  from report_route.parse_navigate [OF this, of p] show ?thesis
    by (simp add: rsetQuery_def rnavigate_def)
qed

lemma nonempty_None: "nonempty (Some s) = None \<longleftrightarrow> s = []"
  by (cases s) simp_all

lemma rpress_escape:
  "rpress h reports (plain_key ''Escape'') s = rperform h reports (onEscape (rdeps s) (rs_typing s)) s"
  by (simp add: rpress_def onKey_def modified_def plain_key_def)

lemma escape_layers: "layers (rpress h reports (plain_key ''Escape'') s) = layers s - 1"
  by (simp add: rpress_escape onEscape_def rdeps_def layers_def parse_rselect parse_rclose parse_rclear
      nonempty_None del: not_None_eq)

lemma escapes_layers: "layers ((rpress h reports (plain_key ''Escape'') ^^ k) s) = layers s - k"
  by (induction k) (simp_all add: escape_layers)

lemma layers_0:
  "layers s = 0 \<Longrightarrow> \<not> rs_typing s \<and> \<not> rs_help s \<and> rq_open (rparseQuery (rs_route s)) = None \<and>
   rq_sel (rparseQuery (rs_route s)) = None \<and> rq_q (rparseQuery (rs_route s)) = []"
  by (simp add: layers_def split: if_splits)

section \<open>Properties\<close>

text \<open>
  Escape always leads out. On the report table each Escape takes away exactly one layer (the
  focus of an input, the help, the drawer, the selection, the search text), and five of them leave
  nothing open, selected, searched or typed, whatever the state was.
\<close>

theorem escape_leads_out:
  "layers (rpress h reports (plain_key ''Escape'') s) = layers s - 1 \<and>
   (let t = (rpress h reports (plain_key ''Escape'') ^^ 5) s; q = rparseQuery (rs_route t)
    in \<not> rs_typing t \<and> \<not> rs_help t \<and> rq_open q = None \<and> rq_sel q = None \<and> rq_q q = [])"
proof -
  have "layers s \<le> 5" by (simp add: layers_def)
  then have "layers ((rpress h reports (plain_key ''Escape'') ^^ 5) s) = 0"
    by (simp only: escapes_layers diff_is_0_eq)
  from layers_0 [OF this] show ?thesis
    unfolding Let_def using escape_layers by (intro conjI) simp_all
qed

text \<open>
  Keys are never stolen. While another screen has the focus, with a modifier held, or while a
  text field has the focus, no key acts and none is kept from the browser; the one exception is
  Escape in a text field, which only leaves the field.
\<close>

theorem keys_never_stolen:
  assumes "\<not> focused \<or> modified e \<or> ke_inInput e"
  shows "onKey focused d e =
    (False, if focused \<and> \<not> modified e \<and> ke_key e = ''Escape'' then Some ActBlur else None)"
  using assms by (auto simp: onKey_def onEscape_def)

theorem keys_never_stolen_witness:
  "onKey True \<lparr>kd_open = Some 3, kd_sel = Some 3, kd_q = None, kd_help = False\<rparr>
     ((plain_key ''j'')\<lparr>ke_inInput := True\<rparr>) = (False, None)"
proof -
  have "\<not> True \<or> modified ((plain_key ''j'')\<lparr>ke_inInput := True\<rparr>) \<or>
      ke_inInput ((plain_key ''j'')\<lparr>ke_inInput := True\<rparr>)" by simp
  from keys_never_stolen [OF this] show ?thesis by (simp add: plain_key_def)
qed

end
