(* ===== verification/Errors.thy ===== *)
theory Errors
  imports Lib
begin

text \<open>
  The one error mapping of the client (\<open>api/errors.ts\<close>): whatever a call throws becomes an
  \<open>AppError\<close>, and the screens render that. A thrown value is an \<open>AppError\<close> already, a Connect
  error, another \<open>Error\<close> with its message, or anything else with its text. The \<open>cause\<close> of an
  \<open>AppError\<close> is carried for diagnosis only and is left out; a Connect error is what the mapping
  reads of it: its code, its raw message, two of its headers, whether its cause is the
  \<open>TypeError\<close> of a failed fetch, and its violation details (\<open>None\<close> where reading them throws).
\<close>

section \<open>Errors\<close>

datatype Code =
    Canceled | UnknownCode | InvalidArgument | DeadlineExceeded | NotFoundCode | AlreadyExists
  | PermissionDenied | ResourceExhausted | FailedPrecondition | Aborted | OutOfRange
  | Unimplemented | InternalCode | UnavailableCode | DataLoss | UnauthenticatedCode

datatype AppErrorKind =
    KUnauthenticated | KForbidden | KNotFound | KInvalid | KConflict | KPrecondition
  | KThrottled | KUnavailable | KCanceled | KTooLarge | KUnknown

record FieldViolation =
  fv_field :: str
  fv_protoField :: str
  fv_message :: str
  fv_ruleId :: str

record AppError =
  ae_kind :: AppErrorKind
  ae_code :: "Code option"
  ae_title :: str
  ae_message :: str
  ae_retryable :: bool
  ae_retryAfterSeconds :: "int option"
  ae_violations :: "FieldViolation list"
  ae_requestId :: "str option"

text \<open>The validation library's field path: a name per element, with an optional subscript.\<close>

datatype subscript =
    SubNone | SubIndex int | SubIntKey int | SubUintKey int | SubBoolKey bool | SubStringKey str

record FieldPathElement =
  fe_fieldName :: str
  fe_subscript :: subscript

record Violation =
  vi_field :: "FieldPathElement list option"
  vi_message :: str
  vi_ruleId :: str

record ConnectError =
  ce_code :: Code
  ce_rawMessage :: str
  ce_retryAfter :: "str option"
  ce_requestId :: "str option"
  ce_causeTypeError :: bool
  ce_details :: "Violation list list option"

datatype thrown =
    ThrownApp AppError
  | ThrownConnect ConnectError
  | ThrownError str
  | ThrownOther str

section \<open>Field paths\<close>

definition alnum :: "nat \<Rightarrow> bool" where
  "alnum c \<longleftrightarrow> (65 \<le> c \<and> c \<le> 90) \<or> (97 \<le> c \<and> c \<le> 122) \<or> is_digit c"

definition upper_ascii :: "nat \<Rightarrow> nat" where
  "upper_ascii c = (if 97 \<le> c \<and> c \<le> 122 then c - 32 else c)"

text \<open>The replacement of \<open>/_([a-zA-Z0-9])/g\<close>, left to right, without overlap.\<close>

fun protoCamelCase :: "str \<Rightarrow> str" where
  "protoCamelCase [] = []"
| "protoCamelCase [c] = [c]"
| "protoCamelCase (c # d # s) =
     (if c = 95 \<and> alnum d then upper_ascii d # protoCamelCase s
      else c # protoCamelCase (d # s))"

text \<open>\<open>JSON.stringify\<close> of a text: quotes, short escapes, control characters, lone surrogates.\<close>

definition hex_lower :: "nat \<Rightarrow> nat" where
  "hex_lower d = (if d < 10 then 48 + d else 87 + d)"

definition unicode_escape :: "nat \<Rightarrow> str" where
  "unicode_escape c =
     [92, 117, hex_lower (c div 4096 mod 16), hex_lower (c div 256 mod 16),
      hex_lower (c div 16 mod 16), hex_lower (c mod 16)]"

definition json_char :: "nat \<Rightarrow> str" where
  "json_char c =
     (if c = 34 then [92, 34] else if c = 92 then [92, 92]
      else if c = 8 then [92, 98] else if c = 9 then [92, 116] else if c = 10 then [92, 110]
      else if c = 12 then [92, 102] else if c = 13 then [92, 114]
      else if c < 32 then unicode_escape c else [c])"

fun json_body :: "str \<Rightarrow> str" where
  "json_body [] = []"
| "json_body [c] = (if 55296 \<le> c \<and> c \<le> 57343 then unicode_escape c else json_char c)"
| "json_body (c # d # s) =
     (if 55296 \<le> c \<and> c \<le> 56319 \<and> 56320 \<le> d \<and> d \<le> 57343 then c # d # json_body s
      else if 55296 \<le> c \<and> c \<le> 57343 then unicode_escape c @ json_body (d # s)
      else json_char c @ json_body (d # s))"

definition json_quote :: "str \<Rightarrow> str" where
  "json_quote s = [34] @ json_body s @ [34]"

definition elementString :: "bool \<Rightarrow> FieldPathElement \<Rightarrow> str" where
  "elementString camel e =
     (let name = (if camel then protoCamelCase (fe_fieldName e) else fe_fieldName e)
      in case fe_subscript e of
           SubIndex i \<Rightarrow> name @ lit ''['' @ show_int i @ lit '']''
         | SubIntKey i \<Rightarrow> name @ lit ''['' @ show_int i @ lit '']''
         | SubUintKey i \<Rightarrow> name @ lit ''['' @ show_int i @ lit '']''
         | SubBoolKey b \<Rightarrow> name @ lit ''['' @ (if b then lit ''true'' else lit ''false'') @ lit '']''
         | SubStringKey k \<Rightarrow> name @ lit ''['' @ json_quote k @ lit '']''
         | SubNone \<Rightarrow> name)"

definition fieldPathString :: "FieldPathElement list option \<Rightarrow> bool \<Rightarrow> str" where
  "fieldPathString path camel =
     (case path of
        None \<Rightarrow> []
      | Some elements \<Rightarrow>
          join (lit ''.'') (filter (\<lambda>s. length s > 0) (map (elementString camel) elements)))"

definition violationsOf :: "ConnectError \<Rightarrow> FieldViolation list" where
  "violationsOf err =
     (case ce_details err of
        None \<Rightarrow> []
      | Some details \<Rightarrow>
          concat (map (map (\<lambda>v.
            \<lparr>fv_field = fieldPathString (vi_field v) True,
             fv_protoField = fieldPathString (vi_field v) False,
             fv_message = vi_message v,
             fv_ruleId = vi_ruleId v\<rparr>)) details))"

section \<open>The mapping\<close>

definition DEFAULT_RETRY_AFTER_SECONDS :: int where
  "DEFAULT_RETRY_AFTER_SECONDS = 30"

definition retryAfterOf :: "ConnectError \<Rightarrow> int" where
  "retryAfterOf err =
     (case Option.bind (ce_retryAfter err) parse_int of
        None \<Rightarrow> DEFAULT_RETRY_AFTER_SECONDS
      | Some parsed \<Rightarrow>
          if num_finite parsed \<and> parsed > 0 then parsed else DEFAULT_RETRY_AFTER_SECONDS)"

definition isNetworkFailure :: "ConnectError \<Rightarrow> bool" where
  "isNetworkFailure err \<longleftrightarrow>
     (ce_code err = UnknownCode \<or> ce_code err = InternalCode) \<and> ce_causeTypeError err"

text \<open>The fields every branch shares (\<open>base\<close>), with the branch's own.\<close>

definition branch ::
  "Code option \<Rightarrow> str option \<Rightarrow> AppErrorKind \<Rightarrow> str \<Rightarrow> str \<Rightarrow> bool \<Rightarrow> AppError" where
  "branch code requestId kind title message retryable =
     \<lparr>ae_kind = kind, ae_code = code, ae_title = title, ae_message = message,
      ae_retryable = retryable, ae_retryAfterSeconds = None, ae_violations = [],
      ae_requestId = requestId\<rparr>"

definition cant :: str where
  "cant = lit ''Can'' @ [39] @ lit ''t''"

definition SIGNED_OUT :: str where
  "SIGNED_OUT = lit ''Your session has ended. Sign in again.''"

definition NOT_HERE :: str where
  "NOT_HERE = lit ''You can'' @ [39] @ lit ''t do that here.''"

definition NOTHING_HERE :: str where
  "NOTHING_HERE = lit ''There'' @ [39] @ lit ''s nothing here.''"

definition NOT_VALID :: str where
  "NOT_VALID = lit ''Some of the details aren'' @ [39] @ lit ''t valid.''"

definition unavailable :: "Code option \<Rightarrow> str option \<Rightarrow> AppError" where
  "unavailable code requestId =
     branch code requestId KUnavailable (cant @ lit '' reach the server'')
       (cant @ lit '' reach the server. Check the connection and try again.'') True"

text \<open>The generic message, with the request id where the server echoed one.\<close>

definition generic_message :: "str option \<Rightarrow> str" where
  "generic_message requestId =
     (case nonempty requestId of
        None \<Rightarrow> lit ''Something went wrong.''
      | Some r \<Rightarrow> lit ''Something went wrong. Request id '' @ r @ lit ''.'')"

definition connect_app_error :: "ConnectError \<Rightarrow> AppError" where
  "connect_app_error err =
     (let base = branch (Some (ce_code err)) (ce_requestId err); raw = Some (ce_rawMessage err)
      in case ce_code err of
           UnauthenticatedCode \<Rightarrow> base KUnauthenticated (lit ''Signed out'') SIGNED_OUT False
         | PermissionDenied \<Rightarrow> base KForbidden (lit ''Not allowed'') NOT_HERE False
         | NotFoundCode \<Rightarrow> base KNotFound (lit ''Not found'') (or_str raw NOTHING_HERE) False
         | InvalidArgument \<Rightarrow>
             (let violations = violationsOf err
              in (base KInvalid (lit ''Check the details'')
                   (if length violations > 0 then NOT_VALID else or_str raw NOT_VALID) False)
                 \<lparr>ae_violations := violations\<rparr>)
         | AlreadyExists \<Rightarrow>
             base KConflict (lit ''Already exists'') (or_str raw (lit ''That already exists.'')) False
         | FailedPrecondition \<Rightarrow>
             base KPrecondition (cant @ lit '' do that right now'')
               (or_str raw (lit ''That can'' @ [39] @ lit ''t be done right now.'')) False
         | ResourceExhausted \<Rightarrow>
             (let retryAfterSeconds = retryAfterOf err
              in (base KThrottled (lit ''Too many attempts'')
                   (lit ''Too many attempts '' @ [8212] @ lit '' try again in ''
                     @ show_int retryAfterSeconds @ lit '' s.'') False)
                 \<lparr>ae_retryAfterSeconds := Some retryAfterSeconds\<rparr>)
         | UnavailableCode \<Rightarrow> unavailable (Some (ce_code err)) (ce_requestId err)
         | DeadlineExceeded \<Rightarrow> unavailable (Some (ce_code err)) (ce_requestId err)
         | Canceled \<Rightarrow> base KCanceled (lit ''Cancelled'') (lit ''The request was cancelled.'') False
         | _ \<Rightarrow>
             if isNetworkFailure err then unavailable (Some (ce_code err)) (ce_requestId err)
             else base KUnknown (lit ''Something went wrong'') (generic_message (ce_requestId err)) False)"

fun toAppError :: "thrown \<Rightarrow> AppError" where
  "toAppError (ThrownApp err) = err"
| "toAppError (ThrownError message) =
     branch None None KUnknown (lit ''Something went wrong'') message False"
| "toAppError (ThrownOther text) =
     branch None None KUnknown (lit ''Something went wrong'') text False"
| "toAppError (ThrownConnect err) = connect_app_error err"

definition httpStatusError :: "int \<Rightarrow> str \<Rightarrow> str option \<Rightarrow> AppError" where
  "httpStatusError status message requestId =
     (let base = branch None requestId
      in if status = 401 then base KUnauthenticated (lit ''Signed out'') SIGNED_OUT False
         else if status = 403 then base KForbidden (lit ''Not allowed'') NOT_HERE False
         else if status = 404 then
           base KNotFound (lit ''Not found'') (or_str (Some message) NOTHING_HERE) False
         else if status = 413 then
           base KTooLarge (lit ''Too large'') (or_str (Some message) (lit ''That file is too large.'')) False
         else if status = 0 \<or> status = 502 \<or> status = 503 \<or> status = 504 then
           unavailable None requestId
         else base KUnknown (lit ''Something went wrong'') (generic_message requestId) False)"

section \<open>Lemmas\<close>

lemma branch_fields [simp]:
  "ae_kind (branch c r k t m b) = k" "ae_code (branch c r k t m b) = c"
  "ae_message (branch c r k t m b) = m" "ae_retryable (branch c r k t m b) = b"
  "ae_retryAfterSeconds (branch c r k t m b) = None" "ae_violations (branch c r k t m b) = []"
  "ae_requestId (branch c r k t m b) = r" "ae_title (branch c r k t m b) = t"
  by (simp_all add: branch_def)

lemma generic_message_nonempty [simp]: "generic_message r \<noteq> []"
  by (simp add: generic_message_def split: option.split)

lemmas fixed_messages = SIGNED_OUT_def NOT_HERE_def NOTHING_HERE_def NOT_VALID_def cant_def

lemma retryAfter_positive: "0 < retryAfterOf err"
  by (auto simp: retryAfterOf_def DEFAULT_RETRY_AFTER_SECONDS_def split: option.split)

lemma unavailable_fields [simp]:
  "ae_kind (unavailable c r) = KUnavailable" "ae_code (unavailable c r) = c"
  "ae_retryable (unavailable c r)" "ae_retryAfterSeconds (unavailable c r) = None"
  "ae_violations (unavailable c r) = []" "ae_requestId (unavailable c r) = r"
  "ae_message (unavailable c r) \<noteq> []"
  by (simp_all add: unavailable_def cant_def)

text \<open>What every error a call answers keeps of the shape \<open>AppError\<close> promises.\<close>

definition well_formed_error :: "AppError \<Rightarrow> bool" where
  "well_formed_error e \<longleftrightarrow>
     (ae_retryable e = (ae_kind e = KUnavailable)) \<and>
     (case ae_retryAfterSeconds e of
        None \<Rightarrow> ae_kind e \<noteq> KThrottled | Some n \<Rightarrow> ae_kind e = KThrottled \<and> 0 < n) \<and>
     (ae_violations e = [] \<or> ae_kind e = KInvalid) \<and> ae_message e \<noteq> []"

lemma branch_well_formed:
  "m \<noteq> [] \<Longrightarrow> k \<noteq> KThrottled \<Longrightarrow> b = (k = KUnavailable) \<Longrightarrow> well_formed_error (branch c r k t m b)"
  by (simp add: well_formed_error_def)

lemma unavailable_well_formed: "well_formed_error (unavailable c r)"
  by (simp add: well_formed_error_def)

lemma connect_well_formed: "well_formed_error (connect_app_error err)"
  by (cases "ce_code err")
    (simp_all add: connect_app_error_def Let_def branch_well_formed unavailable_well_formed
      fixed_messages, simp_all add: well_formed_error_def retryAfter_positive)

lemma http_well_formed: "well_formed_error (httpStatusError status message requestId)"
  by (simp add: httpStatusError_def Let_def branch_well_formed unavailable_well_formed fixed_messages)

text \<open>protoc's rule for JSON names, which the comment quotes: every underscore is dropped.\<close>

fun json_name :: "bool \<Rightarrow> str \<Rightarrow> str" where
  "json_name up [] = []"
| "json_name up (c # s) =
     (if c = 95 then json_name True s
      else (if up then upper_ascii c else c) # json_name False s)"

text \<open>Names whose underscores each precede a letter or a digit.\<close>

fun plain_field_name :: "str \<Rightarrow> bool" where
  "plain_field_name [] = True"
| "plain_field_name [c] = (c \<noteq> 95)"
| "plain_field_name (c # d # s) = ((c = 95 \<longrightarrow> alnum d) \<and> plain_field_name (d # s))"

lemma not_alnum_underscore [simp]: "\<not> alnum 95"
  by (simp add: alnum_def is_digit_def)

lemma plain_tail: "plain_field_name (c # s) \<Longrightarrow> plain_field_name s"
  by (cases s) auto

lemma camel_json_name: "plain_field_name s \<Longrightarrow> protoCamelCase s = json_name False s"
proof (induction s rule: protoCamelCase.induct)
  case (3 c d s)
  show ?case
  proof (cases "c = 95")
    case True
    with 3 have "alnum d" "d \<noteq> 95" "plain_field_name s" by (auto dest: plain_tail)
    with True "3.IH"(1) show ?thesis by simp
  next
    case False
    with 3 show ?thesis by (auto dest: plain_tail)
  qed
qed auto

section \<open>Properties\<close>


text \<open>
  Field names of a violation. On names whose underscores each precede a letter or a digit the
  camel-casing is protoc's JSON-name rule; on a name with a doubled underscore it is not, because
  the first of the two stays.
\<close>

theorem camel_case_is_json_name:
  assumes "plain_field_name s"
  shows "protoCamelCase s = json_name False s \<and> 95 \<notin> set (protoCamelCase s) \<and>
    protoCamelCase (lit ''person__id'') \<noteq> json_name False (lit ''person__id'')"
proof -
  have no: "95 \<notin> set (json_name up s)" for up
    by (induction up s rule: json_name.induct) (auto simp: upper_ascii_def)
  have "protoCamelCase (lit ''person__id'') \<noteq> json_name False (lit ''person__id'')"
    by (simp add: alnum_def is_digit_def upper_ascii_def)
  with no camel_json_name [OF assms] show ?thesis by simp
qed

theorem camel_case_is_json_name_witness:
  "protoCamelCase (lit ''person_ids'') = lit ''personIds''"
proof -
  have "plain_field_name (lit ''person_ids'')"
    by (simp add: alnum_def is_digit_def)
  from camel_case_is_json_name [OF this] show ?thesis
    by (simp add: upper_ascii_def)
qed

end
