(* ===== verification/People.thy ===== *)
theory People
  imports Keyboard Errors
begin

text \<open>
  The roster: its query (\<open>features/people/peopleQuery.ts\<close>, \<open>usePeopleQuery.ts\<close>), its keyboard
  (\<open>usePeopleKeyboardMap.ts\<close>), the rungs a viewer may set (\<open>roles.ts\<close>) next to the server's own
  ceiling (\<open>go/internal/person\<close>), and the writes of \<open>useRoster.ts\<close>. A write is two steps, what
  happens before its request goes out and what happens when the answer is in, so that other writes
  and refetches can come between.
\<close>

section \<open>The query\<close>

record PQuery =
  pq_q :: str
  pq_sel :: "int option"
  pq_open :: "int option"

definition pparam_int :: "str option \<Rightarrow> int option" where
  "pparam_int value =
     (case value of
        None \<Rightarrow> None
      | Some s \<Rightarrow>
          if s = [] then None
          else (case parse_int s of
                  None \<Rightarrow> None
                | Some n \<Rightarrow> if num_finite n \<and> n > 0 then Some n else None))"

definition pparseQuery :: "Params \<Rightarrow> PQuery" where
  "pparseQuery params =
     \<lparr>pq_q = nullish (params ''q'') [], pq_sel = pparam_int (params ''sel''),
      pq_open = pparam_int (params ''open'')\<rparr>"

definition pserializeQuery :: "PQuery \<Rightarrow> Params" where
  "pserializeQuery query = Map.empty(
     ''q'' := nonempty (Some (pq_q query)),
     ''sel'' := map_option show_int (pq_sel query),
     ''open'' := map_option show_int (pq_open query))"

definition displayName :: "Person \<Rightarrow> str" where
  "displayName person =
     or_str (p_name person) (or_str (p_handle person) (lit ''Person #'' @ show_int (p_personId person)))"

definition matches :: "host \<Rightarrow> Person \<Rightarrow> str \<Rightarrow> bool" where
  "matches h person q =
     (let needle = lower h (trim q) in
      if needle = [] then True
      else
        (let haystack = lower h (join [32]
           ([displayName person, nullish (p_handle person) [], nullish (p_name person) []]
            @ map crew_name (p_crews person)))
         in has_sub haystack needle))"

definition visiblePeople :: "host \<Rightarrow> Person list \<Rightarrow> PQuery \<Rightarrow> Person list" where
  "visiblePeople h people query = filter (\<lambda>p. matches h p (pq_q query)) people"

definition people_keys :: "string list" where
  "people_keys = [''q'', ''sel'', ''open'']"

definition byId :: "Person list \<Rightarrow> int \<Rightarrow> Person option" where
  "byId people = foldl (\<lambda>m p. m(p_personId p \<mapsto> p)) Map.empty people"

definition pselected :: "Person list \<Rightarrow> Params \<Rightarrow> Person option" where
  "pselected people p = Option.bind (pq_sel (pparseQuery p)) (byId people)"

definition popened :: "Person list \<Rightarrow> Params \<Rightarrow> Person option" where
  "popened people p = Option.bind (pq_open (pparseQuery p)) (byId people)"

definition pnavigate :: "PQuery \<Rightarrow> Params \<Rightarrow> Params" where
  "pnavigate target p = set_params people_keys
     (Map.empty(
       ''q'' := nonempty (Some (pq_q target)),
       ''sel'' := map_option show_int (pq_sel target),
       ''open'' := map_option show_int (pq_open target))) p"

text \<open>A patch as the function it applies to the query.\<close>

definition psetQuery :: "(PQuery \<Rightarrow> PQuery) \<Rightarrow> Params \<Rightarrow> Params" where
  "psetQuery patch p = pnavigate (patch (pparseQuery p)) p"

definition pselect :: "int option \<Rightarrow> Params \<Rightarrow> Params" where
  "pselect personId = psetQuery (\<lambda>query. query\<lparr>pq_sel := personId\<rparr>)"

definition popen :: "int \<Rightarrow> Params \<Rightarrow> Params" where
  "popen personId p =
     pnavigate ((pparseQuery p)\<lparr>pq_sel := Some personId, pq_open := Some personId\<rparr>) p"

definition pclose :: "Params \<Rightarrow> Params" where
  "pclose = psetQuery (\<lambda>query. query\<lparr>pq_open := None\<rparr>)"

definition pwf_query :: "PQuery \<Rightarrow> bool" where
  "pwf_query query \<longleftrightarrow>
     pred_option positive_id (pq_sel query) \<and> pred_option positive_id (pq_open query)"

lemma pparam_int_eq: "pparam_int v = param_int v"
  by (cases v; cases "the v") (simp_all add: pparam_int_def param_int_def)

interpretation people_route: route_state
  pparseQuery pserializeQuery people_keys pwf_query pq_sel pq_open
  "\<lambda>v. pq_sel_update (\<lambda>_. v)" "\<lambda>v. pq_open_update (\<lambda>_. v)"
proof
  show "pwf_query (pparseQuery p)" for p
    by (simp add: pwf_query_def pparseQuery_def pparam_int_eq param_int_wf)
  show "pparseQuery p = q" if "pwf_query q" "\<And>k. k \<in> set people_keys \<Longrightarrow> p k = pserializeQuery q k" for p q
  proof -
    have "p ''q'' = nonempty (Some (pq_q q))" "p ''sel'' = map_option show_int (pq_sel q)"
      "p ''open'' = map_option show_int (pq_open q)"
      using that(2) by (simp_all add: people_keys_def pserializeQuery_def)
    with that(1) show ?thesis
      by (intro PQuery.equality) (simp_all add: pparseQuery_def pparam_int_eq pwf_query_def)
  qed
qed (auto simp: pwf_query_def)

lemma pnavigate_route: "pnavigate target p = set_params people_keys (pserializeQuery target) p"
  by (simp add: pnavigate_def pserializeQuery_def)

lemma parse_pselect: "pred_option positive_id v \<Longrightarrow>
    pparseQuery (pselect v p) = (pparseQuery p)\<lparr>pq_sel := v\<rparr>"
  using people_route.after_select [of v p] by (simp add: pselect_def psetQuery_def pnavigate_route)

lemma parse_popen: "positive_id n \<Longrightarrow>
    pparseQuery (popen n p) = (pparseQuery p)\<lparr>pq_sel := Some n, pq_open := Some n\<rparr>"
  using people_route.after_open [of n p] by (simp add: popen_def pnavigate_route)

lemma parse_pclose: "pparseQuery (pclose p) = (pparseQuery p)\<lparr>pq_open := None\<rparr>"
  using people_route.after_close [of p] by (simp add: pclose_def psetQuery_def pnavigate_route)

section \<open>The roster's keyboard\<close>

definition people_step :: "int list \<Rightarrow> key_deps \<Rightarrow> int \<Rightarrow> key_action option" where
  "people_step order d delta =
     (if order = [] then None
      else
        (let nextIndex =
           (case find_index (\<lambda>i. Some i = kd_sel d) order of
              None \<Rightarrow> if delta = 1 then 0 else int (length order) - 1
            | Some index \<Rightarrow> min (int (length order) - 1) (max 0 (int index + delta)))
         in case nth_opt order nextIndex of
              None \<Rightarrow> None
            | Some i \<Rightarrow> Some (if kd_open d \<noteq> None then ActOpen i else ActSelect (Some i))))"

definition people_onKey ::
  "bool \<Rightarrow> int list \<Rightarrow> bool \<Rightarrow> key_deps \<Rightarrow> key_event \<Rightarrow> bool \<times> key_action option" where
  "people_onKey focused order panel d e =
     (if \<not> focused then (False, None)
      else if modified e then (False, None)
      else if ke_key e = ''Escape'' then
        (False, if panel then Some ActClosePanel else onEscape d (ke_inInput e))
      else if ke_inInput e \<or> panel then (False, None)
      else if ke_key e = ''/'' then (True, Some ActFocusSearch)
      else if ke_key e = ''j'' \<or> ke_key e = ''ArrowDown'' then (True, people_step order d 1)
      else if ke_key e = ''k'' \<or> ke_key e = ''ArrowUp'' then (True, people_step order d (-1))
      else if ke_key e = ''Enter'' then
        (False, case kd_sel d of Some i \<Rightarrow> Some (ActOpen i) | None \<Rightarrow> people_step order d 1)
      else if ke_key e = ''n'' then (True, Some ActNew)
      else if ke_key e = ''?'' then (False, Some (ActSetHelp (\<not> kd_help d)))
      else (False, None))"

section \<open>Rungs\<close>

fun rungLabel :: "ParticipationType \<Rightarrow> str" where
  "rungLabel PT_UNSPECIFIED = [8212]"
| "rungLabel PT_WRITER = lit ''FC/BUM''"
| "rungLabel PT_CREW_LEADER = lit ''Crew leader''"
| "rungLabel PT_REPORTER = lit ''Reporter''"
| "rungLabel PT_VOLUNTEER = lit ''Volunteer''"
| "rungLabel PT_PUBLIC = lit ''Public''"
| "rungLabel PT_NOT_PRESENT = lit ''Not present''"
| "rungLabel PT_EJECTED = lit ''Ejected''"

record RosterAccess =
  ra_admin :: bool
  ra_inviteReporters :: bool
  ra_writeIncidents :: bool

definition rosterAccessFrom :: "GetAuthStatusResponse option \<Rightarrow> int \<Rightarrow> RosterAccess" where
  "rosterAccessFrom auth eventId =
     \<lparr>ra_admin = isAdmin auth,
      ra_inviteReporters = acc_inviteReporters (eventAccess auth eventId),
      ra_writeIncidents = acc_writeIncidents (eventAccess auth eventId)\<rparr>"

definition ADMIN_RUNGS :: "ParticipationType list" where
  "ADMIN_RUNGS = [PT_WRITER, PT_REPORTER, PT_VOLUNTEER, PT_PUBLIC]"

definition INVITER_RUNGS :: "ParticipationType list" where
  "INVITER_RUNGS = [PT_REPORTER, PT_VOLUNTEER, PT_PUBLIC]"

definition NO_LOGIN_RUNGS :: "ParticipationType list" where
  "NO_LOGIN_RUNGS = [PT_VOLUNTEER, PT_PUBLIC]"

definition rungsFor :: "RosterAccess \<Rightarrow> Person \<Rightarrow> ParticipationType list" where
  "rungsFor access person =
     (if \<not> ra_admin access \<and> \<not> ra_inviteReporters access then []
      else if \<not> ra_admin access
        \<and> (p_participationType person = PT_WRITER \<or> p_participationType person = PT_CREW_LEADER)
      then []
      else if ra_admin access \<and> \<not> p_hasPassword person then NO_LOGIN_RUNGS
      else if ra_admin access then ADMIN_RUNGS else INVITER_RUNGS)"

definition mayRemove :: "RosterAccess \<Rightarrow> Person \<Rightarrow> bool" where
  "mayRemove access person \<longleftrightarrow> length (rungsFor access person) > 0"

text \<open>
  The server's side (\<open>go/internal/person\<close>): who may set which rung on whom. \<open>current\<close> is the
  person's rung in the event, \<open>None\<close> when there is no row yet.
\<close>

definition mayAssignParticipation :: "bool \<Rightarrow> ParticipationType \<Rightarrow> bool" where
  "mayAssignParticipation callerIsAdmin target =
     (if callerIsAdmin then True
      else (case target of PT_WRITER \<Rightarrow> False | PT_CREW_LEADER \<Rightarrow> False | _ \<Rightarrow> True))"

definition defaultParticipation :: "str \<Rightarrow> ParticipationType" where
  "defaultParticipation wristband = (if trim wristband \<noteq> [] then PT_VOLUNTEER else PT_PUBLIC)"

definition server_allows ::
  "bool \<Rightarrow> bool \<Rightarrow> str \<Rightarrow> ParticipationType \<Rightarrow> ParticipationType option \<Rightarrow> bool" where
  "server_allows isPersonnelAdmin mayInvite wristband requested current =
     (let participation =
        (if requested \<noteq> PT_UNSPECIFIED then requested else defaultParticipation wristband)
      in if isPersonnelAdmin then True
         else mayInvite \<and> mayAssignParticipation False participation
           \<and> (case current of None \<Rightarrow> True | Some c \<Rightarrow> mayAssignParticipation False c))"

section \<open>Writes\<close>

record RowStatus =
  st_pending :: bool
  st_error :: "AppError option"

record participation_request =
  pr_personId :: int
  pr_eventId :: int
  pr_wristband :: str
  pr_participationType :: ParticipationType

record membership_request =
  mr_eventId :: int
  mr_crewSlug :: str
  mr_personId :: int
  mr_remove :: bool
  mr_isLeader :: bool

record CreatePersonForm =
  cf_handle :: "str option"
  cf_name :: "str option"
  cf_email :: "str option"
  cf_phone :: "str option"
  cf_password :: "str option"
  cf_useDefaultPassword :: "bool option"
  cf_wristband :: "str option"
  cf_participationType :: "ParticipationType option"

record create_request =
  cr_handle :: str
  cr_name :: str
  cr_email :: str
  cr_phone :: str
  cr_password :: str
  cr_useDefaultPassword :: bool
  cr_eventId :: int
  cr_wristband :: str
  cr_participationType :: ParticipationType

text \<open>
  The hook's state: the cached answer of \<open>ListPersonnel\<close> (\<open>None\<close> before it is in), the row
  statuses, the form's error, and how often the roster's and the crews' keys were invalidated.
\<close>

record roster =
  ro_people :: "Person list option"
  ro_rows :: "int \<Rightarrow> RowStatus option"
  ro_createError :: "AppError option"
  ro_invalidated :: nat

definition mark :: "int \<Rightarrow> bool \<Rightarrow> AppError option \<Rightarrow> roster \<Rightarrow> roster" where
  "mark personId pending err s =
     s\<lparr>ro_rows := (ro_rows s)(personId \<mapsto> \<lparr>st_pending = pending, st_error = err\<rparr>)\<rparr>"

definition patchPerson :: "int \<Rightarrow> (Person \<Rightarrow> Person) \<Rightarrow> roster \<Rightarrow> roster" where
  "patchPerson personId f s =
     s\<lparr>ro_people := map_option (map (\<lambda>p. if p_personId p = personId then f p else p)) (ro_people s)\<rparr>"

definition settle :: "roster \<Rightarrow> roster" where
  "settle s = s\<lparr>ro_invalidated := ro_invalidated s + 1\<rparr>"

definition cached_person :: "int \<Rightarrow> roster \<Rightarrow> Person option" where
  "cached_person personId s =
     Option.bind (ro_people s) (List.find (\<lambda>p. p_personId p = personId))"

definition NOT_ON_ROSTER :: str where
  "NOT_ON_ROSTER = lit ''This person is not on the roster yet; reload it.''"

text \<open>Up to the request: the new state, and the request with the row as it was, or no request.\<close>

definition writeRole_begin ::
  "int \<Rightarrow> int \<Rightarrow> ParticipationType \<Rightarrow> bool \<Rightarrow> roster
     \<Rightarrow> roster \<times> (participation_request \<times> Person option) option" where
  "writeRole_begin eventId personId rung mayBeNew s =
     (let before = cached_person personId s in
      if before = None \<and> \<not> mayBeNew
      then (mark personId False (Some (toAppError (ThrownError NOT_ON_ROSTER))) s, None)
      else
        (patchPerson personId (\<lambda>p. p\<lparr>p_participationType := rung\<rparr>) (mark personId True None s),
         Some (\<lparr>pr_personId = personId, pr_eventId = eventId,
           pr_wristband = nullish (Option.bind before p_wristband) [],
           pr_participationType = rung\<rparr>, before)))"

text \<open>From the answer on: \<open>None\<close> is success, else what was thrown. The flag is the result.\<close>

definition writeRole_end ::
  "participation_request \<times> Person option \<Rightarrow> thrown option \<Rightarrow> roster \<Rightarrow> roster \<times> bool" where
  "writeRole_end flight failure s =
     (let (request, before) = flight; personId = pr_personId request in
      case failure of
        None \<Rightarrow> (settle (mark personId False None s), True)
      | Some e \<Rightarrow>
          (settle (mark personId False (Some (toAppError e))
             (case before of None \<Rightarrow> s | Some b \<Rightarrow> patchPerson personId (\<lambda>_. b) s)), False))"

definition setRole_begin where
  "setRole_begin eventId personId rung = writeRole_begin eventId personId rung False"

definition enrol_begin where
  "enrol_begin eventId personId rung = writeRole_begin eventId personId (nullish rung PT_REPORTER) True"

definition createPerson_begin :: "int \<Rightarrow> CreatePersonForm \<Rightarrow> roster \<Rightarrow> roster \<times> create_request" where
  "createPerson_begin eventId form s =
     (s\<lparr>ro_createError := None\<rparr>,
      \<lparr>cr_handle = nullish (cf_handle form) [], cr_name = nullish (cf_name form) [],
       cr_email = nullish (cf_email form) [], cr_phone = nullish (cf_phone form) [],
       cr_password = nullish (cf_password form) [],
       cr_useDefaultPassword = nullish (cf_useDefaultPassword form) False,
       cr_eventId = eventId, cr_wristband = nullish (cf_wristband form) [],
       cr_participationType = nullish (cf_participationType form) PT_UNSPECIFIED\<rparr>)"

definition createPerson_end :: "thrown + Person option \<Rightarrow> roster \<Rightarrow> roster \<times> Person option" where
  "createPerson_end answer s =
     (case answer of
        Inr person \<Rightarrow> (settle s, person)
      | Inl e \<Rightarrow> (settle (s\<lparr>ro_createError := Some (toAppError e)\<rparr>), None))"

definition crew_begin ::
  "int \<Rightarrow> bool \<Rightarrow> str \<Rightarrow> int \<Rightarrow> roster \<Rightarrow> roster \<times> membership_request" where
  "crew_begin eventId remove slug personId s =
     (mark personId True None s,
      \<lparr>mr_eventId = eventId, mr_crewSlug = slug, mr_personId = personId, mr_remove = remove,
       mr_isLeader = False\<rparr>)"

definition addToCrew_begin where
  "addToCrew_begin eventId = crew_begin eventId False"

definition removeFromCrew_begin where
  "removeFromCrew_begin eventId = crew_begin eventId True"

definition crew_end :: "int \<Rightarrow> thrown option \<Rightarrow> roster \<Rightarrow> roster" where
  "crew_end personId failure s =
     settle (mark personId False (map_option toAppError failure) s)"

definition errorFor :: "roster \<Rightarrow> int \<Rightarrow> AppError option" where
  "errorFor s personId = Option.bind (ro_rows s personId) st_error"

definition pendingFor :: "roster \<Rightarrow> int \<Rightarrow> bool" where
  "pendingFor s personId \<longleftrightarrow> map_option st_pending (ro_rows s personId) = Some True"

section \<open>Lemmas on the writes\<close>

lemma find_map_upd:
  assumes "\<And>p. key p = i \<Longrightarrow> key (f p) = i"
  shows "List.find (\<lambda>p. key p = j) (map (\<lambda>p. if key p = i then f p else p) xs) =
    (if j = i then map_option f (List.find (\<lambda>p. key p = j) xs) else List.find (\<lambda>p. key p = j) xs)"
  using assms by (induction xs) auto

lemma cached_patch:
  assumes "\<And>p. p_personId p = i \<Longrightarrow> p_personId (f p) = i"
  shows "cached_person j (patchPerson i f s) =
    (if j = i then map_option f (cached_person j s) else cached_person j s)"
  using find_map_upd [of p_personId i f j, OF assms]
  by (cases "ro_people s") (simp_all add: cached_person_def patchPerson_def)

lemma cached_id: "cached_person i s = Some p \<Longrightarrow> p_personId p = i"
  by (auto simp: cached_person_def dest: find_SomeD split: bind_splits)

lemma cached_mark [simp]: "cached_person j (mark i b e s) = cached_person j s"
  by (simp add: cached_person_def mark_def)

lemma cached_settle [simp]: "cached_person j (settle s) = cached_person j s"
  by (simp add: cached_person_def settle_def)

lemma rows_simps [simp]:
  "ro_rows (settle s) = ro_rows s" "ro_rows (patchPerson i f s) = ro_rows s"
  "ro_rows (mark i b e s) = (ro_rows s)(i \<mapsto> \<lparr>st_pending = b, st_error = e\<rparr>)"
  by (simp_all add: settle_def patchPerson_def mark_def)

lemma invalidated_simps [simp]:
  "ro_invalidated (settle s) = ro_invalidated s + 1" "ro_invalidated (patchPerson i f s) = ro_invalidated s"
  "ro_invalidated (mark i b e s) = ro_invalidated s"
  by (simp_all add: settle_def patchPerson_def mark_def)

lemma begin_request:
  assumes "writeRole_begin e i rung new s = (s', Some (request, before))"
  shows "pr_personId request = i \<and> before = cached_person i s \<and>
    pr_wristband request = nullish (Option.bind before p_wristband) []"
  using assms by (auto simp: writeRole_begin_def Let_def split: if_splits)

section \<open>Properties\<close>


text \<open>
  A role is never written over a row that was not read. Without the person's row, setting a
  role sends no request, leaves the cached roster as it is and shows an error; every request that
  does go out carries the wristband of the cached row, and an empty one only for somebody the
  roster does not hold, through enrolling.
\<close>

theorem role_written_over_read_row:
  "case writeRole_begin eventId personId rung mayBeNew s of
     (s', None) \<Rightarrow>
       cached_person personId s = None \<and> \<not> mayBeNew \<and> ro_people s' = ro_people s \<and>
       \<not> pendingFor s' personId \<and> errorFor s' personId \<noteq> None
   | (s', Some (request, before)) \<Rightarrow>
       pr_personId request = personId \<and> pr_participationType request = rung \<and>
       before = cached_person personId s \<and> pendingFor s' personId \<and> errorFor s' personId = None \<and>
       cached_person personId s' = map_option (p_participationType_update (\<lambda>_. rung)) before \<and>
       (case before of
          None \<Rightarrow> mayBeNew \<and> pr_wristband request = []
        | Some b \<Rightarrow> pr_wristband request = nullish (p_wristband b) [])"
proof (cases "cached_person personId s = None \<and> \<not> mayBeNew")
  case True
  then show ?thesis
    by (simp add: writeRole_begin_def mark_def pendingFor_def errorFor_def)
next
  case False
  then have "writeRole_begin eventId personId rung mayBeNew s =
     (patchPerson personId (\<lambda>p. p\<lparr>p_participationType := rung\<rparr>) (mark personId True None s),
         Some (\<lparr>pr_personId = personId, pr_eventId = eventId,
           pr_wristband = nullish (Option.bind (cached_person personId s) p_wristband) [],
           pr_participationType = rung\<rparr>, cached_person personId s))"
    by (auto simp: writeRole_begin_def Let_def)
  with False show ?thesis
    by (auto simp: cached_patch pendingFor_def errorFor_def split: option.split)
qed

text \<open>
  A refused role puts the row back and nothing else. Whatever happened between the request and
  its answer (other writes, a refetch), a refusal restores exactly that person's row to what it was
  before, shows the mapped error there and leaves every other row; a success leaves every row; in
  both cases the row is no longer pending and the roster and the crews are invalidated.
\<close>

theorem refused_role_restores_row:
  assumes "writeRole_begin eventId i rung mayBeNew s = (s1, Some flight)"
  shows "case writeRole_end flight failure s2 of (s3, ok) \<Rightarrow>
    ok = (failure = None) \<and> \<not> pendingFor s3 i \<and> errorFor s3 i = map_option toAppError failure \<and>
    ro_invalidated s3 = ro_invalidated s2 + 1 \<and>
    cached_person j s3 =
      (if j = i \<and> failure \<noteq> None \<and> cached_person i s \<noteq> None \<and> cached_person i s2 \<noteq> None
       then cached_person i s else cached_person j s2) \<and>
    (if j = i then True else ro_rows s3 j = ro_rows s2 j)"
proof -
  obtain request before where flight: "flight = (request, before)" by force
  with begin_request [of eventId i rung mayBeNew s s1 request before] assms
  have req: "pr_personId request = i" and before: "before = cached_person i s" by simp_all
  have restore: "cached_person j (patchPerson i (\<lambda>_. b) s2) =
      (if j = i \<and> cached_person i s2 \<noteq> None then Some b else cached_person j s2)"
    if "cached_person i s = Some b" for b
    using cached_patch [of i "\<lambda>_. b" j s2] cached_id [OF that] by (cases "cached_person i s2") simp_all
  show ?thesis
    using restore
    by (cases failure; cases "cached_person i s")
      (simp_all add: flight writeRole_end_def Let_def req before pendingFor_def errorFor_def)
qed

definition sample_roster :: roster where
  "sample_roster = \<lparr>ro_people = Some [blank_person\<lparr>p_personId := 3, p_participationType := PT_VOLUNTEER,
     p_wristband := Some (lit ''B12'')\<rparr>, blank_person\<lparr>p_personId := 8\<rparr>],
     ro_rows = Map.empty, ro_createError = None, ro_invalidated = 0\<rparr>"

theorem refused_role_restores_row_witness:
  "\<exists>s1 flight. writeRole_begin 5 3 PT_REPORTER False sample_roster = (s1, Some flight) \<and>
     cached_person 3 s1 \<noteq> cached_person 3 sample_roster \<and>
     cached_person 3 (fst (writeRole_end flight (Some (ThrownError [])) s1)) =
       cached_person 3 sample_roster"
proof -
  obtain s1 flight where run: "writeRole_begin 5 3 PT_REPORTER False sample_roster = (s1, Some flight)"
    by (simp add: writeRole_begin_def sample_roster_def cached_person_def Let_def blank_defs)
  have s1: "cached_person 3 s1 = Some (blank_person\<lparr>p_personId := 3, p_participationType := PT_REPORTER,
     p_wristband := Some (lit ''B12'')\<rparr>)"
    using run by (auto simp: writeRole_begin_def sample_roster_def cached_person_def Let_def blank_defs
        patchPerson_def mark_def)
  have s: "cached_person 3 sample_roster = Some (blank_person\<lparr>p_personId := 3,
     p_participationType := PT_VOLUNTEER, p_wristband := Some (lit ''B12'')\<rparr>)"
    by (simp add: sample_roster_def cached_person_def blank_defs)
  from refused_role_restores_row [OF run, of "Some (ThrownError [])" s1 3] s s1 run show ?thesis
    by (auto simp: blank_defs split: prod.splits)
qed

text \<open>
  On the roster a side panel owns the keyboard: with one open, Escape closes it, whatever else
  is open, selected or focused, and no other key acts.
\<close>

theorem panel_owns_the_keys:
  "snd (people_onKey focused order True d e) =
    (if focused \<and> \<not> modified e \<and> ke_key e = ''Escape'' then Some ActClosePanel else None) \<and>
   (if order \<noteq> [] \<and> (delta = 1 \<or> delta = -1)
    then \<exists>i \<in> set order. people_step order d delta =
           Some (if kd_open d \<noteq> None then ActOpen i else ActSelect (Some i))
    else True)"
proof -
  have "\<exists>i \<in> set order. people_step order d delta =
      Some (if kd_open d \<noteq> None then ActOpen i else ActSelect (Some i))" if "order \<noteq> []"
  proof -
    let ?n = "step_index (length order) (find_index (\<lambda>i. Some i = kd_sel d) order) delta"
    have "0 \<le> ?n \<and> ?n < int (length order)"
      using that by (intro step_index_in) (auto simp: find_index_Some)
    then have "nth_opt order ?n = Some (order ! nat ?n)" "order ! nat ?n \<in> set order"
      by (auto simp: nth_opt_def)
    then show ?thesis
      using that by (intro bexI [of _ "order ! nat ?n"]) (simp_all add: people_step_def step_index_def Let_def)
  qed
  then show ?thesis by (auto simp: people_onKey_def)
qed

end
