(* ===== verification/Auth.thy ===== *)
theory Auth
  imports Errors Storage
begin

text \<open>
  Tokens, their refresh and the transport: the access token's cache (\<open>api/tokens.ts\<close>), the
  single-flight refresh and the decision which answer ends a session (\<open>api/refresh.ts\<close>), the
  interceptor that carries the token, refreshes it and retries (\<open>api/transport.ts\<close>), and the
  native store of the refresh token (\<open>session/secureStore.ts\<close>).

  \<open>ConnectError.from\<close> belongs to the RPC library: an answer that failed is given here as the
  Connect error it was turned into.
\<close>

section \<open>Access tokens\<close>

text \<open>An expiry of \<open>None\<close> is \<open>Number.POSITIVE_INFINITY\<close>.\<close>

record AccessToken =
  at_token :: str
  at_expiresAt :: "int option"

record token_response =
  tr_token :: str
  tr_expiresAt :: "timestamp option"
  tr_refreshToken :: str

definition expiringWithin :: "AccessToken option \<Rightarrow> int \<Rightarrow> int \<Rightarrow> bool" where
  "expiringWithin current now ms =
     (case current of
        None \<Rightarrow> False
      | Some t \<Rightarrow> (case at_expiresAt t of None \<Rightarrow> False | Some at \<Rightarrow> at - now \<le> ms))"

definition accessTokenFrom :: "host \<Rightarrow> token_response \<Rightarrow> AccessToken" where
  "accessTokenFrom h resp =
     \<lparr>at_token = tr_token resp, at_expiresAt = map_option (ts_ms h) (tr_expiresAt resp)\<rparr>"

section \<open>Refresh\<close>

datatype RefreshOutcome =
    Refreshed AccessToken
  | SignedOutBy ConnectError
  | RefreshFailed ConnectError

datatype verdict = VSignedOut | VFailed

definition classifyRefreshError :: "ConnectError \<Rightarrow> verdict" where
  "classifyRefreshError err = (if ce_code err = UnauthenticatedCode then VSignedOut else VFailed)"

text \<open>
  The refresher's state: the phase of the one run in flight (reading the stored token, then
  waiting for the answer to the token it sent), the tokens it sent so far, and the access token.
\<close>

datatype refresh_phase = RLoading | RCalling str

record refresher =
  rf_inflight :: "refresh_phase option"
  rf_sent :: "str list"
  rf_tokens :: "AccessToken option"

text \<open>\<open>refresh()\<close>: starts a run, or joins the one in flight.\<close>

definition refresh_ask :: "refresher \<Rightarrow> refresher" where
  "refresh_ask r = (case rf_inflight r of None \<Rightarrow> r\<lparr>rf_inflight := Some RLoading\<rparr> | Some _ \<Rightarrow> r)"

text \<open>The stored token is in, or could not be read: then the run ends as a failure.\<close>

definition refresh_loaded ::
  "ConnectError + str option \<Rightarrow> refresher \<Rightarrow> refresher \<times> RefreshOutcome option" where
  "refresh_loaded answer r =
     (if rf_inflight r \<noteq> Some RLoading then (r, None)
      else
        (case answer of
           Inl err \<Rightarrow> (r\<lparr>rf_inflight := None\<rparr>, Some (RefreshFailed err))
         | Inr stored \<Rightarrow>
             (r\<lparr>rf_inflight := Some (RCalling (nullish stored [])),
                rf_sent := rf_sent r @ [nullish stored []]\<rparr>, None)))"

text \<open>The answer of \<open>RefreshToken\<close>.\<close>

definition refresh_answered ::
  "host \<Rightarrow> ConnectError + token_response \<Rightarrow> refresher \<Rightarrow> refresher \<times> RefreshOutcome option" where
  "refresh_answered h answer r =
     (case rf_inflight r of
        Some (RCalling _) \<Rightarrow>
          (case answer of
             Inr resp \<Rightarrow>
               (let token = accessTokenFrom h resp
                in (r\<lparr>rf_inflight := None, rf_tokens := Some token\<rparr>, Some (Refreshed token)))
           | Inl err \<Rightarrow>
               (if classifyRefreshError err = VSignedOut
                then (r\<lparr>rf_inflight := None, rf_tokens := None\<rparr>, Some (SignedOutBy err))
                else (r\<lparr>rf_inflight := None\<rparr>, Some (RefreshFailed err))))
      | _ \<Rightarrow> (r, None))"

section \<open>The interceptor\<close>

definition PROACTIVE_REFRESH_WINDOW_MS :: int where
  "PROACTIVE_REFRESH_WINDOW_MS = 60000"

definition SESSION_RPCS :: "string list" where
  "SESSION_RPCS = [''Login'', ''RefreshToken'', ''Logout'']"

definition NO_BEARER_RPCS :: "string list" where
  "NO_BEARER_RPCS = [''Login'', ''RefreshToken'']"

record rpc_call =
  rpc_name :: string
  rpc_stream :: bool
  rpc_authorization :: "str option"

text \<open>The header \<open>attachBearer\<close> leaves: the cached token, or none.\<close>

definition attachBearer :: "AccessToken option \<Rightarrow> str option" where
  "attachBearer current = map_option (\<lambda>t. lit ''Bearer '' @ at_token t) current"

text \<open>What a finished refresh leaves in the cache.\<close>

definition tokens_after :: "RefreshOutcome \<Rightarrow> AccessToken option \<Rightarrow> AccessToken option" where
  "tokens_after outcome current =
     (case outcome of Refreshed t \<Rightarrow> Some t | SignedOutBy _ \<Rightarrow> None | RefreshFailed _ \<Rightarrow> current)"

text \<open>
  One call through the interceptor: the cache, the clock and the outcomes of the two refreshes it
  may ask for are given, \<open>answer\<close> is what the server makes of each send, by its number and its
  Authorization header. The result lists the headers sent, the refreshes asked for, and what the
  caller gets.
\<close>

record 'r intercepted =
  ix_sent :: "str option list"
  ix_refreshes :: nat
  ix_result :: "ConnectError + 'r"

definition intercept ::
  "int \<Rightarrow> AccessToken option \<Rightarrow> int \<Rightarrow> rpc_call \<Rightarrow> RefreshOutcome \<Rightarrow> RefreshOutcome
     \<Rightarrow> (nat \<Rightarrow> str option \<Rightarrow> ConnectError + 'r) \<Rightarrow> 'r intercepted" where
  "intercept window tokens now req proactive reactive answer =
     (if rpc_name req \<in> set SESSION_RPCS
      then
        (let header = (if rpc_name req \<notin> set NO_BEARER_RPCS then attachBearer tokens
                       else rpc_authorization req)
         in \<lparr>ix_sent = [header], ix_refreshes = 0, ix_result = answer 0 header\<rparr>)
      else
        (let early = expiringWithin tokens now window;
             tokens1 = (if early then tokens_after proactive tokens else tokens);
             asked = (if early then 1 else 0);
             header1 = attachBearer tokens1
         in case answer 0 header1 of
              Inr r \<Rightarrow> \<lparr>ix_sent = [header1], ix_refreshes = asked, ix_result = Inr r\<rparr>
            | Inl err \<Rightarrow>
                if ce_code err \<noteq> UnauthenticatedCode \<or> rpc_stream req
                then \<lparr>ix_sent = [header1], ix_refreshes = asked, ix_result = Inl err\<rparr>
                else
                  (case reactive of
                     Refreshed t \<Rightarrow>
                       (let header2 = attachBearer (tokens_after reactive tokens1)
                        in \<lparr>ix_sent = [header1, header2], ix_refreshes = asked + 1,
                            ix_result = answer 1 header2\<rparr>)
                   | _ \<Rightarrow> \<lparr>ix_sent = [header1], ix_refreshes = asked + 1, ix_result = Inl err\<rparr>)))"

section \<open>The secure store\<close>

definition REFRESH_TOKEN_KEY :: str where
  "REFRESH_TOKEN_KEY = lit ''ocf-ims.refresh-token''"

definition MAX_REFRESH_TOKEN_BYTES :: nat where
  "MAX_REFRESH_TOKEN_BYTES = 2048"

definition point_bytes :: "nat \<Rightarrow> nat" where
  "point_bytes cp = (if cp < 128 then 1 else if cp < 2048 then 2 else if cp < 65536 then 3 else 4)"

text \<open>The iteration is by code point; a lone surrogate is a code point of its own.\<close>

fun utf8ByteLength :: "str \<Rightarrow> nat" where
  "utf8ByteLength [] = 0"
| "utf8ByteLength [c] = point_bytes c"
| "utf8ByteLength (c # d # s) =
     (if 55296 \<le> c \<and> c \<le> 56319 \<and> 56320 \<le> d \<and> d \<le> 57343
      then point_bytes (65536 + (c - 55296) * 1024 + (d - 56320)) + utf8ByteLength s
      else point_bytes c + utf8ByteLength (d # s))"

definition secure_load :: "device \<Rightarrow> str option" where
  "secure_load d =
     (case dev_get d REFRESH_TOKEN_KEY of
        None \<Rightarrow> None
      | Some value \<Rightarrow> if value = [] then None else Some value)"

text \<open>\<open>Inl\<close> is the refused save, before the store is touched.\<close>

definition secure_save :: "device \<Rightarrow> str \<Rightarrow> thrown + device" where
  "secure_save d token =
     (if token = [] then Inl (ThrownError (lit ''refusing to store an empty refresh token''))
      else
        (let size = utf8ByteLength token
         in if size > MAX_REFRESH_TOKEN_BYTES
            then Inl (ThrownError (lit ''refresh token is '' @ show_nat size @ lit '' bytes, over the ''
              @ show_nat MAX_REFRESH_TOKEN_BYTES @ lit ''-byte secure-store limit''))
            else Inr (dev_set d REFRESH_TOKEN_KEY token)))"

definition secure_clear :: "device \<Rightarrow> device" where
  "secure_clear d = dev_remove d REFRESH_TOKEN_KEY"

lemma secure_load_save:
  "secure_save d token = Inr d' \<Longrightarrow>
   secure_load d' = Some token \<and> token \<noteq> [] \<and> utf8ByteLength token \<le> MAX_REFRESH_TOKEN_BYTES"
  by (auto simp: secure_save_def secure_load_def Let_def device.get_set split: if_splits)

lemma secure_load_clear: "secure_load (secure_clear d) = None"
  by (simp add: secure_load_def secure_clear_def device.get_remove)

text \<open>On a text without lone surrogates the count is that of its UTF-8 encoding.\<close>

lemma utf8_length: "length (utf8 p) = point_bytes p"
  by (simp add: utf8_def point_bytes_def)

lemma utf8ByteLength_encoding:
  "code_points s = Some ps \<Longrightarrow> utf8ByteLength s = length (concat (map utf8 ps))"
proof (induction s arbitrary: ps rule: utf8ByteLength.induct)
  case (3 c d s)
  show ?case
  proof (cases "55296 \<le> c \<and> c \<le> 56319 \<and> 56320 \<le> d \<and> d \<le> 57343")
    case True
    with 3 show ?thesis by (auto simp: utf8_length split: if_splits)
  next
    case False
    with 3 show ?thesis by (auto simp: utf8_length split: if_splits)
  qed
qed (auto simp: utf8_length split: if_splits)

section \<open>Lemmas on the refresher\<close>

lemma attachBearer_Some: "attachBearer (Some t) = Some (lit ''Bearer '' @ at_token t)"
  by (simp add: attachBearer_def)

lemma tokens_after_Refreshed: "tokens_after (Refreshed t) current = Some t"
  by (simp add: tokens_after_def)

lemma refresh_ask_joins: "rf_inflight r \<noteq> None \<Longrightarrow> refresh_ask r = r"
  by (auto simp: refresh_ask_def)

lemma refresh_ask_tokens [simp]:
  "rf_tokens (refresh_ask r) = rf_tokens r" "rf_sent (refresh_ask r) = rf_sent r"
  by (simp_all add: refresh_ask_def split: option.split)

lemma refresh_ask_inflight [simp]: "rf_inflight (refresh_ask r) \<noteq> None"
  by (simp add: refresh_ask_def split: option.split)

lemma funpow_fixed: "f x = x \<Longrightarrow> (f ^^ k) x = x"
  by (induction k) simp_all

lemma refresh_asks: "(refresh_ask ^^ Suc k) r = refresh_ask r"
  by (simp only: funpow_Suc_right comp_apply) (simp add: funpow_fixed refresh_ask_joins)

section \<open>Properties\<close>

text \<open>
  C11: One refresh for all callers. However many callers ask while none is in flight, one token is
  sent, the stored one or an empty text, and the one answer is the outcome of all of them: a
  success replaces the access token, an Unauthenticated clears it, and every other error leaves
  it. A stored token that cannot be read sends nothing and is a failure, never a sign-out.
\<close>

theorem refresh_is_single_flight:
  assumes "rf_inflight r = None"
  shows "let asked = (refresh_ask ^^ Suc k) r in
    refresh_loaded (Inl err) asked = (r\<lparr>rf_inflight := None\<rparr>, Some (RefreshFailed err)) \<and>
    (let loaded = fst (refresh_loaded (Inr stored) asked); called = (refresh_ask ^^ j) loaded in
       rf_sent called = rf_sent r @ [nullish stored []] \<and>
       (case refresh_answered h answer called of
          (r', None) \<Rightarrow> False
        | (r', Some outcome) \<Rightarrow>
            rf_inflight r' = None \<and> rf_sent r' = rf_sent called \<and>
            rf_tokens r' = tokens_after outcome (rf_tokens r) \<and>
            (case answer of
               Inr resp \<Rightarrow> outcome = Refreshed (accessTokenFrom h resp)
             | Inl e \<Rightarrow> outcome =
                 (if ce_code e = UnauthenticatedCode then SignedOutBy e else RefreshFailed e))))"
proof -
  have asked: "(refresh_ask ^^ Suc k) r = r\<lparr>rf_inflight := Some RLoading\<rparr>"
    unfolding refresh_asks using assms by (simp add: refresh_ask_def)
  let ?loaded = "r\<lparr>rf_inflight := Some (RCalling (nullish stored [])), rf_sent := rf_sent r @ [nullish stored []]\<rparr>"
  have called: "(refresh_ask ^^ j) ?loaded = ?loaded"
    by (rule funpow_fixed) (simp add: refresh_ask_joins)
  show ?thesis
    unfolding asked Let_def
    by (cases answer)
      (simp_all add: refresh_loaded_def called refresh_answered_def classifyRefreshError_def
        tokens_after_def Let_def)
qed

definition idle_refresher :: refresher where
  "idle_refresher = \<lparr>rf_inflight = None, rf_sent = [], rf_tokens = None\<rparr>"

theorem refresh_is_single_flight_witness:
  "rf_sent ((refresh_ask ^^ 4) (fst (refresh_loaded (Inr (Some (lit ''r1'')))
     ((refresh_ask ^^ Suc 2) idle_refresher)))) = [lit ''r1'']"
proof -
  have "rf_inflight idle_refresher = None" by (simp add: idle_refresher_def)
  from refresh_is_single_flight [OF this, where k = 2 and j = 4 and stored = "Some (lit ''r1'')"]
  show ?thesis by (simp only: Let_def) (simp add: idle_refresher_def)
qed


text \<open>
  What the secure store takes it gives back. A token is stored exactly when it is not empty and
  its UTF-8 encoding fits the limit; then it is what is loaded, and after clearing nothing is.
\<close>

theorem secure_store_keeps_token:
  "(case secure_save d token of
      Inl _ \<Rightarrow> token = [] \<or> MAX_REFRESH_TOKEN_BYTES < utf8ByteLength token
    | Inr d' \<Rightarrow> token \<noteq> [] \<and> utf8ByteLength token \<le> MAX_REFRESH_TOKEN_BYTES \<and>
        secure_load d' = Some token \<and> secure_load (secure_clear d') = None) \<and>
   (case code_points token of
      None \<Rightarrow> True
    | Some ps \<Rightarrow> utf8ByteLength token = length (concat (map utf8 ps)))"
proof -
  have "token = [] \<or> MAX_REFRESH_TOKEN_BYTES < utf8ByteLength token" if "secure_save d token = Inl e" for e
    using that by (auto simp: secure_save_def Let_def split: if_splits)
  then show ?thesis
    using secure_load_save [of d token] utf8ByteLength_encoding [of token]
    by (auto simp: secure_load_clear split: sum.split option.split)
qed

end
