(* ===== verification/Session.thy ===== *)
theory Session
  imports Auth
begin

text \<open>
  The session state machine (\<open>session/session.ts\<close> over \<open>session/runtime.ts\<close>'s wiring). Every
  \<open>await\<close> of the code is a point where other code runs, so each operation is cut at its awaits:
  what runs up to the first one, and a continuation per await that gets the answer. The awaits in
  flight are the \<open>ss_tasks\<close>, the refresher's run and the phase of \<open>endLocally\<close>; an event is one
  answer coming in or one operation being called, and a run of the machine is any list of events.
  A continuation whose promise is settled runs before the next event, as a microtask does.

  The platform is \<open>web\<close>, where the refresh token is a cookie the code never sees and the store does
  nothing, or \<open>native\<close>.
\<close>

section \<open>State\<close>

datatype SessionState =
    SUnknown
  | SUnreachable AppError
  | SSignedOut
  | SSignedIn GetAuthStatusResponse

record session_config =
  sc_native :: bool
  sc_beforeSignOut :: bool

text \<open>The awaits of bootstrap, sign-in, sign-out and the status refresh.\<close>

datatype task =
    TBootLoad
  | TBootRefresh
  | TBootStatus
  | TLogin
  | TLoginSave token_response
  | TLoginStatus
  | TBeforeSignOut
  | TStatus

text \<open>\<open>runEnd\<close> between its two awaits.\<close>

datatype end_phase = EndStore | EndCaches

datatype signin_result = SignInNone | SignInDone | SignInThrew AppError

record session =
  ss_state :: SessionState
  ss_refresher :: refresher
  ss_device :: device
  ss_ending :: "end_phase option"
  ss_tasks :: "task list"
  ss_signIn :: signin_result
  ss_logouts :: "str option list"

definition ss_token :: "session \<Rightarrow> AccessToken option" where
  "ss_token s = rf_tokens (ss_refresher s)"

definition set_token :: "AccessToken option \<Rightarrow> session \<Rightarrow> session" where
  "set_token t s = s\<lparr>ss_refresher := (ss_refresher s)\<lparr>rf_tokens := t\<rparr>\<rparr>"

definition set_state :: "SessionState \<Rightarrow> session \<Rightarrow> session" where
  "set_state st s = s\<lparr>ss_state := st\<rparr>"

definition await :: "task \<Rightarrow> session \<Rightarrow> session" where
  "await t s = s\<lparr>ss_tasks := t # ss_tasks s\<rparr>"

definition initial_session :: "device \<Rightarrow> session" where
  "initial_session d =
     \<lparr>ss_state = SUnknown,
      ss_refresher = \<lparr>rf_inflight = None, rf_sent = [], rf_tokens = None\<rparr>,
      ss_device = d, ss_ending = None, ss_tasks = [], ss_signIn = SignInNone, ss_logouts = []\<rparr>"

section \<open>Ending\<close>

text \<open>\<open>endLocally\<close>: joins an end in flight, else clears the token and starts one.\<close>

definition endLocally :: "session \<Rightarrow> session" where
  "endLocally s =
     (case ss_ending s of
        Some _ \<Rightarrow> s
      | None \<Rightarrow> (set_token None s)\<lparr>ss_ending := Some EndStore\<rparr>)"

definition end_store_done :: "session_config \<Rightarrow> bool \<Rightarrow> session \<Rightarrow> session" where
  "end_store_done c cleared s =
     (if ss_ending s \<noteq> Some EndStore then s
      else s\<lparr>ss_device := (if sc_native c \<and> cleared then secure_clear (ss_device s) else ss_device s),
        ss_ending := Some EndCaches\<rparr>)"

definition end_caches_done :: "session \<Rightarrow> session" where
  "end_caches_done s =
     (if ss_ending s \<noteq> Some EndCaches then s else set_state SSignedOut (s\<lparr>ss_ending := None\<rparr>))"

section \<open>Bootstrap\<close>

definition askRefresh :: "session \<Rightarrow> session" where
  "askRefresh s = s\<lparr>ss_refresher := refresh_ask (ss_refresher s)\<rparr>"

definition bootstrap :: "session_config \<Rightarrow> session \<Rightarrow> session" where
  "bootstrap c s =
     (case ss_state s of
        SSignedIn _ \<Rightarrow> s
      | _ \<Rightarrow>
          (let s1 = set_state SUnknown s
           in if sc_native c then await TBootLoad s1 else await TBootRefresh (askRefresh s1)))"

text \<open>The store's answer; a store that cannot be read holds nothing.\<close>

definition boot_loaded :: "bool \<Rightarrow> session \<Rightarrow> session" where
  "boot_loaded readable s =
     (case (if readable then secure_load (ss_device s) else None) of
        None \<Rightarrow> set_state SSignedOut s
      | Some _ \<Rightarrow> await TBootRefresh (askRefresh s))"

definition boot_outcome :: "RefreshOutcome \<Rightarrow> session \<Rightarrow> session" where
  "boot_outcome outcome s =
     (case outcome of
        SignedOutBy _ \<Rightarrow> s
      | RefreshFailed err \<Rightarrow> set_state (SUnreachable (toAppError (ThrownConnect err))) s
      | Refreshed _ \<Rightarrow> await TBootStatus s)"

text \<open>The answer of \<open>GetAuthStatus\<close> in \<open>loadStatus\<close>.\<close>

definition loadStatus :: "thrown + GetAuthStatusResponse \<Rightarrow> session \<Rightarrow> session" where
  "loadStatus answer s =
     (case answer of
        Inl e \<Rightarrow>
          (let err = toAppError e
           in if ae_kind err = KUnauthenticated then endLocally s else set_state (SUnreachable err) s)
      | Inr auth \<Rightarrow>
          if \<not> auth_authenticated auth then endLocally s else set_state (SSignedIn auth) s)"

text \<open>
  A finished refresh: the listener of a definitive sign-out runs first, then every bootstrap that
  waited for the outcome.
\<close>

definition refresh_done :: "refresher \<times> RefreshOutcome option \<Rightarrow> session \<Rightarrow> session" where
  "refresh_done result s =
     (case result of
        (r, None) \<Rightarrow> s\<lparr>ss_refresher := r\<rparr>
      | (r, Some outcome) \<Rightarrow>
          (let s1 = s\<lparr>ss_refresher := r, ss_tasks := filter (\<lambda>t. t \<noteq> TBootRefresh) (ss_tasks s)\<rparr>;
               s2 = (case outcome of SignedOutBy _ \<Rightarrow> endLocally s1 | _ \<Rightarrow> s1)
           in (boot_outcome outcome ^^ length (filter (\<lambda>t. t = TBootRefresh) (ss_tasks s))) s2))"

section \<open>Sign-in, sign-out, status\<close>

definition login_stored :: "host \<Rightarrow> token_response \<Rightarrow> session \<Rightarrow> session" where
  "login_stored h resp s = await TLoginStatus (set_token (Some (accessTokenFrom h resp)) s)"

definition login_answered ::
  "host \<Rightarrow> session_config \<Rightarrow> thrown + token_response \<Rightarrow> session \<Rightarrow> session" where
  "login_answered h c answer s =
     (case answer of
        Inl e \<Rightarrow> s\<lparr>ss_signIn := SignInThrew (toAppError e)\<rparr>
      | Inr resp \<Rightarrow>
          if sc_native c
          then (case secure_save (ss_device s) (tr_refreshToken resp) of
                  Inl e \<Rightarrow> s\<lparr>ss_signIn := SignInThrew (toAppError e)\<rparr>
                | Inr _ \<Rightarrow> await (TLoginSave resp) s)
          else login_stored h resp s)"

definition login_saved :: "host \<Rightarrow> token_response \<Rightarrow> thrown option \<Rightarrow> session \<Rightarrow> session" where
  "login_saved h resp failure s =
     (case failure of
        Some e \<Rightarrow> s\<lparr>ss_signIn := SignInThrew (toAppError e)\<rparr>
      | None \<Rightarrow>
          login_stored h resp
            (s\<lparr>ss_device := (case secure_save (ss_device s) (tr_refreshToken resp) of
                 Inl _ \<Rightarrow> ss_device s | Inr d \<Rightarrow> d)\<rparr>))"

definition login_status :: "thrown + GetAuthStatusResponse \<Rightarrow> session \<Rightarrow> session" where
  "login_status answer s =
     (case answer of
        Inl e \<Rightarrow>
          set_state (SUnreachable (toAppError e)) (s\<lparr>ss_signIn := SignInThrew (toAppError e)\<rparr>)
      | Inr auth \<Rightarrow> set_state (SSignedIn auth) (s\<lparr>ss_signIn := SignInDone\<rparr>))"

text \<open>Logout goes out with the token of the moment; nothing waits for its answer.\<close>

definition signOut_now :: "session \<Rightarrow> session" where
  "signOut_now s = endLocally (s\<lparr>ss_logouts := attachBearer (ss_token s) # ss_logouts s\<rparr>)"

definition signOut :: "session_config \<Rightarrow> session \<Rightarrow> session" where
  "signOut c s = (if sc_beforeSignOut c then await TBeforeSignOut s else signOut_now s)"

definition refreshAuthStatus :: "session \<Rightarrow> session" where
  "refreshAuthStatus s = (case ss_state s of SSignedIn _ \<Rightarrow> await TStatus s | _ \<Rightarrow> s)"

definition status_answered :: "thrown + GetAuthStatusResponse \<Rightarrow> session \<Rightarrow> session" where
  "status_answered answer s =
     (case answer of
        Inl _ \<Rightarrow> s
      | Inr auth \<Rightarrow> if auth_authenticated auth then set_state (SSignedIn auth) s else endLocally s)"

section \<open>Events\<close>

datatype event =
    EvBootstrap
  | EvBootLoaded bool
  | EvAskRefresh
  | EvRefreshLoaded "ConnectError option"
  | EvRefreshAnswered "ConnectError + token_response"
  | EvBootStatus "thrown + GetAuthStatusResponse"
  | EvSignIn
  | EvLoginAnswered "thrown + token_response"
  | EvLoginSaved token_response "thrown option"
  | EvLoginStatus "thrown + GetAuthStatusResponse"
  | EvSignOut
  | EvBeforeDone
  | EvEndStore bool
  | EvEndCaches
  | EvRefreshStatus
  | EvStatusAnswered "thrown + GetAuthStatusResponse"

text \<open>An answer resumes its continuation; an answer nobody awaits changes nothing.\<close>

definition resume :: "task \<Rightarrow> (session \<Rightarrow> session) \<Rightarrow> session \<Rightarrow> session" where
  "resume t k s =
     (if t \<in> set (ss_tasks s) then k (s\<lparr>ss_tasks := remove1 t (ss_tasks s)\<rparr>) else s)"

text \<open>What the refresher is handed to read the stored token with: on the web there is none.\<close>

definition loaded_answer ::
  "session_config \<Rightarrow> ConnectError option \<Rightarrow> session \<Rightarrow> ConnectError + str option" where
  "loaded_answer c failure s =
     (if \<not> sc_native c then Inr None
      else (case failure of Some err \<Rightarrow> Inl err | None \<Rightarrow> Inr (secure_load (ss_device s))))"

fun handle :: "host \<Rightarrow> session_config \<Rightarrow> event \<Rightarrow> session \<Rightarrow> session" where
  "handle h c EvBootstrap s = bootstrap c s"
| "handle h c (EvBootLoaded readable) s = resume TBootLoad (boot_loaded readable) s"
| "handle h c EvAskRefresh s = askRefresh s"
| "handle h c (EvRefreshLoaded failure) s =
     refresh_done (refresh_loaded (loaded_answer c failure s) (ss_refresher s)) s"
| "handle h c (EvRefreshAnswered answer) s =
     refresh_done (refresh_answered h answer (ss_refresher s)) s"
| "handle h c (EvBootStatus answer) s = resume TBootStatus (loadStatus answer) s"
| "handle h c EvSignIn s = await TLogin s"
| "handle h c (EvLoginAnswered answer) s = resume TLogin (login_answered h c answer) s"
| "handle h c (EvLoginSaved resp failure) s =
     resume (TLoginSave resp) (login_saved h resp failure) s"
| "handle h c (EvLoginStatus answer) s = resume TLoginStatus (login_status answer) s"
| "handle h c EvSignOut s = signOut c s"
| "handle h c EvBeforeDone s = resume TBeforeSignOut signOut_now s"
| "handle h c (EvEndStore cleared) s = end_store_done c cleared s"
| "handle h c EvEndCaches s = end_caches_done s"
| "handle h c EvRefreshStatus s = refreshAuthStatus s"
| "handle h c (EvStatusAnswered answer) s = resume TStatus (status_answered answer) s"

definition run :: "host \<Rightarrow> session_config \<Rightarrow> event list \<Rightarrow> session \<Rightarrow> session" where
  "run h c evs s = foldl (\<lambda>s ev. handle h c ev s) s evs"

inductive reachable :: "host \<Rightarrow> session_config \<Rightarrow> device \<Rightarrow> session \<Rightarrow> bool"
  for h c d
where
  start: "reachable h c d (initial_session d)"
| event: "reachable h c d s \<Longrightarrow> reachable h c d (handle h c ev s)"

section \<open>Lemmas\<close>

lemma state_simps [simp]:
  "ss_token (set_state st s) = ss_token s" "ss_device (set_state st s) = ss_device s"
  "ss_ending (set_state st s) = ss_ending s" "ss_state (set_state st s) = st"
  "ss_tasks (set_state st s) = ss_tasks s" "ss_refresher (set_state st s) = ss_refresher s"
  by (simp_all add: set_state_def ss_token_def)

lemma await_simps [simp]:
  "ss_token (await t s) = ss_token s" "ss_device (await t s) = ss_device s"
  "ss_ending (await t s) = ss_ending s" "ss_state (await t s) = ss_state s"
  "ss_tasks (await t s) = t # ss_tasks s" "ss_refresher (await t s) = ss_refresher s"
  by (simp_all add: await_def ss_token_def)

lemma set_token_simps [simp]:
  "ss_token (set_token t s) = t" "ss_device (set_token t s) = ss_device s"
  "ss_ending (set_token t s) = ss_ending s" "ss_state (set_token t s) = ss_state s"
  "ss_tasks (set_token t s) = ss_tasks s"
  by (simp_all add: set_token_def ss_token_def)

lemma endLocally_simps [simp]:
  "ss_device (endLocally s) = ss_device s" "ss_state (endLocally s) = ss_state s"
  "ss_tasks (endLocally s) = ss_tasks s" "ss_ending (endLocally s) \<noteq> None"
  by (simp_all add: endLocally_def split: option.split)

lemma askRefresh_simps [simp]:
  "ss_token (askRefresh s) = ss_token s" "ss_device (askRefresh s) = ss_device s"
  "ss_ending (askRefresh s) = ss_ending s" "ss_state (askRefresh s) = ss_state s"
  "ss_tasks (askRefresh s) = ss_tasks s"
  by (simp_all add: askRefresh_def ss_token_def)

lemma funpow_kept: "(\<And>x. f (g x) = f x) \<Longrightarrow> f ((g ^^ n) x) = f x"
  by (induction n) simp_all

lemma boot_outcome_simps [simp]:
  "ss_token (boot_outcome outcome s) = ss_token s" "ss_device (boot_outcome outcome s) = ss_device s"
  "ss_ending (boot_outcome outcome s) = ss_ending s"
  by (simp_all add: boot_outcome_def split: RefreshOutcome.split)

lemma boots_simps [simp]:
  "ss_token ((boot_outcome outcome ^^ n) s) = ss_token s"
  "ss_device ((boot_outcome outcome ^^ n) s) = ss_device s"
  "ss_ending ((boot_outcome outcome ^^ n) s) = ss_ending s"
  by (rule funpow_kept; simp)+

lemma token_updates [simp]:
  "ss_token (s\<lparr>ss_tasks := ts\<rparr>) = ss_token s" "ss_token (s\<lparr>ss_device := d\<rparr>) = ss_token s"
  "ss_token (s\<lparr>ss_ending := e\<rparr>) = ss_token s" "ss_token (s\<lparr>ss_logouts := l\<rparr>) = ss_token s"
  "ss_token (s\<lparr>ss_signIn := r\<rparr>) = ss_token s"
  by (simp_all add: ss_token_def)

lemma logouts_simps [simp]:
  "ss_logouts (set_state st s) = ss_logouts s" "ss_logouts (set_token t s) = ss_logouts s"
  "ss_logouts (await tk s) = ss_logouts s"
  by (simp_all add: set_state_def set_token_def await_def)

text \<open>The device is only ever touched at the refresh token, by a valid save or by the clearing.\<close>

definition stored_ok :: "device \<Rightarrow> bool" where
  "stored_ok d \<longleftrightarrow>
     (case secure_load d of
        None \<Rightarrow> True | Some t \<Rightarrow> t \<noteq> [] \<and> utf8ByteLength t \<le> MAX_REFRESH_TOKEN_BYTES)"

definition touched_by_save_or_clear :: "device \<Rightarrow> device \<Rightarrow> bool" where
  "touched_by_save_or_clear d d' \<longleftrightarrow>
     d' = d \<or> d' = secure_clear d \<or> (\<exists>t. secure_save d t = Inr d')"

lemma handle_device:
  "touched_by_save_or_clear (ss_device s) (ss_device (handle h c ev s))"
  by (cases ev)
    (auto simp: touched_by_save_or_clear_def resume_def bootstrap_def Let_def boot_loaded_def
      refresh_done_def loadStatus_def login_answered_def login_stored_def login_saved_def
      login_status_def signOut_def signOut_now_def end_store_done_def end_caches_done_def
      refreshAuthStatus_def status_answered_def
      split: SessionState.split prod.split option.split RefreshOutcome.split sum.split)

lemma touched_stored_ok: "touched_by_save_or_clear d d' \<Longrightarrow> stored_ok d \<Longrightarrow> stored_ok d'"
  by (auto simp: touched_by_save_or_clear_def stored_ok_def secure_load_clear dest: secure_load_save)

lemma touched_other: "touched_by_save_or_clear d d' \<Longrightarrow> k \<noteq> REFRESH_TOKEN_KEY \<Longrightarrow> d' k = d k"
  by (auto simp: touched_by_save_or_clear_def secure_clear_def secure_save_def dev_remove_def
      dev_set_def Let_def split: if_splits)

text \<open>The answers that end a session: the user's own, and the server's definitive ones.\<close>

fun definitive :: "event \<Rightarrow> bool" where
  "definitive EvSignOut = True"
| "definitive EvBeforeDone = True"
| "definitive (EvRefreshAnswered (Inl err)) = (ce_code err = UnauthenticatedCode)"
| "definitive (EvBootStatus (Inl e)) = (ae_kind (toAppError e) = KUnauthenticated)"
| "definitive (EvBootStatus (Inr auth)) = (\<not> auth_authenticated auth)"
| "definitive (EvStatusAnswered (Inr auth)) = (\<not> auth_authenticated auth)"
| "definitive _ = False"

text \<open>What an event may not take away: the token, the stored token, and no end is begun.\<close>

definition session_kept :: "session \<Rightarrow> session \<Rightarrow> bool" where
  "session_kept s s' \<longleftrightarrow>
     ss_ending s' = None \<and> (ss_token s \<noteq> None \<longrightarrow> ss_token s' \<noteq> None) \<and>
     (secure_load (ss_device s) \<noteq> None \<longrightarrow> secure_load (ss_device s') \<noteq> None)"

lemma kept_refresh_loaded:
  "ss_ending s = None \<Longrightarrow> session_kept s (refresh_done (refresh_loaded answer (ss_refresher s)) s)"
  by (auto simp: session_kept_def refresh_done_def refresh_loaded_def Let_def ss_token_def [of s]
      split: sum.split) (simp_all add: ss_token_def)

lemma kept_refresh_answered:
  assumes "ss_ending s = None" and "\<And>err. answer = Inl err \<Longrightarrow> ce_code err \<noteq> UnauthenticatedCode"
  shows "session_kept s (refresh_done (refresh_answered h answer (ss_refresher s)) s)"
proof (cases "rf_inflight (ss_refresher s)")
  case None
  with assms(1) show ?thesis
    by (simp add: session_kept_def refresh_done_def refresh_answered_def ss_token_def)
next
  case (Some phase)
  show ?thesis
  proof (cases phase)
    case RLoading
    with Some assms(1) show ?thesis
      by (simp add: session_kept_def refresh_done_def refresh_answered_def ss_token_def)
  next
    case (RCalling sent)
    with Some assms show ?thesis
      by (cases answer)
        (simp_all add: session_kept_def refresh_done_def refresh_answered_def Let_def
          classifyRefreshError_def, simp_all add: ss_token_def)
  qed
qed

lemma kept_login_saved:
  "ss_ending s = None \<Longrightarrow> session_kept s (login_saved h resp failure s)"
  by (auto simp: session_kept_def login_saved_def login_stored_def split: option.split sum.split
      dest: secure_load_save)

lemma kept_login_answered:
  "ss_ending s = None \<Longrightarrow> session_kept s (login_answered h c answer s)"
  by (auto simp: session_kept_def login_answered_def login_stored_def split: option.split sum.split)

lemma kept_login_status: "ss_ending s = None \<Longrightarrow> session_kept s (login_status answer s)"
  by (auto simp: session_kept_def login_status_def split: sum.split)

lemma kept_resume:
  assumes "session_kept s (k (s\<lparr>ss_tasks := remove1 t (ss_tasks s)\<rparr>))" and "ss_ending s = None"
  shows "session_kept s (resume t k s)"
  using assms by (auto simp: resume_def session_kept_def)

lemma kept_tasks [simp]: "session_kept (s\<lparr>ss_tasks := ts\<rparr>) s' = session_kept s s'"
  by (simp add: session_kept_def ss_token_def)

lemma tasks_ending [simp]: "ss_ending (s\<lparr>ss_tasks := ts\<rparr>) = ss_ending s"
  by simp

lemma kept_by:
  assumes "ss_ending s = None" and "\<And>s. ss_ending s = None \<Longrightarrow> session_kept s (k s)"
  shows "session_kept s (resume t k s)"
proof (rule kept_resume [OF _ assms(1)])
  have "session_kept (s\<lparr>ss_tasks := remove1 t (ss_tasks s)\<rparr>) (k (s\<lparr>ss_tasks := remove1 t (ss_tasks s)\<rparr>))"
    using assms(1) by (intro assms(2)) simp
  then show "session_kept s (k (s\<lparr>ss_tasks := remove1 t (ss_tasks s)\<rparr>))" by simp
qed

lemma kept_simple:
  assumes "ss_ending s = None"
  shows "session_kept s (bootstrap c s)" "session_kept s (boot_loaded readable s)"
    "session_kept s (askRefresh s)" "session_kept s (await t s)" "session_kept s (refreshAuthStatus s)"
  using assms
  by (auto simp: session_kept_def bootstrap_def boot_loaded_def refreshAuthStatus_def Let_def
      split: SessionState.split option.split)

lemma indefinite_keeps:
  assumes "ss_ending s = None" and "\<not> definitive ev"
  shows "session_kept s (handle h c ev s)"
proof (cases ev)
  case (EvBootStatus answer)
  have "session_kept t (loadStatus answer t)" if "ss_ending t = None" for t
    using that assms(2) EvBootStatus
    by (cases answer) (simp_all add: session_kept_def loadStatus_def Let_def)
  with EvBootStatus assms(1) show ?thesis by (simp add: kept_by)
next
  case (EvStatusAnswered answer)
  have "session_kept t (status_answered answer t)" if "ss_ending t = None" for t
    using that assms(2) EvStatusAnswered
    by (cases answer) (simp_all add: session_kept_def status_answered_def)
  with EvStatusAnswered assms(1) show ?thesis by (simp add: kept_by)
next
  case (EvRefreshAnswered answer)
  with assms show ?thesis by (cases answer) (auto intro!: kept_refresh_answered)
next
  case (EvEndStore cleared)
  with assms show ?thesis by (simp add: end_store_done_def session_kept_def)
next
  case EvEndCaches
  with assms show ?thesis by (simp add: end_caches_done_def session_kept_def)
qed (use assms in \<open>simp_all add: kept_by kept_simple kept_refresh_loaded kept_login_answered
    kept_login_saved kept_login_status\<close>)

lemma run_simps [simp]: "run h c [] s = s" "run h c (ev # evs) s = run h c evs (handle h c ev s)"
  by (simp_all add: run_def)

section \<open>Properties\<close>


definition sample_connect_error :: "Code \<Rightarrow> ConnectError" where
  "sample_connect_error code = \<lparr>ce_code = code, ce_rawMessage = [], ce_retryAfter = None,
     ce_requestId = None, ce_causeTypeError = False, ce_details = None\<rparr>"

definition signed_in_session :: session where
  "signed_in_session = (initial_session [REFRESH_TOKEN_KEY \<mapsto> lit ''r1''])
     \<lparr>ss_state := SSignedIn (blank_auth\<lparr>auth_authenticated := True\<rparr>),
      ss_refresher := \<lparr>rf_inflight = Some (RCalling (lit ''r1'')), rf_sent = [lit ''r1''],
        rf_tokens = Some \<lparr>at_token = lit ''a1'', at_expiresAt = None\<rparr>\<rparr>\<rparr>"




text \<open>
  A late answer undoes a sign-out. When the status is being refetched as the user signs out,
  and its answer comes in after the sign-out is complete, the session shows the user as signed in
  again, with no access token behind it.
\<close>

theorem late_status_undoes_sign_out:
  assumes "ss_state s = SSignedIn auth" and "ss_ending s = None" and "ss_tasks s = []"
    and "\<not> sc_beforeSignOut c" and "auth_authenticated auth'"
  shows "let out = run h c [EvRefreshStatus, EvSignOut, EvEndStore cleared, EvEndCaches] s;
             late = handle h c (EvStatusAnswered (Inr auth')) out
    in ss_state out = SSignedOut \<and> ss_state late = SSignedIn auth' \<and> ss_token late = None"
  using assms
  by (simp add: refreshAuthStatus_def signOut_def signOut_now_def endLocally_def
      end_store_done_def end_caches_done_def resume_def status_answered_def Let_def)

theorem late_status_undoes_sign_out_witness:
  "\<exists>evs. ss_state (run plain_host \<lparr>sc_native = True, sc_beforeSignOut = False\<rparr> evs signed_in_session) =
     SSignedIn (blank_auth\<lparr>auth_authenticated := True\<rparr>) \<and> EvSignOut \<in> set evs"
proof -
  let ?c = "\<lparr>sc_native = True, sc_beforeSignOut = False\<rparr>"
  let ?auth = "blank_auth\<lparr>auth_authenticated := True\<rparr>"
  have "ss_state signed_in_session = SSignedIn ?auth" "ss_ending signed_in_session = None"
    "ss_tasks signed_in_session = []" "\<not> sc_beforeSignOut ?c" "auth_authenticated ?auth"
    by (simp_all add: signed_in_session_def initial_session_def)
  note late = late_status_undoes_sign_out [OF this, of plain_host True]
  show ?thesis
    by (rule exI [of _ "[EvRefreshStatus, EvSignOut, EvEndStore True, EvEndCaches, EvStatusAnswered (Inr ?auth)]"])
      (use late in \<open>simp add: Let_def\<close>)
qed

text \<open>
  A late refresh leaves a token behind. When a refresh is waiting for its answer as the user
  signs out, and a success comes in after the sign-out is complete, the session is signed out but
  a fresh access token sits in the cache, where the next call would attach it.
\<close>

theorem late_refresh_leaves_token:
  assumes "rf_inflight (ss_refresher s) = Some (RCalling sent)" and "ss_ending s = None"
    and "ss_tasks s = []" and "\<not> sc_beforeSignOut c"
  shows "let late = run h c [EvSignOut, EvEndStore cleared, EvEndCaches, EvRefreshAnswered (Inr resp)] s
    in ss_state late = SSignedOut \<and> ss_token late = Some (accessTokenFrom h resp)"
  using assms
  by (simp add: signOut_def signOut_now_def endLocally_def end_store_done_def end_caches_done_def
      refresh_answered_def refresh_done_def set_token_def set_state_def ss_token_def Let_def)

theorem late_refresh_leaves_token_witness:
  "\<exists>t. ss_token (run plain_host \<lparr>sc_native = True, sc_beforeSignOut = False\<rparr>
     [EvSignOut, EvEndStore True, EvEndCaches,
      EvRefreshAnswered (Inr \<lparr>tr_token = lit ''a2'', tr_expiresAt = None, tr_refreshToken = []\<rparr>)]
     signed_in_session) = Some t \<and> at_token t = lit ''a2''"
proof -
  let ?c = "\<lparr>sc_native = True, sc_beforeSignOut = False\<rparr>"
  have "rf_inflight (ss_refresher signed_in_session) = Some (RCalling (lit ''r1''))"
    "ss_ending signed_in_session = None" "ss_tasks signed_in_session = []" "\<not> sc_beforeSignOut ?c"
    by (simp_all add: signed_in_session_def initial_session_def)
  from late_refresh_leaves_token [OF this, of plain_host True]
  show ?thesis by (simp only: Let_def) (simp add: accessTokenFrom_def)
qed

text \<open>
  In every run of the session the device is touched at the refresh token's key only, and what
  is stored there is a token a launch can use: not empty and within the store's limit.
\<close>

theorem store_stays_usable:
  assumes "reachable h c d s" and "stored_ok d"
  shows "stored_ok (ss_device s) \<and> (\<forall>k. k \<noteq> REFRESH_TOKEN_KEY \<longrightarrow> ss_device s k = d k)"
  using assms
proof (induction rule: reachable.induct)
  case start
  then show ?case by (simp add: initial_session_def)
next
  case (event s ev)
  then show ?case
    using touched_stored_ok [OF handle_device] touched_other [OF handle_device] by metis
qed

theorem store_stays_usable_witness:
  "stored_ok (ss_device (handle plain_host \<lparr>sc_native = True, sc_beforeSignOut = False\<rparr> EvSignIn
     (initial_session Map.empty)))"
proof -
  have "reachable plain_host \<lparr>sc_native = True, sc_beforeSignOut = False\<rparr> Map.empty
     (handle plain_host \<lparr>sc_native = True, sc_beforeSignOut = False\<rparr> EvSignIn (initial_session Map.empty))"
    by (intro reachable.intros)
  moreover have "stored_ok Map.empty" by (simp add: stored_ok_def secure_load_def dev_get_def)
  ultimately show ?thesis using store_stays_usable by blast
qed

end
