(* ===== verification/Live.thy ===== *)
theory Live
  imports Complex_Main Errors Storage
begin

text \<open>
  Live updates: the watch loop with its backoff (\<open>api/stream.ts\<close>) and the hub that shares one
  stream per event between screens and patches the cached incident lists on a poke
  (\<open>features/live/hub.ts\<close>).

  The watch loop is a state machine over what can come in: a response, the end of an attempt, the
  end of a delay, the caller's abort. The hub's state is its entries, the unreleased claims of the
  screens and the cached lists; what it asks the query cache to refetch is logged.
\<close>

section \<open>Backoff\<close>

definition STREAM_STALE_MS :: int where
  "STREAM_STALE_MS = 60000"

definition STREAM_BACKOFF_MIN_MS :: int where
  "STREAM_BACKOFF_MIN_MS = 1000"

definition STREAM_BACKOFF_MAX_MS :: int where
  "STREAM_BACKOFF_MAX_MS = 30000"

definition backoffMs :: "nat \<Rightarrow> real \<Rightarrow> int" where
  "backoffMs attempt random =
     (let cap = min STREAM_BACKOFF_MAX_MS (STREAM_BACKOFF_MIN_MS * 2 ^ attempt)
      in \<lfloor>of_int STREAM_BACKOFF_MIN_MS + random * of_int (cap - STREAM_BACKOFF_MIN_MS)\<rfloor>)"

section \<open>The watch loop\<close>

datatype EventPokeKind = POKE_UNSPECIFIED | POKE_HEARTBEAT | POKE_INCIDENT_CHANGED | POKE_REPORT_CHANGED

record EventPoke =
  pk_kind :: EventPokeKind
  pk_eventId :: int
  pk_incidentNumber :: "int option"
  pk_reportNumber :: "int option"

text \<open>A response; its poke may be absent.\<close>

type_synonym WatchEventResponse = "EventPoke option"

datatype watch_phase = Streaming bool | Sleeping | Finished

record watch =
  wa_attempt :: nat
  wa_everOpened :: bool
  wa_phase :: watch_phase

datatype watch_input =
    InResponse WatchEventResponse
  | InEnd "ConnectError option" bool
  | InWake bool

datatype watch_output =
    OnOpen bool
  | OnPoke WatchEventResponse
  | OnDrop "ConnectError option"
  | OnSleep int

definition watch_start :: "bool \<Rightarrow> watch" where
  "watch_start aborted =
     \<lparr>wa_attempt = 0, wa_everOpened = False,
      wa_phase = (if aborted then Finished else Streaming False)\<rparr>"

text \<open>
  An attempt ends with nothing (the stream closed) or an error; the flag of \<open>InEnd\<close> and \<open>InWake\<close>
  is \<open>options.signal.aborted\<close> at that moment. A Canceled error is the loop's own abort (a stale
  stream) and is not reported.
\<close>

definition reported :: "ConnectError option \<Rightarrow> ConnectError option" where
  "reported err =
     (case err of None \<Rightarrow> None | Some e \<Rightarrow> if ce_code e = Canceled then None else Some e)"

fun watch_step :: "real \<Rightarrow> watch \<Rightarrow> watch_input \<Rightarrow> watch \<times> watch_output list" where
  "watch_step random w (InResponse response) =
     (case wa_phase w of
        Streaming opened \<Rightarrow>
          (if opened then (w, [OnPoke response])
           else
             (w\<lparr>wa_attempt := 0, wa_everOpened := True, wa_phase := Streaming True\<rparr>,
              [OnOpen (wa_everOpened w), OnPoke response]))
      | _ \<Rightarrow> (w, []))"
| "watch_step random w (InEnd err aborted) =
     (case wa_phase w of
        Streaming opened \<Rightarrow>
          (if aborted then (w\<lparr>wa_phase := Finished\<rparr>, [])
           else (w\<lparr>wa_phase := Sleeping\<rparr>, [OnDrop (reported err), OnSleep (backoffMs (wa_attempt w) random)]))
      | _ \<Rightarrow> (w, []))"
| "watch_step random w (InWake aborted) =
     (case wa_phase w of
        Sleeping \<Rightarrow>
          (w\<lparr>wa_attempt := wa_attempt w + 1,
             wa_phase := (if aborted then Finished else Streaming False)\<rparr>, [])
      | _ \<Rightarrow> (w, []))"

fun watch_run :: "(real \<times> watch_input) list \<Rightarrow> watch \<Rightarrow> watch \<times> watch_output list" where
  "watch_run [] w = (w, [])"
| "watch_run ((random, inp) # inps) w =
     (let (w1, out) = watch_step random w inp; (w2, rest) = watch_run inps w1
      in (w2, out @ rest))"

section \<open>Patching the cached lists\<close>

definition stripSystemEntries :: "IncidentView \<Rightarrow> IncidentView" where
  "stripSystemEntries view =
     (case iv_incident view of
        None \<Rightarrow> view
      | Some incident \<Rightarrow>
          view\<lparr>iv_incident := Some (incident\<lparr>inc_journalEntries :=
            filter (\<lambda>e. \<not> je_systemEntry e) (inc_journalEntries incident)\<rparr>)\<rparr>)"

definition has_number :: "int \<Rightarrow> IncidentView \<Rightarrow> bool" where
  "has_number number v \<longleftrightarrow> map_option inc_number (iv_incident v) = Some number"

text \<open>The updater of one cached list: replace, insert at the end, or remove.\<close>

definition patch_list ::
  "int \<Rightarrow> IncidentView option \<Rightarrow> IncidentView list \<Rightarrow> IncidentView list" where
  "patch_list number patched incidents =
     (case (patched, find_index (has_number number) incidents) of
        (None, None) \<Rightarrow> incidents
      | (None, Some pos) \<Rightarrow> take pos incidents @ drop (Suc pos) incidents
      | (Some p, None) \<Rightarrow> incidents @ [p]
      | (Some p, Some pos) \<Rightarrow> incidents[pos := p])"

section \<open>The hub\<close>

record watched =
  wt_refs :: nat
  wt_controller :: "nat option"
  wt_live :: bool
  wt_gap :: bool

datatype invalidation =
    InvListIncidents int
  | InvListReports int
  | InvGetIncident "(int \<times> int) option"
  | InvGetReport "(int \<times> int) option"

record hub =
  hb_watched :: "int \<Rightarrow> watched option"
  hb_active :: bool
  hb_claims :: "(nat \<times> int) list"
  hb_fresh :: nat
  hb_aborted :: "nat list"
  hb_patchSeq :: "int \<times> int \<Rightarrow> nat"
  hb_lists :: "int \<Rightarrow> IncidentView list list"
  hb_log :: "invalidation list"

definition createLiveHub :: "bool option \<Rightarrow> (int \<Rightarrow> IncidentView list list) \<Rightarrow> hub" where
  "createLiveHub active cached =
     \<lparr>hb_watched = Map.empty, hb_active = nullish active True, hb_claims = [], hb_fresh = 0,
      hb_aborted = [], hb_patchSeq = (\<lambda>_. 0), hb_lists = cached, hb_log = []\<rparr>"

definition invalidate :: "invalidation list \<Rightarrow> hub \<Rightarrow> hub" where
  "invalidate invs b = b\<lparr>hb_log := hb_log b @ invs\<rparr>"

definition refetchEvent :: "int \<Rightarrow> hub \<Rightarrow> hub" where
  "refetchEvent eventId =
     invalidate [InvListIncidents eventId, InvListReports eventId, InvGetIncident None, InvGetReport None]"

definition put_entry :: "int \<Rightarrow> watched \<Rightarrow> hub \<Rightarrow> hub" where
  "put_entry eventId entry b = b\<lparr>hb_watched := (hb_watched b)(eventId \<mapsto> entry)\<rparr>"

text \<open>\<open>open\<close>: a new stream with a controller of its own, unless one is open or the app is away.\<close>

definition open_entry :: "int \<Rightarrow> hub \<Rightarrow> hub" where
  "open_entry eventId b =
     (case hb_watched b eventId of
        None \<Rightarrow> b
      | Some entry \<Rightarrow>
          if wt_controller entry \<noteq> None \<or> \<not> hb_active b then b
          else (put_entry eventId (entry\<lparr>wt_controller := Some (hb_fresh b)\<rparr>) b)
            \<lparr>hb_fresh := hb_fresh b + 1\<rparr>)"

definition close_entry :: "int \<Rightarrow> hub \<Rightarrow> hub" where
  "close_entry eventId b =
     (case hb_watched b eventId of
        None \<Rightarrow> b
      | Some entry \<Rightarrow>
          (put_entry eventId (entry\<lparr>wt_controller := None, wt_live := False\<rparr>) b)
            \<lparr>hb_aborted := (case wt_controller entry of
               None \<Rightarrow> hb_aborted b | Some k \<Rightarrow> k # hb_aborted b)\<rparr>)"

text \<open>\<open>watch\<close>: the claim's id stands for the release it returns.\<close>

definition hub_watch :: "int \<Rightarrow> hub \<Rightarrow> hub \<times> nat" where
  "hub_watch eventId b =
     (let entry = nullish (hb_watched b eventId)
            \<lparr>wt_refs = 0, wt_controller = None, wt_live = False, wt_gap = False\<rparr>;
          claim = hb_fresh b;
          b1 = (put_entry eventId (entry\<lparr>wt_refs := wt_refs entry + 1\<rparr>) b)
            \<lparr>hb_claims := (claim, eventId) # hb_claims b, hb_fresh := hb_fresh b + 1\<rparr>
      in (open_entry eventId b1, claim))"

definition hub_release :: "nat \<Rightarrow> hub \<Rightarrow> hub" where
  "hub_release claim b =
     (case map_of (hb_claims b) claim of
        None \<Rightarrow> b
      | Some eventId \<Rightarrow>
          (case hb_watched b eventId of
             None \<Rightarrow> b
           | Some entry \<Rightarrow>
               (let b1 = (put_entry eventId (entry\<lparr>wt_refs := wt_refs entry - 1\<rparr>) b)
                      \<lparr>hb_claims := filter (\<lambda>c. fst c \<noteq> claim) (hb_claims b)\<rparr>
                in if wt_refs entry - 1 = 0
                   then (close_entry eventId b1)
                     \<lparr>hb_watched := (hb_watched (close_entry eventId b1))(eventId := None)\<rparr>
                   else b1)))"

text \<open>\<open>setActive\<close> visits the watched events, given here in the order of the map.\<close>

definition hub_setActive :: "int list \<Rightarrow> bool \<Rightarrow> hub \<Rightarrow> hub" where
  "hub_setActive order to b =
     (if to = hb_active b then b
      else fold (if to then open_entry else close_entry) order (b\<lparr>hb_active := to\<rparr>))"

definition isLive :: "hub \<Rightarrow> int \<Rightarrow> bool" where
  "isLive b eventId = (case hb_watched b eventId of None \<Rightarrow> False | Some entry \<Rightarrow> wt_live entry)"

text \<open>The handlers of the stream of an event.\<close>

definition hub_onOpen :: "int \<Rightarrow> bool \<Rightarrow> hub \<Rightarrow> hub" where
  "hub_onOpen eventId gap b =
     (case hb_watched b eventId of
        None \<Rightarrow> b
      | Some entry \<Rightarrow>
          (let b1 = put_entry eventId (entry\<lparr>wt_live := True, wt_gap := True\<rparr>) b
           in if gap \<or> wt_gap entry then refetchEvent eventId b1 else b1))"

definition hub_onDrop :: "int \<Rightarrow> hub \<Rightarrow> hub" where
  "hub_onDrop eventId b =
     (case hb_watched b eventId of
        None \<Rightarrow> b
      | Some entry \<Rightarrow> put_entry eventId (entry\<lparr>wt_live := False\<rparr>) b)"

text \<open>\<open>patchIncidentList\<close> up to its fetch: the fetch's sequence number.\<close>

definition patch_begin :: "int \<Rightarrow> int \<Rightarrow> hub \<Rightarrow> hub \<times> nat" where
  "patch_begin eventId number b =
     (let n = hb_patchSeq b (eventId, number) + 1
      in (b\<lparr>hb_patchSeq := (hb_patchSeq b)((eventId, number) := n)\<rparr>, n))"

text \<open>The fetch's answer: the view it holds, if any, or what was thrown.\<close>

definition patch_end :: "int \<Rightarrow> int \<Rightarrow> nat \<Rightarrow> thrown + IncidentView option \<Rightarrow> hub \<Rightarrow> hub" where
  "patch_end eventId number n answer b =
     (case (case answer of
              Inr view \<Rightarrow> Some view
            | Inl e \<Rightarrow> if ae_kind (toAppError e) \<noteq> KNotFound then None else Some None) of
        None \<Rightarrow> invalidate [InvListIncidents eventId] b
      | Some incident \<Rightarrow>
          if hb_patchSeq b (eventId, number) \<noteq> n then b
          else b\<lparr>hb_lists := (hb_lists b)(eventId :=
            map (patch_list number (map_option stripSystemEntries incident)) (hb_lists b eventId))\<rparr>)"

text \<open>\<open>onPoke\<close>: the new state, and the fetch it starts.\<close>

definition hub_onPoke :: "WatchEventResponse \<Rightarrow> hub \<Rightarrow> hub \<times> (int \<times> int \<times> nat) option" where
  "hub_onPoke response b =
     (case response of
        None \<Rightarrow> (b, None)
      | Some poke \<Rightarrow>
          (case (pk_kind poke, pk_incidentNumber poke, pk_reportNumber poke) of
             (POKE_INCIDENT_CHANGED, Some number, _) \<Rightarrow>
               (let (b1, n) = patch_begin (pk_eventId poke) number
                      (invalidate [InvGetIncident (Some (pk_eventId poke, number))] b)
                in (b1, Some (pk_eventId poke, number, n)))
           | (POKE_REPORT_CHANGED, _, Some number) \<Rightarrow>
               (invalidate [InvGetReport (Some (pk_eventId poke, number)),
                  InvListReports (pk_eventId poke)] b, None)
           | _ \<Rightarrow> (b, None)))"

section \<open>The watch loop's promises\<close>

lemma backoff_bounds:
  assumes "0 \<le> r" and "r < 1"
  shows "STREAM_BACKOFF_MIN_MS \<le> backoffMs n r \<and> backoffMs n r \<le> STREAM_BACKOFF_MAX_MS"
proof -
  define cap where "cap = min STREAM_BACKOFF_MAX_MS (STREAM_BACKOFF_MIN_MS * 2 ^ n)"
  have "(1::int) \<le> 2 ^ n" by simp
  then have low: "1000 \<le> cap" and high: "cap \<le> 30000"
    by (simp_all add: cap_def STREAM_BACKOFF_MIN_MS_def STREAM_BACKOFF_MAX_MS_def)
  have pos: "0 \<le> r * of_int (cap - 1000)" using assms(1) low by simp
  have "r * of_int (cap - 1000) \<le> 1 * of_int (cap - 1000)"
    using assms low by (intro mult_right_mono) auto
  with high have le: "r * of_int (cap - 1000) \<le> 29000" by simp
  have val: "backoffMs n r = \<lfloor>1000 + r * of_int (cap - 1000)\<rfloor>"
    by (simp add: backoffMs_def cap_def Let_def STREAM_BACKOFF_MIN_MS_def)
  have "1000 \<le> backoffMs n r" unfolding val using pos by (simp add: le_floor_iff)
  moreover have "backoffMs n r \<le> 30000" unfolding val using le by (simp add: floor_le_iff)
  ultimately show ?thesis by (simp add: STREAM_BACKOFF_MIN_MS_def STREAM_BACKOFF_MAX_MS_def)
qed

fun opens :: "watch_output list \<Rightarrow> bool list" where
  "opens [] = []"
| "opens (OnOpen gap # out) = gap # opens out"
| "opens (x # out) = opens out"

fun sleeps :: "watch_output list \<Rightarrow> int list" where
  "sleeps [] = []"
| "sleeps (OnSleep ms # out) = ms # sleeps out"
| "sleeps (x # out) = sleeps out"

text \<open>A poke is only reported while the stream is open: after an open, before the next drop.\<close>

fun pokes_while_open :: "bool \<Rightarrow> watch_output list \<Rightarrow> bool" where
  "pokes_while_open opened [] = True"
| "pokes_while_open opened (OnOpen gap # out) = (\<not> opened \<and> pokes_while_open True out)"
| "pokes_while_open opened (OnPoke p # out) = (opened \<and> pokes_while_open True out)"
| "pokes_while_open opened (OnDrop e # out) = pokes_while_open False out"
| "pokes_while_open opened (OnSleep ms # out) = pokes_while_open opened out"

lemma opens_append: "opens (xs @ ys) = opens xs @ opens ys"
  by (induction xs rule: opens.induct) simp_all

lemma sleeps_append: "sleeps (xs @ ys) = sleeps xs @ sleeps ys"
  by (induction xs rule: sleeps.induct) simp_all

definition stream_opened :: "watch \<Rightarrow> bool" where
  "stream_opened w \<longleftrightarrow> wa_phase w = Streaming True"

lemma watch_step_opens:
  "opens (snd (watch_step r w inp)) \<in> {[], [wa_everOpened w]} \<and>
   (wa_everOpened (fst (watch_step r w inp)) \<longleftrightarrow>
      wa_everOpened w \<or> opens (snd (watch_step r w inp)) \<noteq> [])"
  by (cases inp) (auto split: watch_phase.split)

lemma watch_run_opens:
  "\<exists>k. opens (snd (watch_run inps w)) =
     (if wa_everOpened w then replicate k True
      else if k = 0 then [] else False # replicate (k - 1) True)"
proof (induction inps arbitrary: w)
  case Nil
  show ?case by (rule exI [of _ 0]) simp
next
  case (Cons ri inps)
  obtain r inp where ri: "ri = (r, inp)" by force
  obtain w1 out where step: "watch_step r w inp = (w1, out)" by force
  from watch_step_opens [of r w inp] step
  have out: "opens out \<in> {[], [wa_everOpened w]}" and ever: "wa_everOpened w1 = (wa_everOpened w \<or> opens out \<noteq> [])"
    by simp_all
  have run: "opens (snd (watch_run (ri # inps) w)) = opens out @ opens (snd (watch_run inps w1))"
    by (simp add: ri step opens_append split: prod.split)
  obtain k where k: "opens (snd (watch_run inps w1)) =
     (if wa_everOpened w1 then replicate k True
      else if k = 0 then [] else False # replicate (k - 1) True)"
    using Cons.IH by blast
  show ?case
  proof (cases "opens out = []")
    case True
    with run k ever show ?thesis by (intro exI [of _ k]) simp
  next
    case False
    with out ever have "opens out = [wa_everOpened w]" "wa_everOpened w1" by auto
    with run k show ?thesis by (intro exI [of _ "Suc k"]) simp
  qed
qed

lemma watch_run_sleeps:
  "\<forall>(r, inp) \<in> set inps. 0 \<le> r \<and> r < 1 \<Longrightarrow>
   \<forall>ms \<in> set (sleeps (snd (watch_run inps w))).
     STREAM_BACKOFF_MIN_MS \<le> ms \<and> ms \<le> STREAM_BACKOFF_MAX_MS"
proof (induction inps arbitrary: w)
  case (Cons ri inps)
  obtain r inp where ri: "ri = (r, inp)" by force
  obtain w1 out where step: "watch_step r w inp = (w1, out)" by force
  have r: "0 \<le> r" "r < 1" using Cons.prems ri by auto
  have "ms = backoffMs (wa_attempt w) r" if "ms \<in> set (sleeps out)" for ms
    using that step by (cases inp) (auto split: watch_phase.splits if_splits)
  with backoff_bounds [OF r]
  have "\<forall>ms \<in> set (sleeps out). STREAM_BACKOFF_MIN_MS \<le> ms \<and> ms \<le> STREAM_BACKOFF_MAX_MS" by blast
  moreover have "sleeps (snd (watch_run (ri # inps) w)) = sleeps out @ sleeps (snd (watch_run inps w1))"
    by (simp add: ri step sleeps_append split: prod.split)
  ultimately show ?case using Cons by auto
qed simp

lemma watch_finished: "wa_phase w = Finished \<Longrightarrow> watch_run inps w = (w, [])"
proof (induction inps)
  case (Cons ri inps)
  then show ?case by (cases ri; cases "snd ri") simp_all
qed simp

lemma watch_step_pokes:
  assumes "pokes_while_open (stream_opened (fst (watch_step r w inp))) out"
    and "wa_phase (fst (watch_step r w inp)) = Finished \<Longrightarrow> out = []"
  shows "pokes_while_open (stream_opened w) (snd (watch_step r w inp) @ out)"
  using assms by (cases inp) (auto simp: stream_opened_def split: watch_phase.splits if_splits)

lemma watch_run_pokes: "pokes_while_open (stream_opened w) (snd (watch_run inps w))"
proof (induction inps arbitrary: w)
  case (Cons ri inps)
  obtain r inp where ri: "ri = (r, inp)" by force
  let ?w = "fst (watch_step r w inp)"
  have "snd (watch_run (ri # inps) w) = snd (watch_step r w inp) @ snd (watch_run inps ?w)"
    by (simp add: ri split: prod.split)
  with watch_step_pokes [OF Cons.IH] watch_finished [of ?w inps] show ?case by simp
qed simp

section \<open>The patch\<close>

lemma strip_number [simp]: "has_number n (stripSystemEntries v) = has_number n v"
  by (simp add: has_number_def stripSystemEntries_def split: option.split)

lemma patch_others:
  assumes "pred_option (has_number n) patched"
  shows "filter (\<lambda>v. \<not> has_number n v) (patch_list n patched xs) = filter (\<lambda>v. \<not> has_number n v) xs"
proof (cases "find_index (has_number n) xs")
  case None
  with assms show ?thesis by (cases patched) (simp_all add: patch_list_def)
next
  case (Some i)
  then have i: "i < length xs" "has_number n (xs ! i)" by (auto simp: find_index_Some)
  then have xs: "xs = take i xs @ xs ! i # drop (Suc i) xs" by (simp add: id_take_nth_drop)
  have "filter (\<lambda>v. \<not> has_number n v) xs =
      filter (\<lambda>v. \<not> has_number n v) (take i xs) @ filter (\<lambda>v. \<not> has_number n v) (drop (Suc i) xs)"
    by (subst xs) (simp add: i)
  with Some i assms show ?thesis
    by (cases patched) (simp_all add: patch_list_def upd_conv_take_nth_drop)
qed

lemma patch_own:
  assumes "pred_option (has_number n) patched" and "length (filter (has_number n) xs) \<le> 1"
  shows "filter (has_number n) (patch_list n patched xs) =
    (case patched of None \<Rightarrow> [] | Some p \<Rightarrow> [p])"
proof (cases "find_index (has_number n) xs")
  case None
  then have "filter (has_number n) xs = []" by (simp add: find_index_None filter_empty_conv)
  with None assms(1) show ?thesis by (cases patched) (simp_all add: patch_list_def)
next
  case (Some i)
  then have i: "i < length xs" "has_number n (xs ! i)" by (auto simp: find_index_Some)
  then have xs: "xs = take i xs @ xs ! i # drop (Suc i) xs" by (simp add: id_take_nth_drop)
  have "filter (has_number n) xs =
      filter (has_number n) (take i xs) @ xs ! i # filter (has_number n) (drop (Suc i) xs)"
    by (subst xs) (simp add: i)
  with assms(2) have "filter (has_number n) (take i xs) = []" "filter (has_number n) (drop (Suc i) xs) = []"
    by simp_all
  with Some i assms(1) show ?thesis
    by (cases patched) (simp_all add: patch_list_def upd_conv_take_nth_drop)
qed

section \<open>The hub's invariant\<close>

definition claims_of :: "hub \<Rightarrow> int \<Rightarrow> nat" where
  "claims_of b e = length (filter (\<lambda>c. snd c = e) (hb_claims b))"

text \<open>An entry against the claims on its event and the app's place.\<close>

definition entry_ok :: "nat \<Rightarrow> bool \<Rightarrow> watched option \<Rightarrow> bool" where
  "entry_ok n active entry \<longleftrightarrow>
     (case entry of
        None \<Rightarrow> n = 0
      | Some w \<Rightarrow> 0 < n \<and> wt_refs w = n \<and> (wt_controller w \<noteq> None) = active \<and> (wt_live w \<longrightarrow> active))"

definition hub_inv :: "hub \<Rightarrow> bool" where
  "hub_inv b \<longleftrightarrow>
     (\<forall>e. entry_ok (claims_of b e) (hb_active b) (hb_watched b e)) \<and>
     distinct (map fst (hb_claims b)) \<and> (\<forall>c \<in> set (hb_claims b). fst c < hb_fresh b)"

lemma hub_inv_entry: "hub_inv b \<Longrightarrow> entry_ok (claims_of b e) (hb_active b) (hb_watched b e)"
  by (simp add: hub_inv_def)

lemma entry_okD:
  "hub_inv b \<Longrightarrow> hb_watched b e = Some w \<Longrightarrow>
   0 < claims_of b e \<and> wt_refs w = claims_of b e \<and> (wt_controller w \<noteq> None) = hb_active b \<and>
   (wt_live w \<longrightarrow> hb_active b)"
  using hub_inv_entry [of b e] by (simp add: entry_ok_def)

lemma entry_okN: "hub_inv b \<Longrightarrow> hb_watched b e = None \<Longrightarrow> claims_of b e = 0"
  using hub_inv_entry [of b e] by (simp add: entry_ok_def)

lemma invalidate_simps [simp]:
  "hb_watched (invalidate i b) = hb_watched b" "hb_active (invalidate i b) = hb_active b"
  "hb_claims (invalidate i b) = hb_claims b" "hb_fresh (invalidate i b) = hb_fresh b"
  "hb_lists (invalidate i b) = hb_lists b" "hb_patchSeq (invalidate i b) = hb_patchSeq b"
  by (simp_all add: invalidate_def)

lemma put_entry_simps [simp]:
  "hb_watched (put_entry e w b) = (hb_watched b)(e \<mapsto> w)" "hb_active (put_entry e w b) = hb_active b"
  "hb_claims (put_entry e w b) = hb_claims b" "hb_fresh (put_entry e w b) = hb_fresh b"
  by (simp_all add: put_entry_def)

lemma claims_of_cong: "hb_claims b = hb_claims b' \<Longrightarrow> claims_of b e = claims_of b' e"
  by (simp add: claims_of_def)

lemma hub_inv_cong:
  "hb_watched b = hb_watched b' \<Longrightarrow> hb_active b = hb_active b' \<Longrightarrow> hb_claims b = hb_claims b' \<Longrightarrow>
   hb_fresh b = hb_fresh b' \<Longrightarrow> hub_inv b = hub_inv b'"
  by (simp add: hub_inv_def claims_of_def)

text \<open>What a sweep of \<open>open\<close> or \<open>close\<close> over the watched events leaves of each entry.\<close>

definition opened_entry :: "bool \<Rightarrow> watched \<Rightarrow> watched \<Rightarrow> bool" where
  "opened_entry swept w w' \<longleftrightarrow>
     wt_refs w' = wt_refs w \<and> wt_live w' = wt_live w \<and>
     ((wt_controller w' = None) \<longleftrightarrow> wt_controller w = None \<and> \<not> swept)"

lemma opened_entry_trans:
  "opened_entry x u v \<Longrightarrow> opened_entry y v w \<Longrightarrow> opened_entry (x \<or> y) u w"
  by (auto simp: opened_entry_def)

lemma open_entry_watched:
  assumes "hb_active b"
  shows "rel_option (opened_entry (e' = e)) (hb_watched b e') (hb_watched (open_entry e b) e')"
  using assms
  by (cases "hb_watched b e'"; cases "hb_watched b e")
    (auto simp: open_entry_def opened_entry_def)

lemma open_entry_simps [simp]:
  "hb_active (open_entry e b) = hb_active b" "hb_claims (open_entry e b) = hb_claims b"
  "hb_lists (open_entry e b) = hb_lists b"
  by (simp_all add: open_entry_def put_entry_def split: option.split)

lemma open_entry_fresh: "hb_fresh b \<le> hb_fresh (open_entry e b)"
  by (simp add: open_entry_def split: option.split)

lemma open_sweep:
  assumes "hb_active b"
  shows "rel_option (opened_entry (e \<in> set order)) (hb_watched b e)
      (hb_watched (fold open_entry order b) e) \<and>
    hb_active (fold open_entry order b) = hb_active b \<and>
    hb_claims (fold open_entry order b) = hb_claims b \<and> hb_fresh b \<le> hb_fresh (fold open_entry order b)"
  using assms
proof (induction order arbitrary: b)
  case Nil
  then show ?case by (cases "hb_watched b e") (simp_all add: opened_entry_def)
next
  case (Cons e1 order)
  let ?b = "open_entry e1 b"
  have IH: "rel_option (opened_entry (e \<in> set order)) (hb_watched ?b e)
        (hb_watched (fold open_entry order ?b) e)"
    and rest: "hb_active (fold open_entry order ?b) = hb_active ?b"
      "hb_claims (fold open_entry order ?b) = hb_claims ?b" "hb_fresh ?b \<le> hb_fresh (fold open_entry order ?b)"
    using Cons.IH [of ?b] Cons.prems by simp_all
  have first: "rel_option (opened_entry (e = e1)) (hb_watched b e) (hb_watched ?b e)"
    by (rule open_entry_watched [OF Cons.prems])
  have "rel_option (opened_entry (e \<in> set (e1 # order))) (hb_watched b e)
      (hb_watched (fold open_entry order ?b) e)"
    using first IH
    by (cases "hb_watched b e"; cases "hb_watched ?b e"; cases "hb_watched (fold open_entry order ?b) e")
      (auto simp: opened_entry_def)
  with rest open_entry_fresh [of b e1] show ?case by (auto intro: order_trans)
qed

definition closed_entry :: "bool \<Rightarrow> watched \<Rightarrow> watched \<Rightarrow> bool" where
  "closed_entry swept w w' \<longleftrightarrow>
     wt_refs w' = wt_refs w \<and>
     (if swept then wt_controller w' = None \<and> \<not> wt_live w'
      else wt_controller w' = wt_controller w \<and> wt_live w' = wt_live w)"

lemma close_entry_watched:
  "rel_option (closed_entry (e' = e)) (hb_watched b e') (hb_watched (close_entry e b) e')"
  by (cases "hb_watched b e'"; cases "hb_watched b e")
    (auto simp: close_entry_def closed_entry_def)

lemma close_entry_simps [simp]:
  "hb_active (close_entry e b) = hb_active b" "hb_claims (close_entry e b) = hb_claims b"
  "hb_fresh (close_entry e b) = hb_fresh b"
  by (simp_all add: close_entry_def split: option.split)

lemma close_sweep:
  "rel_option (closed_entry (e \<in> set order)) (hb_watched b e)
      (hb_watched (fold close_entry order b) e) \<and>
    hb_active (fold close_entry order b) = hb_active b \<and>
    hb_claims (fold close_entry order b) = hb_claims b \<and> hb_fresh (fold close_entry order b) = hb_fresh b"
proof (induction order arbitrary: b)
  case Nil
  then show ?case by (cases "hb_watched b e") (simp_all add: closed_entry_def)
next
  case (Cons e1 order)
  let ?b = "close_entry e1 b"
  have IH: "rel_option (closed_entry (e \<in> set order)) (hb_watched ?b e)
        (hb_watched (fold close_entry order ?b) e)"
    and rest: "hb_active (fold close_entry order ?b) = hb_active ?b"
      "hb_claims (fold close_entry order ?b) = hb_claims ?b"
      "hb_fresh (fold close_entry order ?b) = hb_fresh ?b"
    using Cons.IH [of ?b] by simp_all
  have "rel_option (closed_entry (e \<in> set (e1 # order))) (hb_watched b e)
      (hb_watched (fold close_entry order ?b) e)"
    using close_entry_watched [of e e1 b] IH
    by (cases "hb_watched b e"; cases "hb_watched ?b e"; cases "hb_watched (fold close_entry order ?b) e")
      (auto simp: closed_entry_def split: if_splits)
  with rest show ?case by simp
qed

text \<open>
  Steps of the hub. A stream's handlers are called while its controller is the entry's: an aborted
  stream delivers nothing more. \<open>setActive\<close> visits exactly the watched events.
\<close>

inductive hub_step :: "hub \<Rightarrow> hub \<Rightarrow> bool" where
  step_watch: "hub_step b (fst (hub_watch e b))"
| step_release: "hub_step b (hub_release claim b)"
| step_active: "set order = {e. hb_watched b e \<noteq> None} \<Longrightarrow> hub_step b (hub_setActive order to b)"
| step_opened: "hb_watched b e = Some w \<Longrightarrow> wt_controller w \<noteq> None \<Longrightarrow> hub_step b (hub_onOpen e gap b)"
| step_dropped: "hub_step b (hub_onDrop e b)"
| step_poked: "hub_step b (fst (hub_onPoke response b))"
| step_patched: "hub_step b (patch_end e number n answer b)"

inductive_simps hub_step_iff: "hub_step b b'"

lemma inv_watch:
  assumes "hub_inv b"
  shows "hub_inv (fst (hub_watch e b))"
proof -
  note ok = hub_inv_entry [OF assms]
  have claims: "distinct (map fst (hb_claims b))" "\<forall>c \<in> set (hb_claims b). fst c < hb_fresh b"
    using assms by (simp_all add: hub_inv_def)
  let ?b = "fst (hub_watch e b)"
  have b: "hb_claims ?b = (hb_fresh b, e) # hb_claims b" "hb_active ?b = hb_active b"
    "hb_fresh b < hb_fresh ?b"
    by (simp_all add: hub_watch_def Let_def open_entry_def less_Suc_eq)
  have "entry_ok (claims_of ?b e') (hb_active ?b) (hb_watched ?b e')" for e'
  proof (cases "e' = e")
    case False
    then have "hb_watched ?b e' = hb_watched b e'" "claims_of ?b e' = claims_of b e'"
      by (simp_all add: hub_watch_def Let_def open_entry_def claims_of_def)
    with ok [of e'] b(2) show ?thesis by simp
  next
    case True
    have "claims_of ?b e = Suc (claims_of b e)" by (simp add: claims_of_def b(1))
    with ok [of e] True show ?thesis
      by (cases "hb_watched b e")
        (auto simp: hub_watch_def Let_def open_entry_def entry_ok_def)
  qed
  moreover have "distinct (map fst (hb_claims ?b))" using claims by (auto simp: b(1))
  moreover have "\<forall>c \<in> set (hb_claims ?b). fst c < hb_fresh ?b"
    using claims(2) b(3) by (auto simp: b(1) intro: less_trans)
  ultimately show ?thesis by (simp add: hub_inv_def)
qed

lemma filter_claim:
  "distinct (map fst cs) \<Longrightarrow> map_of cs k = Some e \<Longrightarrow>
   length (filter (\<lambda>c. snd c = e') (filter (\<lambda>c. fst c \<noteq> k) cs)) =
     length (filter (\<lambda>c. snd c = e') cs) - (if e' = e then 1 else 0)"
proof (induction cs)
  case (Cons c cs)
  show ?case
  proof (cases "fst c = k")
    case True
    then have "filter (\<lambda>c. fst c \<noteq> k) cs = cs"
      using Cons.prems(1) by (auto simp: filter_id_conv image_iff)
    with True Cons.prems(2) show ?thesis by simp
  next
    case False
    with Cons have IH: "length (filter (\<lambda>c. snd c = e') (filter (\<lambda>c. fst c \<noteq> k) cs)) =
        length (filter (\<lambda>c. snd c = e') cs) - (if e' = e then 1 else 0)" by simp
    have "(k, e) \<in> set cs" using False Cons.prems(2) by (auto dest: map_of_SomeD)
    then have "e' = e \<Longrightarrow> 0 < length (filter (\<lambda>c. snd c = e') cs)"
      by (force simp: filter_empty_conv)
    with False IH show ?thesis by auto
  qed
qed simp

lemma inv_release:
  assumes "hub_inv b"
  shows "hub_inv (hub_release k b)"
proof (cases "map_of (hb_claims b) k")
  case None
  with assms show ?thesis by (simp add: hub_release_def)
next
  case (Some e)
  note ok = hub_inv_entry [OF assms]
  have claims: "distinct (map fst (hb_claims b))" "\<forall>c \<in> set (hb_claims b). fst c < hb_fresh b"
    using assms by (simp_all add: hub_inv_def)
  have "(k, e) \<in> set (hb_claims b)" using Some by (rule map_of_SomeD)
  then have pos: "0 < claims_of b e" by (force simp: claims_of_def filter_empty_conv)
  with entry_okN [OF assms, of e] obtain w where w: "hb_watched b e = Some w" by fastforce
  let ?b = "hub_release k b"
  have b: "hb_claims ?b = filter (\<lambda>c. fst c \<noteq> k) (hb_claims b)" "hb_active ?b = hb_active b"
    "hb_fresh ?b = hb_fresh b"
    by (simp_all add: hub_release_def Some w Let_def)
  have count: "claims_of ?b e' = claims_of b e' - (if e' = e then 1 else 0)" for e'
    using filter_claim [OF claims(1) Some, of e'] by (simp add: claims_of_def b(1))
  have "entry_ok (claims_of ?b e') (hb_active ?b) (hb_watched ?b e')" for e'
  proof (cases "e' = e")
    case False
    then have "hb_watched ?b e' = hb_watched b e'"
      by (simp add: hub_release_def Some w Let_def close_entry_def)
    with ok [of e'] False show ?thesis by (simp add: count b(2))
  next
    case True
    have "hb_watched ?b e = (if wt_refs w - 1 = 0 then None else Some (w\<lparr>wt_refs := wt_refs w - 1\<rparr>))"
      by (simp add: hub_release_def Some w Let_def)
    with ok [of e] w pos True count [of e] b(2) show ?thesis
      by (auto simp: entry_ok_def)
  qed
  with claims show ?thesis
    by (auto simp: hub_inv_def b(1,3) distinct_map_filter)
qed

lemma inv_active:
  assumes "hub_inv b" and order: "set order = {e. hb_watched b e \<noteq> None}"
  shows "hub_inv (hub_setActive order to b)"
proof (cases "to = hb_active b")
  case True
  with assms(1) show ?thesis by (simp add: hub_setActive_def)
next
  case change: False
  note ok = hub_inv_entry [OF assms(1)]
  have claims: "distinct (map fst (hb_claims b))" "\<forall>c \<in> set (hb_claims b). fst c < hb_fresh b"
    using assms(1) by (simp_all add: hub_inv_def)
  let ?b = "b\<lparr>hb_active := to\<rparr>"
  have all: "hb_watched b e \<noteq> None \<longleftrightarrow> e \<in> set order" for e using order by simp
  show ?thesis
  proof (cases to)
    case True
    then have act: "hb_active ?b" by simp
    have "entry_ok (claims_of b e) True (hb_watched (fold open_entry order ?b) e)" for e
      using open_sweep [OF act, of e order] ok [of e] all [of e] change True
      by (cases "hb_watched b e"; cases "hb_watched (fold open_entry order ?b) e")
        (auto simp: entry_ok_def opened_entry_def)
    moreover have "hb_claims (fold open_entry order ?b) = hb_claims b"
      "hb_active (fold open_entry order ?b)" "hb_fresh b \<le> hb_fresh (fold open_entry order ?b)"
      using open_sweep [OF act, of 0 order] True by simp_all
    ultimately show ?thesis
      using change True claims
      by (auto simp: hub_setActive_def hub_inv_def claims_of_def dest!: bspec)
  next
    case False
    have "entry_ok (claims_of b e) False (hb_watched (fold close_entry order ?b) e)" for e
      using close_sweep [of e order ?b] ok [of e] all [of e] change False
      by (cases "hb_watched b e"; cases "hb_watched (fold close_entry order ?b) e")
        (auto simp: entry_ok_def closed_entry_def)
    moreover have "hb_claims (fold close_entry order ?b) = hb_claims b"
      "\<not> hb_active (fold close_entry order ?b)" "hb_fresh (fold close_entry order ?b) = hb_fresh b"
      using close_sweep [of 0 order ?b] False by simp_all
    ultimately show ?thesis
      using change False claims by (simp add: hub_setActive_def hub_inv_def claims_of_def)
  qed
qed

lemma inv_entry_update:
  assumes "hub_inv b" and "hb_watched b e = Some w" and "wt_refs w' = wt_refs w"
    and "wt_controller w' = wt_controller w" and "wt_live w' \<longrightarrow> hb_active b"
  shows "hub_inv (put_entry e w' b)"
proof -
  have "entry_ok (claims_of b e') (hb_active b) (((hb_watched b)(e \<mapsto> w')) e')" for e'
    using hub_inv_entry [OF assms(1), of e'] assms(2-5) by (auto simp: entry_ok_def)
  with assms(1) show ?thesis by (simp add: hub_inv_def claims_of_def)
qed

lemma inv_invalidate [simp]: "hub_inv (invalidate i b) = hub_inv b"
  by (rule hub_inv_cong) simp_all

lemma inv_opened:
  assumes "hub_inv b" and "hb_watched b e = Some w" and "wt_controller w \<noteq> None"
  shows "hub_inv (hub_onOpen e gap b)"
proof -
  have "hub_inv (put_entry e (w\<lparr>wt_live := True, wt_gap := True\<rparr>) b)"
    using assms entry_okD [OF assms(1,2)] by (intro inv_entry_update [OF assms(1,2)]) auto
  with assms(2) show ?thesis by (simp add: hub_onOpen_def refetchEvent_def Let_def)
qed

lemma inv_dropped: "hub_inv b \<Longrightarrow> hub_inv (hub_onDrop e b)"
  using inv_entry_update by (auto simp: hub_onDrop_def split: option.split)

lemma inv_poked: "hub_inv b \<Longrightarrow> hub_inv (fst (hub_onPoke response b))"
proof -
  assume inv: "hub_inv b"
  have "hub_inv b'" if "patch_begin e k (invalidate i b) = (b', n)" for e k i b' n
    using inv that hub_inv_cong [of b' b] by (auto simp: patch_begin_def Let_def)
  with inv show ?thesis
    by (auto simp: hub_onPoke_def Let_def split: option.split EventPokeKind.split prod.split)
qed

lemma inv_patched: "hub_inv b \<Longrightarrow> hub_inv (patch_end e k n answer b)"
  using hub_inv_cong [of "b\<lparr>hb_lists := l\<rparr>" b for l]
  by (simp add: patch_end_def split: option.split)

lemma inv_step: "hub_step b b' \<Longrightarrow> hub_inv b \<Longrightarrow> hub_inv b'"
  by (induction rule: hub_step.induct)
    (auto intro: inv_watch inv_release inv_active inv_opened inv_dropped inv_poked inv_patched)

lemma inv_created: "hub_inv (createLiveHub active cached)"
  by (simp add: createLiveHub_def hub_inv_def claims_of_def entry_ok_def)

section \<open>Properties\<close>

text \<open>
  The watch loop reports faithfully. In every run the first stream that opens is reported
  without a gap and every later one with it, so nothing that changed in between goes unnoticed;
  a poke is only handed on while a stream is open; every pause between attempts lies between the
  smallest and the largest backoff; and after the caller's abort nothing is reported any more.
\<close>

theorem watch_loop_reports:
  assumes "\<forall>(r, inp) \<in> set inps. 0 \<le> r \<and> r < 1"
  shows "let out = snd (watch_run inps (watch_start aborted)) in
    (\<exists>k. opens out = [] \<or> opens out = False # replicate k True) \<and>
    pokes_while_open False out \<and>
    (\<forall>ms \<in> set (sleeps out). STREAM_BACKOFF_MIN_MS \<le> ms \<and> ms \<le> STREAM_BACKOFF_MAX_MS) \<and>
    (aborted \<longrightarrow> out = [])"
proof -
  let ?w = "watch_start aborted"
  obtain k where "opens (snd (watch_run inps ?w)) =
      (if k = 0 then [] else False # replicate (k - 1) True)"
    using watch_run_opens [of inps ?w] by (auto simp: watch_start_def)
  then have "\<exists>k. opens (snd (watch_run inps ?w)) = [] \<or>
      opens (snd (watch_run inps ?w)) = False # replicate k True"
    by (intro exI [of _ "k - 1"]) (simp split: if_splits)
  moreover have "pokes_while_open False (snd (watch_run inps ?w))"
    using watch_run_pokes [of ?w inps]
    by (cases aborted) (simp_all add: stream_opened_def watch_start_def)
  moreover have "aborted \<longrightarrow> snd (watch_run inps ?w) = []"
    using watch_finished [of ?w inps] by (simp add: watch_start_def)
  ultimately show ?thesis
    using watch_run_sleeps [OF assms, of ?w] unfolding Let_def by blast
qed

theorem watch_loop_reports_witness:
  "pokes_while_open False (snd (watch_run
     [(0, InResponse None), (1 / 2, InEnd None False), (0, InWake False), (0, InResponse None)]
     (watch_start False)))"
proof -
  have "\<forall>(r, inp) \<in> set [(0, InResponse None), (1 / 2, InEnd None False), (0, InWake False),
      (0, InResponse None)]. (0::real) \<le> r \<and> r < 1" by simp
  from watch_loop_reports [OF this, of False] show ?thesis by (simp only: Let_def)
qed

text \<open>
  C4: The hub shares one stream per watched event. In every state it can reach, an event has an
  entry exactly while some screen has not released its claim on it, its count is the number of
  those claims, its stream is open exactly while the app is in the foreground, and it is reported
  live only then.
\<close>

theorem one_stream_per_watched_event:
  assumes "hub_step\<^sup>*\<^sup>* (createLiveHub active cached) b"
  shows "(case hb_watched b e of
      None \<Rightarrow> claims_of b e = 0
    | Some w \<Rightarrow> 0 < claims_of b e \<and> wt_refs w = claims_of b e \<and>
        (wt_controller w \<noteq> None) = hb_active b) \<and>
    (isLive b e \<longrightarrow> hb_active b \<and> 0 < claims_of b e)"
proof -
  have "hub_inv b" using assms
    by (induction rule: rtranclp_induct) (auto intro: inv_created inv_step)
  from hub_inv_entry [OF this, of e] show ?thesis
    by (cases "hb_watched b e") (auto simp: entry_ok_def isLive_def)
qed

theorem one_stream_per_watched_event_witness:
  "\<exists>w. hb_watched (fst (hub_watch 4 (createLiveHub None (\<lambda>_. [])))) 4 = Some w \<and> wt_controller w \<noteq> None"
proof -
  let ?b = "fst (hub_watch 4 (createLiveHub None (\<lambda>_. [])))"
  have "hub_step\<^sup>*\<^sup>* (createLiveHub None (\<lambda>_. [])) ?b"
    by (intro r_into_rtranclp step_watch)
  from one_stream_per_watched_event [OF this, of 4] show ?thesis
    by (simp add: hub_watch_def createLiveHub_def open_entry_def Let_def claims_of_def)
qed

text \<open>
  The last poke wins. When two pokes for one incident overlap, the cached lists end as the
  second fetch says, in whichever order the answers come in and whatever the first one says.
\<close>

theorem last_poke_wins:
  "let (b1, n1) = patch_begin e number b; (b2, n2) = patch_begin e number b1;
       final = (hb_lists b)(e := map (patch_list number (map_option stripSystemEntries view)) (hb_lists b e))
   in hb_lists (patch_end e number n1 answer (patch_end e number n2 (Inr view) b2)) = final \<and>
      hb_lists (patch_end e number n2 (Inr view) (patch_end e number n1 answer b2)) = final"
  by (simp add: patch_begin_def patch_end_def Let_def split: sum.split)

text \<open>
  A poke patches one row. In a list that holds the incident at most once, after a patch the
  incident's rows are exactly the view that was fetched (none when it was not found), and all the
  other rows are as they were, in their order.
\<close>

theorem patch_touches_one_row:
  assumes "pred_option (has_number n) patched" and "length (filter (has_number n) xs) \<le> 1"
  shows "filter (has_number n) (patch_list n patched xs) = (case patched of None \<Rightarrow> [] | Some p \<Rightarrow> [p]) \<and>
    filter (\<lambda>v. \<not> has_number n v) (patch_list n patched xs) = filter (\<lambda>v. \<not> has_number n v) xs"
  using patch_own [OF assms] patch_others [OF assms(1)] by simp

definition live_view :: "int \<Rightarrow> bool \<Rightarrow> IncidentView" where
  "live_view n may = \<lparr>iv_incident = Some (blank_incident\<lparr>inc_number := n\<rparr>), iv_viewerMayAddJournal = may\<rparr>"

theorem patch_touches_one_row_witness:
  "filter (has_number 5) (patch_list 5 (Some (live_view 5 True)) [live_view 7 False, live_view 5 False]) =
     [live_view 5 True]"
proof -
  have "pred_option (has_number 5) (Some (live_view 5 True))"
    and "length (filter (has_number 5) [live_view 7 False, live_view 5 False]) \<le> 1"
    by (simp_all add: has_number_def live_view_def)
  from patch_touches_one_row [OF this] show ?thesis by simp
qed

end
