(* ===== verification/Edit.thy ===== *)
theory Edit
  imports Errors Storage
begin

text \<open>
  The editors (\<open>features/incidents/useEditIncident.ts\<close>, \<open>features/reports/useEditReport.ts\<close>).

  Every write is one field and one request: the optimistic value goes into the cached message, and
  on an error exactly that field is put back. A write is cut at its request: \<open>run_begin\<close> up to it,
  \<open>run_end\<close> from its answer on, so that pokes and other saves can come between. A read that
  answers \<open>undefined\<close> is \<open>None\<close>. What a field's \<open>read\<close> and \<open>write\<close> owe each other is the locale
  \<open>edit_field\<close>, interpreted for every field.
\<close>

section \<open>One field, one request\<close>

record FieldStatus =
  fs_pending :: bool
  fs_error :: "AppError option"

record ('m, 'f) editing =
  ed_cache :: "'m option"
  ed_status :: "'f \<Rightarrow> FieldStatus"
  ed_settled :: nat

record ('m, 'f) flight =
  fl_field :: 'f
  fl_restore :: "('m \<Rightarrow> 'm) option"

definition mark_field ::
  "'f \<Rightarrow> bool \<Rightarrow> AppError option \<Rightarrow> ('m, 'f) editing \<Rightarrow> ('m, 'f) editing" where
  "mark_field field pending err s =
     s\<lparr>ed_status := (ed_status s)(field := \<lparr>fs_pending = pending, fs_error = err\<rparr>)\<rparr>"

definition patchCache :: "('m \<Rightarrow> 'm) \<Rightarrow> ('m, 'f) editing \<Rightarrow> ('m, 'f) editing" where
  "patchCache f s = s\<lparr>ed_cache := map_option f (ed_cache s)\<rparr>"

definition run_begin ::
  "'f \<Rightarrow> ('m \<Rightarrow> 'v option) \<Rightarrow> ('v \<Rightarrow> 'm \<Rightarrow> 'm) \<Rightarrow> 'v \<Rightarrow> ('m, 'f) editing
     \<Rightarrow> ('m, 'f) editing \<times> ('m, 'f) flight" where
  "run_begin field read write value s =
     (patchCache (write value) (mark_field field True None s),
      \<lparr>fl_field = field, fl_restore = map_option write (Option.bind (ed_cache s) read)\<rparr>)"

definition run_end :: "('m, 'f) flight \<Rightarrow> thrown option \<Rightarrow> ('m, 'f) editing \<Rightarrow> ('m, 'f) editing" where
  "run_end flight failure s =
     (let s1 =
        (case failure of
           None \<Rightarrow> mark_field (fl_field flight) False None s
         | Some e \<Rightarrow>
             mark_field (fl_field flight) False (Some (toAppError e))
               (case fl_restore flight of None \<Rightarrow> s | Some f \<Rightarrow> patchCache f s))
      in s1\<lparr>ed_settled := ed_settled s1 + 1\<rparr>)"

text \<open>
  The contract of a field: where it is present, a value that was read and is written back is read
  again, and writing it back forgets the optimistic value.
\<close>

locale edit_field =
  fixes read :: "'m \<Rightarrow> 'v option"
    and put :: "'v \<Rightarrow> 'm \<Rightarrow> 'm"
    and present :: "'m \<Rightarrow> bool"
  assumes read_back: "read i = Some b \<Longrightarrow> present j \<Longrightarrow> read (put b j) = Some b"
    and forget: "read i = Some b \<Longrightarrow> put b (put v j) = put b j"
    and write_present: "present (put v j) = present j"
begin

lemma refused_reads_back:
  assumes "ed_cache s = Some i" and "read i = Some b" and "run_begin field read put v s = (s1, fl)"
    and "ed_cache s2 = Some j" and "present j"
  shows "\<exists>k. ed_cache (run_end fl (Some e) s2) = Some k \<and> k = put b j \<and> read k = Some b"
  using assms read_back [OF assms(2,5)]
  by (auto simp: run_begin_def run_end_def patchCache_def mark_field_def Let_def)

lemma refused_at_once:
  assumes "ed_cache s = Some i" and "read i = Some b" and "run_begin field read put v s = (s1, fl)"
  shows "ed_cache (run_end fl (Some e) s1) = Some (put b i)"
  using assms forget [OF assms(2)]
  by (auto simp: run_begin_def run_end_def patchCache_def mark_field_def Let_def)

lemma unread_not_restored:
  assumes "ed_cache s = Some i" and "read i = None" and "run_begin field read put v s = (s1, fl)"
  shows "ed_cache (run_end fl (Some e) s1) = Some (put v i)"
  using assms by (auto simp: run_begin_def run_end_def patchCache_def mark_field_def Let_def)

end

text \<open>Two fields that do not get into each other's way.\<close>

locale independent_fields = one: edit_field read1 write1 present1 + two: edit_field read2 write2 present2
  for read1 :: "'m \<Rightarrow> 'v option" and write1 present1
    and read2 :: "'m \<Rightarrow> 'w option" and write2 present2 +
  assumes commute: "write1 v (write2 w i) = write2 w (write1 v i)"
    and read_other: "read2 (write1 v i) = read2 i"
begin

lemma refused_keeps_other:
  assumes "ed_cache s = Some i" and "read1 i = Some b" and "run_begin field read1 write1 v s = (s1, fl)"
  shows "ed_cache (run_end fl (Some e) (patchCache (write2 w) s1)) = Some (write2 w (write1 b i))"
  using assms commute [of v w i] commute [of b w "write1 v i"] one.forget [OF assms(2)]
  by (auto simp: run_begin_def run_end_def patchCache_def mark_field_def Let_def)

end

section \<open>The incident's fields\<close>

datatype FieldName =
    FState | FPriority | FPrivate | FOutcome | FStarted | FSummary | FArea | FDescription | FBooth
  | FTypes | FLinks | FReports | FPeople | FStrike

record LinkInput =
  li_eventId :: int
  li_incidentNumber :: int

definition read_state :: "Incident \<Rightarrow> (IncidentState \<times> timestamp option) option" where
  "read_state i = Some (inc_state i, inc_closed i)"

definition write_state :: "IncidentState \<times> timestamp option \<Rightarrow> Incident \<Rightarrow> Incident" where
  "write_state v i = i\<lparr>inc_state := fst v, inc_closed := snd v\<rparr>"

definition read_priority :: "Incident \<Rightarrow> IncidentPriority option" where
  "read_priority i = Some (inc_priority i)"

definition write_priority :: "IncidentPriority \<Rightarrow> Incident \<Rightarrow> Incident" where
  "write_priority v i = i\<lparr>inc_priority := v\<rparr>"

definition read_private :: "Incident \<Rightarrow> bool option" where
  "read_private i = Some (inc_private i = Some True)"

definition write_private :: "bool \<Rightarrow> Incident \<Rightarrow> Incident" where
  "write_private v i = i\<lparr>inc_private := Some v\<rparr>"

definition read_outcome :: "Incident \<Rightarrow> int option" where
  "read_outcome i = Some (nullish (inc_outcomeId i) 0)"

definition write_outcome :: "int \<Rightarrow> Incident \<Rightarrow> Incident" where
  "write_outcome v i = i\<lparr>inc_outcomeId := (if v = 0 then None else Some v)\<rparr>"

definition read_started :: "Incident \<Rightarrow> timestamp option" where
  "read_started i = inc_started i"

definition write_started :: "timestamp \<Rightarrow> Incident \<Rightarrow> Incident" where
  "write_started v i = i\<lparr>inc_started := Some v\<rparr>"

definition read_summary :: "Incident \<Rightarrow> str option" where
  "read_summary i = Some (nullish (inc_summary i) [])"

definition write_summary :: "str \<Rightarrow> Incident \<Rightarrow> Incident" where
  "write_summary v i = i\<lparr>inc_summary := nonempty (Some v)\<rparr>"

definition location_of :: "Incident \<Rightarrow> IncidentLocation" where
  "location_of i = nullish (inc_location i) blank_location"

definition read_area :: "Incident \<Rightarrow> str option" where
  "read_area i = Some (nullish (Option.bind (inc_location i) loc_areaSlug) [])"

definition write_area :: "str \<Rightarrow> Incident \<Rightarrow> Incident" where
  "write_area v i = i\<lparr>inc_location := Some ((location_of i)\<lparr>loc_areaSlug := nonempty (Some v)\<rparr>)\<rparr>"

definition read_description :: "Incident \<Rightarrow> str option" where
  "read_description i = Some (nullish (Option.bind (inc_location i) loc_description) [])"

definition write_description :: "str \<Rightarrow> Incident \<Rightarrow> Incident" where
  "write_description v i =
     i\<lparr>inc_location := Some ((location_of i)\<lparr>loc_description := nonempty (Some v)\<rparr>)\<rparr>"

definition read_booth :: "Incident \<Rightarrow> str option" where
  "read_booth i = Some (nullish (Option.bind (inc_location i) loc_booth) [])"

definition write_booth :: "str \<Rightarrow> Incident \<Rightarrow> Incident" where
  "write_booth v i = i\<lparr>inc_location := Some ((location_of i)\<lparr>loc_booth := nonempty (Some v)\<rparr>)\<rparr>"

definition read_types :: "Incident \<Rightarrow> int list option" where
  "read_types i = Some (inc_incidentTypeIds i)"

definition write_types :: "int list \<Rightarrow> Incident \<Rightarrow> Incident" where
  "write_types v i = i\<lparr>inc_incidentTypeIds := v\<rparr>"

definition read_links :: "Incident \<Rightarrow> IncidentRef list option" where
  "read_links i = Some (inc_linkedIncidents i)"

definition write_links :: "IncidentRef list \<Rightarrow> Incident \<Rightarrow> Incident" where
  "write_links v i = i\<lparr>inc_linkedIncidents := v\<rparr>"

definition read_reports :: "Incident \<Rightarrow> int list option" where
  "read_reports i = Some (inc_reports i)"

definition write_reports :: "int list \<Rightarrow> Incident \<Rightarrow> Incident" where
  "write_reports v i = i\<lparr>inc_reports := v\<rparr>"

text \<open>
  People: the value \<open>null\<close> (\<open>None\<close>) applies the row's change to whatever the cache holds; a list
  that was read puts the list back.
\<close>

definition read_people :: "Incident \<Rightarrow> IncidentPerson list option option" where
  "read_people i = Some (Some (inc_people i))"

definition write_people ::
  "(IncidentPerson list \<Rightarrow> IncidentPerson list) \<Rightarrow> IncidentPerson list option \<Rightarrow> Incident \<Rightarrow> Incident" where
  "write_people transform v i =
     i\<lparr>inc_people := (case v of None \<Rightarrow> transform (inc_people i) | Some people \<Rightarrow> people)\<rparr>"

definition ip_is :: "int \<Rightarrow> IncidentPerson \<Rightarrow> bool" where
  "ip_is personId p \<longleftrightarrow> map_option ref_personId (ip_person p) = Some personId"

definition attach_transform ::
  "Person \<Rightarrow> str option \<Rightarrow> bool \<Rightarrow> IncidentPerson list \<Rightarrow> IncidentPerson list" where
  "attach_transform person involvement grantAccess people =
     filter (\<lambda>p. \<not> ip_is (p_personId person) p) people @
     [\<lparr>ip_person = Some \<lparr>ref_personId = p_personId person, ref_handle = p_handle person,
         ref_name = p_name person\<rparr>,
       ip_involvement = involvement, ip_grantedAccess = grantAccess, ip_hasEventAccess = True,
       ip_reportRequested = None, ip_reportNumber = None\<rparr>]"

definition update_transform ::
  "int \<Rightarrow> str option \<Rightarrow> bool \<Rightarrow> IncidentPerson list \<Rightarrow> IncidentPerson list" where
  "update_transform personId involvement grantAccess people =
     map (\<lambda>p. if ip_is personId p
              then p\<lparr>ip_involvement := involvement, ip_grantedAccess := grantAccess\<rparr> else p) people"

definition detach_transform :: "int \<Rightarrow> IncidentPerson list \<Rightarrow> IncidentPerson list" where
  "detach_transform personId people = filter (\<lambda>p. \<not> ip_is personId p) people"

definition strike_entry :: "int \<Rightarrow> bool \<Rightarrow> JournalEntry list \<Rightarrow> JournalEntry list" where
  "strike_entry entryId v entries =
     map (\<lambda>e. if je_id e = entryId then e\<lparr>je_stricken := Some v\<rparr> else e) entries"

definition entry_stricken :: "int \<Rightarrow> JournalEntry list \<Rightarrow> bool" where
  "entry_stricken entryId entries \<longleftrightarrow>
     Option.bind (List.find (\<lambda>e. je_id e = entryId) entries) je_stricken = Some True"

definition read_strike :: "int \<Rightarrow> Incident \<Rightarrow> bool option" where
  "read_strike entryId i = Some (entry_stricken entryId (inc_journalEntries i))"

definition write_strike :: "int \<Rightarrow> bool \<Rightarrow> Incident \<Rightarrow> Incident" where
  "write_strike entryId v i = i\<lparr>inc_journalEntries := strike_entry entryId v (inc_journalEntries i)\<rparr>"

definition has_entry :: "int \<Rightarrow> JournalEntry list \<Rightarrow> bool" where
  "has_entry entryId entries \<longleftrightarrow> list_ex (\<lambda>e. je_id e = entryId) entries"

lemma nullish_nonempty_text [simp]: "nullish (nonempty (Some v)) [] = v"
  by (cases v) simp_all

lemma stricken_after [simp]:
  "has_entry k entries \<Longrightarrow> entry_stricken k (strike_entry k v entries) = v"
  by (induction entries) (auto simp: has_entry_def entry_stricken_def strike_entry_def)

lemma strike_strike [simp]: "strike_entry k v (strike_entry k w entries) = strike_entry k v entries"
  by (simp add: strike_entry_def)

lemma has_entry_strike [simp]: "has_entry k (strike_entry k v entries) = has_entry k entries"
  by (induction entries) (auto simp: has_entry_def strike_entry_def)

interpretation state_field: edit_field read_state write_state "\<lambda>_. True"
  by unfold_locales (auto simp: read_state_def write_state_def)

interpretation priority_field: edit_field read_priority write_priority "\<lambda>_. True"
  by unfold_locales (auto simp: read_priority_def write_priority_def)

interpretation private_field: edit_field read_private write_private "\<lambda>_. True"
  by unfold_locales (auto simp: read_private_def write_private_def)

interpretation outcome_field: edit_field read_outcome write_outcome "\<lambda>_. True"
  by unfold_locales (auto simp: read_outcome_def write_outcome_def)

interpretation started_field: edit_field read_started write_started "\<lambda>_. True"
  by unfold_locales (auto simp: read_started_def write_started_def)

interpretation summary_field: edit_field read_summary write_summary "\<lambda>_. True"
  by unfold_locales (auto simp: read_summary_def write_summary_def)

interpretation area_field: edit_field read_area write_area "\<lambda>_. True"
  by unfold_locales (auto simp: read_area_def write_area_def location_of_def)

interpretation description_field: edit_field read_description write_description "\<lambda>_. True"
  by unfold_locales (auto simp: read_description_def write_description_def location_of_def)

interpretation booth_field: edit_field read_booth write_booth "\<lambda>_. True"
  by unfold_locales (auto simp: read_booth_def write_booth_def location_of_def)

interpretation types_field: edit_field read_types write_types "\<lambda>_. True"
  by unfold_locales (auto simp: read_types_def write_types_def)

interpretation links_field: edit_field read_links write_links "\<lambda>_. True"
  by unfold_locales (auto simp: read_links_def write_links_def)

interpretation reports_field: edit_field read_reports write_reports "\<lambda>_. True"
  by unfold_locales (auto simp: read_reports_def write_reports_def)

interpretation people_field: edit_field read_people "write_people transform" "\<lambda>_. True" for transform
  by unfold_locales (auto simp: read_people_def write_people_def)

interpretation strike_field:
  edit_field "read_strike k" "write_strike k" "\<lambda>i. has_entry k (inc_journalEntries i)" for k
  by unfold_locales (auto simp: read_strike_def write_strike_def)

text \<open>The three pieces of the location share one message and still do not disturb each other.\<close>

interpretation area_description: independent_fields read_area write_area "\<lambda>_. True"
    read_description write_description "\<lambda>_. True"
  by unfold_locales
    (auto simp: write_area_def read_description_def write_description_def location_of_def blank_location_def
      nullish_def split: option.split)

interpretation area_booth: independent_fields read_area write_area "\<lambda>_. True"
    read_booth write_booth "\<lambda>_. True"
  by unfold_locales
    (auto simp: write_area_def read_booth_def write_booth_def location_of_def blank_location_def
      nullish_def split: option.split)

interpretation description_booth: independent_fields read_description write_description "\<lambda>_. True"
    read_booth write_booth "\<lambda>_. True"
  by unfold_locales
    (auto simp: write_description_def read_booth_def write_booth_def location_of_def blank_location_def
      nullish_def split: option.split)

section \<open>The incident's setters\<close>

datatype incident_edit =
    SetState IncidentState
  | SetPriority IncidentPriority
  | SetPrivate bool
  | SetOutcome int
  | SetStarted timestamp
  | SetSummary str
  | SetArea "str option"
  | SetDescription str
  | SetBooth str
  | SetTypes "int list"
  | SetLinks "LinkInput list"
  | SetReports "int list"
  | AttachPerson Person "str option" bool
  | UpdatePerson int "str option" bool
  | DetachPerson int
  | SetStricken int bool

type_synonym incident_editing = "(Incident, FieldName) editing"
type_synonym incident_flight = "(Incident, FieldName) flight"

text \<open>\<open>create(IncidentRefSchema, \<dots>)\<close> with the two ids.\<close>

definition link_ref :: "LinkInput \<Rightarrow> IncidentRef" where
  "link_ref l = \<lparr>link_eventName = [], link_eventId = li_eventId l,
     link_incidentNumber = li_incidentNumber l, link_summary = []\<rparr>"

fun edit_begin :: "incident_edit \<Rightarrow> incident_editing \<Rightarrow> incident_editing \<times> incident_flight" where
  "edit_begin (SetState v) = run_begin FState read_state write_state (v, None)"
| "edit_begin (SetPriority v) = run_begin FPriority read_priority write_priority v"
| "edit_begin (SetPrivate v) = run_begin FPrivate read_private write_private v"
| "edit_begin (SetOutcome v) = run_begin FOutcome read_outcome write_outcome v"
| "edit_begin (SetStarted v) = run_begin FStarted read_started write_started v"
| "edit_begin (SetSummary v) = run_begin FSummary read_summary write_summary v"
| "edit_begin (SetArea slug) = run_begin FArea read_area write_area (nullish slug [])"
| "edit_begin (SetDescription v) = run_begin FDescription read_description write_description v"
| "edit_begin (SetBooth v) = run_begin FBooth read_booth write_booth v"
| "edit_begin (SetTypes ids) = run_begin FTypes read_types write_types ids"
| "edit_begin (SetLinks links) = run_begin FLinks read_links write_links (map link_ref links)"
| "edit_begin (SetReports numbers) = run_begin FReports read_reports write_reports numbers"
| "edit_begin (AttachPerson person involvement grantAccess) =
     run_begin FPeople read_people (write_people (attach_transform person involvement grantAccess)) None"
| "edit_begin (UpdatePerson personId involvement grantAccess) =
     run_begin FPeople read_people (write_people (update_transform personId involvement grantAccess)) None"
| "edit_begin (DetachPerson personId) =
     run_begin FPeople read_people (write_people (detach_transform personId)) None"
| "edit_begin (SetStricken entryId stricken) =
     run_begin FStrike (read_strike entryId) (write_strike entryId) stricken"

text \<open>What each setter sends: \<open>IncidentUpdate\<close> is presence-tracked.\<close>

record NewJournalEntry =
  nj_text :: str
  nj_mentionedPersonIds :: "int list"

record IncidentUpdate =
  up_state :: "IncidentState option"
  up_private :: "bool option"
  up_outcomeId :: "int option"
  up_started :: "timestamp option"
  up_priority :: "IncidentPriority option"
  up_summary :: "str option"
  up_location :: "IncidentLocation option"
  up_incidentTypeIds :: "int list option"
  up_reports :: "int list option"
  up_linkedIncidents :: "LinkInput list option"
  up_journalEntries :: "NewJournalEntry list"

definition empty_update :: IncidentUpdate where
  "empty_update = \<lparr>up_state = None, up_private = None, up_outcomeId = None, up_started = None,
     up_priority = None, up_summary = None, up_location = None, up_incidentTypeIds = None,
     up_reports = None, up_linkedIncidents = None, up_journalEntries = []\<rparr>"

datatype edit_req =
    ReqUpdateIncident int int IncidentUpdate
  | ReqAttachPerson int int int "str option" bool
  | ReqDetachPerson int int int
  | ReqUpdateEntry int int int bool

fun edit_request :: "int \<Rightarrow> int \<Rightarrow> incident_edit \<Rightarrow> edit_req" where
  "edit_request e n (SetState v) = ReqUpdateIncident e n (empty_update\<lparr>up_state := Some v\<rparr>)"
| "edit_request e n (SetPriority v) = ReqUpdateIncident e n (empty_update\<lparr>up_priority := Some v\<rparr>)"
| "edit_request e n (SetPrivate v) = ReqUpdateIncident e n (empty_update\<lparr>up_private := Some v\<rparr>)"
| "edit_request e n (SetOutcome v) = ReqUpdateIncident e n (empty_update\<lparr>up_outcomeId := Some v\<rparr>)"
| "edit_request e n (SetStarted v) = ReqUpdateIncident e n (empty_update\<lparr>up_started := Some v\<rparr>)"
| "edit_request e n (SetSummary v) = ReqUpdateIncident e n (empty_update\<lparr>up_summary := Some v\<rparr>)"
| "edit_request e n (SetArea slug) = ReqUpdateIncident e n
     (empty_update\<lparr>up_location := Some (blank_location\<lparr>loc_areaSlug := Some (nullish slug [])\<rparr>)\<rparr>)"
| "edit_request e n (SetDescription v) = ReqUpdateIncident e n
     (empty_update\<lparr>up_location := Some (blank_location\<lparr>loc_description := Some v\<rparr>)\<rparr>)"
| "edit_request e n (SetBooth v) = ReqUpdateIncident e n
     (empty_update\<lparr>up_location := Some (blank_location\<lparr>loc_booth := Some v\<rparr>)\<rparr>)"
| "edit_request e n (SetTypes ids) = ReqUpdateIncident e n (empty_update\<lparr>up_incidentTypeIds := Some ids\<rparr>)"
| "edit_request e n (SetLinks links) = ReqUpdateIncident e n (empty_update\<lparr>up_linkedIncidents := Some links\<rparr>)"
| "edit_request e n (SetReports numbers) = ReqUpdateIncident e n (empty_update\<lparr>up_reports := Some numbers\<rparr>)"
| "edit_request e n (AttachPerson person involvement grantAccess) =
     ReqAttachPerson e n (p_personId person) involvement grantAccess"
| "edit_request e n (UpdatePerson personId involvement grantAccess) =
     ReqAttachPerson e n personId involvement grantAccess"
| "edit_request e n (DetachPerson personId) = ReqDetachPerson e n personId"
| "edit_request e n (SetStricken entryId stricken) = ReqUpdateEntry e n entryId stricken"

text \<open>What the control of a setter shows of an incident.\<close>

datatype field_value =
    ValState IncidentState "timestamp option"
  | ValPriority IncidentPriority
  | ValBool bool
  | ValInt int
  | ValTime timestamp
  | ValText str
  | ValInts "int list"
  | ValRefs "IncidentRef list"
  | ValPeople "IncidentPerson list"

fun edit_view :: "incident_edit \<Rightarrow> Incident \<Rightarrow> field_value option" where
  "edit_view (SetState v) i = map_option (\<lambda>(st, closed). ValState st closed) (read_state i)"
| "edit_view (SetPriority v) i = map_option ValPriority (read_priority i)"
| "edit_view (SetPrivate v) i = map_option ValBool (read_private i)"
| "edit_view (SetOutcome v) i = map_option ValInt (read_outcome i)"
| "edit_view (SetStarted v) i = map_option ValTime (read_started i)"
| "edit_view (SetSummary v) i = map_option ValText (read_summary i)"
| "edit_view (SetArea v) i = map_option ValText (read_area i)"
| "edit_view (SetDescription v) i = map_option ValText (read_description i)"
| "edit_view (SetBooth v) i = map_option ValText (read_booth i)"
| "edit_view (SetTypes v) i = map_option ValInts (read_types i)"
| "edit_view (SetLinks v) i = map_option ValRefs (read_links i)"
| "edit_view (SetReports v) i = map_option ValInts (read_reports i)"
| "edit_view (AttachPerson _ _ _) i = Some (ValPeople (inc_people i))"
| "edit_view (UpdatePerson _ _ _) i = Some (ValPeople (inc_people i))"
| "edit_view (DetachPerson _) i = Some (ValPeople (inc_people i))"
| "edit_view (SetStricken k _) i = map_option ValBool (read_strike k i)"

fun edit_present :: "incident_edit \<Rightarrow> Incident \<Rightarrow> bool" where
  "edit_present (SetStricken k _) i = has_entry k (inc_journalEntries i)"
| "edit_present _ i = True"

fun edit_field_name :: "incident_edit \<Rightarrow> FieldName" where
  "edit_field_name (SetState _) = FState"
| "edit_field_name (SetPriority _) = FPriority"
| "edit_field_name (SetPrivate _) = FPrivate"
| "edit_field_name (SetOutcome _) = FOutcome"
| "edit_field_name (SetStarted _) = FStarted"
| "edit_field_name (SetSummary _) = FSummary"
| "edit_field_name (SetArea _) = FArea"
| "edit_field_name (SetDescription _) = FDescription"
| "edit_field_name (SetBooth _) = FBooth"
| "edit_field_name (SetTypes _) = FTypes"
| "edit_field_name (SetLinks _) = FLinks"
| "edit_field_name (SetReports _) = FReports"
| "edit_field_name (AttachPerson _ _ _) = FPeople"
| "edit_field_name (UpdatePerson _ _ _) = FPeople"
| "edit_field_name (DetachPerson _) = FPeople"
| "edit_field_name (SetStricken _ _) = FStrike"

lemmas edit_reads = read_state_def read_priority_def read_private_def read_outcome_def read_started_def
  read_summary_def read_area_def read_description_def read_booth_def read_types_def read_links_def
  read_reports_def read_people_def read_strike_def

lemmas edit_writes = write_state_def write_priority_def write_private_def write_outcome_def
  write_started_def write_summary_def write_area_def write_description_def write_booth_def
  write_types_def write_links_def write_reports_def write_people_def write_strike_def
  location_of_def blank_location_def

section \<open>The report's setters\<close>

datatype ReportFieldName = RFSummary | RFIncident | RFStrike

definition read_rsummary :: "Report \<Rightarrow> str option" where
  "read_rsummary r = Some (nullish (rep_summary r) [])"

definition write_rsummary :: "str \<Rightarrow> Report \<Rightarrow> Report" where
  "write_rsummary v r = r\<lparr>rep_summary := nonempty (Some v)\<rparr>"

definition read_rincident :: "Report \<Rightarrow> int option" where
  "read_rincident r = Some (nullish (rep_incident r) 0)"

definition write_rincident :: "int \<Rightarrow> Report \<Rightarrow> Report" where
  "write_rincident v r = r\<lparr>rep_incident := (if v > 0 then Some v else None)\<rparr>"

definition read_rstrike :: "int \<Rightarrow> Report \<Rightarrow> bool option" where
  "read_rstrike entryId r = Some (entry_stricken entryId (rep_journalEntries r))"

definition write_rstrike :: "int \<Rightarrow> bool \<Rightarrow> Report \<Rightarrow> Report" where
  "write_rstrike entryId v r = r\<lparr>rep_journalEntries := strike_entry entryId v (rep_journalEntries r)\<rparr>"

interpretation rsummary_field: edit_field read_rsummary write_rsummary "\<lambda>_. True"
  by unfold_locales (auto simp: read_rsummary_def write_rsummary_def)

interpretation rstrike_field:
  edit_field "read_rstrike k" "write_rstrike k" "\<lambda>r. has_entry k (rep_journalEntries r)" for k
  by unfold_locales (auto simp: read_rstrike_def write_rstrike_def)

datatype report_edit = RSetSummary str | RSetIncident int | RStrike int bool

type_synonym report_editing = "(Report, ReportFieldName) editing"
type_synonym report_flight = "(Report, ReportFieldName) flight"

fun report_edit_begin :: "report_edit \<Rightarrow> report_editing \<Rightarrow> report_editing \<times> report_flight" where
  "report_edit_begin (RSetSummary v) = run_begin RFSummary read_rsummary write_rsummary v"
| "report_edit_begin (RSetIncident n) = run_begin RFIncident read_rincident write_rincident n"
| "report_edit_begin (RStrike k v) = run_begin RFStrike (read_rstrike k) (write_rstrike k) v"

text \<open>
  The incidents whose reads a settled link write makes stale: of the numbers before and after,
  those that are set.
\<close>

definition stale_incidents :: "report_edit \<Rightarrow> report_editing \<Rightarrow> int list" where
  "stale_incidents op s =
     (case op of
        RSetIncident n \<Rightarrow>
          List.map_filter (\<lambda>v. case v of None \<Rightarrow> None | Some k \<Rightarrow> if k > 0 then Some k else None)
            [Option.bind (ed_cache s) read_rincident, Some n]
      | _ \<Rightarrow> [])"

section \<open>What the editors promise\<close>

text \<open>Writing one field leaves what the controls of every other field show.\<close>

named_theorems frame \<open>a field's write seen through another field's control\<close>

lemma frame_state [frame]: "edit_field_name op \<noteq> FState \<Longrightarrow> edit_view op (write_state v i) = edit_view op i"
  by (cases op) (simp_all add: edit_reads edit_writes)

lemma frame_priority [frame]:
  "edit_field_name op \<noteq> FPriority \<Longrightarrow> edit_view op (write_priority v i) = edit_view op i"
  by (cases op) (simp_all add: edit_reads edit_writes)

lemma frame_private [frame]:
  "edit_field_name op \<noteq> FPrivate \<Longrightarrow> edit_view op (write_private v i) = edit_view op i"
  by (cases op) (simp_all add: edit_reads edit_writes)

lemma frame_outcome [frame]:
  "edit_field_name op \<noteq> FOutcome \<Longrightarrow> edit_view op (write_outcome v i) = edit_view op i"
  by (cases op) (simp_all add: edit_reads edit_writes)

lemma frame_started [frame]:
  "edit_field_name op \<noteq> FStarted \<Longrightarrow> edit_view op (write_started v i) = edit_view op i"
  by (cases op) (simp_all add: edit_reads edit_writes)

lemma frame_summary [frame]:
  "edit_field_name op \<noteq> FSummary \<Longrightarrow> edit_view op (write_summary v i) = edit_view op i"
  by (cases op) (simp_all add: edit_reads edit_writes)

lemma frame_area [frame]: "edit_field_name op \<noteq> FArea \<Longrightarrow> edit_view op (write_area v i) = edit_view op i"
  by (cases op; cases "inc_location i") (simp_all add: edit_reads edit_writes)

lemma frame_description [frame]:
  "edit_field_name op \<noteq> FDescription \<Longrightarrow> edit_view op (write_description v i) = edit_view op i"
  by (cases op; cases "inc_location i") (simp_all add: edit_reads edit_writes)

lemma frame_booth [frame]: "edit_field_name op \<noteq> FBooth \<Longrightarrow> edit_view op (write_booth v i) = edit_view op i"
  by (cases op; cases "inc_location i") (simp_all add: edit_reads edit_writes)

lemma frame_types [frame]: "edit_field_name op \<noteq> FTypes \<Longrightarrow> edit_view op (write_types v i) = edit_view op i"
  by (cases op) (simp_all add: edit_reads edit_writes)

lemma frame_links [frame]: "edit_field_name op \<noteq> FLinks \<Longrightarrow> edit_view op (write_links v i) = edit_view op i"
  by (cases op) (simp_all add: edit_reads edit_writes)

lemma frame_reports [frame]:
  "edit_field_name op \<noteq> FReports \<Longrightarrow> edit_view op (write_reports v i) = edit_view op i"
  by (cases op) (simp_all add: edit_reads edit_writes)

lemma frame_people [frame]:
  "edit_field_name op \<noteq> FPeople \<Longrightarrow> edit_view op (write_people f v i) = edit_view op i"
  by (cases op) (simp_all add: edit_reads edit_writes)

lemma frame_strike [frame]:
  "edit_field_name op \<noteq> FStrike \<Longrightarrow> edit_view op (write_strike k v i) = edit_view op i"
  by (cases op) (simp_all add: edit_reads edit_writes)

lemma strike_reads_back:
  "has_entry k (inc_journalEntries j) \<Longrightarrow> entry_stricken k (inc_journalEntries (write_strike k b j)) = b"
  by (simp add: write_strike_def)

lemma edit_flight:
  assumes "edit_begin op s = (s1, fl)" and "ed_cache s = Some i" and "edit_view op i = Some v"
  shows "\<exists>f. fl = \<lparr>fl_field = edit_field_name op, fl_restore = Some f\<rparr> \<and>
    (\<forall>j. edit_present op j \<longrightarrow> edit_view op (f j) = Some v) \<and>
    (\<forall>j op'. edit_field_name op' \<noteq> edit_field_name op \<longrightarrow> edit_view op' (f j) = edit_view op' j)"
proof (cases op)
  case (SetStricken k b)
  then show ?thesis
    using assms by (auto simp: run_begin_def frame read_strike_def strike_reads_back)
qed (use assms in \<open>auto simp: run_begin_def edit_reads frame; simp add: edit_writes\<close>)+

lemma edit_optimistic:
  assumes "edit_begin op s = (s1, fl)" and "ed_cache s = Some i"
  shows "\<exists>k. ed_cache s1 = Some k \<and>
    (\<forall>op'. edit_field_name op' \<noteq> edit_field_name op \<longrightarrow> edit_view op' k = edit_view op' i)"
  using assms by (cases op) (auto simp: run_begin_def patchCache_def mark_field_def frame)

lemma run_end_refused:
  assumes "ed_cache s = Some j"
  shows "ed_cache (run_end \<lparr>fl_field = f, fl_restore = Some g\<rparr> (Some e) s) = Some (g j)"
    and "ed_status (run_end \<lparr>fl_field = f, fl_restore = Some g\<rparr> (Some e) s) =
      (ed_status s)(f := \<lparr>fs_pending = False, fs_error = Some (toAppError e)\<rparr>)"
  using assms by (simp_all add: run_end_def patchCache_def mark_field_def Let_def)

text \<open>
  C3: a refused edit puts its own field back to what was read before the request, whatever the cached
  incident became in between (a poke, another save), leaves what every other control shows, ends the
  field's saving and shows the mapped error at that field alone.
\<close>

theorem refused_edit_restores_field:
  assumes "edit_begin op s = (s1, fl)" and "ed_cache s = Some i" and "edit_view op i = Some v"
    and "ed_cache s2 = Some j" and "edit_present op j"
  shows "\<exists>k. ed_cache (run_end fl (Some e) s2) = Some k \<and> edit_view op k = Some v \<and>
    (\<forall>op'. edit_field_name op' \<noteq> edit_field_name op \<longrightarrow> edit_view op' k = edit_view op' j) \<and>
    ed_status (run_end fl (Some e) s2) =
      (ed_status s2)(edit_field_name op := \<lparr>fs_pending = False, fs_error = Some (toAppError e)\<rparr>)"
proof -
  obtain f where f: "fl = \<lparr>fl_field = edit_field_name op, fl_restore = Some f\<rparr>"
    "edit_present op j \<longrightarrow> edit_view op (f j) = Some v"
    "\<forall>op'. edit_field_name op' \<noteq> edit_field_name op \<longrightarrow> edit_view op' (f j) = edit_view op' j"
    using edit_flight [OF assms(1-3)] by blast
  show ?thesis using f assms(5) run_end_refused [OF assms(4)] by simp
qed

definition idle_edit :: "Incident \<Rightarrow> incident_editing" where
  "idle_edit i = \<lparr>ed_cache = Some i, ed_status = \<lambda>_. \<lparr>fs_pending = False, fs_error = None\<rparr>,
     ed_settled = 0\<rparr>"

lemma refused_edit_restores_field_witness:
  "\<exists>k. ed_cache (run_end (snd (edit_begin (SetSummary [66]) (idle_edit blank_incident)))
        (Some (ThrownOther [])) (idle_edit (blank_incident\<lparr>inc_private := Some True\<rparr>))) = Some k \<and>
     edit_view (SetSummary [66]) k = Some (ValText []) \<and>
     edit_view (SetPrivate False) k = Some (ValBool True)"
proof -
  let ?i = "blank_incident" and ?j = "blank_incident\<lparr>inc_private := Some True\<rparr>"
  let ?b = "edit_begin (SetSummary [66]) (idle_edit ?i)"
  have "ed_cache (idle_edit ?i) = Some ?i" and "ed_cache (idle_edit ?j) = Some ?j"
    and "edit_view (SetSummary [66]) ?i = Some (ValText [])" and "edit_present (SetSummary [66]) ?j"
    by (simp_all add: idle_edit_def read_summary_def blank_incident_def)
  note * = refused_edit_restores_field [OF prod.collapse [symmetric] this(1,3,2,4), of "ThrownOther []"]
  obtain k where k: "ed_cache (run_end (snd ?b) (Some (ThrownOther [])) (idle_edit ?j)) = Some k"
      "edit_view (SetSummary [66]) k = Some (ValText [])"
      "edit_view (SetPrivate False) k = edit_view (SetPrivate False) ?j"
    using * by (elim exE conjE) (rule that, assumption+, drule spec [of _ "SetPrivate False"], simp)
  moreover have "edit_view (SetPrivate False) ?j = Some (ValBool True)"
    by (simp add: read_private_def)
  ultimately show ?thesis by auto
qed

text \<open>
  Two saves of one field that are both refused leave the first of the two optimistic values in
  the cache: the second save took it for the value to put back.
\<close>

theorem overlapping_refusals_keep_first:
  assumes "edit_begin (SetSummary v1) s = (s1, f1)" and "edit_begin (SetSummary v2) s1 = (s2, f2)"
    and "ed_cache s = Some i"
  shows "map_option (edit_view (SetSummary v1)) (ed_cache (run_end f2 (Some e2) (run_end f1 (Some e1) s2)))
     = Some (Some (ValText v1))"
  using assms
  by (auto simp: run_begin_def run_end_def patchCache_def mark_field_def Let_def read_summary_def
      write_summary_def)

lemma overlapping_refusals_keep_first_witness:
  "map_option (edit_view (SetSummary [65])) (ed_cache
     (let s = idle_edit blank_incident;
          b1 = edit_begin (SetSummary [65]) s; b2 = edit_begin (SetSummary [66]) (fst b1)
      in run_end (snd b2) (Some (ThrownOther [])) (run_end (snd b1) (Some (ThrownOther [])) (fst b2))))
   = Some (Some (ValText [65]))"
  unfolding Let_def
  by (rule overlapping_refusals_keep_first [OF prod.collapse [symmetric] prod.collapse [symmetric]])
    (simp add: idle_edit_def)

text \<open>
  C1: a refused edit of the start time of an incident that had none leaves the refused value in
  the cache: what was read, \<open>undefined\<close>, is taken for no incident.
\<close>

theorem refused_first_start_stays:
  assumes "edit_begin (SetStarted t) s = (s1, fl)" and "ed_cache s = Some i" and "inc_started i = None"
  shows "map_option inc_started (ed_cache (run_end fl (Some e) s1)) = Some (Some t)"
  using started_field.unread_not_restored [of s i FStarted t s1 fl] assms
  by (simp add: read_started_def write_started_def)

lemma refused_first_start_stays_witness:
  "map_option inc_started (ed_cache
     (let b = edit_begin (SetStarted \<lparr>seconds = 7, nanos = 0\<rparr>) (idle_edit blank_incident)
      in run_end (snd b) (Some (ThrownOther [])) (fst b))) = Some (Some \<lparr>seconds = 7, nanos = 0\<rparr>)"
  unfolding Let_def
  by (rule refused_first_start_stays [OF prod.collapse [symmetric], where i = blank_incident])
    (simp_all add: idle_edit_def blank_incident_def)

text \<open>
  A link write of a report makes the reads of the incident it leaves and of the one it joins
  stale, and of no other; an unchanged link counts too.
\<close>

theorem report_move_reaches_both_incidents:
  "set (stale_incidents (RSetIncident n) s) =
     {k. 0 < k \<and> (k = n \<or> (\<exists>r. ed_cache s = Some r \<and> k = nullish (rep_incident r) 0))}"
  by (auto simp: stale_incidents_def List.map_filter_def read_rincident_def bind_eq_Some_conv
      split: option.splits if_splits)

end
