(* ===== verification/Controls.thy ===== *)
theory Controls
  imports Edit
begin

text \<open>
  The parsers of the editor's text controls (\<open>features/incidents/controls/fields.ts\<close>): links,
  report numbers, the started field. Numbers are unbounded here; the code's are doubles, exact up
  to \<open>2 ^ 53\<close>.
\<close>

section \<open>Text controls\<close>

text \<open>The class \<open>[,\s]\<close> the tokens are separated by.\<close>

definition is_sep :: "nat \<Rightarrow> bool" where
  "is_sep c \<longleftrightarrow> c = 44 \<or> is_ws c"

fun split_sep :: "str \<Rightarrow> str list" where
  "split_sep [] = [[]]"
| "split_sep (c # s) =
     (if is_sep c then [] # split_sep s
      else (case split_sep s of [] \<Rightarrow> [[c]] | w # ws \<Rightarrow> (c # w) # ws))"

definition tokens_of :: "str \<Rightarrow> str list" where
  "tokens_of text = filter (\<lambda>t. length t > 0) (map trim (split_sep text))"

definition strip_hash :: "str \<Rightarrow> str" where
  "strip_hash t = (if t \<noteq> [] \<and> hd t = 35 then tl t else t)"

text \<open>The regular expression \<open>/^(.+)#(\d+)$/\<close>: the hash is the last one.\<close>

definition event_token :: "str \<Rightarrow> (str \<times> int) option" where
  "event_token t =
     (let digits = rev (takeWhile (\<lambda>c. c \<noteq> 35) (rev t)); rest = dropWhile (\<lambda>c. c \<noteq> 35) (rev t)
      in if rest \<noteq> [] \<and> tl rest \<noteq> [] \<and> all_digits digits
         then Some (rev (tl rest), int (digits_val digits)) else None)"

definition quoted :: "str \<Rightarrow> str" where
  "quoted s = [8220] @ s @ [8221]"

definition link_token ::
  "host \<Rightarrow> (int \<times> str) list \<Rightarrow> int \<Rightarrow> str \<Rightarrow> str + LinkInput" where
  "link_token h events thisEventId token =
     (if all_digits (strip_hash token)
      then Inr \<lparr>li_eventId = thisEventId, li_incidentNumber = int (digits_val (strip_hash token))\<rparr>
      else
        (case event_token token of
           Some (m, n) \<Rightarrow>
             (case List.find (\<lambda>e. lower h (snd e) = lower h (trim m)) events of
                None \<Rightarrow> Inl (lit ''No event named '' @ quoted m)
              | Some event \<Rightarrow> Inr \<lparr>li_eventId = fst event, li_incidentNumber = n\<rparr>)
         | None \<Rightarrow> Inl (quoted token @ lit '' isn'' @ [39] @ lit ''t a number or event#number'')))"

fun links_loop :: "host \<Rightarrow> (int \<times> str) list \<Rightarrow> int \<Rightarrow> str list \<Rightarrow> LinkInput list \<Rightarrow> str + LinkInput list" where
  "links_loop h events thisEventId [] links = Inr links"
| "links_loop h events thisEventId (token # rest) links =
     (case link_token h events thisEventId token of
        Inl err \<Rightarrow> Inl err
      | Inr l \<Rightarrow> links_loop h events thisEventId rest (links @ [l]))"

definition parseLinks :: "host \<Rightarrow> str \<Rightarrow> (int \<times> str) list \<Rightarrow> int \<Rightarrow> str + LinkInput list" where
  "parseLinks h text events thisEventId =
     (let ts = tokens_of text
      in if length ts = 0 then Inl (lit ''Type an incident number'')
         else links_loop h events thisEventId ts [])"

definition parseNumbers :: "str \<Rightarrow> int list option" where
  "parseNumbers text =
     (let ts = filter (\<lambda>t. length t > 0) (map (\<lambda>t. strip_hash (trim t)) (split_sep text))
      in if length ts = 0 \<or> list_ex (\<lambda>t. \<not> all_digits t) ts then None
         else Some (map (\<lambda>t. int (digits_val t)) ts))"

text \<open>
  The started field: \<open>YYYY-MM-DD HH:mm\<close>. \<open>new Date(y, m, d, h, mi)\<close> takes parts out of range over
  into the next larger one and reads the years 0 to 99 as 1900 to 1999; the zone's conversion of
  local milliseconds to epoch milliseconds is an argument. A time beyond \<open>8.64e15\<close> ms is \<open>NaN\<close>.
\<close>

definition STARTED_FORMAT :: str where
  "STARTED_FORMAT = lit ''YYYY-MM-DD HH:mm''"

definition started_parts :: "str \<Rightarrow> (nat \<times> nat \<times> nat \<times> nat \<times> nat) option" where
  "started_parts t =
     (if length t = 16 \<and> all_digits (take 4 t) \<and> t ! 4 = 45 \<and> all_digits (take 2 (drop 5 t))
        \<and> t ! 7 = 45 \<and> all_digits (take 2 (drop 8 t)) \<and> (t ! 10 = 32 \<or> t ! 10 = 84)
        \<and> all_digits (take 2 (drop 11 t)) \<and> t ! 13 = 58 \<and> all_digits (take 2 (drop 14 t))
      then Some (digits_val (take 4 t), digits_val (take 2 (drop 5 t)), digits_val (take 2 (drop 8 t)),
        digits_val (take 2 (drop 11 t)), digits_val (take 2 (drop 14 t)))
      else None)"

text \<open>Days from 1970-01-01 to the first of a month (0 to 11) of the proleptic Gregorian calendar.\<close>

definition month_start :: "int \<Rightarrow> int \<Rightarrow> int" where
  "month_start year month =
     (let y = (if month \<le> 1 then year - 1 else year);
          m = (if month \<le> 1 then month + 10 else month - 2)
      in y * 365 + y div 4 - y div 100 + y div 400 + (153 * m + 2) div 5 - 719468)"

definition local_time :: "int \<Rightarrow> int \<Rightarrow> int \<Rightarrow> int \<Rightarrow> int \<Rightarrow> int" where
  "local_time y month d h mi =
     (let year = (if 0 \<le> y \<and> y \<le> 99 then 1900 + y else y)
      in (month_start (year + month div 12) (month mod 12) + d - 1) * 86400000
         + h * 3600000 + mi * 60000)"

text \<open>
  The parts of a local time: the year, month (0 to 11), day, hour and minute that \<open>getFullYear()\<close> to
  \<open>getMinutes()\<close> answer. Years are counted from March in eras of 400; \<open>zone\<close> is the local time of an
  epoch time, both in milliseconds.
\<close>

definition days_before :: "int \<Rightarrow> int" where
  "days_before y = 365 * y + y div 4 - y div 100"

definition era_year :: "int \<Rightarrow> int" where
  "era_year doe =
     (case List.find (\<lambda>y. doe < days_before (int y + 1)) [0..<399] of None \<Rightarrow> 399 | Some y \<Rightarrow> int y)"

definition local_date :: "int \<Rightarrow> int \<times> int \<times> int" where
  "local_date days =
     (let z = days + 719468; era = z div 146097; doe = z mod 146097; yoe = era_year doe;
          doy = doe - days_before yoe; mp = (5 * doy + 2) div 153;
          month = (if mp < 10 then mp + 2 else mp - 10)
      in (yoe + era * 400 + (if month \<le> 1 then 1 else 0), month, doy - (153 * mp + 2) div 5 + 1))"

definition two :: "int \<Rightarrow> str" where
  "two n = (if n < 10 then lit ''0'' @ show_int n else show_int n)"

definition formatStarted :: "host \<Rightarrow> (int \<Rightarrow> int) \<Rightarrow> timestamp option \<Rightarrow> str" where
  "formatStarted h zone ts =
     (case ts of
        None \<Rightarrow> []
      | Some t \<Rightarrow>
          (let ms = zone (ts_ms h t); (y, mo, d) = local_date (ms div 86400000)
           in show_int y @ lit ''-'' @ two (mo + 1) @ lit ''-'' @ two d @ lit '' '' @
              two (ms mod 86400000 div 3600000) @ lit '':'' @ two (ms mod 3600000 div 60000)))"

definition parseStartedDate :: "(int \<Rightarrow> int) \<Rightarrow> str \<Rightarrow> int option option" where
  "parseStartedDate utc text =
     (case started_parts (trim text) of
        None \<Rightarrow> None
      | Some (y, mo, d, h, mi) \<Rightarrow>
          (let t = utc (local_time (int y) (int mo - 1) (int d) (int h) (int mi))
           in Some (if \<bar>t\<bar> \<le> 8640000000000000 then Some t else None)))"

definition validateStarted :: "(int \<Rightarrow> int) \<Rightarrow> str \<Rightarrow> str option" where
  "validateStarted utc text =
     (case started_parts (trim text) of
        None \<Rightarrow> Some (lit ''Use '' @ STARTED_FORMAT)
      | Some _ \<Rightarrow>
          (case parseStartedDate utc text of
             Some (Some _) \<Rightarrow> None
           | _ \<Rightarrow> Some (lit ''Use '' @ STARTED_FORMAT)))"

definition parseStarted :: "(int \<Rightarrow> int) \<Rightarrow> str \<Rightarrow> timestamp option" where
  "parseStarted utc text =
     (case parseStartedDate utc text of
        Some (Some t) \<Rightarrow> Some \<lparr>seconds = t div 1000, nanos = t mod 1000 * 1000000\<rparr>
      | _ \<Rightarrow> None)"

section \<open>What the parsers read\<close>

text \<open>A token: not empty, free of separators.\<close>

definition is_token :: "str \<Rightarrow> bool" where
  "is_token w \<longleftrightarrow> w \<noteq> [] \<and> (\<forall>c \<in> set w. \<not> is_sep c)"

lemma ws_sep: "is_ws c \<Longrightarrow> is_sep c"
  by (simp add: is_sep_def)

lemma split_sep_nonempty [simp]: "split_sep s \<noteq> []"
  by (induction s) (auto split: list.split)

lemma split_sep_token: "\<forall>c \<in> set w. \<not> is_sep c \<Longrightarrow> split_sep w = [w]"
  by (induction w) auto

lemma split_sep_append: "\<forall>c \<in> set w. \<not> is_sep c \<Longrightarrow> is_sep d \<Longrightarrow> split_sep (w @ d # s) = w # split_sep s"
  by (induction w) auto

lemma trim_token: "is_token w \<Longrightarrow> trim w = w"
  by (rule trim_id) (metis hd_in_set is_token_def last_in_set ws_sep)

lemma tokens_of_seps: "list_all is_sep sep \<Longrightarrow> tokens_of (sep @ s) = tokens_of s"
  by (induction sep) (simp_all add: tokens_of_def trim_def)

lemma tokens_of_append:
  "is_token w \<Longrightarrow> list_all is_sep sep \<Longrightarrow> sep \<noteq> [] \<Longrightarrow> tokens_of (w @ sep @ s) = w # tokens_of s"
  using tokens_of_seps [of "tl sep" s] trim_token [of w]
  by (cases sep) (auto simp: tokens_of_def split_sep_append is_token_def)

lemma tokens_of_join:
  assumes "list_all is_sep sep" and "sep \<noteq> []" and "\<forall>w \<in> set ws. is_token w"
  shows "tokens_of (join sep ws) = ws"
  using assms(3)
proof (induction ws rule: induct_list012)
  case 1
  then show ?case by (simp add: tokens_of_def trim_def)
next
  case (2 w)
  then have "split_sep w = [w]" and "trim w = w" and "w \<noteq> []"
    by (simp_all add: split_sep_token is_token_def trim_token)
  then show ?case by (simp add: tokens_of_def)
next
  case (3 w v ws)
  then show ?case by (simp add: tokens_of_append assms)
qed

lemma digit_not_sep: "is_digit c \<Longrightarrow> \<not> is_sep c"
  by (auto simp: is_sep_def is_digit_def is_ws_def)

lemma show_int_token: "0 \<le> n \<Longrightarrow> is_token (show_int n)"
  using show_int_pos_digits [of n] digit_not_sep by (auto simp: is_token_def)

lemma digits_val_show_int: "0 \<le> n \<Longrightarrow> int (digits_val (show_int n)) = n"
  by (simp add: show_int_def)

lemma strip_hash_show_int: "0 \<le> n \<Longrightarrow> strip_hash (show_int n) = show_int n"
  using show_int_pos_digits [of n "hd (show_int n)"] by (auto simp: strip_hash_def is_digit_def)

lemma event_token_read:
  assumes "m \<noteq> []" and "0 \<le> n"
  shows "event_token (m @ [35] @ show_int n) = Some (m, n)"
proof -
  have no: "\<forall>c \<in> set (rev (show_int n)). c \<noteq> 35"
    using show_int_pos_digits [OF assms(2)] by (fastforce simp: is_digit_def)
  have t: "takeWhile (\<lambda>c. c \<noteq> 35) (rev (show_int n) @ 35 # rev m) = rev (show_int n)"
    and d: "dropWhile (\<lambda>c. c \<noteq> 35) (rev (show_int n) @ 35 # rev m) = 35 # rev m"
    using no by (subst takeWhile_append2 dropWhile_append2; auto)+
  show ?thesis
    using assms by (simp add: event_token_def Let_def t d all_digits_show_int digits_val_show_int)
qed

lemma event_token_not_number: "m \<noteq> [] \<Longrightarrow> \<not> all_digits (strip_hash (m @ [35] @ s))"
  by (cases m) (auto simp: strip_hash_def all_digits_def is_digit_def)

text \<open>
  How a link is typed: the number of an incident of this event, the name and the number for one of
  another. The events must be told apart by what the code compares, their lower-cased names.
\<close>

definition link_text :: "(int \<times> str) list \<Rightarrow> int \<Rightarrow> LinkInput \<Rightarrow> str" where
  "link_text events thisEventId l =
     (if li_eventId l = thisEventId then show_int (li_incidentNumber l)
      else nullish (map_of events (li_eventId l)) [] @ [35] @ show_int (li_incidentNumber l))"

definition typeable :: "host \<Rightarrow> (int \<times> str) list \<Rightarrow> int \<Rightarrow> LinkInput \<Rightarrow> bool" where
  "typeable h events thisEventId l \<longleftrightarrow> 0 \<le> li_incidentNumber l \<and>
     (li_eventId l = thisEventId \<or>
      (\<exists>name. (li_eventId l, name) \<in> set events \<and> is_token name))"

lemma find_by_key:
  assumes "distinct (map f xs)" and "x \<in> set xs"
  shows "List.find (\<lambda>y. f y = f x) xs = Some x"
  using assms by (induction xs) (auto simp: rev_image_eqI)

lemma link_token_read:
  assumes "typeable h events this l" and "distinct (map fst events)"
    and "distinct (map (\<lambda>e. lower h (snd e)) events)"
  shows "is_token (link_text events this l) \<and> link_token h events this (link_text events this l) = Inr l"
proof (cases "li_eventId l = this")
  case True
  then show ?thesis
    using assms(1) by (simp add: link_text_def link_token_def typeable_def show_int_token
        strip_hash_show_int all_digits_show_int digits_val_show_int)
next
  case False
  then obtain name where n: "(li_eventId l, name) \<in> set events" "is_token name" "0 \<le> li_incidentNumber l"
    using assms(1) by (auto simp: typeable_def)
  have m: "map_of events (li_eventId l) = Some name" using n(1) assms(2) by simp
  have f: "List.find (\<lambda>e. lower h (snd e) = lower h name) events = Some (li_eventId l, name)"
    using find_by_key [OF assms(3) n(1)] by simp
  have "name \<noteq> []" using n(2) by (simp add: is_token_def)
  note e = event_token_read [OF this n(3)] event_token_not_number [OF this, of "show_int (li_incidentNumber l)"]
  have "is_token (name @ [35] @ show_int (li_incidentNumber l))"
    using n(2) show_int_token [OF n(3)] by (auto simp: is_token_def is_sep_def is_ws_def)
  then show ?thesis
    using False e f by (simp add: link_text_def link_token_def m trim_token [OF n(2)])
qed

lemma links_loop_read:
  assumes "\<forall>l \<in> set ls. link_token h events this (g l) = Inr l"
  shows "links_loop h events this (map g ls) acc = Inr (acc @ ls)"
  using assms by (induction ls arbitrary: acc) simp_all

text \<open>
  Every list of links can be typed: the texts of the links, joined by any white space and commas,
  are read back as exactly these links in this order.
\<close>

theorem typed_links_are_read:
  assumes "ls \<noteq> []" and "\<forall>l \<in> set ls. typeable h events this l"
    and "distinct (map fst events)" and "distinct (map (\<lambda>e. lower h (snd e)) events)"
    and "list_all is_sep sep" and "sep \<noteq> []"
  shows "parseLinks h (join sep (map (link_text events this) ls)) events this = Inr ls"
  using assms(1) links_loop_read [of ls h events this "link_text events this" "[]"]
    tokens_of_join [OF assms(5,6), of "map (link_text events this) ls"]
    link_token_read [OF _ assms(3,4)] assms(2)
  by (simp add: parseLinks_def Let_def)

lemma typed_links_are_read_witness:
  "parseLinks plain_host (join (lit '', '') (map (link_text [(4, lit ''Fair''), (9, lit ''Old'')] 4)
       [\<lparr>li_eventId = 4, li_incidentNumber = 12\<rparr>, \<lparr>li_eventId = 9, li_incidentNumber = 3\<rparr>]))
     [(4, lit ''Fair''), (9, lit ''Old'')] 4 =
   Inr [\<lparr>li_eventId = 4, li_incidentNumber = 12\<rparr>, \<lparr>li_eventId = 9, li_incidentNumber = 3\<rparr>]"
  by (rule typed_links_are_read)
    (auto simp: typeable_def is_token_def is_sep_def is_ws_def plain_host_def ascii_lower_def)

text \<open>The numbers typed for reports are read back from any layout of separators.\<close>

lemma parse_numbers_tokens:
  assumes "list_all is_sep sep" and "sep \<noteq> []" and "\<forall>n \<in> set ns. 0 \<le> n" and "ns \<noteq> []"
  shows "parseNumbers (join sep (map show_int ns)) = Some ns"
proof -
  let ?s = "join sep (map show_int ns)"
  have n: "\<forall>w \<in> set (map show_int ns). is_token w" using assms(3) show_int_token by auto
  have "filter (\<lambda>t. length t > 0) (map (\<lambda>t. strip_hash (trim t)) ws) =
      filter (\<lambda>t. length t > 0) (map strip_hash (filter (\<lambda>t. length t > 0) (map trim ws)))" for ws
    by (induction ws) (auto simp: strip_hash_def)
  then have "filter (\<lambda>t. length t > 0) (map (\<lambda>t. strip_hash (trim t)) (split_sep ?s)) =
      filter (\<lambda>t. length t > 0) (map strip_hash (tokens_of ?s))" by (simp add: tokens_of_def)
  also have "\<dots> = filter (\<lambda>t. length t > 0) (map (strip_hash \<circ> show_int) ns)"
    by (simp add: tokens_of_join [OF assms(1,2) n])
  also have "\<dots> = map show_int ns"
    using assms(3) by (induction ns) (simp_all add: strip_hash_show_int)
  finally have ts: "filter (\<lambda>t. length t > 0) (map (\<lambda>t. strip_hash (trim t)) (split_sep ?s)) = map show_int ns" .
  have "\<not> list_ex (\<lambda>t. \<not> all_digits t) (map show_int ns)"
    using assms(3) by (auto simp: list_ex_iff all_digits_show_int)
  moreover have "map (\<lambda>t. int (digits_val t)) (map show_int ns) = ns"
    using assms(3) by (induction ns) (simp_all add: digits_val_show_int)
  ultimately show ?thesis
    unfolding parseNumbers_def ts Let_def using assms(4) by simp
qed

section \<open>The started field\<close>

text \<open>The parts of a local day are those of the day that \<open>month_start\<close> counts.\<close>

lemma div_bounds: "0 < k \<Longrightarrow> k * (n div k) \<le> n" "0 < k \<Longrightarrow> n < k * (n div k) + k" for k n :: int
  using mult_div_mod_eq [of k n] pos_mod_bound [of k n] pos_mod_sign [of k n] by linarith+

lemma div_succ: "0 < k \<Longrightarrow> (n + 1) div k = n div k \<or> (n + 1) div k = n div k + 1" for k n :: int
  using zdiv_mono1 [of n "n + 1" k] zdiv_mono1 [of "n + 1" "n + k" k] div_add_self2 [of k n] by auto

lemma days_before_step:
  "days_before y + 365 \<le> days_before (y + 1)" "days_before (y + 1) \<le> days_before y + 366"
proof -
  have hundreds: "z div 100 = z div 4 div 25" for z :: int
    using zdiv_zmult2_eq [of 25 z 4] by simp
  have "0 \<le> (y + 1) div 4 - (y + 1) div 100 - (y div 4 - y div 100) \<and>
      (y + 1) div 4 - (y + 1) div 100 - (y div 4 - y div 100) \<le> 1"
    unfolding hundreds using div_succ [of 4 y] div_succ [of 25 "y div 4"] by auto
  then show "days_before y + 365 \<le> days_before (y + 1)" "days_before (y + 1) \<le> days_before y + 366"
    unfolding days_before_def by (simp_all add: algebra_simps)
qed

lemma month_day: fixes doy :: int
  defines "mp \<equiv> (5 * doy + 2) div 153"
  shows "(153 * mp + 2) div 5 \<le> doy" "doy \<le> (153 * mp + 2) div 5 + 30"
  using div_bounds [of 153 "5 * doy + 2"] div_bounds [of 5 "153 * mp + 2"] unfolding mp_def by linarith+

lemma find_first_nat:
  assumes "List.find P [0..<n] = Some y"
  shows "y < n \<and> P y \<and> (\<forall>z < y. \<not> P z)"
  using assms by (auto simp: find_Some_iff)

lemma era_year_bounds:
  assumes "0 \<le> doe" and "doe < 146097"
  shows "0 \<le> era_year doe \<and> era_year doe \<le> 399 \<and> 0 \<le> doe - days_before (era_year doe)
    \<and> doe - days_before (era_year doe) \<le> 365"
proof (cases "List.find (\<lambda>y. doe < days_before (int y + 1)) [0..<399]")
  case None
  then have "days_before 399 \<le> doe"
    by (auto simp: find_None dest: bspec [of _ _ 398])
  moreover have "era_year doe = 399" by (simp add: era_year_def None)
  ultimately show ?thesis using assms by (simp add: days_before_def)
next
  case (Some y)
  then have y: "y < 399" "doe < days_before (int y + 1)" "\<forall>z < y. \<not> doe < days_before (int z + 1)"
    using find_first_nat by blast+
  have "days_before (int y) \<le> doe"
  proof (cases y)
    case 0
    then show ?thesis using assms by (simp add: days_before_def)
  next
    case (Suc z)
    then have "int y = int z + 1" by simp
    then show ?thesis using y(3) [rule_format, of z] Suc by (simp only: not_less lessI simp_thms)
  qed
  moreover have "doe \<le> days_before (int y) + 365"
    using y(2) days_before_step(2) [of "int y"] by linarith
  ultimately show ?thesis using y(1) by (simp add: era_year_def Some)
qed

lemma local_date_counts:
  assumes "local_date days = (y, mo, d)"
  shows "0 \<le> mo" "mo \<le> 11" "1 \<le> d" "d \<le> 31" "month_start y mo + d - 1 = days"
proof -
  define z where "z = days + 719468"
  define era where "era = z div 146097"
  define doe where "doe = z mod 146097"
  define yoe where "yoe = era_year doe"
  define doy where "doy = doe - days_before yoe"
  define mp where "mp = (5 * doy + 2) div 153"
  have b: "0 \<le> yoe" "yoe \<le> 399" "0 \<le> doy" "doy \<le> 365"
    using era_year_bounds [of doe] by (simp_all add: doe_def yoe_def doy_def)
  have mp: "0 \<le> mp" "mp \<le> 11" using b by (simp_all add: mp_def)
  have mo: "mo = (if mp < 10 then mp + 2 else mp - 10)"
    and y: "y = yoe + era * 400 + (if mo \<le> 1 then 1 else 0)"
    and d: "d = doy - (153 * mp + 2) div 5 + 1"
    using assms
    unfolding local_date_def Let_def z_def [symmetric] era_def [symmetric] doe_def [symmetric]
      yoe_def [symmetric] doy_def [symmetric] mp_def [symmetric]
    by (auto simp only: prod.inject)
  show "0 \<le> mo" and "mo \<le> 11" using mp by (simp_all add: mo)
  show "1 \<le> d" and "d \<le> 31" using month_day [of doy] unfolding d mp_def by linarith+
  have div: "(yoe + era * 400) div 4 = yoe div 4 + era * 100"
    "(yoe + era * 400) div 100 = yoe div 100 + era * 4" "(yoe + era * 400) div 400 = era"
    using b div_mult_self1 [of 4 yoe "era * 100"] div_mult_self1 [of 100 yoe "era * 4"]
    by (simp_all add: algebra_simps)
  have "era * 146097 + doe = z" by (simp add: era_def doe_def)
  moreover have "month_start y mo =
      (yoe + era * 400) * 365 + (yoe + era * 400) div 4 - (yoe + era * 400) div 100
        + (yoe + era * 400) div 400 + (153 * mp + 2) div 5 - 719468"
    using mp by (simp add: month_start_def Let_def y mo)
  ultimately show "month_start y mo + d - 1 = days"
    by (simp add: div d doy_def days_before_def z_def algebra_simps)
qed

lemma two_digits:
  assumes "0 \<le> n" and "n < 100"
  shows "two n = [48 + nat n div 10, 48 + nat n mod 10]"
proof (cases "n < 10")
  case True
  then show ?thesis using assms by (simp add: two_def show_int_def)
next
  case False
  then have "nat n div 10 < 10" "\<not> nat n < 10" using assms by linarith+
  then show ?thesis using assms False by (simp add: two_def show_int_def show_nat.simps [of "nat n"])
qed

lemma four_digits:
  assumes "1000 \<le> y" and "y \<le> 9999"
  shows "show_int y = [48 + nat y div 1000, 48 + nat y div 100 mod 10, 48 + nat y div 10 mod 10, 48 + nat y mod 10]"
proof -
  have "nat y div 1000 < 10" "\<not> nat y div 100 < 10" "\<not> nat y div 10 < 10" "\<not> nat y < 10"
    "nat y div 10 div 10 = nat y div 100" "nat y div 100 div 10 = nat y div 1000"
    using assms by (simp_all add: div_mult2_eq [symmetric])
  then show ?thesis
    using assms by (simp add: show_int_def show_nat.simps [of "nat y"] show_nat.simps [of "nat y div 10"]
        show_nat.simps [of "nat y div 100"])
qed

lemma two_read:
  assumes "0 \<le> n" and "n < 100"
  shows "all_digits (two n) \<and> length (two n) = 2 \<and> int (digits_val (two n)) = n"
proof -
  have "nat n div 10 < 10" using assms by linarith
  moreover have "10 * (nat n div 10) + nat n mod 10 = nat n" by simp
  ultimately show ?thesis
    using assms by (simp add: two_digits [OF assms] all_digits_def is_digit_def digits_val_def)
qed

lemma year_read:
  assumes "1000 \<le> y" and "y \<le> 9999"
  shows "all_digits (show_int y) \<and> length (show_int y) = 4 \<and> int (digits_val (show_int y)) = y"
proof (intro conjI)
  show "all_digits (show_int y)" and "int (digits_val (show_int y)) = y"
    using assms by (simp_all add: all_digits_show_int digits_val_show_int)
  show "length (show_int y) = 4" by (simp add: four_digits [OF assms])
qed

lemma started_text:
  assumes y: "all_digits Y \<and> length Y = 4" and mo: "all_digits M \<and> length M = 2"
    and d: "all_digits D \<and> length D = 2" and h: "all_digits H \<and> length H = 2"
    and mi: "all_digits I \<and> length I = 2"
  defines "t \<equiv> Y @ lit ''-'' @ M @ lit ''-'' @ D @ lit '' '' @ H @ lit '':'' @ I"
  shows "trim t = t"
    and "started_parts t = Some (digits_val Y, digits_val M, digits_val D, digits_val H, digits_val I)"
proof -
  have "Y \<noteq> []" and "I \<noteq> []" using y mi by auto
  then have "hd t = hd Y" and "last t = last I" by (simp_all add: t_def)
  moreover have "is_digit (hd Y)" and "is_digit (last I)"
    using y mi \<open>Y \<noteq> []\<close> \<open>I \<noteq> []\<close> by (auto simp: all_digits_def list_all_iff)
  ultimately show "trim t = t" using trim_id [of t] by simp
  show "started_parts t = Some (digits_val Y, digits_val M, digits_val D, digits_val H, digits_val I)"
    using assms by (simp add: started_parts_def t_def nth_append)
qed

lemma telescope: "A + r = ms \<Longrightarrow> B + m = r \<Longrightarrow> C + q = m \<Longrightarrow> A + B + C = ms - q" for ms :: int
  by simp

lemma minute_bound:
  fixes m k :: int
  assumes "60000 * k \<le> m" and "m < 60000 * k + 60000" and "\<bar>m\<bar> \<le> 8640000000000000"
  shows "\<bar>k * 60000\<bar> \<le> 8640000000000000"
proof -
  have "- 144000000000 \<le> k" using assms by linarith
  then show ?thesis using assms by linarith
qed

lemma minute_parts:
  fixes ms :: int
  defines "r \<equiv> ms mod 86400000"
  shows "0 \<le> r div 3600000" "r div 3600000 < 24" "0 \<le> ms mod 3600000 div 60000"
    "ms mod 3600000 div 60000 < 60"
    "ms div 86400000 * 86400000 + r div 3600000 * 3600000 + ms mod 3600000 div 60000 * 60000
      = ms - ms mod 60000"
proof -
  have r: "0 \<le> r" "r < 86400000" by (simp_all add: r_def)
  have m: "0 \<le> ms mod 3600000" "ms mod 3600000 < 3600000" by simp_all
  show "0 \<le> r div 3600000" "r div 3600000 < 24" using r by (simp_all add: pos_imp_zdiv_nonneg_iff)
  show "0 \<le> ms mod 3600000 div 60000" "ms mod 3600000 div 60000 < 60"
    using m by (simp_all add: pos_imp_zdiv_nonneg_iff)
  have "r mod 3600000 = ms mod 3600000" and "ms mod 3600000 mod 60000 = ms mod 60000"
    by (simp_all add: r_def mod_mod_cancel)
  then show "ms div 86400000 * 86400000 + r div 3600000 * 3600000 + ms mod 3600000 div 60000 * 60000
      = ms - ms mod 60000"
    using telescope [OF div_mult_mod_eq [of ms 86400000] _ div_mult_mod_eq [of "ms mod 3600000" 60000],
        of "r div 3600000 * 3600000"] div_mult_mod_eq [of r 3600000] by (simp only: r_def)
qed

lemma format_parse_date:
  assumes "local_date (zone (ts_ms h t) div 86400000) = (y, mo, d)" and "1000 \<le> y" and "y \<le> 9999"
  shows "parseStartedDate utc (formatStarted h zone (Some t)) =
    (let e = utc (zone (ts_ms h t) - zone (ts_ms h t) mod 60000)
     in Some (if \<bar>e\<bar> \<le> 8640000000000000 then Some e else None))"
proof -
  define ms where "ms = zone (ts_ms h t)"
  define hh where "hh = ms mod 86400000 div 3600000"
  define mi where "mi = ms mod 3600000 div 60000"
  note days = local_date_counts [OF assms(1)]
  note parts_of = minute_parts [of ms, folded hh_def mi_def]
  note Y = year_read [OF assms(2,3)]
  have M: "all_digits (two (mo + 1)) \<and> length (two (mo + 1)) = 2 \<and> int (digits_val (two (mo + 1))) = mo + 1"
    and D: "all_digits (two d) \<and> length (two d) = 2 \<and> int (digits_val (two d)) = d"
    and H: "all_digits (two hh) \<and> length (two hh) = 2 \<and> int (digits_val (two hh)) = hh"
    and I: "all_digits (two mi) \<and> length (two mi) = 2 \<and> int (digits_val (two mi)) = mi"
    by (rule two_read; use days parts_of in linarith)+
  have shown: "formatStarted h zone (Some t) = show_int y @ lit ''-'' @ two (mo + 1) @ lit ''-'' @ two d @
      lit '' '' @ two hh @ lit '':'' @ two mi"
    using assms(1) by (simp add: formatStarted_def Let_def hh_def mi_def ms_def)
  have time: "local_time y mo d hh mi = ms - ms mod 60000"
  proof -
    have "local_time y mo d hh mi = (month_start y mo + d - 1) * 86400000 + hh * 3600000 + mi * 60000"
      using days assms(2) by (simp add: local_time_def div_pos_pos_trivial mod_pos_pos_trivial)
    also have "month_start y mo + d - 1 = ms div 86400000" using days(5) by (simp add: ms_def)
    finally show ?thesis using parts_of(5) by simp
  qed
  note parts = started_text [of "show_int y" "two (mo + 1)" "two d" "two hh" "two mi"]
  show ?thesis
    unfolding parseStartedDate_def shown
    using parts Y M D H I time by (simp add: Let_def ms_def)
qed

lemma minute_seconds: "k * 60000 div 1000 = k * 60" "k * 60000 mod 1000 = 0" for k :: int
proof -
  have "k * 60000 = (k * 60) * 1000" by simp
  then show "k * 60000 div 1000 = k * 60" "k * 60000 mod 1000 = 0"
    by (simp_all only: nonzero_mult_div_cancel_right mod_mult_self2_is_0)
qed

lemma accepted_date:
  assumes "parseStartedDate utc s = Some (Some x)"
  shows "validateStarted utc s = None \<and>
    parseStarted utc s = Some \<lparr>seconds = x div 1000, nanos = x mod 1000 * 1000000\<rparr>"
proof (cases "started_parts (trim s)")
  case None
  then show ?thesis using assms by (simp add: parseStartedDate_def)
next
  case (Some p)
  then show ?thesis using assms by (simp add: validateStarted_def parseStarted_def)
qed

text \<open>
  A start time shown in the field and saved again is the start time to the minute, in every time
  zone in which the minute shown names one time: years 1000 to 9999, the zone's offset whole minutes.
\<close>

theorem started_shown_is_read_back:
  assumes "local_date (zone (ts_ms h t) div 86400000) = (y, mo, d)" and "1000 \<le> y" and "y \<le> 9999"
    and "\<bar>ts_ms h t\<bar> \<le> 8640000000000000"
    and "zone (ts_ms h t) mod 60000 = ts_ms h t mod 60000"
    and "utc (zone (ts_ms h t) - zone (ts_ms h t) mod 60000) = ts_ms h t - zone (ts_ms h t) mod 60000"
  shows "validateStarted utc (formatStarted h zone (Some t)) = None \<and>
    parseStarted utc (formatStarted h zone (Some t)) =
      Some \<lparr>seconds = ts_ms h t div 60000 * 60, nanos = 0\<rparr>"
proof -
  let ?m = "ts_ms h t"
  have e: "utc (zone ?m - zone ?m mod 60000) = ?m div 60000 * 60000"
    using assms(5,6) by (simp add: minus_mod_eq_div_mult)
  have "\<bar>?m div 60000 * 60000\<bar> \<le> 8640000000000000"
    using minute_bound [OF _ _ assms(4)] div_bounds [of 60000 ?m] by simp
  then have date: "parseStartedDate utc (formatStarted h zone (Some t)) = Some (Some (?m div 60000 * 60000))"
    using format_parse_date [where zone = zone and h = h and t = t and utc = utc, OF assms(1-3)]
    by (simp add: e)
  from accepted_date [OF this] show ?thesis unfolding minute_seconds by (simp only: mult_zero_left)
qed

lemma era_starts: "local_date 11017 = (2000, 2, 1)"
proof -
  have "era_year 0 = 0"
    by (subst era_year_def, subst upt_conv_Cons, simp, subst find.simps(2)) (simp add: days_before_def)
  then show ?thesis by (simp add: local_date_def Let_def days_before_def)
qed

lemma started_shown_is_read_back_witness:
  "parseStarted (\<lambda>l. l + 25200000) (formatStarted plain_host (\<lambda>e. e - 25200000)
      (Some \<lparr>seconds = 951894065, nanos = 0\<rparr>)) = Some \<lparr>seconds = 951894060, nanos = 0\<rparr>"
  using started_shown_is_read_back [where zone = "\<lambda>e. e - 25200000" and utc = "\<lambda>l. l + 25200000"
      and t = "\<lparr>seconds = 951894065, nanos = 0\<rparr>" and h = plain_host and y = 2000 and mo = 2 and d = 1]
  by (simp add: plain_host_def era_starts)

text \<open>
  The validation accepts days that do not exist: the thirty-first of February passes and is the
  third of March, in every time zone.
\<close>

theorem impossible_day_accepted:
  "parseStarted utc (lit ''2026-02-31 10:00'') = parseStarted utc (lit ''2026-03-03 10:00'') \<and>
   validateStarted (\<lambda>l. l) (lit ''2026-02-31 10:00'') = None"
proof -
  have "started_parts (trim (lit ''2026-02-31 10:00'')) = Some (2026, 2, 31, 10, 0)"
    and "started_parts (trim (lit ''2026-03-03 10:00'')) = Some (2026, 3, 3, 10, 0)"
    by (simp_all add: started_parts_def trim_def is_ws_def all_digits_def is_digit_def digits_val_def)
  moreover have "local_time 2026 1 31 10 0 = local_time 2026 2 3 10 0"
    and "\<bar>local_time 2026 1 31 10 0\<bar> \<le> 8640000000000000"
    by (simp_all add: local_time_def month_start_def)
  ultimately show ?thesis
    by (simp add: parseStarted_def parseStartedDate_def validateStarted_def)
qed

end
