(* ===== verification/Compose.thy ===== *)
theory Compose
  imports Edit
begin

text \<open>
  Filing and appending: the write bodies (\<open>features/compose/payload.ts\<close>) and the mentions of a
  composer (\<open>features/compose/mentions.ts\<close>). The client's \<open>isJournalOnly\<close> is held against the
  server's (\<open>incidentUpdateToJSON\<close> and \<open>isJournalOnly\<close> of \<open>go/internal/incident\<close>), whose part of the
  decoded update is the record \<open>ServerUpdate\<close>.
\<close>

section \<open>Write bodies\<close>

record EntryInput =
  en_text :: str
  en_mentionIds :: "int list"

record IncidentForm =
  fo_summary :: str
  fo_priority :: IncidentPriority
  fo_typeIds :: "int list"
  fo_areaSlug :: "str option"
  fo_description :: str
  fo_booth :: str
  fo_entry :: "EntryInput option"
  fo_reportNumbers :: "int list option"

record CreateIncidentRequest =
  cir_eventId :: int
  cir_incident :: IncidentUpdate

text \<open>\<open>x ? { \<dots> } : {}\<close> on a text: the empty text is falsy.\<close>

definition unless_empty :: "str \<Rightarrow> str option" where
  "unless_empty s = (if s = [] then None else Some s)"

definition entryOf :: "EntryInput \<Rightarrow> NewJournalEntry" where
  "entryOf entry = \<lparr>nj_text = trim (en_text entry), nj_mentionedPersonIds = en_mentionIds entry\<rparr>"

definition fileRequest :: "int \<Rightarrow> IncidentForm \<Rightarrow> CreateIncidentRequest" where
  "fileRequest eventId form =
     (let summary = trim (fo_summary form); description = trim (fo_description form);
          booth = trim (fo_booth form); area = Option.bind (fo_areaSlug form) unless_empty;
          hasLocation = (area \<noteq> None \<or> description \<noteq> [] \<or> booth \<noteq> [])
      in \<lparr>cir_eventId = eventId,
          cir_incident = empty_update
            \<lparr>up_priority := Some (fo_priority form),
             up_summary := unless_empty summary,
             up_incidentTypeIds := (if length (fo_typeIds form) > 0 then Some (fo_typeIds form) else None),
             up_location := (if hasLocation
               then Some \<lparr>loc_areaSlug = area, loc_description = unless_empty description,
                 loc_booth = unless_empty booth\<rparr> else None),
             up_reports := (case fo_reportNumbers form of
                 None \<Rightarrow> None | Some ns \<Rightarrow> if length ns > 0 then Some ns else None),
             up_journalEntries := (case fo_entry form of None \<Rightarrow> [] | Some e \<Rightarrow> [entryOf e])\<rparr>\<rparr>)"

record ReportEntryInput = EntryInput +
  en_onBehalfOfId :: "int option"

record ReportForm =
  rfo_summary :: str
  rfo_incident :: "int option"
  rfo_entry :: "ReportEntryInput option"

record CreateReportRequest =
  crr_eventId :: int
  crr_report :: Report

definition bare_ref :: "int \<Rightarrow> PersonRef" where
  "bare_ref personId = \<lparr>ref_personId = personId, ref_handle = None, ref_name = None\<rparr>"

text \<open>A person id of 0 is falsy.\<close>

definition reportEntryOf :: "ReportEntryInput \<Rightarrow> JournalEntry" where
  "reportEntryOf entry = blank_entry
     \<lparr>je_text := trim (en_text entry), je_mentions := map bare_ref (en_mentionIds entry),
      je_onBehalfOf := (case en_onBehalfOfId entry of
        None \<Rightarrow> None | Some i \<Rightarrow> if i = 0 then None else Some (bare_ref i))\<rparr>"

definition reportRequest :: "int \<Rightarrow> ReportForm \<Rightarrow> CreateReportRequest" where
  "reportRequest eventId form =
     (let summary = trim (rfo_summary form)
      in \<lparr>crr_eventId = eventId,
          crr_report = blank_report
            \<lparr>rep_summary := unless_empty summary,
             rep_incident := (case rfo_incident form of
               None \<Rightarrow> None | Some n \<Rightarrow> if n > 0 then Some n else None),
             rep_journalEntries := (case rfo_entry form of None \<Rightarrow> [] | Some e \<Rightarrow> [reportEntryOf e])\<rparr>\<rparr>)"

definition reportAppend :: "ReportEntryInput \<Rightarrow> Report" where
  "reportAppend entry = blank_report\<lparr>rep_journalEntries := [reportEntryOf entry]\<rparr>"

definition reportLink :: "int \<Rightarrow> Report" where
  "reportLink incident = blank_report\<lparr>rep_incident := Some incident\<rparr>"

definition appendUpdate :: "EntryInput \<Rightarrow> IncidentUpdate" where
  "appendUpdate entry = empty_update\<lparr>up_journalEntries := [entryOf entry]\<rparr>"

text \<open>
  The keys \<open>toJson\<close> writes for an update, in field order: an enum without presence is left out at
  its zero, a list when it is empty, everything else when it is absent.
\<close>

definition update_keys :: "IncidentUpdate \<Rightarrow> string list" where
  "update_keys u = map fst (filter snd
     [(''state'', up_state u \<noteq> None \<and> up_state u \<noteq> Some STATE_UNSPECIFIED),
      (''private'', up_private u \<noteq> None),
      (''outcomeId'', up_outcomeId u \<noteq> None),
      (''started'', up_started u \<noteq> None),
      (''priority'', up_priority u \<noteq> None \<and> up_priority u \<noteq> Some PRIORITY_UNSPECIFIED),
      (''summary'', up_summary u \<noteq> None),
      (''location'', up_location u \<noteq> None),
      (''incidentTypeIds'', up_incidentTypeIds u \<noteq> None),
      (''reports'', up_reports u \<noteq> None),
      (''linkedIncidents'', up_linkedIncidents u \<noteq> None),
      (''journalEntries'', up_journalEntries u \<noteq> [])])"

definition isJournalOnly :: "IncidentUpdate \<Rightarrow> bool" where
  "isJournalOnly update =
     (let keys = update_keys update
      in length (up_journalEntries update) > 0 \<and> length keys = 1 \<and> keys ! 0 = ''journalEntries'')"

section \<open>The server's reading of an update\<close>

record ServerUpdate =
  su_State :: string
  su_Private :: "bool option"
  su_OutcomeID :: "int option"
  su_Started :: timestamp
  su_Priority :: int
  su_Summary :: "str option"
  su_Location :: IncidentLocation
  su_IncidentTypeIDs :: "int list option"
  su_Reports :: "int list option"
  su_Visits :: "int list option"
  su_People :: "int list option"
  su_LinkedIncidents :: "(int \<times> int) list option"
  su_JournalEntries :: "NewJournalEntry list"

text \<open>The zero \<open>time.Time\<close>: 0001-01-01T00:00:00Z.\<close>

definition zero_time :: timestamp where
  "zero_time = \<lparr>seconds = -62135596800, nanos = 0\<rparr>"

fun incidentStateFromProto :: "IncidentState \<Rightarrow> string" where
  "incidentStateFromProto STATE_OPEN = ''open''"
| "incidentStateFromProto STATE_CLOSED = ''closed''"
| "incidentStateFromProto STATE_UNSPECIFIED = ''''"

fun incidentPriorityFromProto :: "IncidentPriority \<Rightarrow> int" where
  "incidentPriorityFromProto PRIORITY_LOW = 1"
| "incidentPriorityFromProto PRIORITY_NORMAL = 3"
| "incidentPriorityFromProto PRIORITY_HIGH = 5"
| "incidentPriorityFromProto PRIORITY_UNSPECIFIED = 0"

definition incidentUpdateToJSON :: "IncidentUpdate \<Rightarrow> ServerUpdate" where
  "incidentUpdateToJSON u =
     \<lparr>su_State = incidentStateFromProto (nullish (up_state u) STATE_UNSPECIFIED),
      su_Private = up_private u,
      su_OutcomeID = up_outcomeId u,
      su_Started = nullish (up_started u) zero_time,
      su_Priority = incidentPriorityFromProto (nullish (up_priority u) PRIORITY_UNSPECIFIED),
      su_Summary = up_summary u,
      su_Location = nullish (up_location u) blank_location,
      su_IncidentTypeIDs = up_incidentTypeIds u,
      su_Reports = up_reports u,
      su_Visits = None,
      su_People = None,
      su_LinkedIncidents =
        map_option (map (\<lambda>l. (li_eventId l, li_incidentNumber l))) (up_linkedIncidents u),
      su_JournalEntries = up_journalEntries u\<rparr>"

definition server_isJournalOnly :: "ServerUpdate \<Rightarrow> bool" where
  "server_isJournalOnly inc \<longleftrightarrow>
     length (su_JournalEntries inc) > 0 \<and> su_State inc = '''' \<and> su_Priority inc = 0 \<and>
     su_OutcomeID inc = None \<and> su_Started inc = zero_time \<and> su_Summary inc = None \<and>
     su_Private inc = None \<and> loc_areaSlug (su_Location inc) = None \<and>
     loc_description (su_Location inc) = None \<and> loc_booth (su_Location inc) = None \<and>
     su_IncidentTypeIDs inc = None \<and> su_Reports inc = None \<and> su_Visits inc = None \<and>
     su_People inc = None \<and> su_LinkedIncidents inc = None"

section \<open>Mentions\<close>

record Picked =
  pi_personId :: int
  pi_token :: str

definition MENTION_QUERY_MIN :: nat where
  "MENTION_QUERY_MIN = 2"

text \<open>\<open>lastIndexOf\<close> of one character.\<close>

fun last_index :: "nat \<Rightarrow> str \<Rightarrow> nat option" where
  "last_index c [] = None"
| "last_index c (d # s) =
     (case last_index c s of Some n \<Rightarrow> Some (Suc n) | None \<Rightarrow> if d = c then Some 0 else None)"

text \<open>The start of the trigger and the query; 64 is the at sign.\<close>

definition mentionQuery :: "str \<Rightarrow> nat \<Rightarrow> (nat \<times> str) option" where
  "mentionQuery text caret =
     (let upto = take caret text
      in case last_index 64 upto of
           None \<Rightarrow> None
         | Some pos \<Rightarrow>
             if pos > 0 \<and> \<not> is_ws (upto ! (pos - 1)) then None
             else (let query = drop (pos + 1) upto
                   in if list_ex is_ws query then None else Some (pos, query)))"

definition tokenFor :: "Person \<Rightarrow> str" where
  "tokenFor p =
     [64] @ or_str (map_option trim (p_handle p)) (or_str (map_option trim (p_name p)) [])"

definition insertMention :: "str \<Rightarrow> nat \<Rightarrow> str \<Rightarrow> str \<times> nat" where
  "insertMention text caret token =
     (case mentionQuery text caret of
        None \<Rightarrow> (text, caret)
      | Some (start, _) \<Rightarrow>
          (let before = take start text; after = drop caret text
           in (before @ token @ [32] @ after, length before + length token + 1)))"

definition mentionedIds :: "str \<Rightarrow> Picked list \<Rightarrow> int list" where
  "mentionedIds text picked =
     foldl (\<lambda>ids m. if has_sub text (pi_token m) \<and> pi_personId m \<notin> set ids
                    then ids @ [pi_personId m] else ids) [] picked"

section \<open>Lemmas\<close>

lemma update_keys_journal_only:
  "isJournalOnly u \<longleftrightarrow> up_journalEntries u \<noteq> [] \<and>
     (up_state u = None \<or> up_state u = Some STATE_UNSPECIFIED) \<and> up_private u = None \<and>
     up_outcomeId u = None \<and> up_started u = None \<and>
     (up_priority u = None \<or> up_priority u = Some PRIORITY_UNSPECIFIED) \<and> up_summary u = None \<and>
     up_location u = None \<and> up_incidentTypeIds u = None \<and> up_reports u = None \<and>
     up_linkedIncidents u = None"
proof -
  define others where "others =
    [(''state'', up_state u \<noteq> None \<and> up_state u \<noteq> Some STATE_UNSPECIFIED), (''private'', up_private u \<noteq> None),
     (''outcomeId'', up_outcomeId u \<noteq> None), (''started'', up_started u \<noteq> None),
     (''priority'', up_priority u \<noteq> None \<and> up_priority u \<noteq> Some PRIORITY_UNSPECIFIED), (''summary'', up_summary u \<noteq> None),
     (''location'', up_location u \<noteq> None), (''incidentTypeIds'', up_incidentTypeIds u \<noteq> None),
     (''reports'', up_reports u \<noteq> None), (''linkedIncidents'', up_linkedIncidents u \<noteq> None)]"
  have "update_keys u = map fst (filter snd (others @ [(''journalEntries'', up_journalEntries u \<noteq> [])]))"
    by (simp only: update_keys_def others_def append_Cons append_Nil)
  then have "isJournalOnly u \<longleftrightarrow> up_journalEntries u \<noteq> [] \<and> filter snd others = []"
    by (auto simp: isJournalOnly_def Let_def)
  also have "filter snd others = [] \<longleftrightarrow> (\<forall>p \<in> set others. \<not> snd p)" by (rule filter_empty_conv)
  finally show ?thesis by (simp add: others_def)
qed

lemma state_sentinel:
  "incidentStateFromProto (nullish st STATE_UNSPECIFIED) = [] \<longleftrightarrow> st = None \<or> st = Some STATE_UNSPECIFIED"
  by (cases st; cases "the st") simp_all

lemma priority_sentinel: "incidentPriorityFromProto (nullish p PRIORITY_UNSPECIFIED) = 0 \<longleftrightarrow>
    p = None \<or> p = Some PRIORITY_UNSPECIFIED"
  by (cases p; cases "the p") simp_all

lemma location_sentinel:
  "loc_areaSlug (nullish l blank_location) = None \<and> loc_description (nullish l blank_location) = None \<and>
   loc_booth (nullish l blank_location) = None \<longleftrightarrow> l = None \<or> l = Some blank_location"
  by (cases l; cases "the l") (auto simp: blank_location_def)

lemma started_sentinel: "nullish t zero_time = zero_time \<longleftrightarrow> t = None \<or> t = Some zero_time"
  by (cases t) simp_all

lemma last_index_None: "last_index c s = None \<longleftrightarrow> c \<notin> set s"
  by (induction s) (auto split: option.splits)

lemma last_index_Some:
  "last_index c s = Some n \<Longrightarrow> n < length s \<and> s ! n = c \<and> c \<notin> set (drop (Suc n) s)"
proof (induction s arbitrary: n)
  case (Cons d s)
  then show ?case
    by (cases "last_index c s") (auto simp: last_index_None split: if_splits)
qed simp

lemma take_prefix_length: "take (length a) (a @ b) = a" "drop (length a) (a @ b) = b"
  by simp_all

lemma has_sub_middle: "has_sub (a @ t @ b) t"
  by (simp add: has_sub_iff_sublist)

lemma mentionedIds_set:
  "set (mentionedIds text picked) = pi_personId ` {m \<in> set picked. has_sub text (pi_token m)} \<and>
   distinct (mentionedIds text picked)"
proof (induction picked rule: rev_induct)
  case Nil
  then show ?case by (simp add: mentionedIds_def)
next
  case (snoc m picked)
  have "mentionedIds text (picked @ [m]) =
      (if has_sub text (pi_token m) \<and> pi_personId m \<notin> set (mentionedIds text picked)
       then mentionedIds text picked @ [pi_personId m] else mentionedIds text picked)"
    by (simp add: mentionedIds_def)
  with snoc show ?case by auto
qed

lemma trigger_text:
  assumes "mentionQuery text caret = Some (start, query)" and "caret \<le> length text"
  shows "text = take start text @ [64] @ query @ drop caret text \<and> list_all (\<lambda>c. \<not> is_ws c) query \<and>
    64 \<notin> set query"
proof -
  have last: "last_index 64 (take caret text) = Some start" and q: "query = drop (start + 1) (take caret text)"
    and ws: "\<not> list_ex is_ws query"
    using assms(1) by (auto simp: mentionQuery_def Let_def split: option.splits if_splits)
  have start: "start < length (take caret text)" "take caret text ! start = 64"
    "64 \<notin> set (drop (Suc start) (take caret text))"
    using last_index_Some [OF last] by simp_all
  have "take caret text = take start (take caret text) @ take caret text ! start # drop (Suc start) (take caret text)"
    using start(1) by (rule id_take_nth_drop)
  then have "take caret text = take start text @ [64] @ query"
    using start assms(2) by (simp add: q min_def split: if_splits)
  then have "text = (take start text @ [64] @ query) @ drop caret text"
    by (metis append_take_drop_id)
  then show ?thesis using ws start(3) by (auto simp: list_ex_iff list_all_iff q)
qed

section \<open>Properties\<close>

text \<open>
  C19: what the client takes for an append the server takes for one, so that the append of a reporter
  with only a per-incident grant is never refused as an edit: every body of the append box carries
  entries and nothing else. The server's test is the client's, up to two bodies it also lets pass,
  a location with no piece set and a start at the zero time.
\<close>

theorem append_is_journal_only:
  "isJournalOnly (appendUpdate entry) \<and>
   (isJournalOnly u \<longrightarrow> server_isJournalOnly (incidentUpdateToJSON u)) \<and>
   (server_isJournalOnly (incidentUpdateToJSON u) \<longrightarrow>
      isJournalOnly u \<or> up_location u = Some blank_location \<or> up_started u = Some zero_time)"
proof -
  have server: "server_isJournalOnly (incidentUpdateToJSON u) \<longleftrightarrow> up_journalEntries u \<noteq> [] \<and>
     (up_state u = None \<or> up_state u = Some STATE_UNSPECIFIED) \<and> up_private u = None \<and>
     up_outcomeId u = None \<and> (up_started u = None \<or> up_started u = Some zero_time) \<and>
     (up_priority u = None \<or> up_priority u = Some PRIORITY_UNSPECIFIED) \<and> up_summary u = None \<and>
     (up_location u = None \<or> up_location u = Some blank_location) \<and> up_incidentTypeIds u = None \<and>
     up_reports u = None \<and> up_linkedIncidents u = None"
    unfolding server_isJournalOnly_def incidentUpdateToJSON_def
    by (auto simp: state_sentinel priority_sentinel started_sentinel location_sentinel [symmetric])
  have "isJournalOnly (appendUpdate entry)"
    by (simp add: update_keys_journal_only appendUpdate_def empty_update_def)
  then show ?thesis unfolding server update_keys_journal_only by blast
qed

lemma append_is_journal_only_witness:
  "server_isJournalOnly (incidentUpdateToJSON (appendUpdate \<lparr>en_text = [72, 105], en_mentionIds = [4]\<rparr>))"
  using append_is_journal_only [of "\<lparr>en_text = [72, 105], en_mentionIds = [4]\<rparr>"
      "appendUpdate \<lparr>en_text = [72, 105], en_mentionIds = [4]\<rparr>"] by simp

text \<open>
  Picking a mention replaces the at sign and the word typed after it by the token and a space,
  leaves the rest of the text, closes the suggestions, and the person is among those sent.
\<close>

theorem picked_mention_is_sent:
  assumes "mentionQuery text caret = Some (start, query)" and "caret \<le> length text"
    and "insertMention text caret token = (text', caret')"
    and "m \<in> set picked" and "pi_token m = token"
  shows "text = take start text @ [64] @ query @ drop caret text \<and>
    text' = take start text @ token @ [32] @ drop caret text \<and>
    drop caret' text' = drop caret text \<and> mentionQuery text' caret' = None \<and>
    pi_personId m \<in> set (mentionedIds text' picked)"
proof -
  let ?b = "take start text" and ?a = "drop caret text"
  have text': "text' = ?b @ token @ [32] @ ?a" and caret': "caret' = length ?b + length token + 1"
    using assms(1,3) by (auto simp: insertMention_def Let_def)
  have "caret' = length (?b @ token @ [32])" and "text' = (?b @ token @ [32]) @ ?a"
    by (simp_all add: text' caret')
  then have upto: "take caret' text' = ?b @ token @ [32]" and after: "drop caret' text' = ?a"
    by (simp_all only: take_prefix_length)
  have "mentionQuery text' caret' = None"
  proof (cases "last_index 64 (?b @ token @ [32])")
    case None
    then show ?thesis by (simp add: mentionQuery_def upto Let_def)
  next
    case (Some pos)
    from last_index_Some [OF Some] have "pos < length (?b @ token @ [32])" "(?b @ token @ [32]) ! pos = 64"
      by simp_all
    moreover have "((?b @ token) @ [32]) ! length (?b @ token) = 32" by (rule nth_append_length)
    ultimately have "pos < length (?b @ token)"
      by (cases "pos = length (?b @ token)") (simp_all only: append_assoc, simp_all)
    then have "32 \<in> set (drop (pos + 1) ((?b @ token) @ [32]))" by simp
    then have "list_ex is_ws (drop (pos + 1) (?b @ token @ [32]))"
      by (auto simp: list_ex_iff is_ws_def)
    then show ?thesis by (simp add: mentionQuery_def upto Let_def Some)
  qed
  moreover have "pi_personId m \<in> set (mentionedIds text' picked)"
    using assms(4,5) has_sub_middle [of ?b token "[32] @ ?a"] mentionedIds_set [of text' picked]
    by (auto simp: text')
  ultimately show ?thesis using trigger_text [OF assms(1,2)] text' after by simp
qed

lemma picked_mention_is_sent_witness:
  "7 \<in> set (mentionedIds (fst (insertMention [72, 105, 32, 64, 65, 108] 6 [64, 65, 108, 105, 99, 101]))
      [\<lparr>pi_personId = 7, pi_token = [64, 65, 108, 105, 99, 101]\<rparr>])"
proof -
  have "mentionQuery [72, 105, 32, 64, 65, 108] 6 = Some (3, [65, 108])"
    by (simp add: mentionQuery_def Let_def is_ws_def)
  note sent = picked_mention_is_sent [OF this _ prod.collapse [symmetric],
      where m = "\<lparr>pi_personId = 7, pi_token = [64, 65, 108, 105, 99, 101]\<rparr>"
        and picked = "[\<lparr>pi_personId = 7, pi_token = [64, 65, 108, 105, 99, 101]\<rparr>]"]
  show ?thesis using sent [THEN conjunct2, THEN conjunct2, THEN conjunct2, THEN conjunct2] by simp
qed

text \<open>
  A token that has been taken out of the text is still sent when another mention begins with it:
  the search is for a substring.
\<close>

lemma removed_mention_still_sent:
  "mentionedIds (lit ''Ask @Alice now'')
     [\<lparr>pi_personId = 1, pi_token = lit ''@Al''\<rparr>, \<lparr>pi_personId = 2, pi_token = lit ''@Alice''\<rparr>] = [1, 2]"
  by (simp add: mentionedIds_def starts_with_def)

end
