(* ===== verification/Drafts.thy ===== *)
theory Drafts
  imports Storage "HOL-Library.AList" "HOL-Library.Countable"
begin

text \<open>
  Unsent text: the drafts of a device under one storage key (\<open>features/compose/drafts.ts\<close>) and the
  hook that keeps one of them (\<open>useDraft\<close> of \<open>features/compose/hooks.ts\<close>).

  The object of drafts is an association list in its insertion order. A save and a clear read the
  stored object, change it and write it back; \<open>draft_change\<close> is what is done between the read and
  the write, so that two of them can overlap.
\<close>

section \<open>The store\<close>

definition DRAFTS_KEY :: str where
  "DRAFTS_KEY = lit ''ocf-ims/drafts''"

datatype DraftTarget = TNew | TReportNew | TIncident int | TReport int

record Draft =
  dr_summary :: "str option"
  dr_text :: str
  dr_onBehalfOf :: "(int \<times> str) option"

type_synonym Drafts = "(str \<times> Draft) list"

fun target_text :: "DraftTarget \<Rightarrow> str" where
  "target_text TNew = lit ''new''"
| "target_text TReportNew = lit ''report-new''"
| "target_text (TIncident n) = show_int n"
| "target_text (TReport n) = lit ''report-'' @ show_int n"

definition draftKey :: "int \<Rightarrow> DraftTarget \<Rightarrow> str" where
  "draftKey eventId target = show_int eventId @ lit ''/'' @ target_text target"

definition isEmptyDraft :: "Draft option \<Rightarrow> bool" where
  "isEmptyDraft draft =
     (case draft of
        None \<Rightarrow> True
      | Some d \<Rightarrow> (case dr_summary d of None \<Rightarrow> True | Some s \<Rightarrow> trim s = []) \<and> trim (dr_text d) = [])"

definition K_SUMMARY :: str where "K_SUMMARY = lit ''summary''"
definition K_TEXT :: str where "K_TEXT = lit ''text''"
definition K_ONBEHALFOF :: str where "K_ONBEHALFOF = lit ''onBehalfOf''"
definition K_PERSONID :: str where "K_PERSONID = lit ''personId''"
definition K_LABEL :: str where "K_LABEL = lit ''label''"

text \<open>One entry of the parsed object; \<open>None\<close> where the loop goes on to the next.\<close>

definition parse_pick :: "json option \<Rightarrow> (int \<times> str) option" where
  "parse_pick v =
     (case v of
        Some (JObj kvs) \<Rightarrow>
          (case (obj_get kvs K_PERSONID, obj_get kvs K_LABEL) of
             (Some (JNum i), Some (JStr l)) \<Rightarrow> Some (i, l)
           | _ \<Rightarrow> None)
      | _ \<Rightarrow> None)"

definition parse_draft :: "json \<Rightarrow> Draft option" where
  "parse_draft value =
     (case value of
        JObj kvs \<Rightarrow>
          (case obj_get kvs K_TEXT of
             Some (JStr text) \<Rightarrow>
               Some \<lparr>dr_summary = (case obj_get kvs K_SUMMARY of Some (JStr s) \<Rightarrow> Some s | _ \<Rightarrow> None),
                     dr_text = text,
                     dr_onBehalfOf = parse_pick (obj_get kvs K_ONBEHALFOF)\<rparr>
           | _ \<Rightarrow> None)
      | _ \<Rightarrow> None)"

text \<open>The object's entries: a repeated key keeps its first place and its last value.\<close>

definition entries :: "(str \<times> json) list \<Rightarrow> (str \<times> json) list" where
  "entries kvs = foldl (\<lambda>m (k, v). AList.update k v m) [] kvs"

definition parseDrafts :: "codec \<Rightarrow> str \<Rightarrow> Drafts" where
  "parseDrafts c raw =
     (case json_parse c raw of
        Some (JObj kvs) \<Rightarrow>
          foldl (\<lambda>drafts (key, value).
              case parse_draft value of None \<Rightarrow> drafts | Some d \<Rightarrow> AList.update key d drafts)
            [] (entries kvs)
      | _ \<Rightarrow> [])"

definition loadDrafts :: "codec \<Rightarrow> device \<Rightarrow> Drafts" where
  "loadDrafts c storage =
     (case dev_get storage DRAFTS_KEY of None \<Rightarrow> [] | Some raw \<Rightarrow> parseDrafts c raw)"

definition loadDraft :: "codec \<Rightarrow> device \<Rightarrow> int \<Rightarrow> DraftTarget \<Rightarrow> Draft option" where
  "loadDraft c storage eventId target = map_of (loadDrafts c storage) (draftKey eventId target)"

text \<open>What \<open>JSON.stringify\<close> writes of a draft: an undefined property is left out.\<close>

definition draft_json :: "Draft \<Rightarrow> json" where
  "draft_json d = JObj
     ((K_TEXT, JStr (dr_text d)) #
      (case dr_summary d of None \<Rightarrow> [] | Some s \<Rightarrow> [(K_SUMMARY, JStr s)]) @
      (case dr_onBehalfOf d of None \<Rightarrow> []
       | Some (i, l) \<Rightarrow> [(K_ONBEHALFOF, JObj [(K_PERSONID, JNum i), (K_LABEL, JStr l)])]))"

definition write_drafts :: "codec \<Rightarrow> device \<Rightarrow> Drafts \<Rightarrow> device" where
  "write_drafts c storage drafts =
     dev_set storage DRAFTS_KEY (json_stringify c (JObj (map (\<lambda>(k, d). (k, draft_json d)) drafts)))"

text \<open>\<open>Some\<close> draft is a save, \<open>None\<close> a clear.\<close>

definition draft_change :: "int \<Rightarrow> DraftTarget \<Rightarrow> Draft option \<Rightarrow> Drafts \<Rightarrow> Drafts" where
  "draft_change eventId target draft drafts =
     (let key = draftKey eventId target
      in case draft of
           None \<Rightarrow> AList.delete key drafts
         | Some d \<Rightarrow> if isEmptyDraft (Some d) then AList.delete key drafts else AList.update key d drafts)"

definition saveDraft :: "codec \<Rightarrow> device \<Rightarrow> int \<Rightarrow> DraftTarget \<Rightarrow> Draft \<Rightarrow> device" where
  "saveDraft c storage eventId target draft =
     write_drafts c storage (draft_change eventId target (Some draft) (loadDrafts c storage))"

definition clearDraft :: "codec \<Rightarrow> device \<Rightarrow> int \<Rightarrow> DraftTarget \<Rightarrow> device" where
  "clearDraft c storage eventId target =
     write_drafts c storage (draft_change eventId target None (loadDrafts c storage))"

definition clearDrafts :: "device \<Rightarrow> device" where
  "clearDrafts storage = dev_remove storage DRAFTS_KEY"

section \<open>The hook\<close>

text \<open>
  The hook's state and refs. \<open>dh_timer\<close> says whether the debounce is armed; what fires it, the clock,
  is outside. A write is carried out at once (\<open>dh_store\<close>); the read begun at the mount, \<open>dh_read\<close>,
  comes back with \<open>draft_loaded\<close>, after anything else may have happened.
\<close>

definition DRAFT_DEBOUNCE_MS :: int where
  "DRAFT_DEBOUNCE_MS = 400"

record draft_hook =
  dh_draft :: Draft
  dh_loaded :: bool
  dh_restored :: bool
  dh_latest :: Draft
  dh_dirty :: bool
  dh_timer :: bool
  dh_store :: device
  dh_read :: "Draft option"

record DraftPatch =
  dp_summary :: "str option option"
  dp_text :: "str option"
  dp_onBehalfOf :: "(int \<times> str) option option"

definition empty_draft :: Draft where
  "empty_draft = \<lparr>dr_summary = None, dr_text = [], dr_onBehalfOf = None\<rparr>"

definition patched :: "DraftPatch \<Rightarrow> Draft \<Rightarrow> Draft" where
  "patched p d =
     \<lparr>dr_summary = nullish (dp_summary p) (dr_summary d), dr_text = nullish (dp_text p) (dr_text d),
      dr_onBehalfOf = nullish (dp_onBehalfOf p) (dr_onBehalfOf d)\<rparr>"

definition draft_mount :: "codec \<Rightarrow> int \<Rightarrow> DraftTarget \<Rightarrow> Draft \<Rightarrow> device \<Rightarrow> draft_hook" where
  "draft_mount c eventId target initial storage =
     \<lparr>dh_draft = initial, dh_loaded = False, dh_restored = False, dh_latest = initial,
      dh_dirty = False, dh_timer = False, dh_store = storage,
      dh_read = loadDraft c storage eventId target\<rparr>"

definition draft_loaded :: "draft_hook \<Rightarrow> draft_hook" where
  "draft_loaded s =
     (let s1 = (case dh_read s of
          Some d \<Rightarrow> if \<not> isEmptyDraft (Some d) \<and> isEmptyDraft (Some (dh_latest s))
                    then s\<lparr>dh_latest := d, dh_draft := d, dh_restored := True\<rparr> else s
        | None \<Rightarrow> s)
      in s1\<lparr>dh_loaded := True\<rparr>)"

definition draft_write :: "codec \<Rightarrow> int \<Rightarrow> DraftTarget \<Rightarrow> draft_hook \<Rightarrow> draft_hook" where
  "draft_write c eventId target s =
     (let s1 = s\<lparr>dh_timer := False\<rparr>
      in if \<not> dh_dirty s1 then s1
         else s1\<lparr>dh_dirty := False, dh_store := saveDraft c (dh_store s1) eventId target (dh_latest s1)\<rparr>)"

definition draft_update :: "DraftPatch \<Rightarrow> draft_hook \<Rightarrow> draft_hook" where
  "draft_update patch s =
     (let d = patched patch (dh_latest s)
      in s\<lparr>dh_latest := d, dh_dirty := True, dh_draft := d, dh_restored := False, dh_timer := True\<rparr>)"

definition draft_clear :: "codec \<Rightarrow> int \<Rightarrow> DraftTarget \<Rightarrow> draft_hook \<Rightarrow> draft_hook" where
  "draft_clear c eventId target s =
     s\<lparr>dh_timer := False, dh_dirty := False, dh_latest := empty_draft, dh_draft := empty_draft,
       dh_restored := False, dh_store := clearDraft c (dh_store s) eventId target\<rparr>"

text \<open>
  What can happen to a mounted hook: the first read's answer, typing, a write (the debounce, a blur,
  the unmount), a clear, and another composer's save on the same device.
\<close>

inductive draft_step :: "codec \<Rightarrow> int \<Rightarrow> DraftTarget \<Rightarrow> draft_hook \<Rightarrow> draft_hook \<Rightarrow> bool"
  for c eventId target
where
  loaded: "\<not> dh_loaded s \<Longrightarrow> draft_step c eventId target s (draft_loaded s)"
| update: "draft_step c eventId target s (draft_update patch s)"
| written: "draft_step c eventId target s (draft_write c eventId target s)"
| cleared: "draft_step c eventId target s (draft_clear c eventId target s)"
| other: "(e, t) \<noteq> (eventId, target) \<Longrightarrow>
    draft_step c eventId target s (s\<lparr>dh_store := saveDraft c (dh_store s) e t d\<rparr>)"

inductive_cases draft_stepE: "draft_step c eventId target s s'"

section \<open>Lemmas\<close>

lemma draft_keys [simp]:
  "K_SUMMARY \<noteq> K_TEXT" "K_TEXT \<noteq> K_SUMMARY" "K_ONBEHALFOF \<noteq> K_TEXT" "K_TEXT \<noteq> K_ONBEHALFOF"
  "K_ONBEHALFOF \<noteq> K_SUMMARY" "K_SUMMARY \<noteq> K_ONBEHALFOF" "K_LABEL \<noteq> K_PERSONID" "K_PERSONID \<noteq> K_LABEL"
  by (simp_all add: K_SUMMARY_def K_TEXT_def K_ONBEHALFOF_def K_LABEL_def K_PERSONID_def)

lemma parse_draft_json [simp]: "parse_draft (draft_json d) = Some d"
  by (cases d; cases "dr_summary d"; cases "dr_onBehalfOf d")
    (auto simp: parse_draft_def draft_json_def obj_get_def parse_pick_def)

lemma update_new: "k \<notin> fst ` set m \<Longrightarrow> AList.update k v m = m @ [(k, v)]"
  by (induction m) auto

lemma foldl_update_append:
  assumes "distinct (map fst (m @ xs))"
  shows "foldl (\<lambda>m (k, v). AList.update k v m) m xs = m @ xs"
  using assms
proof (induction xs arbitrary: m)
  case (Cons x xs)
  obtain k v where x: "x = (k, v)" by force
  with Cons.prems have "AList.update k v m = m @ [x]" by (auto intro: update_new)
  with Cons x show ?case by simp
qed simp

definition drafts_json :: "Drafts \<Rightarrow> json" where
  "drafts_json drafts = JObj (map (\<lambda>(k, d). (k, draft_json d)) drafts)"

text \<open>What \<open>JSON\<close> is relied on for: an object of drafts is read as it was written.\<close>

definition keeps_drafts :: "codec \<Rightarrow> bool" where
  "keeps_drafts c \<longleftrightarrow>
     (\<forall>ds. distinct (map fst ds) \<longrightarrow> json_parse c (json_stringify c (drafts_json ds)) = Some (drafts_json ds))"

lemma foldl_parse_entries:
  assumes "distinct (map fst (m @ ds))"
  shows "foldl (\<lambda>drafts (key, value).
      case parse_draft value of None \<Rightarrow> drafts | Some d \<Rightarrow> AList.update key d drafts)
    m (map (\<lambda>(k, d). (k, draft_json d)) ds) = m @ ds"
  using assms
proof (induction ds arbitrary: m)
  case (Cons x ds)
  obtain k d where x: "x = (k, d)" by force
  with Cons.prems have "AList.update k d m = m @ [x]" by (auto intro: update_new)
  with Cons x show ?case by simp
qed simp

lemma load_write_drafts:
  assumes "keeps_drafts c" and "distinct (map fst ds)"
  shows "loadDrafts c (write_drafts c d ds) = ds"
proof -
  have keys: "fst \<circ> (\<lambda>(k, d). (k, draft_json d)) = fst" by auto
  have "entries (map (\<lambda>(k, d). (k, draft_json d)) ds) = map (\<lambda>(k, d). (k, draft_json d)) ds"
    using foldl_update_append [of "[]" "map (\<lambda>(k, d). (k, draft_json d)) ds"] assms(2)
    by (simp add: entries_def keys)
  moreover have "json_parse c (json_stringify c (drafts_json ds)) = Some (drafts_json ds)"
    using assms by (simp add: keeps_drafts_def)
  ultimately show ?thesis
    using foldl_parse_entries [of "[]" ds] assms(2)
    by (simp add: loadDrafts_def write_drafts_def parseDrafts_def drafts_json_def)
qed

lemma loadDrafts_distinct: "distinct (map fst (loadDrafts c d))"
proof -
  have "distinct (map fst m) \<Longrightarrow> distinct (map fst (foldl (\<lambda>drafts (key, value).
      case parse_draft value of None \<Rightarrow> drafts | Some d \<Rightarrow> AList.update key d drafts) m kvs))"
    for m :: Drafts and kvs
    by (induction kvs arbitrary: m) (auto simp: distinct_update split: option.split)
  then show ?thesis
    by (auto simp: loadDrafts_def parseDrafts_def split: option.split json.split)
qed

lemma change_distinct: "distinct (map fst ds) \<Longrightarrow> distinct (map fst (draft_change e t d ds))"
  by (simp add: draft_change_def Let_def distinct_update distinct_delete split: option.split)

text \<open>The keys of different targets differ.\<close>

lemma show_int_no_slash: "47 \<notin> set (show_int i)"
  using show_int_no [of 47 i] by (auto simp: is_digit_def)

lemma show_int_head: "show_int n = c # s \<Longrightarrow> c = 45 \<or> is_digit c"
  using show_int_no [of c n] by simp

lemma target_text_inject: "target_text t = target_text t' \<longleftrightarrow> t = t'"
  by (cases t; cases t') (auto simp: is_digit_def dest: show_int_head dest: show_int_head [OF sym])

lemma split_at_slash: "(47::nat) \<notin> set a \<Longrightarrow> 47 \<notin> set b \<Longrightarrow> a @ 47 # s = b @ 47 # t \<longleftrightarrow> a = b \<and> s = t"
  using split_on_append [of 47 a s] split_on_append [of 47 b t]
  by (auto simp: append_eq_append_conv2 Cons_eq_append_conv)

lemma draftKey_inject [simp]: "draftKey e t = draftKey e' t' \<longleftrightarrow> e = e' \<and> t = t'"
  by (simp add: draftKey_def split_at_slash show_int_no_slash target_text_inject)

text \<open>What is kept of a draft: an empty one is not stored.\<close>

definition kept :: "Draft \<Rightarrow> Draft option" where
  "kept d = (if isEmptyDraft (Some d) then None else Some d)"

lemma change_map:
  "map_of (draft_change e t d ds) = (map_of ds)(draftKey e t := Option.bind d kept)"
  by (simp add: draft_change_def Let_def kept_def update_conv' delete_conv' split: option.split)

lemma load_change:
  assumes "keeps_drafts c" and "distinct (map fst ds)"
  shows "loadDraft c (write_drafts c dev (draft_change e t d ds)) e' t' =
    (if (e', t') = (e, t) then Option.bind d kept else map_of ds (draftKey e' t'))"
  using load_write_drafts [OF assms(1) change_distinct [OF assms(2)]] assms(2)
  by (simp add: loadDraft_def change_map)

lemma load_save:
  "keeps_drafts c \<Longrightarrow> loadDraft c (saveDraft c dev e t d) e' t' =
     (if (e', t') = (e, t) then kept d else loadDraft c dev e' t')"
  by (simp add: saveDraft_def load_change loadDrafts_distinct) (simp add: loadDraft_def)

lemma load_clear:
  "keeps_drafts c \<Longrightarrow> loadDraft c (clearDraft c dev e t) e' t' =
     (if (e', t') = (e, t) then None else loadDraft c dev e' t')"
  by (simp add: clearDraft_def load_change loadDrafts_distinct) (simp add: loadDraft_def)

lemma write_frame: "k \<noteq> DRAFTS_KEY \<Longrightarrow> dev_get (write_drafts c dev ds) k = dev_get dev k"
  by (simp add: write_drafts_def device.get_set)


lemma kept_empty [simp]: "kept empty_draft = None"
  by (simp add: kept_def isEmptyDraft_def empty_draft_def trim_def)

text \<open>The abstract store.\<close>

definition stored_drafts :: "codec \<Rightarrow> device \<Rightarrow> int \<times> DraftTarget \<Rightarrow> Draft option" where
  "stored_drafts c dev = (\<lambda>(e, t). loadDraft c dev e t)"

instance json :: countable
  by countable_datatype

text \<open>What a composer owes the one who types.\<close>

definition typed_safe :: "codec \<Rightarrow> int \<Rightarrow> DraftTarget \<Rightarrow> Draft \<Rightarrow> draft_hook \<Rightarrow> bool" where
  "typed_safe c e t initial s \<longleftrightarrow>
     dh_draft s = dh_latest s \<and> (dh_dirty s \<longleftrightarrow> dh_timer s) \<and>
     (\<not> dh_dirty s \<longrightarrow> stored_drafts c (dh_store s) (e, t) = kept (dh_latest s) \<or>
        dh_latest s = initial \<or> dh_read s = Some (dh_latest s))"

lemma typed_safe_mount: "typed_safe c e t initial (draft_mount c e t initial dev)"
  by (simp add: typed_safe_def draft_mount_def)

lemma typed_safe_step:
  assumes "keeps_drafts c" and "draft_step c e t s s'" and "typed_safe c e t initial s"
  shows "typed_safe c e t initial s'"
  using assms(2,3)
  by (cases rule: draft_step.cases)
    (auto simp: typed_safe_def draft_loaded_def draft_update_def draft_write_def draft_clear_def Let_def
      stored_drafts_def load_save [OF assms(1)] load_clear [OF assms(1)] split: option.split)

section \<open>Properties\<close>

text \<open>
  C18: the drafts on a device are a map from events and targets to drafts: saving a draft sets its
  entry, or removes it when the draft is blank, clearing removes it, signing out removes them all,
  nothing else the device keeps is touched, and two targets never share an entry.
\<close>

theorem drafts_are_a_map:
  assumes "keeps_drafts c"
  shows "stored_drafts c (saveDraft c dev event target d) =
      (stored_drafts c dev)((event, target) := kept d) \<and>
    stored_drafts c (clearDraft c dev event target) = (stored_drafts c dev)((event, target) := None) \<and>
    stored_drafts c (clearDrafts dev) = Map.empty \<and>
    (\<forall>k. k \<noteq> DRAFTS_KEY \<longrightarrow> dev_get (saveDraft c dev event target d) k = dev_get dev k \<and>
      dev_get (clearDraft c dev event target) k = dev_get dev k \<and>
      dev_get (clearDrafts dev) k = dev_get dev k)"
proof (intro conjI)
  show "stored_drafts c (saveDraft c dev event target d) =
      (stored_drafts c dev)((event, target) := kept d)"
    and "stored_drafts c (clearDraft c dev event target) = (stored_drafts c dev)((event, target) := None)"
    by (auto simp: stored_drafts_def load_save [OF assms] load_clear [OF assms] fun_eq_iff)
  show "stored_drafts c (clearDrafts dev) = Map.empty"
    by (auto simp: stored_drafts_def clearDrafts_def loadDraft_def loadDrafts_def device.get_remove)
  show "\<forall>k. k \<noteq> DRAFTS_KEY \<longrightarrow> dev_get (saveDraft c dev event target d) k = dev_get dev k \<and>
      dev_get (clearDraft c dev event target) k = dev_get dev k \<and>
      dev_get (clearDrafts dev) k = dev_get dev k"
    by (simp add: saveDraft_def clearDraft_def clearDrafts_def write_frame device.get_remove)
qed

text \<open>A codec for evaluation: a text of one unit, the number of the value.\<close>

definition numbered_codec :: codec where
  "numbered_codec = \<lparr>json_parse = (\<lambda>s. case s of [n] \<Rightarrow> Some (from_nat n) | _ \<Rightarrow> None),
     json_stringify = (\<lambda>v. [to_nat v])\<rparr>"

lemma numbered_codec_keeps: "keeps_drafts numbered_codec"
  by (simp add: keeps_drafts_def numbered_codec_def)

lemma drafts_are_a_map_witness:
  "stored_drafts numbered_codec (saveDraft numbered_codec Map.empty 4 TNew
     \<lparr>dr_summary = None, dr_text = [72, 105], dr_onBehalfOf = None\<rparr>) (4, TNew) =
   Some \<lparr>dr_summary = None, dr_text = [72, 105], dr_onBehalfOf = None\<rparr>"
  using drafts_are_a_map [OF numbered_codec_keeps, THEN conjunct1, of Map.empty 4 TNew]
  by (simp add: kept_def isEmptyDraft_def trim_def is_ws_def)



text \<open>
  Two saves for different targets that overlap, each reading the object before the other has
  written it, lose the first.
\<close>

lemma overlapping_drafts_lose_one:
  assumes "keeps_drafts c" and "(e, t) \<noteq> (e', t')"
  shows "let stale = loadDrafts c dev; one = write_drafts c dev (draft_change e t (Some d) stale);
      two = write_drafts c one (draft_change e' t' (Some d') stale)
    in loadDraft c one e t = kept d \<and> loadDraft c two e t = loadDraft c dev e t"
  using assms(2)
  by (auto simp: Let_def load_change [OF assms(1) loadDrafts_distinct] loadDraft_def [of c dev])

end
