(* ===== verification/Events.thy ===== *)
theory Events
  imports Errors Storage
begin

text \<open>
  Events and alerts: which event is the current fair (\<open>features/events/newest.ts\<close>), what an alert says
  and where it and a push lead (\<open>features/alerts/links.ts\<close>), and the registration of a device for
  pushes (\<open>push/registration.ts\<close>).
\<close>

section \<open>The current fair\<close>

text \<open>
  A numeric name; \<open>Number.parseInt\<close> of more than 308 digits is not finite, the numbers here are
  exact.
\<close>

definition numericName :: "Event \<Rightarrow> int option" where
  "numericName event =
     (case ev_name event of
        None \<Rightarrow> None
      | Some raw \<Rightarrow>
          (let name = trim raw
           in if name = [] \<or> \<not> all_digits name then None
              else (let n = int (digits_val name) in if num_finite n then Some n else None)))"

fun newest_numeric :: "Event list \<Rightarrow> (Event \<times> int) option \<Rightarrow> (Event \<times> int) option" where
  "newest_numeric [] best = best"
| "newest_numeric (event # events) best =
     newest_numeric events
       (case numericName event of
          None \<Rightarrow> best
        | Some n \<Rightarrow>
            (case best of
               None \<Rightarrow> Some (event, n)
             | Some (_, bestNumeric) \<Rightarrow> if n > bestNumeric then Some (event, n) else best))"

definition newestEvent :: "Event list \<Rightarrow> Event option" where
  "newestEvent events =
     (case newest_numeric events None of
        Some (best, _) \<Rightarrow> Some best
      | None \<Rightarrow>
          foldl (\<lambda>a b. case a of None \<Rightarrow> Some b | Some e \<Rightarrow> if ev_id b > ev_id e then Some b else a)
            None events)"

definition event_cmp :: "Event \<Rightarrow> Event \<Rightarrow> int" where
  "event_cmp a b =
     (case (numericName a, numericName b) of
        (Some an, Some bn) \<Rightarrow> bn - an
      | (Some _, None) \<Rightarrow> -1
      | (None, Some _) \<Rightarrow> 1
      | (None, None) \<Rightarrow> ev_id b - ev_id a)"

definition sortEventsNewestFirst :: "Event list \<Rightarrow> Event list" where
  "sortEventsNewestFirst events = js_sort event_cmp events"

definition defaultEvent :: "Event list \<Rightarrow> int option \<Rightarrow> Event option" where
  "defaultEvent events rememberedId =
     (case Option.bind rememberedId (\<lambda>i. List.find (\<lambda>e. ev_id e = i) events) of
        Some remembered \<Rightarrow> Some remembered
      | None \<Rightarrow> newestEvent events)"

section \<open>Alerts\<close>

definition alertText :: "Notification \<Rightarrow> str" where
  "alertText n =
     (let who = or_str (nt_actor n) (lit ''Someone'')
      in case nt_type n of
           NT_MENTIONED \<Rightarrow>
             (if nt_reportNumber n \<noteq> None then who @ lit '' mentioned you in a report''
              else who @ lit '' mentioned you'')
         | NT_ADDED_TO_INCIDENT \<Rightarrow> who @ lit '' added you to an incident''
         | NT_REPORT_REQUESTED \<Rightarrow> who @ lit '' asked for your report on an incident''
         | NT_UNSPECIFIED \<Rightarrow> who @ lit '' notified you'')"

definition with_summary :: "str option \<Rightarrow> str" where
  "with_summary s = (case nonempty s of None \<Rightarrow> [] | Some t \<Rightarrow> lit '' '' @ t)"

definition alertSubject :: "Notification \<Rightarrow> str option" where
  "alertSubject n =
     (case nt_reportNumber n of
        Some r \<Rightarrow> Some (lit ''R-'' @ show_int r @ with_summary (nt_reportSummary n))
      | None \<Rightarrow>
          (case nt_incidentNumber n of
             Some i \<Rightarrow> Some (lit ''#'' @ show_int i @ with_summary (nt_incidentSummary n))
           | None \<Rightarrow> None))"

definition event_path :: "Event \<Rightarrow> str" where
  "event_path e = lit ''/events/'' @ show_int (ev_id e)"

definition event_named :: "str \<Rightarrow> Event list \<Rightarrow> Event option" where
  "event_named name events = List.find (\<lambda>e. ev_name e = Some name) events"

definition alertHref :: "Notification \<Rightarrow> Event list \<Rightarrow> str option" where
  "alertHref n events =
     (case event_named (nt_event n) events of
        None \<Rightarrow> None
      | Some event \<Rightarrow>
          (case (nt_type n = NT_REPORT_REQUESTED, nt_incidentNumber n, nt_reportNumber n) of
             (True, Some i, _) \<Rightarrow> Some (event_path event @ lit ''/reports/new?incident='' @ show_int i)
           | (_, _, Some r) \<Rightarrow> Some (event_path event @ lit ''/reports/'' @ show_int r)
           | (_, Some i, None) \<Rightarrow> Some (event_path event @ lit ''/incidents/'' @ show_int i)
           | (_, None, None) \<Rightarrow> None))"

text \<open>
  The regular expression \<open>PUSH_URL\<close>: the parts of a match are the raw name, the kind, the number's
  text and the incident's. A name holds none of the slash, the question mark and the hash.
\<close>

definition PUSH_PREFIX :: str where
  "PUSH_PREFIX = lit ''/ims/app/events/''"

definition number_part :: "str \<Rightarrow> (str \<times> str option) option" where
  "number_part s =
     (let number = takeWhile (\<lambda>c. c \<noteq> 63) s; rest = dropWhile (\<lambda>c. c \<noteq> 63) s; q = lit ''?incident=''
      in if \<not> (all_digits number \<or> number = lit ''new'') then None
         else if rest = [] then Some (number, None)
         else if starts_with rest q \<and> all_digits (drop (length q) rest)
              then Some (number, Some (drop (length q) rest))
         else None)"

definition push_match :: "str \<Rightarrow> (str \<times> str \<times> str \<times> str option) option" where
  "push_match url =
     (if \<not> starts_with url PUSH_PREFIX then None
      else
        (let s = drop (length PUSH_PREFIX) url;
             name = takeWhile (\<lambda>c. c \<noteq> 47 \<and> c \<noteq> 63 \<and> c \<noteq> 35) s;
             rest = dropWhile (\<lambda>c. c \<noteq> 47 \<and> c \<noteq> 63 \<and> c \<noteq> 35) s
         in if name = [] then None
            else if starts_with rest (lit ''/incidents/'')
              then map_option (\<lambda>(n, i). (name, lit ''incidents'', n, i)) (number_part (drop 11 rest))
            else if starts_with rest (lit ''/reports/'')
              then map_option (\<lambda>(n, i). (name, lit ''reports'', n, i)) (number_part (drop 9 rest))
            else None))"

definition pushLinkHref :: "str \<Rightarrow> Event list \<Rightarrow> str option" where
  "pushLinkHref url events =
     (case push_match url of
        None \<Rightarrow> None
      | Some (rawName, kind, number, incident) \<Rightarrow>
          (case Option.bind (decodeURIComponent rawName) (\<lambda>name. event_named name events) of
             None \<Rightarrow> None
           | Some event \<Rightarrow>
               if number = lit ''new''
               then (if kind = lit ''reports''
                     then map_option (\<lambda>i. event_path event @ lit ''/reports/new?incident='' @ i) incident
                     else None)
               else Some (event_path event @ lit ''/'' @ kind @ lit ''/'' @ number)))"

section \<open>Push registration\<close>

text \<open>
  The platform's push service and the two calls of the client are given by what they answer; the
  calls made are recorded. A refusal of the registration leaves the operation (\<open>Inl\<close>), and nothing
  is remembered then.
\<close>

definition PUSH_TOKEN_KEY :: str where
  "PUSH_TOKEN_KEY = lit ''ocf-ims/push-token''"

datatype PushPermission = PermGranted | PermDenied | PermUndetermined

record PushService =
  ps_available :: bool
  ps_permission :: PushPermission
  ps_request :: PushPermission
  ps_token :: "thrown + str"

datatype push_call = RegisterPushDevice str | UnregisterPushDevice str

record push_state =
  pu_device :: device
  pu_calls :: "push_call list"

definition registerIfGranted ::
  "PushService \<Rightarrow> thrown option \<Rightarrow> bool \<Rightarrow> push_state \<Rightarrow> push_state \<times> (thrown + bool)" where
  "registerIfGranted push refused writable s =
     (if \<not> ps_available push then (s, Inr False)
      else if ps_permission push \<noteq> PermGranted then (s, Inr False)
      else
        (case ps_token push of
           Inl e \<Rightarrow> (s, Inl e)
         | Inr token \<Rightarrow>
             (let s1 = s\<lparr>pu_calls := pu_calls s @ [RegisterPushDevice token]\<rparr>
              in case refused of
                   Some e \<Rightarrow> (s1, Inl e)
                 | None \<Rightarrow>
                     (if writable then s1\<lparr>pu_device := dev_set (pu_device s1) PUSH_TOKEN_KEY token\<rparr>
                      else s1, Inr True))))"

definition enablePush ::
  "PushService \<Rightarrow> thrown option \<Rightarrow> bool \<Rightarrow> push_state \<Rightarrow> push_state \<times> (thrown + PushPermission)" where
  "enablePush push refused writable s =
     (if ps_request push = PermGranted
      then (case registerIfGranted push refused writable s of
              (s1, Inl e) \<Rightarrow> (s1, Inl e)
            | (s1, Inr _) \<Rightarrow> (s1, Inr PermGranted))
      else (s, Inr (ps_request push)))"

text \<open>The server's refusal is ignored.\<close>

definition unregisterStored :: "bool \<Rightarrow> bool \<Rightarrow> push_state \<Rightarrow> push_state" where
  "unregisterStored readable removable s =
     (case nonempty (if readable then dev_get (pu_device s) PUSH_TOKEN_KEY else None) of
        None \<Rightarrow> s
      | Some token \<Rightarrow>
          s\<lparr>pu_calls := pu_calls s @ [UnregisterPushDevice token],
            pu_device := (if removable then dev_remove (pu_device s) PUSH_TOKEN_KEY else pu_device s)\<rparr>)"

section \<open>The server's push links\<close>

text \<open>
  \<open>url.PathEscape\<close> and the three builders of \<open>go/internal/server/pushfanout.go\<close>. A name is the text
  whose code points the server holds.
\<close>

definition go_plain :: "nat \<Rightarrow> bool" where
  "go_plain c \<longleftrightarrow> (65 \<le> c \<and> c \<le> 90) \<or> (97 \<le> c \<and> c \<le> 122) \<or> is_digit c
     \<or> c \<in> {45, 95, 46, 126, 36, 38, 43, 61, 58, 64}"

definition escape_point :: "nat \<Rightarrow> str" where
  "escape_point p = (if go_plain p then [p] else concat (map percent (utf8 p)))"

definition pathEscape :: "str \<Rightarrow> str option" where
  "pathEscape s = map_option (\<lambda>ps. concat (map escape_point ps)) (code_points s)"

definition incidentAppURL :: "str \<Rightarrow> int \<Rightarrow> str" where
  "incidentAppURL escaped n = PUSH_PREFIX @ escaped @ lit ''/incidents/'' @ show_int n"

definition reportAppURL :: "str \<Rightarrow> int \<Rightarrow> str" where
  "reportAppURL escaped n = PUSH_PREFIX @ escaped @ lit ''/reports/'' @ show_int n"

definition newReportAppURL :: "str \<Rightarrow> int \<Rightarrow> str" where
  "newReportAppURL escaped n = PUSH_PREFIX @ escaped @ lit ''/reports/new?incident='' @ show_int n"

text \<open>
  The link each \<open>Notify\<close> method sends, by the row written with it: a row names at most one record, and
  a row no method goes with has no link.
\<close>

definition push_url :: "Notification \<Rightarrow> str \<Rightarrow> str option" where
  "push_url n escaped =
     (case (nt_type n, nt_incidentNumber n, nt_reportNumber n) of
        (NT_MENTIONED, Some i, None) \<Rightarrow> Some (incidentAppURL escaped i)
      | (NT_MENTIONED, None, Some r) \<Rightarrow> Some (reportAppURL escaped r)
      | (NT_ADDED_TO_INCIDENT, Some i, None) \<Rightarrow> Some (incidentAppURL escaped i)
      | (NT_REPORT_REQUESTED, Some i, None) \<Rightarrow> Some (newReportAppURL escaped i)
      | _ \<Rightarrow> None)"

lemma decode_escape_point:
  assumes "scalar p"
  shows "decodeURIComponent (escape_point p @ s) = map_option ((@) (units_of p)) (decodeURIComponent s)"
proof (cases "go_plain p")
  case True
  then have "p \<noteq> 37" "p < 65536" by (auto simp: go_plain_def is_digit_def)
  with True show ?thesis by (simp add: escape_point_def units_of_def cong: option.map_cong)
next
  case False
  have "utf8 p \<noteq> []" by (simp add: utf8_def)
  then obtain t where ct: "concat (map percent (utf8 p)) @ s = 37 # t"
    by (cases "utf8 p") (auto simp: percent_def)
  with escape_utf8 [OF assms, of s] have "escape (37 # t) = Some (p, s)" by simp
  with False ct show ?thesis by (simp add: escape_point_def)
qed

lemma escape_point_chars: "scalar p \<Longrightarrow> c \<in> set (escape_point p) \<Longrightarrow> go_plain c \<or> c = 37"
proof -
  have hex: "n < 16 \<Longrightarrow> go_plain (hex_digit n)" for n
    by (auto simp: hex_digit_def go_plain_def is_digit_def)
  show "scalar p \<Longrightarrow> c \<in> set (escape_point p) \<Longrightarrow> go_plain c \<or> c = 37"
    using hex utf8_octet by (fastforce simp: escape_point_def percent_def split: if_splits)
qed

lemma escape_point_nonempty: "escape_point p \<noteq> []"
  by (simp add: escape_point_def utf8_def percent_def)

lemma path_escaped:
  assumes "units name" and "pathEscape name = Some e"
  shows "decodeURIComponent e = Some name" and "\<forall>c \<in> set e. c \<noteq> 47 \<and> c \<noteq> 63 \<and> c \<noteq> 35"
    and "name \<noteq> [] \<Longrightarrow> e \<noteq> []"
proof -
  obtain ps where ps: "code_points name = Some ps" and e: "e = concat (map escape_point ps)"
    using assms(2) by (auto simp: pathEscape_def)
  have sc: "\<forall>p \<in> set ps. scalar p" and name: "concat (map units_of ps) = name"
    using code_points_scalar [OF ps assms(1)] by auto
  have "decodeURIComponent (concat (map escape_point ps)) = Some (concat (map units_of ps))"
    using sc by (induction ps) (simp_all add: decode_escape_point)
  then show "decodeURIComponent e = Some name" by (simp add: e name)
  show "\<forall>c \<in> set e. c \<noteq> 47 \<and> c \<noteq> 63 \<and> c \<noteq> 35"
    using sc escape_point_chars by (fastforce simp: e go_plain_def is_digit_def)
  show "name \<noteq> [] \<Longrightarrow> e \<noteq> []" using name escape_point_nonempty by (cases ps) (auto simp: e)
qed

section \<open>Lemmas\<close>

lemma number_part_number: "0 \<le> n \<Longrightarrow> number_part (show_int n) = Some (show_int n, None)"
proof -
  assume n: "0 \<le> n"
  then have "\<forall>c \<in> set (show_int n). c \<noteq> 63"
    using show_int_pos_digits [of n] by (fastforce simp: is_digit_def)
  then have t: "takeWhile (\<lambda>c. c \<noteq> 63) (show_int n) = show_int n"
    and d: "dropWhile (\<lambda>c. c \<noteq> 63) (show_int n) = []" by (simp_all add: takeWhile_eq_all_conv)
  show ?thesis unfolding number_part_def Let_def t d by (simp add: all_digits_show_int n)
qed

lemma number_part_new:
  "0 \<le> n \<Longrightarrow> number_part (lit ''new?incident='' @ show_int n) = Some (lit ''new'', Some (show_int n))"
  by (simp add: number_part_def Let_def all_digits_show_int starts_with_def)

lemma show_int_not_new: "0 \<le> n \<Longrightarrow> show_int n \<noteq> lit ''new''"
  using show_int_pos_digits [of n 110] by (auto simp: is_digit_def)

lemma match_url:
  assumes "e \<noteq> []" and "\<forall>c \<in> set e. c \<noteq> 47 \<and> c \<noteq> 63 \<and> c \<noteq> 35"
  shows "push_match (PUSH_PREFIX @ e @ lit ''/incidents/'' @ s) =
      map_option (\<lambda>(n, i). (e, lit ''incidents'', n, i)) (number_part s)"
    and "push_match (PUSH_PREFIX @ e @ lit ''/reports/'' @ s) =
      map_option (\<lambda>(n, i). (e, lit ''reports'', n, i)) (number_part s)"
proof -
  let ?P = "\<lambda>c. c \<noteq> 47 \<and> c \<noteq> 63 \<and> (c::nat) \<noteq> 35"
  have t: "takeWhile ?P (e @ 47 # r) = e" "dropWhile ?P (e @ 47 # r) = 47 # r" for r
    using assms(2) by (induction e) auto
  show "push_match (PUSH_PREFIX @ e @ lit ''/incidents/'' @ s) =
      map_option (\<lambda>(n, i). (e, lit ''incidents'', n, i)) (number_part s)"
    and "push_match (PUSH_PREFIX @ e @ lit ''/reports/'' @ s) =
      map_option (\<lambda>(n, i). (e, lit ''reports'', n, i)) (number_part s)"
    using assms(1) by (simp_all add: push_match_def Let_def t starts_with_def)
qed

lemma links_lead:
  assumes "decodeURIComponent e = Some name" and "e \<noteq> []" and "\<forall>c \<in> set e. c \<noteq> 47 \<and> c \<noteq> 63 \<and> c \<noteq> 35"
    and "0 \<le> k"
  shows "pushLinkHref (incidentAppURL e k) events =
      map_option (\<lambda>ev. event_path ev @ lit ''/incidents/'' @ show_int k) (event_named name events)"
    and "pushLinkHref (reportAppURL e k) events =
      map_option (\<lambda>ev. event_path ev @ lit ''/reports/'' @ show_int k) (event_named name events)"
    and "pushLinkHref (newReportAppURL e k) events =
      map_option (\<lambda>ev. event_path ev @ lit ''/reports/new?incident='' @ show_int k) (event_named name events)"
proof -
  note m = match_url [OF assms(2,3)]
  have split: "lit ''/reports/new?incident='' @ s = lit ''/reports/'' @ lit ''new?incident='' @ s" for s
    by simp
  note parts = number_part_number [OF assms(4)] number_part_new [OF assms(4)] show_int_not_new [OF assms(4)]
  show "pushLinkHref (incidentAppURL e k) events =
      map_option (\<lambda>ev. event_path ev @ lit ''/incidents/'' @ show_int k) (event_named name events)"
    unfolding pushLinkHref_def incidentAppURL_def m parts using parts(3)
    by (cases "event_named name events") (simp_all add: assms(1) del: lit_simps, simp)
  show "pushLinkHref (reportAppURL e k) events =
      map_option (\<lambda>ev. event_path ev @ lit ''/reports/'' @ show_int k) (event_named name events)"
    unfolding pushLinkHref_def reportAppURL_def m parts using parts(3)
    by (cases "event_named name events") (simp_all add: assms(1) del: lit_simps, simp)
  show "pushLinkHref (newReportAppURL e k) events =
      map_option (\<lambda>ev. event_path ev @ lit ''/reports/new?incident='' @ show_int k) (event_named name events)"
    unfolding pushLinkHref_def newReportAppURL_def split m parts
    by (cases "event_named name events") (simp_all add: assms(1))
qed

lemma push_links:
  assumes "units name" and "name \<noteq> []" and "pathEscape name = Some e" and "0 \<le> k"
  shows "pushLinkHref (incidentAppURL e k) events =
      map_option (\<lambda>ev. event_path ev @ lit ''/incidents/'' @ show_int k) (event_named name events)"
    and "pushLinkHref (reportAppURL e k) events =
      map_option (\<lambda>ev. event_path ev @ lit ''/reports/'' @ show_int k) (event_named name events)"
    and "pushLinkHref (newReportAppURL e k) events =
      map_option (\<lambda>ev. event_path ev @ lit ''/reports/new?incident='' @ show_int k) (event_named name events)"
  by (rule links_lead [OF path_escaped(1) [OF assms(1,3)] path_escaped(3) [OF assms(1,3,2)]
      path_escaped(2) [OF assms(1,3)] assms(4)])+

text \<open>The first of the smallest, by a left fold: the head of the sorted list.\<close>

definition pick :: "('a \<Rightarrow> 'a \<Rightarrow> int) \<Rightarrow> 'a \<Rightarrow> 'a \<Rightarrow> 'a" where
  "pick cmp a b = (if cmp a b \<le> 0 then a else b)"

context comparison
begin

lemma pick_assoc: "pick cmp (pick cmp a b) d = pick cmp a (pick cmp b d)"
  using trans [of a b d] trans [of b a d] trans [of d b a] trans [of b d a] total [of a b] total [of b d]
    trans [of a d b] antisym [of a b] antisym [of b d] antisym [of a d]
  unfolding pick_def by (smt (verit))

lemma foldl_pick: "foldl (pick cmp) x (y # ys) = pick cmp x (foldl (pick cmp) y ys)"
  by (induction ys arbitrary: y) (simp_all add: pick_assoc)

lemma sort_Cons: "js_sort cmp (x # xs) = sort_insert cmp x (js_sort cmp xs)"
  by (simp add: js_sort_def)

lemma hd_sort: "\<exists>rest. js_sort cmp (x # xs) = foldl (pick cmp) x xs # rest"
proof (induction xs arbitrary: x)
  case Nil
  then show ?case by (simp add: js_sort_def)
next
  case (Cons y ys)
  then obtain rest where rest: "js_sort cmp (y # ys) = foldl (pick cmp) y ys # rest" by blast
  have "\<exists>r. sort_insert cmp x (f # rest) = pick cmp x f # r" for f
    by (simp add: pick_def)
  then show ?case unfolding sort_Cons [of x "y # ys"] rest foldl_pick by blast
qed

end

lemma comparison_event: "comparison event_cmp"
proof
  fix a b d
  show "0 < event_cmp a b \<longleftrightarrow> event_cmp b a < 0"
    by (simp add: event_cmp_def split: option.split)
  show "event_cmp a b \<le> 0 \<Longrightarrow> event_cmp b d \<le> 0 \<Longrightarrow> event_cmp a d \<le> 0"
    by (auto simp: event_cmp_def split: option.splits)
qed

interpretation event_order: comparison event_cmp
  by (rule comparison_event)

lemma newest_numeric_from:
  assumes "numericName e = Some n"
  shows "\<exists>m. newest_numeric es (Some (e, n)) = Some (foldl (pick event_cmp) e es, m)"
  using assms
proof (induction es arbitrary: e n)
  case (Cons x xs)
  show ?case
  proof (cases "numericName x")
    case None
    then have "pick event_cmp e x = e" using Cons.prems by (simp add: pick_def event_cmp_def)
    with None Cons.IH [OF Cons.prems] show ?thesis by simp
  next
    case (Some k)
    then have "pick event_cmp e x = (if k > n then x else e)"
      using Cons.prems by (simp add: pick_def event_cmp_def)
    with Some Cons show ?thesis by (cases "k > n") simp_all
  qed
qed simp

lemma newest_numeric_none:
  assumes "numericName e = None"
  shows "(case newest_numeric es None of
      Some (best, _) \<Rightarrow> best
    | None \<Rightarrow> foldl (\<lambda>a b. if ev_id b > ev_id a then b else a) e es) = foldl (pick event_cmp) e es"
  using assms
proof (induction es arbitrary: e)
  case (Cons x xs)
  show ?case
  proof (cases "numericName x")
    case None
    then have "pick event_cmp e x = (if ev_id x > ev_id e then x else e)"
      using Cons.prems by (simp add: pick_def event_cmp_def)
    with None Cons.prems Cons.IH [of "if ev_id x > ev_id e then x else e"] show ?thesis
      by (cases "ev_id x > ev_id e"; cases "newest_numeric xs None") simp_all
  next
    case (Some k)
    then have "pick event_cmp e x = x" using Cons.prems by (simp add: pick_def event_cmp_def)
    with Some newest_numeric_from [OF Some, of xs] show ?thesis by auto
  qed
qed simp

lemma foldl_some:
  "foldl (\<lambda>a b. case a of None \<Rightarrow> Some b | Some e \<Rightarrow> if ev_id b > ev_id e then Some b else a) (Some e) es =
   Some (foldl (\<lambda>a b. if ev_id b > ev_id a then b else a) e es)"
  by (induction es arbitrary: e) auto

lemma newest_fold: "newestEvent (e # es) = Some (foldl (pick event_cmp) e es)"
proof (cases "numericName e")
  case None
  then show ?thesis
    using newest_numeric_none [OF None, of es]
    by (cases "newest_numeric es None") (auto simp: newestEvent_def foldl_some)
next
  case (Some n)
  then show ?thesis using newest_numeric_from [OF Some, of es] by (auto simp: newestEvent_def)
qed

section \<open>Properties\<close>

text \<open>
  The current fair is the first of the events listed newest first: the highest numeric name
  outranks every other name and every id, without a numeric name the highest id decides, of equals
  the first; and the list is ordered so.
\<close>

theorem newest_heads_the_list:
  "newestEvent events = (case sortEventsNewestFirst events of [] \<Rightarrow> None | e # _ \<Rightarrow> Some e) \<and>
   mset (sortEventsNewestFirst events) = mset events \<and>
   sorted_wrt (\<lambda>a b. event_cmp a b \<le> 0) (sortEventsNewestFirst events)"
proof (cases events)
  case Nil
  then show ?thesis by (simp add: newestEvent_def sortEventsNewestFirst_def js_sort_def)
next
  case (Cons e es)
  obtain rest where "js_sort event_cmp (e # es) = foldl (pick event_cmp) e es # rest"
    using event_order.hd_sort by blast
  then show ?thesis
    using event_order.sorted_js_sort [of events] mset_js_sort [of event_cmp events]
    by (simp add: sortEventsNewestFirst_def Cons newest_fold)
qed

text \<open>
  Signing out forgets the device's push token and tells the server of exactly that token; without
  permission nothing is ever registered.
\<close>

lemma push_token_leaves:
  assumes "registerIfGranted push refused True s = (s1, Inr True)"
    and "\<forall>t. ps_token push = Inr t \<longrightarrow> t \<noteq> []"
  shows "\<exists>t. ps_token push = Inr t \<and> ps_permission push = PermGranted \<and>
    pu_calls (unregisterStored True True s1) =
      pu_calls s @ [RegisterPushDevice t, UnregisterPushDevice t] \<and>
    dev_get (pu_device (unregisterStored True True s1)) PUSH_TOKEN_KEY = None"
  using assms
  by (auto simp: registerIfGranted_def unregisterStored_def Let_def device.get_remove device.get_set
      split: if_splits sum.splits option.splits)

text \<open>
  C29: A push and the bell lead to the same screen. The link the server sends with a notification,
  read by this client, is the link of the notification's row, for every event name and number.
\<close>

theorem push_opens_the_alert:
  assumes "units (nt_event n)" and "nt_event n \<noteq> []" and "pathEscape (nt_event n) = Some escaped"
    and "push_url n escaped = Some url"
    and "\<forall>k. nt_incidentNumber n = Some k \<or> nt_reportNumber n = Some k \<longrightarrow> 0 \<le> k"
  shows "pushLinkHref url events = alertHref n events"
proof -
  note links = push_links [OF assms(1-3)]
  consider (new) i where "nt_type n = NT_REPORT_REQUESTED" "nt_incidentNumber n = Some i" "nt_reportNumber n = None"
    | (report) r where "nt_type n \<noteq> NT_REPORT_REQUESTED" "nt_incidentNumber n = None" "nt_reportNumber n = Some r"
        "url = reportAppURL escaped r"
    | (incident) i where "nt_type n \<noteq> NT_REPORT_REQUESTED" "nt_incidentNumber n = Some i" "nt_reportNumber n = None"
        "url = incidentAppURL escaped i"
    using assms(4) by (auto simp: push_url_def split: option.splits NotificationType.splits)
  then show ?thesis
  proof cases
    case new
    then show ?thesis
      using assms(4,5) links(3) [of i events]
      by (cases "event_named (nt_event n) events") (simp_all add: push_url_def alertHref_def)
  next
    case report
    then show ?thesis
      using assms(5) links(2) [of r events]
      by (cases "event_named (nt_event n) events") (simp_all add: alertHref_def)
  next
    case incident
    then show ?thesis
      using assms(5) links(1) [of i events]
      by (cases "event_named (nt_event n) events") (simp_all add: alertHref_def)
  qed
qed

lemma push_opens_the_alert_witness:
  "pushLinkHref (incidentAppURL (lit ''Fair%20A'') 7) [\<lparr>ev_id = 3, ev_name = Some (lit ''Fair A'')\<rparr>] =
   alertHref (blank_notification\<lparr>nt_type := NT_MENTIONED, nt_event := lit ''Fair A'', nt_incidentNumber := Some 7\<rparr>)
     [\<lparr>ev_id = 3, ev_name = Some (lit ''Fair A'')\<rparr>]"
proof -
  have "pathEscape (lit ''Fair A'') = Some (lit ''Fair%20A'')"
    by (simp add: pathEscape_def escape_point_def go_plain_def is_digit_def utf8_def percent_def hex_digit_def)
  moreover have "units (lit ''Fair A'')" by (simp add: units_def)
  ultimately show ?thesis
    by (intro push_opens_the_alert [where escaped = "lit ''Fair%20A''"])
      (simp_all add: blank_notification_def push_url_def)
qed

end
