(* ===== verification/Blobs.thy ===== *)
theory Blobs
  imports Complex_Main Auth
begin

text \<open>
  Attachments: the authenticated plain-HTTP routes (\<open>api/blobs.ts\<close>) and the pending photo of a
  composer (\<open>features/compose/usePhotoUpload.ts\<close>).

  A request of \<open>XMLHttpRequest\<close> is the list of the events it fires; an upload is given what the server
  makes of each send, by its number and its Authorization header, and the outcomes of the refreshes
  it may ask for. Fractions are exact rationals.
\<close>

section \<open>Routes\<close>

datatype owner_kind = OnIncident | OnReport

record AttachmentOwner =
  ao_kind :: owner_kind
  ao_number :: int

fun SEGMENT :: "owner_kind \<Rightarrow> str" where
  "SEGMENT OnIncident = lit ''incidents''"
| "SEGMENT OnReport = lit ''reports''"

text \<open>\<open>None\<close> is the \<open>URIError\<close> of a name with a lone surrogate.\<close>

definition route :: "str \<Rightarrow> str \<Rightarrow> AttachmentOwner \<Rightarrow> str option" where
  "route baseUrl eventName on =
     map_option (\<lambda>name. baseUrl @ lit ''/ims/api/events/'' @ name @ lit ''/'' @ SEGMENT (ao_kind on) @ lit ''/''
         @ show_int (ao_number on) @ lit ''/attachments'')
       (encodeURIComponent eventName)"

definition attachmentUrl :: "str \<Rightarrow> str \<Rightarrow> AttachmentOwner \<Rightarrow> int \<Rightarrow> str option" where
  "attachmentUrl baseUrl eventName on entryId =
     map_option (\<lambda>r. r @ lit ''/'' @ show_int entryId) (route baseUrl eventName on)"

section \<open>One send\<close>

datatype xhr_event =
    XProgress bool int int
  | XLoad int str "str option"
  | XError
  | XAbort

record send_result =
  sr_status :: int
  sr_text :: str
  sr_entry :: "str option"

definition progress_fraction :: "rat \<Rightarrow> int \<Rightarrow> int \<Rightarrow> rat" where
  "progress_fraction last_one loaded whole = min 1 (max last_one (of_int loaded / of_int whole))"

text \<open>
  The fractions reported, and what the promise settles with; \<open>None\<close> while it has not. A handler that
  was not passed hears nothing and leaves \<open>last\<close> alone.
\<close>

fun send_events ::
  "bool \<Rightarrow> rat \<Rightarrow> xhr_event list \<Rightarrow> rat list \<times> (AppError + send_result) option" where
  "send_events heard last_one [] = ([], None)"
| "send_events heard last_one (XProgress computable loaded whole # evs) =
     (if \<not> heard \<or> \<not> computable \<or> whole \<le> 0 then send_events heard last_one evs
      else
        (let fraction = progress_fraction last_one loaded whole;
             (reported, result) = send_events heard fraction evs
         in (fraction # reported, result)))"
| "send_events heard last_one (XLoad status text entry # evs) =
     ([], Some (Inr \<lparr>sr_status = status, sr_text = text, sr_entry = entry\<rparr>))"
| "send_events heard last_one (XError # evs) =
     ([], Some (Inr \<lparr>sr_status = 0, sr_text = [], sr_entry = None\<rparr>))"
| "send_events heard last_one (XAbort # evs) =
     ([], Some (Inl (httpStatusError 0 (lit ''Upload cancelled'') None)))"

section \<open>Upload\<close>

record upload_run =
  ur_sent :: "str option list"
  ur_refreshes :: nat
  ur_progress :: "rat list"
  ur_result :: "(AppError + int) option"

text \<open>\<open>prepare\<close>: the token the first request goes out with.\<close>

definition prepared :: "int \<Rightarrow> AccessToken option \<Rightarrow> int \<Rightarrow> RefreshOutcome \<Rightarrow> AccessToken option" where
  "prepared window tokens now proactive =
     (if expiringWithin tokens now window then tokens_after proactive tokens else tokens)"

definition upload_answer :: "send_result \<Rightarrow> AppError + int" where
  "upload_answer res =
     (if sr_status res = 204 \<or> sr_status res = 200
      then (case parse_int (nullish (sr_entry res) []) of
              Some entryId \<Rightarrow>
                if num_finite entryId then Inr entryId
                else Inl (httpStatusError 500 (lit ''The server did not say which entry it made'') None)
            | None \<Rightarrow> Inl (httpStatusError 500 (lit ''The server did not say which entry it made'') None))
      else Inl (httpStatusError (sr_status res) (trim (sr_text res)) None))"

text \<open>A 401 asks for a refresh; the send is repeated when that succeeded.\<close>

definition replayed :: "(AppError + send_result) option \<Rightarrow> RefreshOutcome \<Rightarrow> bool" where
  "replayed res outcome \<longleftrightarrow>
     (case (res, outcome) of (Some (Inr r), Refreshed t) \<Rightarrow> sr_status r = 401 | _ \<Rightarrow> False)"

definition upload ::
  "int \<Rightarrow> AccessToken option \<Rightarrow> int \<Rightarrow> RefreshOutcome \<Rightarrow> RefreshOutcome \<Rightarrow> bool
     \<Rightarrow> (nat \<Rightarrow> str option \<Rightarrow> xhr_event list) \<Rightarrow> upload_run" where
  "upload window tokens now proactive reactive heard server =
     (let asked = (if expiringWithin tokens now window then 1 else 0);
          tokens1 = prepared window tokens now proactive;
          auth1 = attachBearer tokens1;
          (progress1, res1) = send_events heard 0 (server 0 auth1);
          replay = replayed res1 reactive;
          asked2 = (case res1 of Some (Inr res) \<Rightarrow> if sr_status res = 401 then asked + 1 else asked
             | _ \<Rightarrow> asked);
          auth2 = attachBearer (tokens_after reactive tokens1);
          (progress2, res2) = (if replay then send_events heard 0 (server 1 auth2) else ([], res1));
          result = map_option (\<lambda>r. case r of Inl e \<Rightarrow> Inl e | Inr res \<Rightarrow> upload_answer res) res2
      in \<lparr>ur_sent = (if replay then [auth1, auth2] else [auth1]),
          ur_refreshes = asked2,
          ur_progress = progress1 @ progress2 @
            (case result of Some (Inr _) \<Rightarrow> if heard then [1] else [] | _ \<Rightarrow> []),
          ur_result = result\<rparr>)"

section \<open>Download\<close>

definition authHeaders :: "int \<Rightarrow> AccessToken option \<Rightarrow> int \<Rightarrow> RefreshOutcome \<Rightarrow> str option" where
  "authHeaders window tokens now proactive = attachBearer (prepared window tokens now proactive)"

datatype 'b get_answer = GetStatus int str 'b | GetThrew str

record 'b fetch_run =
  fr_sent :: "str option list"
  fr_result :: "AppError + 'b"

text \<open>\<open>res.ok\<close>: 200 to 299.\<close>

definition get_result :: "bool \<Rightarrow> 'b get_answer \<Rightarrow> AppError + 'b" where
  "get_result aborted answer =
     (case answer of
        GetThrew message \<Rightarrow>
          Inl (httpStatusError 0 (if aborted then lit ''Cancelled'' else message) None)
      | GetStatus status text blob \<Rightarrow>
          if 200 \<le> status \<and> status \<le> 299 then Inr blob
          else Inl (httpStatusError status (trim text) None))"

definition fetchAttachment ::
  "int \<Rightarrow> AccessToken option \<Rightarrow> int \<Rightarrow> RefreshOutcome \<Rightarrow> RefreshOutcome \<Rightarrow> bool
     \<Rightarrow> (nat \<Rightarrow> str option \<Rightarrow> 'b get_answer) \<Rightarrow> 'b fetch_run" where
  "fetchAttachment window tokens now proactive reactive aborted server =
     (let tokens1 = prepared window tokens now proactive; auth1 = attachBearer tokens1;
          first = server 0 auth1; auth2 = attachBearer (tokens_after reactive tokens1)
      in case (first, reactive) of
           (GetStatus status text blob, Refreshed t) \<Rightarrow>
             if status = 401
             then \<lparr>fr_sent = [auth1, auth2], fr_result = get_result aborted (server 1 auth2)\<rparr>
             else \<lparr>fr_sent = [auth1], fr_result = get_result aborted first\<rparr>
         | _ \<Rightarrow> \<lparr>fr_sent = [auth1], fr_result = get_result aborted first\<rparr>)"

section \<open>The pending photo\<close>

record 'p PendingPhoto =
  pp_photo :: 'p
  pp_progress :: "rat option"
  pp_error :: "str option"

datatype photo_read = PhotoGetIncident int | PhotoListIncidents | PhotoGetReport int | PhotoListReports

definition photo_pick :: "'p \<Rightarrow> 'p PendingPhoto option" where
  "photo_pick photo = Some \<lparr>pp_photo = photo, pp_progress = None, pp_error = None\<rparr>"

definition photo_progress :: "'p \<Rightarrow> rat \<Rightarrow> 'p PendingPhoto option" where
  "photo_progress photo fraction =
     Some \<lparr>pp_photo = photo, pp_progress = Some fraction, pp_error = None\<rparr>"

text \<open>
  The states the chip goes through while an upload runs, what the upload resolves to, and the reads it
  makes stale: given the reported fractions and the answer.
\<close>

definition photo_upload ::
  "owner_kind \<Rightarrow> int \<Rightarrow> 'p PendingPhoto option \<Rightarrow> rat list \<Rightarrow> thrown option
     \<Rightarrow> 'p PendingPhoto option list \<times> bool \<times> photo_read list" where
  "photo_upload kind number pending fractions failure =
     (case pending of
        None \<Rightarrow> ([None], True, [])
      | Some p \<Rightarrow>
          (let during = photo_progress (pp_photo p) 0 # map (photo_progress (pp_photo p)) fractions
           in case failure of
                Some e \<Rightarrow>
                  (during @ [Some \<lparr>pp_photo = pp_photo p, pp_progress = None,
                     pp_error = Some (ae_message (toAppError e))\<rparr>], False, [])
              | None \<Rightarrow>
                  (during @ [None], True,
                   if kind = OnReport then [PhotoGetReport number, PhotoListReports]
                   else [PhotoGetIncident number, PhotoListIncidents])))"

section \<open>Lemmas\<close>

lemma progress_fraction_bounds:
  "last_one \<le> 1 \<Longrightarrow> last_one \<le> progress_fraction last_one loaded whole \<and> progress_fraction last_one loaded whole \<le> 1"
  by (auto simp: progress_fraction_def)

lemma send_progress:
  assumes "last_one \<le> 1"
  shows "sorted (last_one # fst (send_events heard last_one evs)) \<and>
    (\<forall>f \<in> set (fst (send_events heard last_one evs)). f \<le> 1) \<and>
    (\<not> heard \<longrightarrow> fst (send_events heard last_one evs) = [])"
  using assms
proof (induction heard last_one evs rule: send_events.induct)
  case (2 heard last_one computable loaded whole evs)
  show ?case
  proof (cases "\<not> heard \<or> \<not> computable \<or> whole \<le> 0")
    case True
    with 2 show ?thesis by simp
  next
    case False
    let ?f = "progress_fraction last_one loaded whole"
    note b = progress_fraction_bounds [OF "2.prems", of loaded whole]
    obtain fs res where rest: "send_events heard ?f evs = (fs, res)" by force
    have IH: "sorted (?f # fs) \<and> (\<forall>f \<in> set fs. f \<le> 1)"
      using "2.IH"(2) [OF False refl] b by (simp add: rest)
    then have "\<forall>x \<in> set fs. last_one \<le> x" using b by fastforce
    with IH b False rest show ?thesis by (simp add: Let_def)
  qed
qed simp_all

lemma upload_answer_id:
  "upload_answer res = Inr entryId \<Longrightarrow> (sr_status res = 200 \<or> sr_status res = 204) \<and>
     parse_int (nullish (sr_entry res) []) = Some entryId"
  by (auto simp: upload_answer_def split: if_splits option.splits)

lemma upload_answer_error: "upload_answer res = Inl e \<Longrightarrow> well_formed_error e"
  by (auto simp: upload_answer_def http_well_formed split: if_splits option.splits)

text \<open>The two shapes of a run: one send, or a second one after a 401.\<close>

definition finished :: "(AppError + send_result) option \<Rightarrow> (AppError + int) option" where
  "finished res = map_option (\<lambda>r. case r of Inl e \<Rightarrow> Inl e | Inr s \<Rightarrow> upload_answer s) res"

lemma finished_None [simp]: "finished res = None \<longleftrightarrow> res = None"
  by (simp add: finished_def)

lemma upload_twice:
  assumes "send_events heard 0 (server 0 (attachBearer (prepared window tokens now proactive))) = (p1, Some (Inr r))"
    and "sr_status r = 401"
  shows "ur_sent (upload window tokens now proactive (Refreshed t) heard server) =
      [attachBearer (prepared window tokens now proactive), Some (lit ''Bearer '' @ at_token t)]"
    and "ur_result (upload window tokens now proactive (Refreshed t) heard server) =
      finished (snd (send_events heard 0 (server 1 (Some (lit ''Bearer '' @ at_token t)))))"
    and "ur_refreshes (upload window tokens now proactive (Refreshed t) heard server) \<le> 2"
  using assms
  by (simp_all add: upload_def Let_def replayed_def tokens_after_Refreshed attachBearer_Some finished_def split: prod.split)

lemma replayed_iff:
  "replayed res outcome \<longleftrightarrow> (\<exists>r t. res = Some (Inr r) \<and> outcome = Refreshed t \<and> sr_status r = 401)"
  by (auto simp: replayed_def split: option.splits sum.splits RefreshOutcome.splits)

lemma upload_once:
  assumes "\<not> replayed (snd (send_events heard 0 (server 0 (attachBearer (prepared window tokens now proactive)))))
      reactive"
  shows "ur_sent (upload window tokens now proactive reactive heard server) =
      [attachBearer (prepared window tokens now proactive)]"
    and "ur_result (upload window tokens now proactive reactive heard server) =
      finished (snd (send_events heard 0 (server 0 (attachBearer (prepared window tokens now proactive)))))"
    and "ur_refreshes (upload window tokens now proactive reactive heard server) \<le> 2"
proof -
  obtain p res where first: "send_events heard 0 (server 0 (attachBearer (prepared window tokens now proactive)))
      = (p, res)" by force
  have no: "\<not> replayed res reactive" using assms by (simp add: first)
  show "ur_sent (upload window tokens now proactive reactive heard server) =
      [attachBearer (prepared window tokens now proactive)]"
    and "ur_result (upload window tokens now proactive reactive heard server) =
      finished (snd (send_events heard 0 (server 0 (attachBearer (prepared window tokens now proactive)))))"
    unfolding upload_def Let_def first prod.case if_not_P [OF no] by (simp_all add: finished_def first no)
  show "ur_refreshes (upload window tokens now proactive reactive heard server) \<le> 2"
    unfolding upload_def Let_def first prod.case if_not_P [OF no] by (auto simp: no split: option.split sum.split)
qed

lemma finished_cases:
  assumes "finished res = Some answer" and "\<forall>e. res = Some (Inl e) \<longrightarrow> well_formed_error e"
  shows "case answer of Inl e \<Rightarrow> well_formed_error e
    | Inr entryId \<Rightarrow> \<exists>r. res = Some (Inr r) \<and> sr_status r \<in> {200, 204} \<and>
        parse_int (nullish (sr_entry r) []) = Some entryId"
proof (cases res)
  case None
  then show ?thesis using assms(1) by (simp add: finished_def)
next
  case (Some r)
  then show ?thesis
    using assms upload_answer_id upload_answer_error by (cases r; cases answer) (auto simp: finished_def)
qed

lemma send_error: "snd (send_events heard last_one evs) = Some (Inl e) \<Longrightarrow> well_formed_error e"
  by (induction heard last_one evs rule: send_events.induct)
    (auto simp: http_well_formed Let_def split: if_splits prod.splits)

lemma finished_result:
  "finished (snd (send_events heard last_one evs)) = Some answer \<Longrightarrow>
   case answer of Inl e \<Rightarrow> well_formed_error e
    | Inr entryId \<Rightarrow> \<exists>r. snd (send_events heard last_one evs) = Some (Inr r) \<and> sr_status r \<in> {200, 204} \<and>
        parse_int (nullish (sr_entry r) []) = Some entryId"
  by (rule finished_cases) (use send_error in auto)

section \<open>Properties\<close>

text \<open>
  C26: What an upload sends and answers. It goes out once, with the token that was good or the one the
  early refresh brought; it is repeated once, with the new token, exactly when the first answer was
  a 401 and the refresh it then asked for succeeded; it asks for two refreshes at most. It resolves
  with an entry only when the server answered its last send with 200 or 204 and named the entry, and
  otherwise throws a well-formed error.
\<close>

theorem upload_contract:
  "let auth = attachBearer (prepared window tokens now proactive);
       run = upload window tokens now proactive reactive heard server;
       answer = (\<lambda>k a. snd (send_events heard 0 (server k a)))
   in ur_refreshes run \<le> 2 \<and>
     (ur_sent run = [auth] \<or>
      (\<exists>t r. ur_sent run = [auth, Some (lit ''Bearer '' @ at_token t)] \<and> reactive = Refreshed t \<and>
         answer 0 auth = Some (Inr r) \<and> sr_status r = 401)) \<and>
     (\<forall>t r. answer 0 auth = Some (Inr r) \<longrightarrow> sr_status r = 401 \<longrightarrow> reactive = Refreshed t \<longrightarrow>
        length (ur_sent run) = 2) \<and>
     (case ur_result run of
        None \<Rightarrow> answer (length (ur_sent run) - 1) (last (ur_sent run)) = None
      | Some (Inl e) \<Rightarrow> well_formed_error e
      | Some (Inr entryId) \<Rightarrow> \<exists>r. answer (length (ur_sent run) - 1) (last (ur_sent run)) = Some (Inr r) \<and>
          sr_status r \<in> {200, 204} \<and> parse_int (nullish (sr_entry r) []) = Some entryId)"
proof (cases "replayed (snd (send_events heard 0 (server 0
    (attachBearer (prepared window tokens now proactive))))) reactive")
  case True
  then obtain p r t where first: "send_events heard 0 (server 0 (attachBearer (prepared window tokens now proactive)))
    = (p, Some (Inr r))" and t: "reactive = Refreshed t" and r: "sr_status r = 401"
    by (auto simp: replayed_iff) (metis prod.collapse)
  note run = upload_twice [where heard = heard and server = server and window = window and tokens = tokens
      and now = now and proactive = proactive and t = t, OF first r]
  show ?thesis
    unfolding Let_def t run(1,2)
    using run(3) r finished_result
    by (auto simp: first split: option.split sum.split)
next
  case False
  note run = upload_once [where heard = heard and server = server and window = window and tokens = tokens
      and now = now and proactive = proactive and reactive = reactive, OF False]
  show ?thesis
    unfolding Let_def run(1,2)
    using run(3) False finished_result
    by (auto simp: replayed_iff split: option.split sum.split)
qed

lemma upload_contract_witness:
  "ur_sent (upload 60000 None 0 (Refreshed \<lparr>at_token = [97], at_expiresAt = None\<rparr>)
     (Refreshed \<lparr>at_token = [97], at_expiresAt = None\<rparr>) True
     (\<lambda>k a. if k = 0 then [XLoad 401 [] None] else [XLoad 204 [] (Some [55])])) =
   [None, Some (lit ''Bearer a'')]"
proof -
  let ?t = "Refreshed \<lparr>at_token = [97], at_expiresAt = None\<rparr>"
  let ?server = "\<lambda>k a. if k = (0::nat) then [XLoad 401 [] None] else [XLoad 204 [] (Some [55])]"
  note C = upload_contract [of 60000 None 0 ?t ?t True ?server, unfolded Let_def, THEN conjunct2]
  from C [THEN conjunct2, THEN conjunct1] have "length (ur_sent (upload 60000 None 0 ?t ?t True ?server)) = 2"
    by simp
  with C [THEN conjunct1] show ?thesis
    by (auto simp: prepared_def expiringWithin_def attachBearer_def)
qed

text \<open>
  What is reported to the caller of an upload that was repeated falls back: each send starts its
  fractions anew.
\<close>

lemma progress_restarts_on_replay:
  "ur_progress (upload 60000 None 0 (RefreshFailed e) (Refreshed t) True
     (\<lambda>k a. if k = 0 then [XProgress True 8 8, XLoad 401 [] None]
       else [XProgress True 4 8, XLoad 204 [] (Some [55])])) = [1, 1 / 2, 1]"
  by (simp add: upload_def Let_def prepared_def expiringWithin_def replayed_def progress_fraction_def
      upload_answer_def parse_int_def is_ws_def parse_digits_def is_digit_def digits_val_def num_finite_def)

text \<open>The event's name is one segment of the route, and the server reads it back from it.\<close>

lemma route_keeps_name:
  assumes "units eventName" and "encodeURIComponent eventName = Some e"
  shows "route base eventName on = Some (base @ lit ''/ims/api/events/'' @ e @ lit ''/'' @ SEGMENT (ao_kind on)
      @ lit ''/'' @ show_int (ao_number on) @ lit ''/attachments'')"
    and "47 \<notin> set e" and "decodeURIComponent e = Some eventName"
  using encode_no_delimiter [OF assms] decode_encode [OF assms] assms(2) by (simp_all add: route_def)

text \<open>A photo is kept until it has landed: an upload that fails leaves it pending with the words to show.\<close>

lemma failed_photo_stays:
  "photo_upload kind number (Some p) fractions failure = (states, landed, reads) \<Longrightarrow>
   landed = (failure = None) \<and> (landed \<longrightarrow> last states = None) \<and>
   (\<not> landed \<longrightarrow> map_option pp_photo (last states) = Some (pp_photo p) \<and> reads = [])"
  by (auto simp: photo_upload_def Let_def split: option.splits)

end
