(* ===== verification/Journal.thy ===== *)
theory Journal
  imports Compose Blobs Session
begin

text \<open>
  The journal of an incident as the editor reads and shows it (\<open>features/incidents/useEditorData.ts\<close>,
  \<open>Journal.tsx\<close> and \<open>JournalEntryRow.tsx\<close>): the incident's entries and those of its attached reports
  in one order of time, whose route serves an entry's file, and who may strike what.
\<close>

section \<open>What the editor reads\<close>

record JournalItem =
  ji_entry :: JournalEntry
  ji_report :: "int option"

text \<open>
  \<open>Number(ts.seconds) * 1000 + ts.nanos / 1e6\<close>, counted in millionths of a millisecond. The doubles of
  the code round it to a quarter of a microsecond.
\<close>

definition timeOf :: "JournalEntry \<Rightarrow> int" where
  "timeOf entry = (case je_created entry of None \<Rightarrow> 0 | Some ts \<Rightarrow> seconds ts * 1000000000 + nanos ts)"

definition item_cmp :: "JournalItem \<Rightarrow> JournalItem \<Rightarrow> int" where
  "item_cmp a b = timeOf (ji_entry a) - timeOf (ji_entry b)"

text \<open>
  The cache of the report reads: what \<open>GetReport\<close> answered for a number, or nothing yet. One query is
  asked per attached number, in their order.
\<close>

type_synonym report_reads = "int \<Rightarrow> ReportView option option"

definition reportNumbers :: "Incident option \<Rightarrow> int list" where
  "reportNumbers incident = nullish (map_option inc_reports incident) []"

definition own_items :: "Incident option \<Rightarrow> JournalItem list" where
  "own_items incident =
     map (\<lambda>entry. \<lparr>ji_entry = entry, ji_report = None\<rparr>) (nullish (map_option inc_journalEntries incident) [])"

definition attached_items :: "report_reads \<Rightarrow> int \<Rightarrow> JournalItem list" where
  "attached_items reads number =
     (case Option.bind (Option.bind (reads number) (\<lambda>r. r)) rv_report of
        None \<Rightarrow> []
      | Some report \<Rightarrow> map (\<lambda>entry. \<lparr>ji_entry = entry, ji_report = Some number\<rparr>) (rep_journalEntries report))"

definition journal :: "Incident option \<Rightarrow> report_reads \<Rightarrow> JournalItem list" where
  "journal incident reads =
     js_sort item_cmp (own_items incident @ concat (map (attached_items reads) (reportNumbers incident)))"

definition reportsLoaded :: "Incident option \<Rightarrow> report_reads \<Rightarrow> int list" where
  "reportsLoaded incident reads = filter (\<lambda>n. reads n \<noteq> None) (reportNumbers incident)"

record EditorGates =
  ga_writeIncidents :: bool
  ga_attachFiles :: bool
  ga_mayAppend :: bool
  ga_mayTogglePrivate :: bool
  ga_me :: int
  ga_author :: str

definition gates :: "SessionState \<Rightarrow> AccessForEvent \<Rightarrow> IncidentView option \<Rightarrow> EditorGates" where
  "gates state access view =
     (let auth = (case state of SSignedIn a \<Rightarrow> Some a | _ \<Rightarrow> None);
          me = nullish (map_option auth_personId auth) 0;
          creator = Option.bind (Option.bind (Option.bind view iv_incident) inc_createdBy) (\<lambda>p. Some (ref_personId p))
      in \<lparr>ga_writeIncidents = acc_writeIncidents access,
          ga_attachFiles = acc_attachFiles access,
          ga_mayAppend = (map_option iv_viewerMayAddJournal view = Some True),
          ga_mayTogglePrivate = (acc_writeIncidents access \<and> (isAdmin auth \<or> creator = Some me)),
          ga_me = me,
          ga_author = nullish (map_option auth_user auth) []\<rparr>)"

section \<open>What the journal shows\<close>

definition ordered :: "bool \<Rightarrow> JournalItem list \<Rightarrow> JournalItem list" where
  "ordered showSystem items = rev (filter (\<lambda>item. showSystem \<or> \<not> je_systemEntry (ji_entry item)) items)"

text \<open>
  One row: whose route serves its file, whether a tap opens the file, and the edit its button makes,
  \<open>setStricken(id, stricken)\<close>.
\<close>

record JournalRow =
  jr_entry :: JournalEntry
  jr_report :: "int option"
  jr_attachmentOn :: AttachmentOwner
  jr_opens :: bool
  jr_onStrike :: "(int \<times> bool) option"

definition journalRow :: "AttachmentOwner \<Rightarrow> bool \<Rightarrow> JournalItem \<Rightarrow> JournalRow" where
  "journalRow attachmentOn mayStrike item =
     (let entry = ji_entry item
      in \<lparr>jr_entry = entry, jr_report = ji_report item,
          jr_attachmentOn = (case ji_report item of
              None \<Rightarrow> attachmentOn
            | Some n \<Rightarrow> \<lparr>ao_kind = OnReport, ao_number = n\<rparr>),
          jr_opens = (ji_report item = None),
          jr_onStrike =
            (if mayStrike \<and> ji_report item = None \<and> \<not> je_systemEntry entry
             then Some (je_id entry, je_stricken entry \<noteq> Some True) else None)\<rparr>)"

definition showJournal :: "AttachmentOwner \<Rightarrow> bool \<Rightarrow> bool \<Rightarrow> JournalItem list \<Rightarrow> JournalRow list" where
  "showJournal attachmentOn mayStrike showSystem items =
     map (journalRow attachmentOn mayStrike) (ordered showSystem items)"

text \<open>How a row shows its entry.\<close>

datatype attachment_view = NoFile | ImageView AttachmentOwner int bool | FileRow str "str option"

record EntryView =
  vw_muted :: bool
  vw_origin :: "str option"
  vw_strike :: "string option"
  vw_file :: attachment_view
  vw_behalf :: "str option"

definition IMAGE_PREFIX :: str where
  "IMAGE_PREFIX = lit ''image/''"

definition journalEntryRow :: "JournalRow \<Rightarrow> EntryView" where
  "journalEntryRow row =
     (let entry = jr_entry row
      in \<lparr>vw_muted = (je_systemEntry entry \<or> je_stricken entry = Some True),
          vw_origin = map_option (\<lambda>n. lit ''Report #'' @ show_int n) (jr_report row),
          vw_strike = map_option (\<lambda>_. if je_stricken entry = Some True then ''Unstrike'' else ''Strike'') (jr_onStrike row),
          vw_file = (case je_attachment entry of
              None \<Rightarrow> NoFile
            | Some a \<Rightarrow> if starts_with (att_mediaType a) IMAGE_PREFIX
                then ImageView (jr_attachmentOn row) (je_id entry) (jr_opens row)
                else FileRow (att_id a) (unless_empty (att_mediaType a))),
          vw_behalf = map_option (\<lambda>p. lit ''on behalf of '' @ personLabel (Some p)) (je_onBehalfOf entry)\<rparr>)"

section \<open>Lemmas\<close>

interpretation item_order: comparison item_cmp
  by unfold_locales (auto simp: item_cmp_def)

lemma reportNumbers_Some [simp]: "reportNumbers (Some i) = inc_reports i"
  by (simp add: reportNumbers_def)

lemma own_items_Some [simp]:
  "own_items (Some i) = map (\<lambda>entry. \<lparr>ji_entry = entry, ji_report = None\<rparr>) (inc_journalEntries i)"
  by (simp add: own_items_def)

lemma own_origin: "item \<in> set (own_items i) \<Longrightarrow> ji_report item = None"
  by (auto simp: own_items_def)

lemma attached_origin: "item \<in> set (attached_items reads n) \<Longrightarrow> ji_report item = Some n"
  by (auto simp: attached_items_def split: option.splits)

text \<open>The entries of one origin, in the order of their message.\<close>

definition origin_items :: "Incident option \<Rightarrow> report_reads \<Rightarrow> int option \<Rightarrow> JournalItem list" where
  "origin_items incident reads origin =
     (case origin of
        None \<Rightarrow> own_items incident
      | Some n \<Rightarrow> if n \<in> set (reportNumbers incident) then attached_items reads n else [])"

lemma filter_attached:
  "distinct ns \<Longrightarrow> filter (\<lambda>item. ji_report item = Some n) (concat (map (attached_items reads) ns)) =
     (if n \<in> set ns then attached_items reads n else [])"
proof (induction ns)
  case Nil
  then show ?case by simp
next
  case (Cons m ns)
  have "filter (\<lambda>item. ji_report item = Some n) (attached_items reads m) =
      (if m = n then attached_items reads m else [])"
    using attached_origin by (auto simp: filter_id_conv filter_empty_conv)
  with Cons show ?case by auto
qed

lemma filter_origin:
  assumes "distinct (reportNumbers incident)"
  shows "filter (\<lambda>item. ji_report item = origin)
      (own_items incident @ concat (map (attached_items reads) (reportNumbers incident))) =
    origin_items incident reads origin"
proof (cases origin)
  case None
  have "filter (\<lambda>item. ji_report item = None) (concat (map (attached_items reads) ns)) = []" for ns
    using attached_origin by (fastforce simp: filter_empty_conv)
  with None show ?thesis using own_origin by (auto simp: origin_items_def filter_id_conv)
next
  case (Some n)
  have "filter (\<lambda>item. ji_report item = Some n) (own_items incident) = []"
    using own_origin by (fastforce simp: filter_empty_conv)
  with Some show ?thesis by (simp add: origin_items_def filter_attached [OF assms])
qed

lemma journal_sorted: "sorted_wrt (\<lambda>a b. timeOf (ji_entry a) \<le> timeOf (ji_entry b)) (journal incident reads)"
  using item_order.sorted_js_sort
  unfolding journal_def item_cmp_def [abs_def] by simp

section \<open>Properties\<close>

text \<open>
  C24: The journal interleaves. It holds the incident's entries and those of every attached report that
  has been read, each once; in the order of their times, shown newest first; and the entries of one
  origin that are in order in their own record keep that order, equal times included.
\<close>

theorem journal_interleaves:
  assumes "distinct (reportNumbers incident)"
  shows "mset (journal incident reads) =
      mset (own_items incident) + (\<Sum>n \<in> set (reportNumbers incident). mset (attached_items reads n)) \<and>
    sorted_wrt (\<lambda>a b. timeOf (jr_entry b) \<le> timeOf (jr_entry a))
      (showJournal on mayStrike showSystem (journal incident reads)) \<and>
    (sorted_wrt (\<lambda>a b. timeOf (ji_entry a) \<le> timeOf (ji_entry b)) (origin_items incident reads origin) \<longrightarrow>
      filter (\<lambda>item. ji_report item = origin) (journal incident reads) = origin_items incident reads origin)"
proof (intro conjI impI)
  have "mset (concat (map f ns)) = (\<Sum>n \<in> set ns. mset (f n))" if "distinct ns"
    for ns :: "int list" and f :: "int \<Rightarrow> JournalItem list"
    using that by (induction ns) simp_all
  then show "mset (journal incident reads) =
      mset (own_items incident) + (\<Sum>n \<in> set (reportNumbers incident). mset (attached_items reads n))"
    using assms by (simp add: journal_def)
  have "sorted_wrt (\<lambda>a b. timeOf (ji_entry b) \<le> timeOf (ji_entry a))
      (ordered showSystem (journal incident reads))"
    using journal_sorted by (simp add: ordered_def sorted_wrt_rev sorted_wrt_filter)
  then show "sorted_wrt (\<lambda>a b. timeOf (jr_entry b) \<le> timeOf (jr_entry a))
      (showJournal on mayStrike showSystem (journal incident reads))"
    by (simp add: showJournal_def sorted_wrt_map journalRow_def Let_def)
  assume "sorted_wrt (\<lambda>a b. timeOf (ji_entry a) \<le> timeOf (ji_entry b)) (origin_items incident reads origin)"
  then have "js_sort item_cmp (origin_items incident reads origin) = origin_items incident reads origin"
    by (intro item_order.js_sort_sorted) (simp add: item_cmp_def [abs_def])
  then show "filter (\<lambda>item. ji_report item = origin) (journal incident reads) = origin_items incident reads origin"
    by (simp add: journal_def item_order.filter_js_sort filter_origin [OF assms] del: filter_append)
qed

definition entry_at :: "int \<Rightarrow> int \<Rightarrow> JournalEntry" where
  "entry_at k t = blank_entry\<lparr>je_id := k, je_created := Some \<lparr>seconds = t, nanos = 0\<rparr>\<rparr>"

lemma journal_interleaves_witness:
  "sorted_wrt (\<lambda>a b. timeOf (jr_entry b) \<le> timeOf (jr_entry a))
      (showJournal \<lparr>ao_kind = OnIncident, ao_number = 3\<rparr> True True
        (journal (Some (blank_incident\<lparr>inc_reports := [9], inc_journalEntries := [entry_at 1 50, entry_at 2 10]\<rparr>))
          (\<lambda>n. Some (Some \<lparr>rv_report = Some (blank_report\<lparr>rep_journalEntries := [entry_at 1 30]\<rparr>),
             rv_mayEditSummary = False, rv_mayAddJournalEntry = False\<rparr>))))"
  by (rule journal_interleaves [THEN conjunct2, THEN conjunct1]) (simp add: blank_incident_def)

section \<open>The strike button\<close>

definition struck :: "int \<Rightarrow> bool \<Rightarrow> JournalItem \<Rightarrow> JournalItem" where
  "struck k b item =
     (if ji_report item = None \<and> je_id (ji_entry item) = k
      then item\<lparr>ji_entry := (ji_entry item)\<lparr>je_stricken := Some b\<rparr>\<rparr> else item)"

lemma struck_simps [simp]:
  "ji_report (struck k b item) = ji_report item"
  "timeOf (ji_entry (struck k b item)) = timeOf (ji_entry item)"
  "je_systemEntry (ji_entry (struck k b item)) = je_systemEntry (ji_entry item)"
  by (simp_all add: struck_def timeOf_def)

lemma struck_attached: "map (struck k b) (attached_items reads n) = attached_items reads n"
  using attached_origin by (intro map_idI) (fastforce simp: struck_def)

lemma journal_strike:
  "journal (Some (write_strike k b i)) reads = map (struck k b) (journal (Some i) reads)"
proof -
  have "map (struck k b) (concat (map (attached_items reads) ns)) = concat (map (attached_items reads) ns)" for ns
    by (induction ns) (simp_all add: struck_attached)
  moreover have "own_items (Some (write_strike k b i)) = map (struck k b) (own_items (Some i))"
    by (simp add: write_strike_def strike_entry_def struck_def)
  ultimately show ?thesis
    unfolding journal_def
    by (subst js_sort_map [symmetric]) (simp_all add: item_cmp_def write_strike_def)
qed

lemma ordered_struck: "ordered sys (map (struck k b) items) = map (struck k b) (ordered sys items)"
  by (simp add: ordered_def filter_map o_def rev_map)

text \<open>
  The strike button flips one entry. Pressing the button of a shown row makes the edit that turns the
  row's mark round; from the press on the journal shows that one row changed, its button offering the
  way back, and every other row as it was, an attached report's entry with the same id included.
\<close>

theorem strike_flips_one_row:
  assumes "row \<in> set (showJournal on mayStrike sys (journal (Some i) reads))"
    and "jr_onStrike row = Some (k, b)"
    and "distinct (map je_id (inc_journalEntries i))"
    and "ed_cache s = Some i" and "edit_begin (SetStricken k b) s = (s1, flight)"
  shows "b = (je_stricken (jr_entry row) \<noteq> Some True) \<and>
    (\<exists>i1. ed_cache s1 = Some i1 \<and>
      showJournal on mayStrike sys (journal (Some i1) reads) =
        map (\<lambda>r. if r = row then row\<lparr>jr_entry := (jr_entry row)\<lparr>je_stricken := Some b\<rparr>, jr_onStrike := Some (k, \<not> b)\<rparr>
              else r)
          (showJournal on mayStrike sys (journal (Some i) reads)))"
proof -
  let ?items = "ordered sys (journal (Some i) reads)"
  obtain item where item: "item \<in> set ?items" and row: "row = journalRow on mayStrike item"
    using assms(1) by (auto simp: showJournal_def)
  have own: "ji_report item = None" "\<not> je_systemEntry (ji_entry item)" "k = je_id (ji_entry item)"
    "b = (je_stricken (ji_entry item) \<noteq> Some True)" and may: "mayStrike"
    using assms(2) by (auto simp: row journalRow_def Let_def split: if_splits)
  have same: "item' = item" if "item' \<in> set ?items" "ji_report item' = None" "je_id (ji_entry item') = k" for item'
  proof -
    have mem: "j \<in> set ?items \<Longrightarrow> ji_report j = None \<Longrightarrow> ji_entry j \<in> set (inc_journalEntries i)" for j
      using attached_origin by (fastforce simp: ordered_def journal_def)
    then have "ji_entry item' = ji_entry item"
      using assms(3) that item own by (metis distinct_map inj_onD)
    then show ?thesis using that own by simp
  qed
  have "ed_cache s1 = Some (write_strike k b i)"
    using assms(4,5) by (auto simp: run_begin_def patchCache_def mark_field_def)
  moreover have "showJournal on mayStrike sys (journal (Some (write_strike k b i)) reads) =
      map (\<lambda>r. if r = row then row\<lparr>jr_entry := (jr_entry row)\<lparr>je_stricken := Some b\<rparr>, jr_onStrike := Some (k, \<not> b)\<rparr>
            else r) (showJournal on mayStrike sys (journal (Some i) reads))"
    unfolding showJournal_def journal_strike ordered_struck list.map_comp
  proof (rule map_cong [OF refl], goal_cases)
    case (1 item')
    show ?case
    proof (cases "item' = item")
      case True
      with own may show ?thesis by (simp add: row journalRow_def struck_def Let_def)
    next
      case False
      then have other: "\<not> (ji_report item' = None \<and> je_id (ji_entry item') = k)" using same 1 by blast
      then have "journalRow on mayStrike item' \<noteq> row"
        using own by (auto simp: row journalRow_def Let_def)
      moreover from other have "struck k b item' = item'" by (auto simp: struck_def)
      ultimately show ?thesis by simp
    qed
  qed
  ultimately show ?thesis using own by (simp add: row journalRow_def Let_def)
qed

lemma strike_flips_one_row_witness:
  "\<exists>i1. ed_cache (fst (edit_begin (SetStricken 7 True)
        (idle_edit (blank_incident\<lparr>inc_journalEntries := [entry_at 7 50]\<rparr>)))) = Some i1 \<and>
     map (je_stricken \<circ> jr_entry) (showJournal \<lparr>ao_kind = OnIncident, ao_number = 3\<rparr> True False
       (journal (Some i1) (\<lambda>_. None))) = [Some True]"
proof -
  let ?i = "blank_incident\<lparr>inc_journalEntries := [entry_at 7 50]\<rparr>"
  let ?on = "\<lparr>ao_kind = OnIncident, ao_number = 3\<rparr>"
  let ?row = "journalRow ?on True \<lparr>ji_entry = entry_at 7 50, ji_report = None\<rparr>"
  have rows: "showJournal ?on True False (journal (Some ?i) (\<lambda>_. None)) = [?row]"
    by (simp add: showJournal_def ordered_def journal_def js_sort_def blank_incident_def entry_at_def blank_entry_def)
  have "jr_onStrike ?row = Some (7, True)"
    by (simp add: journalRow_def entry_at_def blank_entry_def)
  obtain s1 flight where started: "edit_begin (SetStricken 7 True) (idle_edit ?i) = (s1, flight)"
    by (cases "edit_begin (SetStricken 7 True) (idle_edit ?i)")
  have "\<exists>i1. ed_cache s1 = Some i1 \<and> showJournal ?on True False (journal (Some i1) (\<lambda>_. None)) =
      [?row\<lparr>jr_entry := (jr_entry ?row)\<lparr>je_stricken := Some True\<rparr>, jr_onStrike := Some (7, False)\<rparr>]"
    using strike_flips_one_row [OF _ \<open>jr_onStrike ?row = Some (7, True)\<close> _ _ started, where on = ?on
        and mayStrike = True and sys = False and i = ?i and reads = "\<lambda>_. None"]
    by (simp add: rows idle_edit_def)
  with started show ?thesis by fastforce
qed

end
