(* ===== verification/Append.thy ===== *)
theory Append
  imports Journal Drafts
begin

text \<open>
  Appending: the mutations of \<open>features/compose/hooks.ts\<close> with their optimistic entries and what they
  make stale, and the docked composers that send (\<open>AppendComposer.tsx\<close>, \<open>ReportComposer.tsx\<close>,
  \<open>Composer.tsx\<close>, \<open>PersonPicker.tsx\<close>).

  The cached response of one record is the record itself, \<open>None\<close> when there is none. \<open>now\<close> is
  \<open>Date.now()\<close>.
\<close>

section \<open>What a write makes stale\<close>

datatype stale =
    SGetIncident int int | SListIncidents | SGetReport int int | SListReports | SListIncidentTypes | SListAreas int

definition fileIncident_stale :: "stale list" where
  "fileIncident_stale = [SListIncidents]"

definition appendEntry_stale :: "int \<Rightarrow> int \<Rightarrow> stale list" where
  "appendEntry_stale eventId number = [SGetIncident eventId number, SListIncidents]"

definition proposeType_stale :: "stale list" where
  "proposeType_stale = [SListIncidentTypes]"

definition createArea_stale :: "int \<Rightarrow> stale list" where
  "createArea_stale eventId = [SListAreas eventId]"

definition createReport_stale :: "int \<Rightarrow> CreateReportRequest \<Rightarrow> stale list" where
  "createReport_stale eventId req =
     SListReports #
       (case rep_incident (crr_report req) of
          None \<Rightarrow> []
        | Some incident \<Rightarrow> if incident = 0 then [] else [SGetIncident eventId incident, SListIncidents])"

definition appendReport_stale :: "int \<Rightarrow> int \<Rightarrow> stale list" where
  "appendReport_stale eventId number = [SGetReport eventId number, SListReports]"

definition linkReport_stale :: "int \<Rightarrow> int \<Rightarrow> Report \<Rightarrow> stale list" where
  "linkReport_stale eventId number report =
     [SGetReport eventId number, SListReports, SGetIncident eventId (nullish (rep_incident report) 0), SListIncidents]"

definition requestReport_stale :: "int \<Rightarrow> int \<Rightarrow> stale list" where
  "requestReport_stale eventId number = [SGetIncident eventId number, SListIncidents]"

section \<open>Optimistic entries\<close>

definition timestampFromMs :: "int \<Rightarrow> timestamp" where
  "timestampFromMs ms = \<lparr>seconds = ms div 1000, nanos = ms mod 1000 * 1000000\<rparr>"

definition optimistic_entry :: "int \<Rightarrow> str \<Rightarrow> NewJournalEntry \<Rightarrow> JournalEntry" where
  "optimistic_entry now author pending = blank_entry
     \<lparr>je_id := - now, je_created := Some (timestampFromMs now), je_author := author,
      je_text := nj_text pending, je_mentions := map bare_ref (nj_mentionedPersonIds pending)\<rparr>"

text \<open>The cache after \<open>onMutate\<close>, and the context's \<open>previous\<close>.\<close>

definition append_begin ::
  "int \<Rightarrow> str \<Rightarrow> IncidentUpdate \<Rightarrow> Incident option \<Rightarrow> Incident option \<times> Incident option" where
  "append_begin now author update cache =
     ((case (up_journalEntries update, cache) of
         (pending # _, Some i) \<Rightarrow>
           Some (i\<lparr>inc_journalEntries := inc_journalEntries i @ [optimistic_entry now author pending]\<rparr>)
       | _ \<Rightarrow> cache), cache)"

definition append_failed :: "'r option \<Rightarrow> 'r option \<Rightarrow> 'r option" where
  "append_failed previous cache = (case previous of None \<Rightarrow> cache | Some p \<Rightarrow> Some p)"

definition optimistic_report_entry :: "int \<Rightarrow> str \<Rightarrow> JournalEntry \<Rightarrow> JournalEntry" where
  "optimistic_report_entry now author pending = blank_entry
     \<lparr>je_id := - now, je_created := Some (timestampFromMs now), je_author := author,
      je_text := je_text pending, je_mentions := je_mentions pending, je_onBehalfOf := je_onBehalfOf pending\<rparr>"

definition report_append_begin ::
  "int \<Rightarrow> str \<Rightarrow> Report \<Rightarrow> Report option \<Rightarrow> Report option \<times> Report option" where
  "report_append_begin now author report cache =
     ((case (rep_journalEntries report, cache) of
         (pending # _, Some r) \<Rightarrow>
           Some (r\<lparr>rep_journalEntries := rep_journalEntries r @ [optimistic_report_entry now author pending]\<rparr>)
       | _ \<Rightarrow> cache), cache)"

section \<open>The composers\<close>

text \<open>\<open>matches\<close> of the typeahead: asked from two characters on, of the trimmed query.\<close>

definition mention_asked :: "str \<Rightarrow> str option" where
  "mention_asked query = (if MENTION_QUERY_MIN \<le> length (trim query) then Some (trim query) else None)"

definition mentionSearch :: "(str \<Rightarrow> Person list option) \<Rightarrow> str \<Rightarrow> Person list" where
  "mentionSearch answers query =
     (case mention_asked query of None \<Rightarrow> [] | Some q \<Rightarrow> nullish (answers q) [])"

definition personPickLabel :: "Person \<Rightarrow> str" where
  "personPickLabel person =
     or_str (p_handle person) (or_str (p_name person) (lit ''Person #'' @ show_int (p_personId person)))"

record 'p composer =
  co_draft :: draft_hook
  co_caret :: nat
  co_picked :: "Picked list"
  co_error :: "AppError option"
  co_sending :: bool
  co_photo :: "'p PendingPhoto option"

definition co_text :: "'p composer \<Rightarrow> str" where
  "co_text s = dr_text (dh_draft (co_draft s))"

definition co_type :: "str \<Rightarrow> nat \<Rightarrow> 'p composer \<Rightarrow> 'p composer" where
  "co_type text caret s =
     s\<lparr>co_draft := draft_update \<lparr>dp_summary = None, dp_text = Some text, dp_onBehalfOf = None\<rparr> (co_draft s),
       co_caret := caret\<rparr>"

definition suggestions :: "(str \<Rightarrow> Person list option) \<Rightarrow> 'p composer \<Rightarrow> Person list" where
  "suggestions answers s =
     (case mentionQuery (co_text s) (co_caret s) of
        None \<Rightarrow> []
      | Some (_, query) \<Rightarrow> take 5 (mentionSearch answers query))"

definition co_pick :: "Person \<Rightarrow> 'p composer \<Rightarrow> 'p composer" where
  "co_pick person s =
     (let token = tokenFor person; (text, caret) = insertMention (co_text s) (co_caret s) token
      in (co_type text caret s)\<lparr>co_picked := co_picked s @ [\<lparr>pi_personId = p_personId person, pi_token = token\<rparr>]\<rparr>)"

definition canSend :: "'p composer \<Rightarrow> bool" where
  "canSend s \<longleftrightarrow> trim (co_text s) \<noteq> [] \<or> co_photo s \<noteq> None"

text \<open>
  One press of Send: what it waits for first, with the photo it will upload, and \<open>entry_for\<close> the
  entry of this composer. A press while a send runs does nothing: the button is inactive.
\<close>

datatype ('e, 'p) send_stage = PostEntry 'e "'p PendingPhoto option" | UploadPhoto "'p PendingPhoto option"

definition send_begin ::
  "(str \<Rightarrow> int list \<Rightarrow> 'e) \<Rightarrow> 'p composer \<Rightarrow> 'p composer \<times> ('e, 'p) send_stage option" where
  "send_begin entry_for s =
     (let trimmed = trim (co_text s)
      in if co_sending s \<or> trimmed = [] \<and> co_photo s = None then (s, None)
         else (s\<lparr>co_error := None, co_sending := True\<rparr>,
           Some (if trimmed \<noteq> [] then PostEntry (entry_for trimmed (mentionedIds trimmed (co_picked s))) (co_photo s)
                 else UploadPhoto (co_photo s))))"

definition entryInput :: "str \<Rightarrow> int list \<Rightarrow> EntryInput" where
  "entryInput text ids = \<lparr>en_text = text, en_mentionIds = ids\<rparr>"

definition reportEntryInput :: "(int \<times> str) option \<Rightarrow> str \<Rightarrow> int list \<Rightarrow> ReportEntryInput" where
  "reportEntryInput pick text ids =
     \<lparr>en_text = text, en_mentionIds = ids, en_onBehalfOfId = map_option fst pick\<rparr>"

definition send_posted ::
  "codec \<Rightarrow> int \<Rightarrow> DraftTarget \<Rightarrow> thrown option \<Rightarrow> 'p composer \<Rightarrow> 'p composer" where
  "send_posted c eventId target failure s =
     (case failure of
        Some e \<Rightarrow> s\<lparr>co_error := Some (toAppError e), co_sending := False\<rparr>
      | None \<Rightarrow> s\<lparr>co_picked := [], co_draft := draft_clear c eventId target (co_draft s)\<rparr>)"

definition send_photo ::
  "owner_kind \<Rightarrow> int \<Rightarrow> 'p PendingPhoto option \<Rightarrow> rat list \<Rightarrow> thrown option \<Rightarrow> 'p composer \<Rightarrow> 'p composer" where
  "send_photo kind number pending fractions failure s =
     (let states = fst (photo_upload kind number pending fractions failure)
      in s\<lparr>co_photo := (if pending = None then co_photo s else last states), co_sending := False\<rparr>)"

text \<open>\<open>sticky.pick.label.split(" ")[0]\<close>.\<close>

definition sendLabel :: "(int \<times> str) option \<Rightarrow> str" where
  "sendLabel pick =
     (case pick of
        None \<Rightarrow> lit ''Send''
      | Some (_, label) \<Rightarrow> lit ''Send for '' @ takeWhile (\<lambda>c. c \<noteq> 32) label)"

section \<open>The choice on behalf of\<close>

text \<open>The module's map, and the hook's state that shadows it on one screen.\<close>

definition pick_set ::
  "int \<Rightarrow> (int \<times> str) option \<Rightarrow> (int \<rightharpoonup> int \<times> str) \<Rightarrow> (int \<rightharpoonup> int \<times> str) \<times> (int \<times> str) option" where
  "pick_set eventId pick byEvent = (byEvent(eventId := pick), pick)"

definition ownReportCount :: "SessionState \<Rightarrow> ReportView list option \<Rightarrow> nat option" where
  "ownReportCount state reports =
     (let me = (case state of SSignedIn auth \<Rightarrow> auth_personId auth | _ \<Rightarrow> 0)
      in map_option (\<lambda>vs. length (filter (\<lambda>v.
           map_option ref_personId (Option.bind (rv_report v) rep_createdBy) = Some me) vs)) reports)"

section \<open>Properties\<close>

lemma timeOf_optimistic: "timeOf (optimistic_entry now author pending) = now * 1000000"
proof -
  have "now div 1000 * 1000000000 + now mod 1000 * 1000000 = (now div 1000 * 1000 + now mod 1000) * 1000000"
    by algebra
  then show ?thesis
    by (simp add: timeOf_def optimistic_entry_def timestampFromMs_def)
qed

text \<open>
  An appended entry shows at once and a refused one is gone. From the press on, the journal is what it
  was with the entry added as its newest row, under the author's name, with the trimmed text and the
  mentions, its id none the server gives; an error puts the cached incident back as it was before the
  press, whatever came in between.
\<close>

theorem append_shows_at_once:
  assumes "append_begin now author (appendUpdate entry) (Some i) = (cache, previous)"
    and "\<forall>item \<in> set (journal (Some i) reads). timeOf (ji_entry item) < now * 1000000"
    and "0 < now"
  shows "\<exists>i1 e. cache = Some i1 \<and> je_id e < 0 \<and> je_author e = author \<and> je_text e = trim (en_text entry) \<and>
    map ref_personId (je_mentions e) = en_mentionIds entry \<and>
    showJournal on mayStrike sys (journal (Some i1) reads) =
      journalRow on mayStrike \<lparr>ji_entry = e, ji_report = None\<rparr> #
      showJournal on mayStrike sys (journal (Some i) reads) \<and>
    append_failed previous later = Some i"
proof -
  define e where "e = optimistic_entry now author (entryOf entry)"
  define i1 where "i1 = i\<lparr>inc_journalEntries := inc_journalEntries i @ [e]\<rparr>"
  let ?item = "\<lparr>ji_entry = e, ji_report = None\<rparr>"
  let ?attached = "concat (map (attached_items reads) (inc_reports i))"
  have begun: "cache = Some i1" "previous = Some i"
    using assms(1) by (auto simp: append_begin_def appendUpdate_def i1_def e_def)
  have older: "item_cmp item ?item < 0" if "item \<in> set (own_items (Some i)) \<union> set ?attached" for item
    using assms(2) that by (auto simp: journal_def item_cmp_def e_def timeOf_optimistic)
  have "journal (Some i1) reads = js_sort item_cmp (own_items (Some i) @ ?item # ?attached)"
    by (simp add: journal_def i1_def)
  also have "\<dots> = js_sort item_cmp (own_items (Some i) @ ?attached) @ [?item]"
    using older by (intro item_order.js_sort_last) (force simp: item_cmp_def)+
  finally have "journal (Some i1) reads = journal (Some i) reads @ [?item]" by (simp add: journal_def)
  then have "showJournal on mayStrike sys (journal (Some i1) reads) =
      journalRow on mayStrike ?item # showJournal on mayStrike sys (journal (Some i) reads)"
    by (simp add: showJournal_def ordered_def e_def optimistic_entry_def blank_entry_def)
  moreover have "je_id e < 0" "je_author e = author" "je_text e = trim (en_text entry)"
    "map ref_personId (je_mentions e) = en_mentionIds entry"
    using assms(3) by (simp_all add: e_def optimistic_entry_def entryOf_def o_def bare_ref_def)
  ultimately show ?thesis using begun by (auto simp: append_failed_def)
qed

lemma append_shows_at_once_witness:
  "\<exists>i1 e. fst (append_begin 1000 (lit ''Cat'') (appendUpdate (entryInput (lit '' hi '') [4]))
        (Some (blank_incident\<lparr>inc_journalEntries := [entry_at 7 0]\<rparr>))) = Some i1 \<and>
     showJournal \<lparr>ao_kind = OnIncident, ao_number = 3\<rparr> True True (journal (Some i1) (\<lambda>_. None)) =
       journalRow \<lparr>ao_kind = OnIncident, ao_number = 3\<rparr> True \<lparr>ji_entry = e, ji_report = None\<rparr> #
       showJournal \<lparr>ao_kind = OnIncident, ao_number = 3\<rparr> True True
         (journal (Some (blank_incident\<lparr>inc_journalEntries := [entry_at 7 0]\<rparr>)) (\<lambda>_. None)) \<and>
     je_text e = lit ''hi''"
proof -
  let ?i = "blank_incident\<lparr>inc_journalEntries := [entry_at 7 0]\<rparr>"
  obtain cache previous where run: "append_begin 1000 (lit ''Cat'')
      (appendUpdate (entryInput (lit '' hi '') [4])) (Some ?i) = (cache, previous)"
    by (cases "append_begin 1000 (lit ''Cat'') (appendUpdate (entryInput (lit '' hi '') [4])) (Some ?i)")
  have "\<forall>item \<in> set (journal (Some ?i) (\<lambda>_. None)). timeOf (ji_entry item) < 1000 * 1000000"
    by (auto simp: journal_def own_items_def entry_at_def timeOf_def blank_incident_def attached_items_def)
  from append_shows_at_once [OF run this, where on = "\<lparr>ao_kind = OnIncident, ao_number = 3\<rparr>"
      and mayStrike = True and sys = True and later = None]
  show ?thesis unfolding run fst_conv by (auto simp: entryInput_def trim_def is_ws_def)
qed


text \<open>
  What is typed while a post is in flight is not part of it, and is dropped when it lands: the draft is
  cleared as a whole.
\<close>

lemma typed_while_sending_is_lost:
  "co_text (send_posted c event target None (co_type text caret s)) = []"
  by (simp add: send_posted_def co_text_def draft_clear_def empty_draft_def)

definition sample_composer :: "str composer" where
  "sample_composer =
     \<lparr>co_draft = draft_update \<lparr>dp_summary = None, dp_text = Some (lit ''hi''), dp_onBehalfOf = None\<rparr>
        (draft_mount numbered_codec 4 (TIncident 3) empty_draft Map.empty),
      co_caret = 2, co_picked = [], co_error = None, co_sending = False,
      co_photo = photo_pick (lit ''a.jpg'')\<rparr>"


end
