(* ===== verification/Filing.thy ===== *)
theory Filing
  imports Append
begin

text \<open>
  The two filing forms, \<open>features/compose/NewIncidentScreen.tsx\<close> and \<open>NewReportScreen.tsx\<close>, without
  their layout: the fields, a press of the button up to its request, what the answer does, and, for an
  incident, the photo that is uploaded to the new number. A function that awaits is cut at its await;
  what it captured before is kept in the state. The incident form is also a step relation, with the
  requests sent, the numbers the server answered and the calls of \<open>onFiled\<close> recorded.
\<close>

section \<open>The incident form\<close>

definition SUMMARY_MAX :: nat where
  "SUMMARY_MAX = 1024"

record 'p incident_form =
  nf_draft :: draft_hook
  nf_priority :: IncidentPriority
  nf_typeIds :: "int list"
  nf_areaSlug :: "str option"
  nf_description :: str
  nf_booth :: str
  nf_picked :: "Picked list"
  nf_summaryError :: "str option"
  nf_formError :: "AppError option"
  nf_photo :: "'p PendingPhoto option"
  nf_filedWithoutPhoto :: "int option"
  nf_filing :: "'p PendingPhoto option option"
  nf_uploading :: "(int \<times> 'p PendingPhoto) option"
  nf_requests :: "CreateIncidentRequest list"
  nf_created :: "int list"
  nf_filed :: "int list"

text \<open>
  \<open>nf_filing\<close> says that the mutation is pending and holds the photo of the render that was pressed;
  \<open>nf_uploading\<close> holds the number and the photo of the upload that runs.
\<close>

definition summary_text :: "draft_hook \<Rightarrow> str" where
  "summary_text d = nullish (dr_summary (dh_draft d)) []"

definition new_incident_form ::
  "codec \<Rightarrow> int \<Rightarrow> str option \<Rightarrow> device \<Rightarrow> 'p incident_form" where
  "new_incident_form c eventId initialSummary device =
     \<lparr>nf_draft = draft_mount c eventId TNew
         \<lparr>dr_summary = Some (nullish initialSummary []), dr_text = [], dr_onBehalfOf = None\<rparr> device,
      nf_priority = PRIORITY_NORMAL, nf_typeIds = [], nf_areaSlug = None, nf_description = [], nf_booth = [],
      nf_picked = [], nf_summaryError = None, nf_formError = None, nf_photo = None,
      nf_filedWithoutPhoto = None, nf_filing = None, nf_uploading = None,
      nf_requests = [], nf_created = [], nf_filed = []\<rparr>"

definition toggle_type :: "int \<Rightarrow> int list \<Rightarrow> int list" where
  "toggle_type i ids = (if i \<in> set ids then filter (\<lambda>x. x \<noteq> i) ids else ids @ [i])"

definition summary_problem :: "str \<Rightarrow> str \<Rightarrow> str option" where
  "summary_problem blank summary =
     (if trim summary = [] then Some blank
      else if length (trim summary) > SUMMARY_MAX
        then Some (lit ''Keep it under '' @ show_int (int SUMMARY_MAX) @ lit '' characters.'')
      else None)"

definition incident_form_of :: "int option \<Rightarrow> 'p incident_form \<Rightarrow> IncidentForm" where
  "incident_form_of reportNumber s =
     (let text = dr_text (dh_draft (nf_draft s))
      in \<lparr>fo_summary = summary_text (nf_draft s), fo_priority = nf_priority s, fo_typeIds = nf_typeIds s,
          fo_areaSlug = nf_areaSlug s, fo_description = nf_description s, fo_booth = nf_booth s,
          fo_entry = (if trim text \<noteq> [] then Some (entryInput text (mentionedIds text (nf_picked s))) else None),
          fo_reportNumbers = (case reportNumber of
              None \<Rightarrow> None | Some n \<Rightarrow> if n = 0 then None else Some [n])\<rparr>)"

definition file_begin :: "int \<Rightarrow> int option \<Rightarrow> 'p incident_form \<Rightarrow> 'p incident_form" where
  "file_begin eventId reportNumber s =
     (let s1 = s\<lparr>nf_summaryError := None, nf_formError := None\<rparr>
      in case summary_problem (lit ''Say what it is, in one line.'') (summary_text (nf_draft s)) of
           Some problem \<Rightarrow> s1\<lparr>nf_summaryError := Some problem\<rparr>
         | None \<Rightarrow> s1\<lparr>nf_filing := Some (nf_photo s),
             nf_requests := nf_requests s @ [fileRequest eventId (incident_form_of reportNumber s)]\<rparr>)"

definition summary_violation :: "AppError \<Rightarrow> FieldViolation option" where
  "summary_violation error = List.find (\<lambda>v. ends_with (fv_field v) (lit ''summary'')) (ae_violations error)"

definition file_answered ::
  "codec \<Rightarrow> int \<Rightarrow> thrown + int \<Rightarrow> 'p incident_form \<Rightarrow> 'p incident_form" where
  "file_answered c eventId answer s =
     (case nf_filing s of
        None \<Rightarrow> s
      | Some photo \<Rightarrow>
          (let s1 = s\<lparr>nf_filing := None\<rparr>
           in case answer of
                Inl e \<Rightarrow>
                  (let error = toAppError e
                   in case (ae_kind error = KInvalid, summary_violation error) of
                        (True, Some violation) \<Rightarrow> s1\<lparr>nf_summaryError := Some (fv_message violation)\<rparr>
                      | _ \<Rightarrow> s1\<lparr>nf_formError := Some error\<rparr>)
              | Inr number \<Rightarrow>
                  (let s2 = s1\<lparr>nf_draft := draft_clear c eventId TNew (nf_draft s), nf_created := nf_created s @ [number]\<rparr>
                   in case photo of
                        None \<Rightarrow> s2\<lparr>nf_filed := nf_filed s @ [number]\<rparr>
                      | Some p \<Rightarrow> s2\<lparr>nf_uploading := Some (number, p), nf_photo := photo_progress (pp_photo p) 0\<rparr>)))"

text \<open>The end of an upload, of the first one and of a retry: \<open>retry\<close> keeps the form on a failure.\<close>

definition photo_ended ::
  "rat list \<Rightarrow> thrown option \<Rightarrow> 'p incident_form \<Rightarrow> 'p incident_form" where
  "photo_ended fractions failure s =
     (case nf_uploading s of
        None \<Rightarrow> s
      | Some (number, p) \<Rightarrow>
          (let (states, landed, _) = photo_upload OnIncident number (Some p) fractions failure;
               s1 = s\<lparr>nf_uploading := None, nf_photo := last states\<rparr>
           in if landed then s1\<lparr>nf_filed := nf_filed s @ [number]\<rparr>
              else s1\<lparr>nf_filedWithoutPhoto := Some number\<rparr>))"

text \<open>A retry after the photo was taken out has nothing to upload and succeeds.\<close>

definition retryPhoto :: "'p incident_form \<Rightarrow> 'p incident_form" where
  "retryPhoto s =
     (case (nf_filedWithoutPhoto s, nf_photo s) of
        (None, _) \<Rightarrow> s
      | (Some number, None) \<Rightarrow> s\<lparr>nf_filed := nf_filed s @ [number]\<rparr>
      | (Some number, Some p) \<Rightarrow>
          s\<lparr>nf_uploading := Some (number, p), nf_photo := photo_progress (pp_photo p) 0\<rparr>)"

definition continue_without :: "'p incident_form \<Rightarrow> 'p incident_form" where
  "continue_without s =
     (case nf_filedWithoutPhoto s of None \<Rightarrow> s | Some number \<Rightarrow> s\<lparr>nf_filed := nf_filed s @ [number]\<rparr>)"

text \<open>What the screen offers: an inactive button cannot be pressed.\<close>

definition file_active :: "'p incident_form \<Rightarrow> bool" where
  "file_active s \<longleftrightarrow> nf_filing s = None \<and> nf_uploading s = None \<and> nf_filedWithoutPhoto s = None"

definition photo_failed :: "'p PendingPhoto \<Rightarrow> bool" where
  "photo_failed p \<longleftrightarrow> nonempty (pp_error p) \<noteq> None"

definition retry_shown :: "'p incident_form \<Rightarrow> bool" where
  "retry_shown s \<longleftrightarrow> (case nf_photo s of None \<Rightarrow> False | Some p \<Rightarrow> photo_failed p)"

definition photo_add_active :: "'p incident_form \<Rightarrow> bool" where
  "photo_add_active s \<longleftrightarrow> nf_photo s = None \<and> nf_filing s = None \<and> nf_uploading s = None"

definition photo_remove_shown :: "'p incident_form \<Rightarrow> bool" where
  "photo_remove_shown s \<longleftrightarrow>
     (case nf_photo s of None \<Rightarrow> False | Some p \<Rightarrow> pp_progress p = None \<or> photo_failed p)"

text \<open>
  The steps of a form. \<open>onFiled\<close> replaces it by the incident's page, so that nothing can be pressed after
  it; what runs then goes on. The fields are free to change at any time, also while a request runs.
\<close>

inductive form_step :: "codec \<Rightarrow> int \<Rightarrow> int option \<Rightarrow> 'p incident_form \<Rightarrow> 'p incident_form \<Rightarrow> bool"
  for c eventId reportNumber
where
  typed: "nf_filed s = [] \<Longrightarrow> form_step c eventId reportNumber s (s\<lparr>nf_draft := draft_update patch (nf_draft s)\<rparr>)"
| restored: "nf_filed s = [] \<Longrightarrow> form_step c eventId reportNumber s (s\<lparr>nf_draft := draft_loaded (nf_draft s)\<rparr>)"
| chosen: "nf_filed s = [] \<Longrightarrow> form_step c eventId reportNumber s
    (s\<lparr>nf_priority := p, nf_typeIds := ids, nf_areaSlug := a, nf_description := d, nf_booth := b, nf_picked := ms\<rparr>)"
| photo: "nf_filed s = [] \<Longrightarrow> photo_add_active s \<Longrightarrow>
    form_step c eventId reportNumber s (s\<lparr>nf_photo := photo_pick q\<rparr>)"
| no_photo: "nf_filed s = [] \<Longrightarrow> photo_remove_shown s \<Longrightarrow>
    form_step c eventId reportNumber s (s\<lparr>nf_photo := None\<rparr>)"
| pressed: "nf_filed s = [] \<Longrightarrow> file_active s \<Longrightarrow> form_step c eventId reportNumber s (file_begin eventId reportNumber s)"
| answered: "form_step c eventId reportNumber s (file_answered c eventId answer s)"
| uploaded: "form_step c eventId reportNumber s (photo_ended fractions failure s)"
| retried: "nf_filed s = [] \<Longrightarrow> retry_shown s \<Longrightarrow> form_step c eventId reportNumber s (retryPhoto s)"
| continued: "nf_filed s = [] \<Longrightarrow> form_step c eventId reportNumber s (continue_without s)"

definition request_ok :: "CreateIncidentRequest \<Rightarrow> bool" where
  "request_ok q \<longleftrightarrow>
     (\<exists>t. up_summary (cir_incident q) = Some t \<and> t \<noteq> [] \<and> length t \<le> SUMMARY_MAX) \<and>
     length (up_journalEntries (cir_incident q)) \<le> 1 \<and>
     (\<forall>e \<in> set (up_journalEntries (cir_incident q)). nj_text e \<noteq> [])"

definition form_inv :: "'p incident_form \<Rightarrow> bool" where
  "form_inv s \<longleftrightarrow>
     (\<forall>q \<in> set (nf_requests s). request_ok q) \<and>
     (case nf_created s of
        [] \<Rightarrow> nf_filed s = [] \<and> nf_uploading s = None \<and> nf_filedWithoutPhoto s = None
      | n # ns \<Rightarrow> ns = [] \<and> nf_filing s = None \<and> set (nf_filed s) \<subseteq> {n} \<and>
          (nf_uploading s = None \<or> (\<exists>p. nf_uploading s = Some (n, p))) \<and>
          (nf_filedWithoutPhoto s = None \<or> nf_filedWithoutPhoto s = Some n) \<and>
          (nf_filed s = [] \<longrightarrow> nf_uploading s \<noteq> None \<or> nf_filedWithoutPhoto s = Some n))"

lemma form_inv_cong:
  "form_inv s \<Longrightarrow> nf_requests t = nf_requests s \<Longrightarrow> nf_created t = nf_created s \<Longrightarrow> nf_filed t = nf_filed s \<Longrightarrow>
   nf_uploading t = nf_uploading s \<Longrightarrow> nf_filedWithoutPhoto t = nf_filedWithoutPhoto s \<Longrightarrow>
   nf_filing t = nf_filing s \<or> nf_filing t = None \<Longrightarrow> form_inv t"
  by (auto simp: form_inv_def split: list.splits)

lemma filed_request_ok:
  "summary_problem b (summary_text (nf_draft s)) = None \<Longrightarrow>
   request_ok (fileRequest e (incident_form_of r s))"
  by (auto simp: request_ok_def fileRequest_def incident_form_of_def unless_empty_def summary_problem_def
      entryOf_def entryInput_def Let_def split: if_splits)

lemma inv_pressed:
  assumes "form_inv s" and "nf_filed s = []" and "file_active s"
  shows "form_inv (file_begin e r s)"
proof -
  have "nf_created s = []"
    using assms by (auto simp: form_inv_def file_active_def split: list.splits)
  with assms show ?thesis
    by (auto simp: file_begin_def Let_def form_inv_def filed_request_ok split: option.split)
qed

lemma inv_answered: "form_inv s \<Longrightarrow> form_inv (file_answered c e answer s)"
proof (cases "nf_filing s")
  case (Some photo)
  assume inv: "form_inv s"
  with Some have none: "nf_created s = []" by (auto simp: form_inv_def split: list.splits)
  show ?thesis
  proof (cases answer)
    case (Inl err)
    then show ?thesis
      using inv Some
      by (auto simp: file_answered_def Let_def split: option.split bool.split intro!: form_inv_cong [OF inv])
  next
    case (Inr n)
    then show ?thesis
      using inv Some none by (cases photo) (simp_all add: file_answered_def Let_def form_inv_def)
  qed
qed (simp add: file_answered_def)

lemma inv_ended: "form_inv s \<Longrightarrow> form_inv (photo_ended fractions failure s)"
  by (cases failure)
    (auto simp: photo_ended_def photo_upload_def Let_def form_inv_def split: option.splits list.splits)

lemma inv_retry: "form_inv s \<Longrightarrow> form_inv (retryPhoto s)"
  by (auto simp: retryPhoto_def form_inv_def split: option.splits list.splits)

lemma inv_continue: "form_inv s \<Longrightarrow> form_inv (continue_without s)"
  by (auto simp: continue_without_def form_inv_def split: option.splits list.splits)

lemma inv_form_step: "form_step c e r s t \<Longrightarrow> form_inv s \<Longrightarrow> form_inv t"
proof (induction rule: form_step.induct)
  case (pressed s)
  then show ?case by (intro inv_pressed)
qed (simp_all add: inv_answered inv_ended inv_retry inv_continue, auto simp: form_inv_def split: list.split)

lemma requests_after_created:
  assumes "form_step c e r s t" and "form_inv s" and "nf_created s \<noteq> []"
  shows "nf_requests t = nf_requests s"
  using assms
proof (induction rule: form_step.induct)
  case (pressed s)
  then show ?case by (auto simp: form_inv_def file_active_def split: list.splits)
next
  case (answered s answer)
  then show ?case by (auto simp: form_inv_def file_answered_def split: list.splits)
qed (auto simp: photo_ended_def photo_upload_def retryPhoto_def continue_without_def Let_def split: option.splits)



text \<open>
  A press on "Continue without it" leaves the form; a retry that was running goes on, and when it lands it
  opens the incident's page once more, wherever the user is by then.
\<close>

lemma late_retry_opens_again:
  assumes "nf_filedWithoutPhoto s = Some n" and "nf_photo s = Some p" and "nf_filed s = []"
  shows "nf_filed (continue_without (retryPhoto s)) = [n] \<and>
    nf_filed (photo_ended fractions None (continue_without (retryPhoto s))) = [n, n]"
  using assms by (simp add: retryPhoto_def continue_without_def photo_ended_def photo_upload_def Let_def)

text \<open>A photo that is removed while the request runs is uploaded all the same: the press had captured it.\<close>

lemma removed_photo_is_uploaded:
  assumes "summary_problem (lit ''Say what it is, in one line.'') (summary_text (nf_draft s)) = None"
    and "nf_photo s = Some p" and "pp_progress p = None"
  shows "photo_remove_shown (file_begin e r s) \<and>
    nf_uploading (file_answered c e (Inr n) ((file_begin e r s)\<lparr>nf_photo := None\<rparr>)) = Some (n, p)"
  using assms by (simp add: file_begin_def file_answered_def photo_remove_shown_def Let_def)

text \<open>
  The limit counts UTF-16 units where the server counts code points: a summary of 600 emoji is refused
  by the form.
\<close>

definition emoji :: "nat \<Rightarrow> str" where
  "emoji n = concat (replicate n [55357, 56832])"

lemma emoji_points: "code_points (emoji n) = Some (replicate n 128512)"
  by (induction n) (simp_all add: emoji_def)

lemma limit_counts_units:
  "summary_problem blank (emoji 600) \<noteq> None \<and> length (the (code_points (emoji 600))) \<le> SUMMARY_MAX"
proof -
  have rep: "emoji (Suc n) = 55357 # 56832 # emoji n" for n by (simp add: emoji_def)
  have snoc: "emoji (Suc n) = emoji n @ [55357, 56832]" for n
    by (induction n) (simp_all add: emoji_def)
  have "trim (emoji (Suc n)) = emoji (Suc n)" for n
  proof -
    have "dropWhile is_ws (emoji (Suc n)) = emoji (Suc n)" by (simp add: rep is_ws_def)
    then show ?thesis by (simp add: trim_def) (simp add: snoc is_ws_def)
  qed
  from this [of 599] have trim: "trim (emoji 600) = emoji 600" by simp
  have "length (emoji n) = 2 * n" for n by (induction n) (simp_all add: emoji_def)
  with trim show ?thesis by (auto simp: summary_problem_def SUMMARY_MAX_def emoji_points)
qed

section \<open>The report form\<close>

record report_form =
  wr_draft :: draft_hook
  wr_sticky :: "(int \<times> str) option"
  wr_touched :: bool
  wr_picked :: "Picked list"
  wr_incidentText :: str
  wr_summaryError :: "str option"
  wr_incidentError :: "str option"
  wr_formError :: "AppError option"
  wr_pending :: "int option option"
  wr_requests :: "CreateReportRequest list"
  wr_filed :: "int list"

text \<open>\<open>wr_pending\<close> is the pending mutation, with the link it was sent with.\<close>

definition onBehalfOf :: "report_form \<Rightarrow> (int \<times> str) option" where
  "onBehalfOf s =
     (if wr_touched s \<or> dr_onBehalfOf (dh_draft (wr_draft s)) = None then wr_sticky s
      else dr_onBehalfOf (dh_draft (wr_draft s)))"

definition pick_person :: "Person option \<Rightarrow> report_form \<Rightarrow> report_form" where
  "pick_person person s =
     (let pick = map_option (\<lambda>p. (p_personId p, personPickLabel p)) person
      in s\<lparr>wr_touched := True, wr_sticky := pick,
           wr_draft := draft_update \<lparr>dp_summary = None, dp_text = None, dp_onBehalfOf = Some pick\<rparr> (wr_draft s)\<rparr>)"

datatype linked = NoLink | LinkTo int | NotANumber

definition linkedIncident :: "int option \<Rightarrow> str \<Rightarrow> linked" where
  "linkedIncident incident text =
     (if incident \<noteq> None \<and> incident \<noteq> Some 0 then LinkTo (the incident)
      else (let trimmed = trim text
            in if trimmed = [] then NoLink
               else (case parse_int trimmed of
                       None \<Rightarrow> NotANumber
                     | Some n \<Rightarrow> if num_finite n \<and> n > 0 \<and> show_int n = trimmed then LinkTo n else NotANumber)))"

definition link_number :: "linked \<Rightarrow> int option" where
  "link_number l = (case l of LinkTo n \<Rightarrow> Some n | _ \<Rightarrow> None)"

definition report_form_of :: "int option \<Rightarrow> report_form \<Rightarrow> ReportForm" where
  "report_form_of link s =
     (let text = dr_text (dh_draft (wr_draft s))
      in \<lparr>rfo_summary = summary_text (wr_draft s), rfo_incident = link,
          rfo_entry = (if trim text \<noteq> []
             then Some (reportEntryInput (onBehalfOf s) text (mentionedIds text (wr_picked s))) else None)\<rparr>)"

definition report_file_begin :: "int \<Rightarrow> int option \<Rightarrow> report_form \<Rightarrow> report_form" where
  "report_file_begin eventId incident s =
     (let s1 = s\<lparr>wr_summaryError := None, wr_incidentError := None, wr_formError := None\<rparr>
      in case summary_problem (lit ''Say what it is about, in one line.'') (summary_text (wr_draft s)) of
           Some problem \<Rightarrow> s1\<lparr>wr_summaryError := Some problem\<rparr>
         | None \<Rightarrow>
             (let link = linkedIncident incident (wr_incidentText s)
              in if link = NotANumber then s1\<lparr>wr_incidentError := Some (lit ''An incident number, like 214.'')\<rparr>
                 else s1\<lparr>wr_pending := Some (link_number link),
                   wr_requests := wr_requests s @ [reportRequest eventId (report_form_of (link_number link) s)]\<rparr>))"

definition report_file_answered ::
  "codec \<Rightarrow> int \<Rightarrow> thrown + int \<Rightarrow> report_form \<Rightarrow> report_form" where
  "report_file_answered c eventId answer s =
     (case wr_pending s of
        None \<Rightarrow> s
      | Some link \<Rightarrow>
          (let s1 = s\<lparr>wr_pending := None\<rparr>
           in case answer of
                Inr number \<Rightarrow>
                  s1\<lparr>wr_draft := draft_clear c eventId TReportNew (wr_draft s), wr_filed := wr_filed s @ [number]\<rparr>
              | Inl e \<Rightarrow>
                  (let error = toAppError e
                   in if ae_kind error = KNotFound \<and> link \<noteq> None \<and> link \<noteq> Some 0
                      then s1\<lparr>wr_incidentError := Some (lit ''There's no incident #'' @ show_int (the link) @ lit '' in this event.'')\<rparr>
                      else (case (ae_kind error = KInvalid, summary_violation error) of
                              (True, Some violation) \<Rightarrow> s1\<lparr>wr_summaryError := Some (fv_message violation)\<rparr>
                            | _ \<Rightarrow> s1\<lparr>wr_formError := Some error\<rparr>))))"

lemma report_refused:
  assumes "wr_pending s = Some link" and "wr_summaryError s = None" and "wr_incidentError s = None"
    and "wr_formError s = None"
  shows "let s2 = report_file_answered c e (Inl err) s in
    wr_draft s2 = wr_draft s \<and> wr_filed s2 = wr_filed s \<and> wr_pending s2 = None \<and>
    length (filter id [wr_summaryError s2 \<noteq> None, wr_incidentError s2 \<noteq> None, wr_formError s2 \<noteq> None]) = 1"
proof (cases "ae_kind (toAppError err) = KNotFound \<and> link \<noteq> None \<and> link \<noteq> Some 0")
  case True
  then show ?thesis using assms by (simp add: report_file_answered_def Let_def)
next
  case False
  then show ?thesis
    using assms
    by (cases "summary_violation (toAppError err)"; cases "ae_kind (toAppError err) = KInvalid")
      (simp_all add: report_file_answered_def Let_def)
qed

lemma sent_summary:
  assumes "summary_problem blank (summary_text (wr_draft s)) = None"
  shows "trim (summary_text (wr_draft s)) \<noteq> [] \<and> length (trim (summary_text (wr_draft s))) \<le> SUMMARY_MAX \<and>
    rep_summary (crr_report (reportRequest e (report_form_of link s))) = Some (trim (summary_text (wr_draft s)))"
  using assms
  by (simp add: summary_problem_def reportRequest_def report_form_of_def unless_empty_def Let_def split: if_splits)

text \<open>
  The report form files what it shows or says what is wrong. A link is read exactly when the text is
  the decimal numeral of a positive number, up to white space, or the form was opened for an incident;
  a press sends one request with the trimmed summary, that link and the entry on behalf of whom the form
  shows, or none and one message. A refusal keeps the draft and puts its words in one place: at the
  incident when it was not found, at the summary when that was invalid, and at the form otherwise.
\<close>

theorem report_form_files_what_it_shows:
  assumes "wr_pending s = None"
  shows "(linkedIncident incident text = LinkTo n \<longleftrightarrow>
      (if incident \<noteq> None \<and> incident \<noteq> Some 0 then incident = Some n
       else 0 < n \<and> num_finite n \<and> trim text = show_int n)) \<and>
    (let s1 = report_file_begin e incident s; link = link_number (linkedIncident incident (wr_incidentText s)) in
       case wr_pending s1 of
         None \<Rightarrow> wr_requests s1 = wr_requests s \<and> (wr_summaryError s1 = None) \<noteq> (wr_incidentError s1 = None) \<and>
           wr_formError s1 = None
       | Some l \<Rightarrow> l = link \<and> wr_summaryError s1 = None \<and> wr_incidentError s1 = None \<and> wr_formError s1 = None \<and>
           wr_requests s1 = wr_requests s @ [reportRequest e (report_form_of link s)] \<and>
           (\<exists>sum. sum = trim (summary_text (wr_draft s)) \<and> sum \<noteq> [] \<and> length sum \<le> SUMMARY_MAX \<and>
              rep_summary (crr_report (reportRequest e (report_form_of link s))) = Some sum) \<and>
           (let s2 = report_file_answered c e (Inl err) s1 in
              wr_draft s2 = wr_draft s \<and> wr_filed s2 = wr_filed s \<and> wr_pending s2 = None \<and>
              length (filter id [wr_summaryError s2 \<noteq> None, wr_incidentError s2 \<noteq> None, wr_formError s2 \<noteq> None]) = 1))"
proof (rule conjI, goal_cases)
  case 1
  have "[] \<noteq> show_int n" using show_int_nonempty [of n] by metis
  then show ?case by (auto simp: linkedIncident_def Let_def split: option.splits)
next
  case 2
  show ?case
  proof (cases "summary_problem (lit ''Say what it is about, in one line.'') (summary_text (wr_draft s))")
    case (Some problem)
    then show ?thesis using assms by (simp add: report_file_begin_def Let_def)
  next
    case None
    note sent = None
    show ?thesis
    proof (cases "linkedIncident incident (wr_incidentText s) = NotANumber")
      case True
      with sent show ?thesis using assms by (simp add: report_file_begin_def Let_def)
    next
      case False
      with sent have s1: "report_file_begin e incident s =
          s\<lparr>wr_summaryError := None, wr_incidentError := None, wr_formError := None,
            wr_pending := Some (link_number (linkedIncident incident (wr_incidentText s))),
            wr_requests := wr_requests s @ [reportRequest e (report_form_of
              (link_number (linkedIncident incident (wr_incidentText s))) s)]\<rparr>"
        by (simp add: report_file_begin_def Let_def)
      show ?thesis
        unfolding s1 Let_def using report_refused [of _ _ c e err] sent_summary [OF sent]
        by (simp add: Let_def)
    qed
  qed
qed

definition sample_report_form :: report_form where
  "sample_report_form =
     \<lparr>wr_draft = draft_mount numbered_codec 4 TReportNew
        \<lparr>dr_summary = Some (lit ''Lost''), dr_text = [], dr_onBehalfOf = None\<rparr> Map.empty,
      wr_sticky = None, wr_touched = False, wr_picked = [], wr_incidentText = lit '' 21 '',
      wr_summaryError = None, wr_incidentError = None, wr_formError = None, wr_pending = None,
      wr_requests = [], wr_filed = []\<rparr>"

lemma report_form_files_what_it_shows_witness:
  "linkedIncident None (wr_incidentText sample_report_form) = LinkTo 21 \<and>
   wr_pending (report_file_begin 4 None sample_report_form) \<in> {None, Some (Some 21)}"
proof -
  have link: "linkedIncident None (wr_incidentText sample_report_form) = LinkTo 21"
    using report_form_files_what_it_shows [of sample_report_form None "wr_incidentText sample_report_form" 21,
        THEN conjunct1]
    by (simp add: sample_report_form_def trim_def is_ws_def num_finite_def show_int_def show_nat.simps)
  have none: "wr_pending sample_report_form = None" by (simp add: sample_report_form_def)
  have "l = Some 21" if "wr_pending (report_file_begin 4 None sample_report_form) = Some l" for l
    using report_form_files_what_it_shows [OF none, of None "[]" 0 4, THEN conjunct2] that
    by (simp add: Let_def link link_number_def)
  with link show ?thesis by (cases "wr_pending (report_file_begin 4 None sample_report_form)") simp_all
qed

section \<open>The report-writing help\<close>

text \<open>Whether the instructions are open: remembered on the device per event, else the caller's default.\<close>

record report_help =
  rh_stored :: "bool option"
  rh_loaded :: bool
  rh_device :: device

definition HELP_KEY :: str where
  "HELP_KEY = lit ''ocf-ims/report-help''"

definition help_key :: "int \<Rightarrow> str" where
  "help_key eventId = HELP_KEY @ lit ''/'' @ show_int eventId"

definition help_read :: "str option \<Rightarrow> report_help \<Rightarrow> report_help" where
  "help_read raw s =
     s\<lparr>rh_stored := (case rh_stored s of Some v \<Rightarrow> Some v | None \<Rightarrow> map_option (\<lambda>r. r = lit ''1'') raw),
       rh_loaded := True\<rparr>"

definition help_open :: "bool option \<Rightarrow> report_help \<Rightarrow> bool" where
  "help_open defaultOpen s = nullish (rh_stored s) (nullish defaultOpen False)"

definition help_set :: "int \<Rightarrow> bool \<Rightarrow> report_help \<Rightarrow> report_help" where
  "help_set eventId shown s =
     s\<lparr>rh_stored := Some shown, rh_device := dev_set (rh_device s) (help_key eventId) (if shown then lit ''1'' else lit ''0'')\<rparr>"

lemma help_toggle_wins: "help_open d (help_read raw (help_set e shown s)) = shown"
  by (simp add: help_open_def help_read_def help_set_def)

lemma help_remembered:
  "help_open d (help_read (dev_get (rh_device (help_set e shown s)) (help_key e)) \<lparr>rh_stored = None, rh_loaded = False, rh_device = dv\<rparr>) = shown"
  by (simp add: help_open_def help_read_def help_set_def dev_get_def dev_set_def)

end
