(* ===== verification/FieldControls.thy ===== *)
theory FieldControls
  imports Controls Filing
begin

text \<open>
  The editor's controls without their layout: the text field that saves itself
  (\<open>features/incidents/SavingField.tsx\<close>, \<open>controls/StartedField.tsx\<close>), the lists of links, reports and
  people (\<open>LinksEditor.tsx\<close>, \<open>ReportsEditor.tsx\<close>, \<open>PeopleEditor.tsx\<close>), the choosers of types, areas
  and outcomes (\<open>compose/TypeChooser.tsx\<close>, \<open>compose/AreaChooser.tsx\<close>, \<open>controls/OutcomeChooser.tsx\<close>)
  and what each control of \<open>controls/Controls.tsx\<close> asks the editor for.
\<close>

section \<open>A field that saves itself\<close>

text \<open>
  The component's state, the server's value it is given, the text of the save that runs
  (\<open>saving.current\<close>), and what it called: \<open>onSave\<close> with which texts, \<open>onDone\<close> how often.
\<close>

record saving_field =
  sf_value :: str
  sf_local :: "str option"
  sf_invalid :: "str option"
  sf_saving :: "str option"
  sf_sent :: "str list"
  sf_done :: nat

definition sf_shown :: "saving_field \<Rightarrow> str" where
  "sf_shown s = nullish (sf_local s) (sf_value s)"

definition sf_mount :: "str \<Rightarrow> saving_field" where
  "sf_mount value = \<lparr>sf_value = value, sf_local = None, sf_invalid = None, sf_saving = None, sf_sent = [], sf_done = 0\<rparr>"

definition sf_type :: "str \<Rightarrow> saving_field \<Rightarrow> saving_field" where
  "sf_type text s = s\<lparr>sf_local := Some text, sf_invalid := None\<rparr>"

definition sf_commit :: "(str \<Rightarrow> str option) \<Rightarrow> saving_field \<Rightarrow> saving_field" where
  "sf_commit validate s =
     (if sf_saving s \<noteq> None then s
      else (case sf_local s of
              None \<Rightarrow> s\<lparr>sf_local := None, sf_invalid := None, sf_done := sf_done s + 1\<rparr>
            | Some text \<Rightarrow>
                if text = sf_value s
                then s\<lparr>sf_local := None, sf_invalid := None, sf_done := sf_done s + 1\<rparr>
                else (case nonempty (validate text) of
                        Some problem \<Rightarrow> s\<lparr>sf_invalid := Some problem\<rparr>
                      | None \<Rightarrow> s\<lparr>sf_invalid := None, sf_saving := Some text, sf_sent := sf_sent s @ [text]\<rparr>)))"

text \<open>The server's value changes: a poke, a refetch, an optimistic write or its rollback.\<close>

definition sf_server :: "str \<Rightarrow> saving_field \<Rightarrow> saving_field" where
  "sf_server value s = s\<lparr>sf_value := value\<rparr>"

definition sf_settle :: "bool \<Rightarrow> saving_field \<Rightarrow> saving_field" where
  "sf_settle landed s =
     (if sf_saving s = None then s
      else if landed then s\<lparr>sf_saving := None, sf_local := None, sf_done := sf_done s + 1\<rparr>
      else s\<lparr>sf_saving := None\<rparr>)"

datatype field_event = Typed str | Committed | ServerSays str | Settled bool

fun sf_event :: "(str \<Rightarrow> str option) \<Rightarrow> saving_field \<Rightarrow> field_event \<Rightarrow> saving_field" where
  "sf_event validate s (Typed text) = sf_type text s"
| "sf_event validate s Committed = sf_commit validate s"
| "sf_event validate s (ServerSays value) = sf_server value s"
| "sf_event validate s (Settled landed) = sf_settle landed s"

definition saveErrorText :: "AppError option \<Rightarrow> str option" where
  "saveErrorText error = map_option (\<lambda>e. lit ''Couldn't save. '' @ ae_message e) error"

definition fieldError :: "AppError option \<Rightarrow> str option \<Rightarrow> str option" where
  "fieldError error text = nonempty (case text of Some t \<Rightarrow> Some t | None \<Rightarrow> saveErrorText error)"

definition sf_error :: "AppError option \<Rightarrow> saving_field \<Rightarrow> str option" where
  "sf_error saveError s = (case sf_invalid s of Some p \<Rightarrow> Some p | None \<Rightarrow> saveErrorText saveError)"

text \<open>The start time's save: a text that is not one saves nothing and resolves.\<close>

definition started_save :: "(int \<Rightarrow> int) \<Rightarrow> str \<Rightarrow> incident_edit option" where
  "started_save utc text = map_option SetStarted (parseStarted utc text)"

text \<open>A value that is its own control.\<close>

datatype in_place = AtRest | Editing

definition in_place_shows :: "bool \<Rightarrow> in_place \<Rightarrow> in_place" where
  "in_place_shows enabled s = (if s = Editing \<and> enabled then Editing else AtRest)"

section \<open>The lists\<close>

definition current_links :: "IncidentRef list \<Rightarrow> LinkInput list" where
  "current_links links = map (\<lambda>l. \<lparr>li_eventId = link_eventId l, li_incidentNumber = link_incidentNumber l\<rparr>) links"

text \<open>\<open>for (x of xs) if (!merged.some(same)) merged.push(x)\<close>.\<close>

definition merge_new :: "'a list \<Rightarrow> 'a list \<Rightarrow> 'a list" where
  "merge_new current xs = foldl (\<lambda>merged x. if x \<in> set merged then merged else merged @ [x]) current xs"

record adder =
  ad_text :: str
  ad_adding :: bool
  ad_problem :: "str option"

definition links_add ::
  "host \<Rightarrow> int \<Rightarrow> (int \<times> str) list \<Rightarrow> IncidentRef list \<Rightarrow> adder \<Rightarrow> adder \<times> incident_edit option" where
  "links_add h eventId events links s =
     (case parseLinks h (ad_text s) events eventId of
        Inl error \<Rightarrow> (s\<lparr>ad_problem := Some error\<rparr>, None)
      | Inr parsed \<Rightarrow> (\<lparr>ad_text = [], ad_adding = False, ad_problem = None\<rparr>,
          Some (SetLinks (merge_new (current_links links) parsed))))"

definition links_remove :: "IncidentRef list \<Rightarrow> IncidentRef \<Rightarrow> incident_edit" where
  "links_remove links ref = SetLinks (filter (\<lambda>l. \<not> (li_eventId l = link_eventId ref \<and>
     li_incidentNumber l = link_incidentNumber ref)) (current_links links))"

definition reports_add :: "int list \<Rightarrow> adder \<Rightarrow> adder \<times> incident_edit option" where
  "reports_add reports s =
     (case parseNumbers (ad_text s) of
        None \<Rightarrow> (s\<lparr>ad_problem := Some (lit ''Type report numbers, like 7 or 7, 12'')\<rparr>, None)
      | Some numbers \<Rightarrow> (\<lparr>ad_text = [], ad_adding = False, ad_problem = None\<rparr>,
          Some (SetReports (merge_new reports numbers))))"

definition reports_remove :: "int list \<Rightarrow> int \<Rightarrow> incident_edit" where
  "reports_remove reports n = SetReports (filter (\<lambda>r. r \<noteq> n) reports)"

definition adder_type :: "str \<Rightarrow> adder \<Rightarrow> adder" where
  "adder_type text s = s\<lparr>ad_text := text, ad_problem := None\<rparr>"

record LinkRowShown =
  lr_label :: str
  lr_opens :: "int option"
  lr_summary :: "str option"
  lr_unlink :: bool

definition link_row :: "int \<Rightarrow> bool \<Rightarrow> IncidentRef \<Rightarrow> LinkRowShown" where
  "link_row eventId mayEdit ref =
     (let number = [35] @ show_int (link_incidentNumber ref); here = link_eventId ref = eventId
      in \<lparr>lr_label = (if here then number
            else or_str (Some (link_eventName ref)) (lit ''Event '' @ show_int (link_eventId ref)) @ lit '' '' @ number),
          lr_opens = (if here then Some (link_incidentNumber ref) else None),
          lr_summary = nonempty (Some (link_summary ref)),
          lr_unlink = mayEdit\<rparr>)"

definition report_row_caption :: "int list \<Rightarrow> int \<Rightarrow> str" where
  "report_row_caption loaded n =
     (if n \<in> set loaded then lit ''Its entries are in the journal below''
      else lit ''Not readable by you '' @ [8212] @ lit '' its entries are absent'')"

definition adder_blur :: "adder \<Rightarrow> adder" where
  "adder_blur s = (if trim (ad_text s) = [] then s\<lparr>ad_adding := False\<rparr> else s)"

text \<open>Both lists' merge keeps what is there, adds what is new once, and repeats nothing.\<close>

lemma merge_new_snoc:
  "merge_new current (xs @ [x]) =
     (if x \<in> set (merge_new current xs) then merge_new current xs else merge_new current xs @ [x])"
  by (simp add: merge_new_def)

lemma merge_new_added:
  "\<exists>added. merge_new current xs = current @ added \<and> set added = set xs - set current \<and> distinct added"
proof (induction xs rule: rev_induct)
  case Nil
  show ?case by (simp add: merge_new_def)
next
  case (snoc x xs)
  then obtain added where a: "merge_new current xs = current @ added"
      "set added = set xs - set current" "distinct added" by blast
  show ?case
  proof (cases "x \<in> set (merge_new current xs)")
    case True
    then show ?thesis using a by (intro exI [of _ added]) (auto simp: merge_new_snoc)
  next
    case False
    then show ?thesis using a by (intro exI [of _ "added @ [x]"]) (auto simp: merge_new_snoc)
  qed
qed

lemma merge_new_set: "set (merge_new current xs) = set current \<union> set xs"
  using merge_new_added [of current xs] by (metis Un_Diff_cancel set_append)

lemma merge_new_distinct: "distinct current \<Longrightarrow> distinct (merge_new current xs)"
  using merge_new_added [of current xs] by (metis Diff_disjoint distinct_append)

section \<open>The people\<close>

definition INVOLVEMENTS :: "str list" where
  "INVOLVEMENTS = [lit ''Witness'', lit ''Reporting Party'', lit ''Subject'', lit ''Injured Party'',
     lit ''First Responder'', lit ''Staff'', lit ''Other'']"

definition accessText :: "IncidentPerson \<Rightarrow> str" where
  "accessText p =
     (if ip_hasEventAccess p then lit ''Has event access''
      else if ip_grantedAccess p then lit ''Granted access to this incident''
      else lit ''No event access'')"

definition ip_personId :: "IncidentPerson \<Rightarrow> int" where
  "ip_personId p = nullish (map_option ref_personId (ip_person p)) 0"

definition involvement_save :: "IncidentPerson \<Rightarrow> str \<Rightarrow> incident_edit" where
  "involvement_save p value = UpdatePerson (ip_personId p) (nonempty (Some value)) (ip_grantedAccess p)"

definition grant_save :: "IncidentPerson \<Rightarrow> bool \<Rightarrow> incident_edit" where
  "grant_save p value = UpdatePerson (ip_personId p) (ip_involvement p) value"

datatype person_report_mark = ReportFiled int | ReportAsked timestamp

text \<open>\<open>p.reportNumber ? \<dots> : p.reportRequested ? \<dots> : null\<close>; zero is falsy.\<close>

definition filed_number :: "IncidentPerson \<Rightarrow> int option" where
  "filed_number p = (case ip_reportNumber p of None \<Rightarrow> None | Some n \<Rightarrow> if n = 0 then None else Some n)"

record PersonRowShown =
  pr_field :: bool
  pr_caption :: "str option"
  pr_suggestions :: "str list"
  pr_report :: "person_report_mark option"
  pr_grant :: "bool option"
  pr_involvementWord :: "str option"
  pr_askLabel :: "str option"
  pr_detach :: bool

definition PersonRow_shown :: "bool \<Rightarrow> bool \<Rightarrow> bool \<Rightarrow> bool \<Rightarrow> bool \<Rightarrow> IncidentPerson \<Rightarrow> PersonRowShown" where
  "PersonRow_shown mayEdit inPlace editing focused asking p =
     (let involvement = nullish (ip_involvement p) [];
          showField = mayEdit \<and> (\<not> inPlace \<or> editing)
      in \<lparr>pr_field = showField,
          pr_caption = (if showField then None
            else Some (if involvement \<noteq> [] then involvement @ [32, 183, 32] @ accessText p else accessText p)),
          pr_suggestions = (if showField \<and> focused \<and> involvement = [] then INVOLVEMENTS else []),
          pr_report = (case filed_number p of
              Some n \<Rightarrow> Some (ReportFiled n)
            | None \<Rightarrow> map_option ReportAsked (ip_reportRequested p)),
          pr_grant = (if mayEdit \<and> \<not> ip_hasEventAccess p then Some (ip_grantedAccess p) else None),
          pr_involvementWord = (if mayEdit \<and> inPlace \<and> \<not> editing
            then Some (if involvement \<noteq> [] then lit ''Involvement'' else lit ''Add involvement'') else None),
          pr_askLabel = (if mayEdit \<and> filed_number p = None \<and> ip_personId p \<noteq> 0
            then Some (if asking then lit ''Asking'' @ [8230]
                       else if ip_reportRequested p \<noteq> None then lit ''Ask again'' else lit ''Ask for a report'')
            else None),
          pr_detach = mayEdit\<rparr>)"

definition peopleError :: "AppError option \<Rightarrow> AppError option \<Rightarrow> AppError option" where
  "peopleError status ask = (case status of Some e \<Rightarrow> Some e | None \<Rightarrow> ask)"

section \<open>The choosers\<close>

text \<open>
  The search text, the name prompt, the proposal that runs with what its press closed over, and the
  problem it left. \<open>'s\<close> is what a press of the offer keeps from its render: the chosen types.
\<close>

definition PROPOSE_MIN :: nat where
  "PROPOSE_MIN = 2"

record 's chooser =
  ch_query :: str
  ch_prompting :: bool
  ch_proposing :: "(str \<times> 's) option"
  ch_problem :: "str option"

definition chooser_mount :: "'s chooser" where
  "chooser_mount = \<lparr>ch_query = [], ch_prompting = False, ch_proposing = None, ch_problem = None\<rparr>"

definition named :: "host \<Rightarrow> str option \<Rightarrow> str \<Rightarrow> bool" where
  "named h name q \<longleftrightarrow> lower h (trim (nullish name [])) = q"

definition visible_types :: "host \<Rightarrow> IncidentType list option \<Rightarrow> int list \<Rightarrow> str \<Rightarrow> IncidentType list" where
  "visible_types h types selected query =
     filter (\<lambda>t. type_hidden t \<noteq> Some True \<and>
         (type_id t \<in> set selected \<or> has_sub (lower h (nullish (type_name t) [])) (lower h (trim query))))
       (nullish types [])"

definition type_exact :: "host \<Rightarrow> IncidentType list option \<Rightarrow> str \<Rightarrow> bool" where
  "type_exact h types query \<longleftrightarrow>
     (\<exists>t \<in> set (nullish types []). type_hidden t \<noteq> Some True \<and> named h (type_name t) (lower h (trim query)))"

definition type_offer :: "host \<Rightarrow> bool \<Rightarrow> IncidentType list option \<Rightarrow> str \<Rightarrow> bool" where
  "type_offer h canPropose types query \<longleftrightarrow>
     canPropose \<and> length (lower h (trim query)) \<ge> PROPOSE_MIN \<and> \<not> type_exact h types query"

definition other_shown :: "host \<Rightarrow> str \<Rightarrow> bool" where
  "other_shown h query \<longleftrightarrow> lower h (trim query) = [] \<or> has_sub (lower h (lit ''Other'')) (lower h (trim query))"

definition type_search :: "str \<Rightarrow> 's chooser \<Rightarrow> 's chooser" where
  "type_search text s = s\<lparr>ch_query := text, ch_prompting := False\<rparr>"

definition type_other :: "'s chooser \<Rightarrow> 's chooser" where
  "type_other s = s\<lparr>ch_query := [], ch_prompting := True\<rparr>"

definition type_propose :: "int list \<Rightarrow> int list chooser \<Rightarrow> int list chooser" where
  "type_propose selected s =
     (if ch_proposing s \<noteq> None then s
      else s\<lparr>ch_proposing := Some (trim (ch_query s), selected), ch_problem := None\<rparr>)"

text \<open>
  The answer: \<open>selected\<close> and \<open>onToggle\<close> are those of the render whose offer was pressed, so the
  toggle the form makes starts from the types chosen then.
\<close>

definition type_proposed :: "int option \<Rightarrow> int list chooser \<Rightarrow> int list chooser \<times> int list option" where
  "type_proposed answer s =
     (case ch_proposing s of
        None \<Rightarrow> (s, None)
      | Some (_, selected) \<Rightarrow>
          (case answer of
             None \<Rightarrow> (s\<lparr>ch_proposing := None, ch_problem := Some (lit ''Couldn't propose that type. Try again.'')\<rparr>, None)
           | Some i \<Rightarrow> (s\<lparr>ch_proposing := None, ch_query := []\<rparr>,
               if i \<in> set selected then None else Some (toggle_type i selected))))"

definition area_current :: "Area list option \<Rightarrow> str option \<Rightarrow> str option" where
  "area_current areas selected =
     (case nonempty selected of
        None \<Rightarrow> None
      | Some slug \<Rightarrow> Some (nullish (Option.bind (List.find (\<lambda>a. area_slug a = slug) (nullish areas [])) area_name) slug))"

definition AREA_LIMIT :: nat where
  "AREA_LIMIT = 6"

definition area_matches :: "host \<Rightarrow> Area list option \<Rightarrow> str \<Rightarrow> Area list" where
  "area_matches h areas query =
     (let q = lower h (trim query)
      in take AREA_LIMIT (filter (\<lambda>a. q = [] \<or> has_sub (lower h (nullish (area_name a) (area_slug a))) q) (nullish areas [])))"

definition area_offer :: "host \<Rightarrow> bool \<Rightarrow> Area list option \<Rightarrow> str \<Rightarrow> bool" where
  "area_offer h canCreate areas query \<longleftrightarrow>
     (let q = lower h (trim query)
      in canCreate \<and> length q \<ge> PROPOSE_MIN \<and>
         \<not> (\<exists>a \<in> set (nullish areas []). q \<noteq> [] \<and> named h (area_name a) q))"

definition name_propose :: "unit chooser \<Rightarrow> unit chooser" where
  "name_propose s =
     (if ch_proposing s \<noteq> None then s
      else s\<lparr>ch_proposing := Some (trim (ch_query s), ()), ch_problem := None\<rparr>)"

definition area_created :: "str option \<Rightarrow> unit chooser \<Rightarrow> unit chooser \<times> incident_edit option" where
  "area_created answer s =
     (case ch_proposing s of
        None \<Rightarrow> (s, None)
      | Some _ \<Rightarrow>
          (case answer of
             None \<Rightarrow> (s\<lparr>ch_proposing := None, ch_problem := Some (lit ''Couldn't create that area. Try again.'')\<rparr>, None)
           | Some slug \<Rightarrow> (s\<lparr>ch_proposing := None, ch_query := []\<rparr>, Some (SetArea (Some slug)))))"

definition visible_outcomes :: "Outcome list option \<Rightarrow> int option \<Rightarrow> Outcome list" where
  "visible_outcomes outcomes selected =
     filter (\<lambda>o'. out_hidden o' \<noteq> Some True \<or> Some (out_id o') = selected) (nullish outcomes [])"

definition outcome_press :: "int option \<Rightarrow> bool \<Rightarrow> Outcome \<Rightarrow> incident_edit option" where
  "outcome_press selected disabled o' =
     (if disabled then None else Some (SetOutcome (if Some (out_id o') = selected then 0 else out_id o')))"

definition outcome_offer :: "host \<Rightarrow> Outcome list option \<Rightarrow> int option \<Rightarrow> unit chooser \<Rightarrow> bool" where
  "outcome_offer h outcomes selected s \<longleftrightarrow>
     ch_prompting s \<and> length (trim (ch_query s)) \<ge> PROPOSE_MIN \<and>
     \<not> (\<exists>o' \<in> set (visible_outcomes outcomes selected). named h (out_name o') (lower h (trim (ch_query s))))"

definition outcome_other :: "unit chooser \<Rightarrow> unit chooser" where
  "outcome_other s = s\<lparr>ch_prompting := \<not> ch_prompting s\<rparr>"

definition outcome_proposed :: "int option \<Rightarrow> unit chooser \<Rightarrow> unit chooser \<times> incident_edit option" where
  "outcome_proposed answer s =
     (case ch_proposing s of
        None \<Rightarrow> (s, None)
      | Some _ \<Rightarrow>
          (case answer of
             None \<Rightarrow> (s\<lparr>ch_proposing := None, ch_problem := Some (lit ''Couldn't propose that outcome. Try again.'')\<rparr>, None)
           | Some i \<Rightarrow> (s\<lparr>ch_proposing := None, ch_query := [], ch_prompting := False\<rparr>, Some (SetOutcome i))))"

section \<open>What the controls ask the editor for\<close>

definition segmented_step :: "nat \<Rightarrow> int \<Rightarrow> int \<Rightarrow> int option" where
  "segmented_step n selected delta =
     (let i = (selected + delta + int n) mod int n
      in if n = 0 then None else Some i)"

definition state_control :: "Incident option \<Rightarrow> IncidentState \<Rightarrow> incident_edit option" where
  "state_control incident state =
     (if map_option inc_state incident \<noteq> Some state then Some (SetState state) else None)"

definition priority_shown :: "Incident option \<Rightarrow> IncidentPriority" where
  "priority_shown incident =
     (case incident of
        None \<Rightarrow> PRIORITY_NORMAL
      | Some i \<Rightarrow> if inc_priority i = PRIORITY_UNSPECIFIED then PRIORITY_NORMAL else inc_priority i)"

definition priority_control :: "Incident option \<Rightarrow> IncidentPriority \<Rightarrow> incident_edit option" where
  "priority_control incident priority =
     (if map_option inc_priority incident \<noteq> Some priority then Some (SetPriority priority) else None)"

definition private_enabled :: "bool \<Rightarrow> EditorGates \<Rightarrow> bool" where
  "private_enabled disabled g \<longleftrightarrow> \<not> disabled \<and> ga_mayTogglePrivate g"

definition PRIVATE_COPY :: str where
  "PRIVATE_COPY = lit ''When private, only admins, the incident's creator, and people granted per-incident access can see this incident.''"

definition private_copy :: "bool \<Rightarrow> str" where
  "private_copy enabled =
     (if enabled then PRIVATE_COPY
      else PRIVATE_COPY @ lit '' Only an admin or the creator can change this.'')"

definition areaLabel :: "IncidentView option \<Rightarrow> Area list option \<Rightarrow> str option" where
  "areaLabel view areas =
     (case nonempty (Option.bind (Option.bind (Option.bind view iv_incident) inc_location) loc_areaSlug) of
        None \<Rightarrow> None
      | Some slug \<Rightarrow> Some (or_str (Option.bind (List.find (\<lambda>a. area_slug a = slug) (nullish areas [])) area_name) slug))"

definition types_control :: "Incident option \<Rightarrow> int \<Rightarrow> incident_edit" where
  "types_control incident i = SetTypes (toggle_type i (nullish (map_option inc_incidentTypeIds incident) []))"

definition typeNames :: "IncidentView option \<Rightarrow> IncidentType list option \<Rightarrow> str" where
  "typeNames view types =
     join (lit '', '') (map (\<lambda>i. nullish (Option.bind (List.find (\<lambda>t. type_id t = i) (nullish types [])) type_name)
         (lit ''Type #'' @ show_int i))
       (nullish (map_option inc_incidentTypeIds (Option.bind view iv_incident)) []))"

definition outcomeName :: "IncidentView option \<Rightarrow> Outcome list option \<Rightarrow> str option" where
  "outcomeName view outcomes =
     (case Option.bind (Option.bind view iv_incident) inc_outcomeId of
        None \<Rightarrow> None
      | Some i \<Rightarrow> if i = 0 then None
          else Some (nullish (Option.bind (List.find (\<lambda>o'. out_id o' = i) (nullish outcomes [])) out_name)
            (lit ''Outcome #'' @ show_int i)))"

lemmas field_defs =
  sf_shown_def sf_mount_def sf_type_def sf_commit_def sf_server_def sf_settle_def

text \<open>What may happen between typing and a save that lands, and what then holds.\<close>

fun keeps :: "str \<Rightarrow> field_event \<Rightarrow> bool" where
  "keeps t (Typed text) = False"
| "keeps t Committed = True"
| "keeps t (ServerSays value) = (value \<noteq> t)"
| "keeps t (Settled landed) = (\<not> landed)"

definition unsaved :: "(str \<Rightarrow> str option) \<Rightarrow> str \<Rightarrow> saving_field \<Rightarrow> saving_field \<Rightarrow> bool" where
  "unsaved validate t s r \<longleftrightarrow>
     sf_local r = Some t \<and> sf_value r \<noteq> t \<and> sf_done r = sf_done s \<and>
     (sf_saving r = None \<or> sf_saving r = Some t) \<and>
     (\<exists>n. sf_sent r = sf_sent s @ replicate n t \<and> (nonempty (validate t) = None \<or> n = 0))"

lemma unsaved_typed: "sf_saving s = None \<Longrightarrow> t \<noteq> sf_value s \<Longrightarrow> unsaved validate t s (sf_type t s)"
  by (auto simp: unsaved_def field_defs)

lemma unsaved_commit:
  assumes u: "unsaved validate t s r"
  shows "unsaved validate t s (sf_commit validate r)"
proof -
  from u obtain n where n: "sf_sent r = sf_sent s @ replicate n t" "nonempty (validate t) = None \<or> n = 0"
    by (auto simp: unsaved_def)
  show ?thesis
  proof (cases "sf_saving r = None \<and> nonempty (validate t) = None")
    case True
    have "sf_sent s @ replicate n t @ [t] = sf_sent s @ replicate (Suc n) t"
      by (simp add: replicate_append_same)
    then have "\<exists>m. sf_sent r @ [t] = sf_sent s @ replicate m t"
      using n by (metis append.assoc)
    with u True show ?thesis by (auto simp: unsaved_def sf_commit_def)
  next
    case False
    with u show ?thesis by (auto simp: unsaved_def sf_commit_def split: option.split)
  qed
qed

lemma unsaved_server: "unsaved validate t s r \<Longrightarrow> v \<noteq> t \<Longrightarrow> unsaved validate t s (sf_server v r)"
  by (simp add: unsaved_def sf_server_def)

lemma unsaved_refused: "unsaved validate t s r \<Longrightarrow> unsaved validate t s (sf_settle False r)"
  by (simp add: unsaved_def sf_settle_def)

lemma unsaved_kept: "unsaved validate t s r \<Longrightarrow> keeps t e \<Longrightarrow> unsaved validate t s (sf_event validate r e)"
  by (cases e) (simp_all add: unsaved_commit unsaved_server unsaved_refused)

lemma unsaved_run:
  "unsaved validate t s r \<Longrightarrow> \<forall>e \<in> set es. keeps t e \<Longrightarrow> unsaved validate t s (foldl (sf_event validate) r es)"
  by (induction es arbitrary: r) (auto intro: unsaved_kept)

lemma sf_servers: "foldl (\<lambda>r v. sf_server v r) s vs = s\<lparr>sf_value := last (sf_value s # vs)\<rparr>"
  by (induction vs arbitrary: s) (auto simp: sf_server_def)



text \<open>
  What is typed while a save runs is dropped when that save lands: \<open>setLocal(undefined)\<close> does not
  look at what the field holds by then.
\<close>

lemma typed_during_save_is_lost:
  fixes later :: str
  assumes "sf_saving s = None" and "t \<noteq> sf_value s" and "nonempty (validate t) = None"
  defines "r \<equiv> sf_settle True (sf_server t (sf_type later (sf_commit validate (sf_type t s))))"
  shows "sf_shown r = t \<and> sf_sent r = sf_sent s @ [t] \<and> sf_local r = None"
  using assms by (simp add: field_defs)

text \<open>
  A type proposed on the editor's form is added to the types chosen when the offer was pressed: one
  toggled while the proposal ran is dropped again.
\<close>

lemma proposal_drops_later_toggle:
  assumes "ch_proposing s = None" and "i \<noteq> j" and "i \<notin> set selected" and "j \<notin> set selected"
  shows "snd (type_proposed (Some i) (type_propose selected s)) = Some (selected @ [i]) \<and>
    j \<in> set (toggle_type j selected) \<and> j \<notin> set (the (snd (type_proposed (Some i) (type_propose selected s))))"
  using assms by (auto simp: type_proposed_def type_propose_def toggle_type_def)

text \<open>
  Adding links sends every link there was, in its place, followed by the typed ones that are new, each
  once; a text that is not links sends nothing and is kept with the problem at it.
\<close>

lemma links_add_merges:
  assumes "parseLinks h (ad_text s) events eventId = Inr parsed"
  shows "\<exists>added. snd (links_add h eventId events links s) = Some (SetLinks (current_links links @ added)) \<and>
    set added = set parsed - set (current_links links) \<and> distinct added"
  using merge_new_added [of "current_links links" parsed] assms by (auto simp: links_add_def)

lemma links_add_refused:
  "parseLinks h (ad_text s) events eventId = Inl problem \<Longrightarrow>
     links_add h eventId events links s = (s\<lparr>ad_problem := Some problem\<rparr>, None)"
  by (simp add: links_add_def)

end
