(* ===== verification/Templ.thy ===== *)
theory Templ
  imports Events Complex_Main
begin

text \<open>
  The foundations of the older web client over the server-rendered pages (\<open>src/go/web/typescript/ims.ts\<close>,
  \<open>urls.ts\<close>): what it reads from the page's address, how it fills in the server's addresses, what it
  keeps in local storage, its refresh and its requests, its bell, and the labels and orders its tables
  share. The document is left out: what a function would write there is its result.
\<close>

section \<open>Addresses\<close>

record path_ids =
  path_eventName :: "str option"
  path_eventId :: "int option"
  path_incidentNumber :: "int option"
  path_reportNumber :: "int option"
  path_visitNumber :: "int option"

definition parseInt10 :: "str option \<Rightarrow> int option" where
  "parseInt10 s = Option.bind s parse_int"

definition tokenAfter :: "str list \<Rightarrow> str \<Rightarrow> str option" where
  "tokenAfter splits s =
     (case find_index (\<lambda>x. x = s) splits of
        None \<Rightarrow> None
      | Some i \<Rightarrow>
          if i + 1 \<ge> length splits then None
          else if splits ! (i + 1) = [] then None
          else Some (splits ! (i + 1)))"

definition idsFromPath :: "str \<Rightarrow> path_ids" where
  "idsFromPath pathname =
     (let splits = split_on 47 pathname
      in \<lparr>path_eventName = tokenAfter splits (lit ''events''), path_eventId = None,
          path_incidentNumber = parseInt10 (tokenAfter splits (lit ''incidents'')),
          path_reportNumber = parseInt10 (tokenAfter splits (lit ''reports'')),
          path_visitNumber = parseInt10 (tokenAfter splits (lit ''visits''))\<rparr>)"

text \<open>
  \<open>s.replace(pattern, replacement)\<close> on strings: the first occurrence, with the dollar patterns of the
  replacement (\<open>$$\<close>, \<open>$&\<close>, \<open>$`\<close> and \<open>$'\<close>; there are no groups).
\<close>

fun index_of :: "str \<Rightarrow> str \<Rightarrow> nat option" where
  "index_of [] p = (if p = [] then Some 0 else None)"
| "index_of (c # s) p = (if starts_with (c # s) p then Some 0 else map_option Suc (index_of s p))"

fun expand_replacement :: "str \<Rightarrow> str \<Rightarrow> str \<Rightarrow> str \<Rightarrow> str" where
  "expand_replacement before matched after (c # d # r) =
     (if c \<noteq> 36 then c # expand_replacement before matched after (d # r)
      else if d = 36 then 36 # expand_replacement before matched after r
      else if d = 38 then matched @ expand_replacement before matched after r
      else if d = 96 then before @ expand_replacement before matched after r
      else if d = 39 then after @ expand_replacement before matched after r
      else c # expand_replacement before matched after (d # r))"
| "expand_replacement before matched after r = r"

definition js_replace :: "str \<Rightarrow> str \<Rightarrow> str \<Rightarrow> str" where
  "js_replace s p r =
     (case index_of s p of
        None \<Rightarrow> s
      | Some i \<Rightarrow> take i s @ expand_replacement (take i s) p (drop (i + length p) s) r @ drop (i + length p) s)"

definition EVENT_ID :: str where "EVENT_ID = lit ''<event_id>''"

definition urlReplace :: "path_ids \<Rightarrow> str \<Rightarrow> str" where
  "urlReplace ids url =
     (case nonempty (path_eventName ids) of None \<Rightarrow> url | Some event \<Rightarrow> js_replace url EVENT_ID event)"

definition url_viewIncidents :: str where "url_viewIncidents = lit ''/ims/app/events/<event_id>/incidents''"
definition url_viewReports :: str where "url_viewReports = lit ''/ims/app/events/<event_id>/reports''"
definition url_viewVisits :: str where "url_viewVisits = lit ''/ims/app/events/<event_id>/visits''"

section \<open>Small tools\<close>

text \<open>\<open>Array(end - start)\<close> throws on a negative length; \<open>join\<close> and \<open>split\<close> of no element give one.\<close>

definition js_range :: "int \<Rightarrow> int \<Rightarrow> int option \<Rightarrow> int list option" where
  "js_range start stop step =
     (if step = Some 0 \<or> stop < start then None
      else Some (map (\<lambda>i. int i * nullish step 1 + start) [0..<max 1 (nat (stop - start))]))"

definition padTwo :: "str option \<Rightarrow> str" where
  "padTwo value = (case value of None \<Rightarrow> lit ''?'' | Some v \<Rightarrow> replicate (2 - length v) 48 @ v)"

definition round_to_five :: "nat \<Rightarrow> nat" where
  "round_to_five minute = (2 * minute + 5) div 10 * 5"

function wrap_minute :: "nat \<Rightarrow> nat" where
  "wrap_minute minute = (if minute > 60 then wrap_minute (minute - 60) else minute)"
  by pat_completeness auto
termination by (relation "measure (\<lambda>m. m)") auto

declare wrap_minute.simps [simp del]

definition normalizeMinute :: "nat \<Rightarrow> str" where
  "normalizeMinute minute = padTwo (Some (show_int (int (wrap_minute (round_to_five minute)))))"

definition flag :: "bool option \<Rightarrow> bool" where
  "flag b \<longleftrightarrow> b = Some True"

record tentry =
  te_id :: "int option"
  te_created :: "str option"
  te_author :: "str option"
  te_reportNum :: "int option"
  te_visitNum :: "int option"
  te_text :: "str option"
  te_system :: "bool option"
  te_stricken :: "bool option"

text \<open>\<open><\<close> on two strings is by code units; with an absent one it is false either way.\<close>

definition js_less :: "str option \<Rightarrow> str option \<Rightarrow> bool" where
  "js_less a b \<longleftrightarrow> (case (a, b) of (Some x, Some y) \<Rightarrow> code_unit_compare x y < 0 | _ \<Rightarrow> False)"

definition compareJournalEntries :: "tentry \<Rightarrow> tentry \<Rightarrow> int" where
  "compareJournalEntries a b =
     (if js_less (te_created a) (te_created b) then -1
      else if js_less (te_created b) (te_created a) then 1
      else if flag (te_system a) \<and> \<not> flag (te_system b) then -1
      else if \<not> flag (te_system a) \<and> flag (te_system b) then 1
      else if js_less (te_text a) (te_text b) then -1
      else if js_less (te_text b) (te_text a) then 1
      else 0)"

section \<open>Local storage\<close>

definition accessTokenKey :: str where "accessTokenKey = lit ''access_token''"
definition accessTokenRefreshAfterKey :: str where "accessTokenRefreshAfterKey = lit ''access_token_refresh_after''"
definition incidentsPreferredStateKey :: str where "incidentsPreferredStateKey = lit ''preferred_incidents_state''"
definition preferredTableRowsPerPageKey :: str where "preferredTableRowsPerPageKey = lit ''preferred_table_rows_per_page''"
definition visitsPreferredStatusKey :: str where "visitsPreferredStatusKey = lit ''preferred_visits_status''"
definition pushOptInDismissedKey :: str where "pushOptInDismissedKey = lit ''push_opt_in_dismissed''"
definition lastSseIDKey :: str where "lastSseIDKey = lit ''last_sse_id''"

definition incidentTableStates :: "str list" where
  "incidentTableStates = [lit ''all'', lit ''open'', lit ''closed'']"

definition visitsStatusValues :: "str list" where
  "visitsStatusValues = [lit ''all'', lit ''current'']"

definition tableRowsPerPage :: "str list" where
  "tableRowsPerPage = [lit ''all'', lit ''25'', lit ''50'', lit ''100'']"

definition is_valid :: "str list \<Rightarrow> str option \<Rightarrow> bool" where
  "is_valid values value \<longleftrightarrow> (case nonempty value of None \<Rightarrow> False | Some v \<Rightarrow> v \<in> set values)"

definition set_preferred :: "str \<Rightarrow> str option \<Rightarrow> device \<Rightarrow> device" where
  "set_preferred key value dev =
     (case nonempty value of Some v \<Rightarrow> dev_set dev key v | None \<Rightarrow> dev_remove dev key)"

definition get_preferred :: "str \<Rightarrow> str list \<Rightarrow> device \<Rightarrow> str option" where
  "get_preferred key values dev = (let pref = dev_get dev key in if is_valid values pref then pref else None)"

definition setIncidentsPreferredState :: "str option \<Rightarrow> device \<Rightarrow> device" where
  "setIncidentsPreferredState = set_preferred incidentsPreferredStateKey"
definition getIncidentsPreferredState :: "device \<Rightarrow> str option" where
  "getIncidentsPreferredState = get_preferred incidentsPreferredStateKey incidentTableStates"
definition setVisitsPreferredStatus :: "str option \<Rightarrow> device \<Rightarrow> device" where
  "setVisitsPreferredStatus = set_preferred visitsPreferredStatusKey"
definition getVisitsPreferredStatus :: "device \<Rightarrow> str option" where
  "getVisitsPreferredStatus = get_preferred visitsPreferredStatusKey visitsStatusValues"
definition setPreferredTableRowsPerPage :: "str option \<Rightarrow> device \<Rightarrow> device" where
  "setPreferredTableRowsPerPage = set_preferred preferredTableRowsPerPageKey"
definition getPreferredTableRowsPerPage :: "device \<Rightarrow> str option" where
  "getPreferredTableRowsPerPage = get_preferred preferredTableRowsPerPageKey tableRowsPerPage"

text \<open>The first valid value; none at all is the thrown error.\<close>

definition coalesceRowsPerPage :: "str option list \<Rightarrow> str option" where
  "coalesceRowsPerPage vals = (case List.find (is_valid tableRowsPerPage) vals of None \<Rightarrow> None | Some v \<Rightarrow> v)"

definition clearLocalStorage :: "device \<Rightarrow> device" where
  "clearLocalStorage dev =
     foldl dev_remove dev [accessTokenKey, accessTokenRefreshAfterKey, incidentsPreferredStateKey,
       visitsPreferredStatusKey, preferredTableRowsPerPageKey]"

definition pushOptInDismissed :: "device \<Rightarrow> bool" where
  "pushOptInDismissed dev \<longleftrightarrow> dev_get dev pushOptInDismissedKey = Some (lit ''true'')"

definition setPushOptInDismissed :: "bool \<Rightarrow> device \<Rightarrow> device" where
  "setPushOptInDismissed dismissed dev =
     dev_set dev pushOptInDismissedKey (if dismissed then lit ''true'' else lit ''false'')"

definition refreshTokenAfter :: "device \<Rightarrow> int option" where
  "refreshTokenAfter dev = parseInt10 (dev_get dev accessTokenRefreshAfterKey)"

section \<open>Requests\<close>

text \<open>
  A result of \<open>fetchNoThrow\<close>: the status of the response if there was one, the parsed body, the error.
\<close>

record 'a fetch_res =
  fr_status :: "int option"
  fr_json :: "'a option"
  fr_err :: "str option"

record refresh_answer =
  ra_token :: str
  ra_expires :: int

record browser =
  br_local :: device
  br_session :: device

definition refresh_due :: "int \<Rightarrow> browser \<Rightarrow> bool" where
  "refresh_due now b \<longleftrightarrow>
     nonempty (dev_get (br_local b) accessTokenKey) \<noteq> None \<and> nullish (refreshTokenAfter (br_local b)) 0 < now"

definition setAccessToken :: "str \<Rightarrow> device \<Rightarrow> device" where
  "setAccessToken token dev = dev_set dev accessTokenKey token"

definition setRefreshTokenBy :: "int \<Rightarrow> device \<Rightarrow> device" where
  "setRefreshTokenBy timeUnixMS dev = dev_set dev accessTokenRefreshAfterKey (show_int timeUnixMS)"

definition empty_device :: device where
  "empty_device = (\<lambda>_. None)"

definition auth_answered :: "refresh_answer fetch_res \<Rightarrow> browser \<Rightarrow> browser" where
  "auth_answered res b =
     (case (fr_err res, fr_json res) of
        (None, Some answer) \<Rightarrow>
          b\<lparr>br_local := setRefreshTokenBy (ra_expires answer) (setAccessToken (ra_token answer) (br_local b))\<rparr>
      | _ \<Rightarrow>
          if fr_status res = Some 401
          then b\<lparr>br_local := clearLocalStorage (br_local b), br_session := empty_device\<rparr>
          else b)"

definition maybeRefreshAuth :: "int \<Rightarrow> refresh_answer fetch_res \<Rightarrow> browser \<Rightarrow> browser" where
  "maybeRefreshAuth now res b = (if refresh_due now b then auth_answered res b else b)"

datatype ('f, 'j) request_body = FormBody 'f | TextBody str | JsonBody 'j

record ('f, 'j) fetch_init =
  fi_method :: "str option"
  fi_headers :: "(str \<times> str) list"
  fi_body :: "('f, 'j) request_body option"

text \<open>
  \<open>Headers.set\<close>: the names are compared in lower case. \<open>stringify\<close> is \<open>JSON.stringify\<close> of a body that
  is not a text yet.
\<close>

definition header_set :: "str \<Rightarrow> str \<Rightarrow> (str \<times> str) list \<Rightarrow> (str \<times> str) list" where
  "header_set name value headers =
     (if ascii_lower name \<in> ascii_lower ` fst ` set headers
      then map (\<lambda>(n, v). if ascii_lower n = ascii_lower name then (n, value) else (n, v)) headers
      else headers @ [(name, value)])"

definition prepare_request ::
  "('j \<Rightarrow> str) \<Rightarrow> browser \<Rightarrow> ('f, 'j) fetch_init option \<Rightarrow> ('f, 'j) fetch_init" where
  "prepare_request stringify b given =
     (let init = nullish given \<lparr>fi_method = None, fi_headers = [], fi_body = None\<rparr>;
          accept = header_set (lit ''Accept'') (lit ''application/json'') (fi_headers init);
          authorized = (case nonempty (dev_get (br_local b) accessTokenKey) of
              None \<Rightarrow> accept
            | Some tok \<Rightarrow> header_set (lit ''Authorization'') (lit ''Bearer '' @ tok) accept)
      in case fi_body init of
           None \<Rightarrow> init\<lparr>fi_headers := authorized\<rparr>
         | Some (FormBody f) \<Rightarrow>
             init\<lparr>fi_headers := authorized, fi_method := Some (or_str (fi_method init) (lit ''POST''))\<rparr>
         | Some body \<Rightarrow>
             init\<lparr>fi_headers := header_set (lit ''Content-Type'') (lit ''application/json'') authorized,
               fi_method := Some (or_str (fi_method init) (lit ''POST'')),
               fi_body := Some (case body of JsonBody j \<Rightarrow> TextBody (stringify j) | _ \<Rightarrow> body)\<rparr>)"

text \<open>
  What \<open>fetch\<close> gives: nothing for a thrown value that is no error, the message of an error, or a
  response. \<open>hr_problem\<close> and \<open>hr_json\<close> are the parsed bodies; a body that does not parse throws.
\<close>

record 'a http_response =
  hr_status :: int
  hr_statusText :: str
  hr_contentType :: "str option"
  hr_problem :: "str option option"
  hr_json :: "'a option"

datatype 'a fetched = ThrownValue | FetchFailed str | Responded "'a http_response"

definition http_ok :: "int \<Rightarrow> bool" where
  "http_ok status \<longleftrightarrow> 200 \<le> status \<and> status < 300"

definition fetch_answer :: "'a fetched \<Rightarrow> 'a fetch_res option" where
  "fetch_answer outcome =
     (case outcome of
        ThrownValue \<Rightarrow> None
      | FetchFailed message \<Rightarrow> Some \<lparr>fr_status = None, fr_json = None, fr_err = Some message\<rparr>
      | Responded r \<Rightarrow>
          (let status = lit ''('' @ show_int (hr_status r) @ lit '')'';
               problem = (\<not> http_ok (hr_status r) \<and> hr_contentType r = Some (lit ''application/problem+json''));
               json = (hr_contentType r = Some (lit ''application/json''));
               done = (\<lambda>err. Some \<lparr>fr_status = Some (hr_status r), fr_json = (if json then hr_json r else None), fr_err = err\<rparr>)
           in if json \<and> hr_json r = None then None
              else if http_ok (hr_status r) then done None
              else if problem
                then (case hr_problem r of
                        None \<Rightarrow> None
                      | Some detail \<Rightarrow> done (Some (nullish detail [] @ lit '' (HTTP '' @ show_int (hr_status r) @ lit '')'')))
              else done (Some (hr_statusText r @ lit '' '' @ status))))"

text \<open>
  The retry of the first question of a page, over the answers of its attempts: what it ends with and
  how long it paused before each further attempt.
\<close>

definition auth_backoffs :: "nat list" where
  "auth_backoffs = [500, 1500, 3000]"

definition transient :: "'a fetch_res \<Rightarrow> bool" where
  "transient r \<longleftrightarrow> fr_json r = None \<and> (case fr_status r of None \<Rightarrow> True | Some s \<Rightarrow> s \<ge> 500)"

fun auth_retry :: "(nat \<Rightarrow> 'a fetch_res) \<Rightarrow> nat list \<Rightarrow> nat \<Rightarrow> 'a fetch_res \<times> nat list" where
  "auth_retry answers [] n = (answers n, [])"
| "auth_retry answers (pause # pauses) n =
     (if \<not> transient (answers n) then (answers n, [])
      else let (result, paused) = auth_retry answers pauses (Suc n) in (result, pause # paused))"

definition fetchAuthInfoWithRetry :: "(nat \<Rightarrow> 'a fetch_res) \<Rightarrow> 'a fetch_res \<times> nat list" where
  "fetchAuthInfoWithRetry answers = auth_retry answers auth_backoffs 0"

text \<open>Signing out: the call that clears the cookie comes first, and a call that throws ends it there.\<close>

definition redirectToLogin :: "bool \<Rightarrow> str \<Rightarrow> browser \<Rightarrow> browser \<times> str option" where
  "redirectToLogin reached pathname b =
     (if \<not> reached then (b, None)
      else (b\<lparr>br_local := clearLocalStorage (br_local b)\<rparr>,
        map_option (\<lambda>p. lit ''/ims/auth/login?o='' @ p) (encodeURIComponent pathname)))"

section \<open>The bell\<close>

record tnotification =
  tn_type :: "str option"
  tn_event :: "str option"
  tn_incidentNumber :: "int option"
  tn_incidentSummary :: "str option"
  tn_reportNumber :: "int option"
  tn_reportSummary :: "str option"
  tn_actor :: "str option"
  tn_created :: "str option"

text \<open>\<open>encodeURIComponent\<close> throws on a lone surrogate: no value.\<close>

definition notificationHref :: "tnotification \<Rightarrow> str option" where
  "notificationHref n =
     (case nonempty (tn_event n) of
        None \<Rightarrow> Some (lit ''#'')
      | Some event \<Rightarrow>
          map_option (\<lambda>e.
            (let base = lit ''/ims/app/events/'' @ e
             in case (tn_incidentNumber n, tn_reportNumber n) of
                  (Some i, _) \<Rightarrow> base @ lit ''/incidents/'' @ show_int i
                | (None, Some r) \<Rightarrow> base @ lit ''/reports/'' @ show_int r
                | (None, None) \<Rightarrow> lit ''#'')) (encodeURIComponent event))"

definition notificationText :: "tnotification \<Rightarrow> str" where
  "notificationText n =
     (let who = or_str (tn_actor n) (lit ''Someone'')
      in if tn_type n = Some (lit ''mentioned'')
           then (if tn_reportNumber n \<noteq> None then who @ lit '' mentioned you in a report'' else who @ lit '' mentioned you'')
         else if tn_type n = Some (lit ''added_to_incident'') then who @ lit '' added you to an incident''
         else if tn_type n = Some (lit ''report_requested'') then who @ lit '' asked for your report on an incident''
         else who @ lit '' notified you'')"

definition maybe_part :: "str option \<Rightarrow> str list" where
  "maybe_part s = (case nonempty s of None \<Rightarrow> [] | Some t \<Rightarrow> [t])"

definition notificationMeta :: "(str \<Rightarrow> str) \<Rightarrow> tnotification \<Rightarrow> str" where
  "notificationMeta localeTime n =
     join [32, 183, 32]
       ((case (tn_incidentNumber n, tn_reportNumber n) of
           (Some i, _) \<Rightarrow> (lit ''#'' @ show_int i) # maybe_part (tn_incidentSummary n)
         | (None, Some r) \<Rightarrow> (lit ''FR #'' @ show_int r) # maybe_part (tn_reportSummary n)
         | (None, None) \<Rightarrow> []) @
        map localeTime (maybe_part (tn_created n)))"

definition badgeText :: "int \<Rightarrow> str" where
  "badgeText unread = (if unread > 99 then lit ''99+'' else show_int unread)"

text \<open>The badge is shown with its text or hidden, and with it the button that marks everything read.\<close>

definition badge :: "int option \<Rightarrow> str option" where
  "badge unread = (let n = nullish unread 0 in if n > 0 then Some (badgeText n) else None)"

text \<open>
  \<open>fetchNoThrow\<close>: the refresh first unless it is the refresh itself, then the request with what is in
  storage by then. A refresh that throws leaves the storage and ends the call.
\<close>

definition fetchNoThrow ::
  "('j \<Rightarrow> str) \<Rightarrow> int \<Rightarrow> bool \<Rightarrow> refresh_answer fetched \<Rightarrow> ('f, 'j) fetch_init option \<Rightarrow> 'a fetched \<Rightarrow> browser \<Rightarrow>
     browser \<times> (('f, 'j) fetch_init \<times> 'a fetch_res option) option" where
  "fetchNoThrow stringify now is_refresh refresh given outcome b =
     (let send = (\<lambda>b1. (b1, Some (prepare_request stringify b1 given, fetch_answer outcome)))
      in if is_refresh \<or> \<not> refresh_due now b then send b
         else (case fetch_answer refresh of
                 None \<Rightarrow> (b, None)
               | Some res \<Rightarrow> send (maybeRefreshAuth now res b)))"

section \<open>The event in the navigation\<close>

text \<open>
  \<open>Number(s)\<close> where it is finite: the white space around is dropped, the empty text is zero, then a
  hexadecimal, octal, binary or decimal literal. The value is exact here; a double rounds it.
\<close>

definition radix_value :: "int \<Rightarrow> (nat \<Rightarrow> int option) \<Rightarrow> str \<Rightarrow> rat option" where
  "radix_value base digit s =
     (if s = [] \<or> list_ex (\<lambda>c. digit c = None) s then None
      else Some (of_int (foldl (\<lambda>n c. base * n + the (digit c)) 0 s)))"

definition digit_below :: "nat \<Rightarrow> nat \<Rightarrow> int option" where
  "digit_below base c =
     (let v = (if is_digit c then c - 48 else if 97 \<le> c \<and> c \<le> 102 then c - 87
               else if 65 \<le> c \<and> c \<le> 70 then c - 55 else base)
      in if v < base then Some (int v) else None)"

definition exponent_value :: "str \<Rightarrow> int option" where
  "exponent_value r =
     (case r of
        [] \<Rightarrow> None
      | c # ds \<Rightarrow>
          if c = 43 then (if all_digits ds then Some (int (digits_val ds)) else None)
          else if c = 45 then (if all_digits ds then Some (- int (digits_val ds)) else None)
          else if all_digits r then Some (int (digits_val r)) else None)"

definition scaled :: "rat \<Rightarrow> int \<Rightarrow> rat" where
  "scaled m e = (if e \<ge> 0 then m * 10 ^ nat e else m / 10 ^ nat (- e))"

definition unsigned_decimal :: "str \<Rightarrow> rat option" where
  "unsigned_decimal s =
     (let ip = takeWhile is_digit s; r1 = dropWhile is_digit s;
          dot = (r1 \<noteq> [] \<and> hd r1 = 46);
          fp = (if dot then takeWhile is_digit (tl r1) else []);
          r2 = (if dot then dropWhile is_digit (tl r1) else r1);
          m = of_nat (digits_val (ip @ fp)) / 10 ^ length fp
      in if ip = [] \<and> fp = [] then None
         else (case r2 of
                 [] \<Rightarrow> Some m
               | c # r \<Rightarrow> if c = 101 \<or> c = 69 then map_option (scaled m) (exponent_value r) else None))"

definition js_number :: "str \<Rightarrow> rat option" where
  "js_number text =
     (let s = trim text; prefix = ascii_lower (take 2 s);
          value = (if s = [] then Some 0
                   else if prefix = lit ''0x'' then radix_value 16 (digit_below 16) (drop 2 s)
                   else if prefix = lit ''0o'' then radix_value 8 (digit_below 8) (drop 2 s)
                   else if prefix = lit ''0b'' then radix_value 2 (digit_below 2) (drop 2 s)
                   else if hd s = 45 then map_option uminus (unsigned_decimal (tl s))
                   else if hd s = 43 then unsigned_decimal (tl s)
                   else unsigned_decimal s)
      in case value of
           None \<Rightarrow> None
         | Some v \<Rightarrow> if \<bar>v\<bar> < 2 ^ 1024 - 2 ^ 970 then Some v else None)"

record EventData =
  ed_id :: int
  ed_name :: str

definition event_year :: "EventData \<Rightarrow> rat option" where
  "event_year ed = (if trim (ed_name ed) = [] then None else js_number (ed_name ed))"

fun newest_year :: "EventData list \<Rightarrow> (EventData \<times> rat) option \<Rightarrow> (EventData \<times> rat) option" where
  "newest_year [] best = best"
| "newest_year (ed # eds) best =
     newest_year eds
       (case event_year ed of
          None \<Rightarrow> best
        | Some year \<Rightarrow>
            (case best of None \<Rightarrow> Some (ed, year)
             | Some (_, bestYear) \<Rightarrow> if year > bestYear then Some (ed, year) else best))"

definition nav_newestEvent :: "EventData list \<Rightarrow> EventData option" where
  "nav_newestEvent eds =
     (case newest_year eds None of
        Some (best, _) \<Rightarrow> Some best
      | None \<Rightarrow> foldl (\<lambda>newest ed. case newest of None \<Rightarrow> Some ed | Some n \<Rightarrow> if ed_id ed > ed_id n then Some ed else newest) None eds)"

definition updateHomeLink :: "EventData list \<Rightarrow> str option" where
  "updateHomeLink eds =
     Option.bind (nav_newestEvent eds)
       (\<lambda>newest. map_option (js_replace url_viewIncidents EVENT_ID) (encodeURIComponent (ed_name newest)))"

definition renderNavEvents :: "host \<Rightarrow> EventData list \<Rightarrow> (str \<times> str) list" where
  "renderNavEvents h eds =
     map (\<lambda>name. (name, js_replace url_viewIncidents EVENT_ID name))
       (js_sort (\<lambda>a b. locale_compare h b a) (map ed_name eds))"

section \<open>What the navigation shows\<close>

record nav_access =
  na_readIncidents :: bool
  na_readIncidentsViaGrant :: bool
  na_writeIncidents :: bool
  na_readAreas :: bool
  na_inviteReporters :: bool

record nav_auth =
  nv_user :: str
  nv_admin :: bool
  nv_access :: "str \<Rightarrow> nav_access option"

datatype nav_tab = TabIncidents | TabReports | TabPeople | TabCrews | TabAreas | TabDashboard

text \<open>The tabs of an event's page; nobody is signed in with \<open>None\<close>.\<close>

definition nav_tab_shown :: "nav_auth option \<Rightarrow> str \<Rightarrow> nav_tab \<Rightarrow> bool" where
  "nav_tab_shown auth event tab =
     (let access = Option.bind auth (\<lambda>a. nv_access a event);
          may = (\<lambda>f. case access of None \<Rightarrow> False | Some x \<Rightarrow> f x);
          admin = (case auth of None \<Rightarrow> False | Some a \<Rightarrow> nv_admin a)
      in case tab of
           TabIncidents \<Rightarrow> may (\<lambda>x. na_readIncidents x \<or> na_readIncidentsViaGrant x)
         | TabReports \<Rightarrow> True
         | TabPeople \<Rightarrow> auth \<noteq> None \<and> (admin \<or> may na_inviteReporters)
         | TabCrews \<Rightarrow> auth \<noteq> None \<and> admin
         | TabAreas \<Rightarrow> auth \<noteq> None \<and> (admin \<or> may na_readAreas)
         | TabDashboard \<Rightarrow> auth \<noteq> None \<and> (admin \<or> may na_writeIncidents))"

definition minPasswordLength :: nat where "minPasswordLength = 8"

definition password_problem :: "str \<Rightarrow> str \<Rightarrow> str option" where
  "password_problem password confirm =
     (if length password < minPasswordLength
      then Some (lit ''Password must be at least '' @ show_int (int minPasswordLength) @ lit '' characters.'')
      else if password \<noteq> confirm then Some (lit ''Passwords do not match.'')
      else None)"

section \<open>The stream's leader\<close>

text \<open>
  Of all open pages one holds the event source. What an event of the stream writes to the storage and
  which channels it posts to, with the update or \<open>update_all\<close>.
\<close>

datatype channel = IncidentChannel | ReportChannel | VisitChannel
datatype 'd broadcast = UpdateAll | Update 'd
datatype 'd sse = InitialEvent str | SseIncident str 'd | SseReport str 'd | SseVisit str 'd

fun sse_received :: "'d sse \<Rightarrow> device \<Rightarrow> device \<times> (channel \<times> 'd broadcast) list" where
  "sse_received (InitialEvent lastEventId) dev =
     (if dev_get dev lastSseIDKey = Some lastEventId then (dev, [])
      else (dev_set dev lastSseIDKey lastEventId, [(IncidentChannel, UpdateAll), (ReportChannel, UpdateAll)]))"
| "sse_received (SseIncident lastEventId d) dev = (dev_set dev lastSseIDKey lastEventId, [(IncidentChannel, Update d)])"
| "sse_received (SseReport lastEventId d) dev = (dev_set dev lastSseIDKey lastEventId, [(ReportChannel, Update d)])"
| "sse_received (SseVisit lastEventId d) dev = (dev_set dev lastSseIDKey lastEventId, [(VisitChannel, Update d)])"

fun sse_run :: "'d sse list \<Rightarrow> device \<Rightarrow> device \<times> (channel \<times> 'd broadcast) list" where
  "sse_run [] dev = (dev, [])"
| "sse_run (e # es) dev =
     (let (dev1, posts) = sse_received e dev; (dev2, later) = sse_run es dev1 in (dev2, posts @ later))"

section \<open>Addresses are read back\<close>

datatype page_kind = IncidentPage | ReportPage | VisitPage

fun page_url :: "page_kind \<Rightarrow> str" where
  "page_url IncidentPage = url_viewIncidents"
| "page_url ReportPage = url_viewReports"
| "page_url VisitPage = url_viewVisits"

fun page_word :: "page_kind \<Rightarrow> str" where
  "page_word IncidentPage = lit ''incidents''"
| "page_word ReportPage = lit ''reports''"
| "page_word VisitPage = lit ''visits''"

definition ids_of_page :: "str \<Rightarrow> page_kind \<Rightarrow> int \<Rightarrow> path_ids" where
  "ids_of_page event kind n =
     \<lparr>path_eventName = Some event, path_eventId = None,
      path_incidentNumber = (if kind = IncidentPage then Some n else None),
      path_reportNumber = (if kind = ReportPage then Some n else None),
      path_visitNumber = (if kind = VisitPage then Some n else None)\<rparr>"

lemma expand_plain: "36 \<notin> set r \<Longrightarrow> expand_replacement b m a r = r"
  by (induction b m a r rule: expand_replacement.induct) auto

lemma page_index: "index_of (page_url kind) EVENT_ID = Some 16"
  by (cases kind) (simp_all add: url_viewIncidents_def url_viewReports_def url_viewVisits_def EVENT_ID_def starts_with_def)

lemma page_parts:
  "take 16 (page_url kind) = lit ''/ims/app/events/''" "drop (16 + length EVENT_ID) (page_url kind) = lit ''/'' @ page_word kind"
  by (cases kind; simp add: url_viewIncidents_def url_viewReports_def url_viewVisits_def EVENT_ID_def)+

lemma urlReplace_page:
  assumes "path_eventName ids = Some event" and "event \<noteq> []" and "36 \<notin> set event"
  shows "urlReplace ids (page_url kind) = lit ''/ims/app/events/'' @ event @ 47 # page_word kind"
proof -
  have "nonempty (Some event) = Some event" using assms(2) by (cases event) simp_all
  then show ?thesis
    using page_parts [of kind] by (simp add: urlReplace_def assms(1) js_replace_def page_index expand_plain [OF assms(3)])
qed

lemma split_slash: "split_on 47 (47 # s) = [] # split_on 47 s"
  by simp

lemma page_split:
  assumes "47 \<notin> set event" and "47 \<notin> set word" and "47 \<notin> set t"
  shows "split_on 47 (lit ''/ims/app/events/'' @ event @ 47 # word @ 47 # t) =
    [[], lit ''ims'', lit ''app'', lit ''events'', event, word, t]"
  using split_on_append [OF assms(1)] split_on_append [OF assms(2)] split_on_no_sep [OF assms(3)] by simp

lemma show_int_one_part: "0 \<le> n \<Longrightarrow> 47 \<notin> set (show_int n)"
  using show_int_pos_digits [of n 47] by (auto simp: is_digit_def)

lemma show_int_no_word: "0 \<le> n \<Longrightarrow> show_int n \<noteq> page_word kind"
  using show_int_pos_digits [of n 105] show_int_pos_digits [of n 114]
  by (cases kind) (auto simp: is_digit_def)

text \<open>What a page reads of an address with any last part.\<close>

lemma read_page_address:
  assumes "event \<noteq> []" and "47 \<notin> set event" and "event \<notin> range page_word"
    and "t \<noteq> []" and "47 \<notin> set t" and "t \<notin> range page_word"
  shows "idsFromPath (lit ''/ims/app/events/'' @ event @ 47 # page_word kind @ 47 # t) =
    \<lparr>path_eventName = Some event, path_eventId = None,
     path_incidentNumber = (if kind = IncidentPage then parse_int t else None),
     path_reportNumber = (if kind = ReportPage then parse_int t else None),
     path_visitNumber = (if kind = VisitPage then parse_int t else None)\<rparr>"
proof -
  have word: "47 \<notin> set (page_word kind)" by (cases kind) simp_all
  have no: "event \<noteq> page_word k" "t \<noteq> page_word k" for k
    using assms(3,6) by auto
  have words: "event \<noteq> lit ''incidents''" "event \<noteq> lit ''reports''" "event \<noteq> lit ''visits''"
      "t \<noteq> lit ''incidents''" "t \<noteq> lit ''reports''" "t \<noteq> lit ''visits''"
    using no [of IncidentPage] no [of ReportPage] no [of VisitPage] by simp_all
  have ev: "tokenAfter [[], lit ''ims'', lit ''app'', lit ''events'', event, page_word kind, t] (lit ''events'') = Some event"
    using assms(1) by (simp add: tokenAfter_def)
  have other: "tokenAfter [[], lit ''ims'', lit ''app'', lit ''events'', event, page_word kind, t] (page_word k) =
      (if k = kind then Some t else None)" for k
    using words assms(4) by (cases k; cases kind) (simp_all add: tokenAfter_def)
  show ?thesis
    using ev other [of IncidentPage] other [of ReportPage] other [of VisitPage]
    by (simp add: idsFromPath_def page_split [OF assms(2) word assms(5)] parseInt10_def del: lit_simps)
qed

lemma show_int_part:
  assumes "0 \<le> n"
  shows "show_int n \<noteq> []" "47 \<notin> set (show_int n)" "show_int n \<notin> range page_word"
  using show_int_one_part [OF assms] show_int_no_word [OF assms] by auto

text \<open>
  The page finds its way: the address a page builds for a record of an event is read back by the next
  page as that event and that number of that kind, and as no other kind's, for every event name that is
  not empty, holds no slash and no dollar sign and is not itself the word of a kind.
\<close>

theorem page_address_read_back:
  assumes "path_eventName ids = Some event" and "event \<noteq> []" and "36 \<notin> set event" and "47 \<notin> set event"
    and "event \<notin> range page_word" and "0 \<le> n"
  shows "idsFromPath (urlReplace ids (page_url kind) @ lit ''/'' @ show_int n) = ids_of_page event kind n"
  using read_page_address [OF assms(2,4,5) show_int_part [OF assms(6)], of kind]
  by (simp add: urlReplace_page [OF assms(1-3)] ids_of_page_def)

lemma page_address_read_back_witness:
  "idsFromPath (urlReplace (ids_of_page (lit ''2026'') IncidentPage 1) (page_url ReportPage) @ lit ''/'' @ show_int 12) =
     ids_of_page (lit ''2026'') ReportPage 12"
proof (rule page_address_read_back)
  have "lit ''2026'' \<noteq> page_word k" for k by (cases k) simp_all
  then show "lit ''2026'' \<notin> range page_word" by auto
qed (simp_all add: ids_of_page_def)

section \<open>The session\<close>

lemma dev_frame [simp]:
  "dev_get (dev_set d k v) k' = (if k' = k then Some v else dev_get d k')"
  "dev_get (dev_remove d k) k' = (if k' = k then None else dev_get d k')"
  by (simp_all add: dev_get_def dev_set_def dev_remove_def)

lemma token_keys [simp]: "accessTokenKey \<noteq> accessTokenRefreshAfterKey" "accessTokenRefreshAfterKey \<noteq> accessTokenKey"
  by (simp_all add: accessTokenKey_def accessTokenRefreshAfterKey_def)

lemma refreshed_storage:
  "fr_err res = None \<Longrightarrow> fr_json res = Some answer \<Longrightarrow> auth_answered res b =
     b\<lparr>br_local := setRefreshTokenBy (ra_expires answer) (setAccessToken (ra_token answer) (br_local b))\<rparr>"
  by (simp add: auth_answered_def)

definition header_get :: "str \<Rightarrow> (str \<times> str) list \<Rightarrow> str option" where
  "header_get name headers = map_option snd (List.find (\<lambda>h. ascii_lower (fst h) = ascii_lower name) headers)"

lemma header_get_simps:
  "header_get n [] = None"
  "header_get n ((a, v) # hs) = (if ascii_lower a = ascii_lower n then Some v else header_get n hs)"
  by (simp_all add: header_get_def)

lemma header_get_absent: "ascii_lower name \<notin> ascii_lower ` fst ` set hs \<Longrightarrow> header_get name hs = None"
  by (induction hs) (auto simp: header_get_simps)

lemma header_get_append: "header_get n (hs @ gs) = (case header_get n hs of None \<Rightarrow> header_get n gs | Some v \<Rightarrow> Some v)"
  by (induction hs) (auto simp: header_get_simps split: prod.splits)

lemma header_get_map:
  "header_get name' (map (\<lambda>(n, v). if ascii_lower n = ascii_lower name then (n, value) else (n, v)) hs) =
     (if ascii_lower name' = ascii_lower name \<and> ascii_lower name \<in> ascii_lower ` fst ` set hs then Some value
      else header_get name' hs)"
  by (induction hs) (auto simp: header_get_simps split: prod.splits)

lemma header_get_set [simp]:
  "header_get name' (header_set name value hs) =
     (if ascii_lower name' = ascii_lower name then Some value else header_get name' hs)"
proof (cases "ascii_lower name \<in> ascii_lower ` fst ` set hs")
  case True
  then show ?thesis by (simp add: header_set_def header_get_map)
next
  case False
  then show ?thesis
    using header_get_absent [OF False]
    by (auto simp: header_set_def header_get_append header_get_simps header_get_absent split: option.splits)
qed

definition bearer_of :: "('f, 'j) fetch_init \<Rightarrow> str option" where
  "bearer_of init = header_get (lit ''Authorization'') (fi_headers init)"

definition bearer_token :: "browser \<Rightarrow> str option" where
  "bearer_token b = map_option (\<lambda>t. lit ''Bearer '' @ t) (nonempty (dev_get (br_local b) accessTokenKey))"

lemma bearer_sent:
  assumes "\<forall>init. given = Some init \<longrightarrow> header_get (lit ''Authorization'') (fi_headers init) = None"
  shows "bearer_of (prepare_request stringify b given) = bearer_token b"
proof -
  let ?init = "nullish given \<lparr>fi_method = None, fi_headers = [], fi_body = None\<rparr>"
  have no: "header_get (lit ''Authorization'') (fi_headers ?init) = None"
    using assms by (cases given) (simp_all add: header_get_simps)
  then show ?thesis
    by (auto simp: prepare_request_def bearer_of_def bearer_token_def Let_def ascii_lower_def
        split: option.split request_body.split)
qed

definition session_over :: "browser \<Rightarrow> bool" where
  "session_over b \<longleftrightarrow> dev_get (br_local b) accessTokenKey = None \<and> br_session b = empty_device"

lemma fetch_answer_status:
  "fetch_answer outcome = Some res \<Longrightarrow> fr_status res = Some st \<Longrightarrow> \<exists>r. outcome = Responded r \<and> hr_status r = st"
  by (auto simp: fetch_answer_def Let_def split: fetched.splits if_splits option.splits)

lemma fetch_answer_good:
  "fetch_answer outcome = Some res \<Longrightarrow> fr_err res = None \<Longrightarrow> fr_json res = Some a \<Longrightarrow>
     \<exists>r. outcome = Responded r \<and> http_ok (hr_status r) \<and> hr_json r = Some a"
  by (auto simp: fetch_answer_def Let_def split: fetched.splits if_splits option.splits)

lemma cleared_over: "session_over (b\<lparr>br_local := clearLocalStorage (br_local b), br_session := empty_device\<rparr>)"
  by (simp add: session_over_def clearLocalStorage_def)

lemma refresh_cases:
  assumes "fetch_answer outcome = Some res"
  shows "auth_answered res b = b \<or>
    (\<exists>r. outcome = Responded r \<and>
      (hr_status r = 401 \<and> session_over (auth_answered res b) \<or>
       http_ok (hr_status r) \<and> (\<exists>a. hr_json r = Some a \<and>
         dev_get (br_local (auth_answered res b)) accessTokenKey = Some (ra_token a) \<and>
         refreshTokenAfter (br_local (auth_answered res b)) = Some (ra_expires a))))"
proof (cases "fr_err res = None \<and> fr_json res \<noteq> None")
  case True
  then obtain a where a: "fr_err res = None" "fr_json res = Some a" by auto
  from fetch_answer_good [OF assms this] a show ?thesis
    by (auto simp: refreshed_storage setRefreshTokenBy_def setAccessToken_def refreshTokenAfter_def parseInt10_def)
next
  case False
  then have r: "auth_answered res b = (if fr_status res = Some 401
      then b\<lparr>br_local := clearLocalStorage (br_local b), br_session := empty_device\<rparr> else b)"
    by (auto simp: auth_answered_def split: option.split)
  show ?thesis
  proof (cases "fr_status res = Some 401")
    case True
    with fetch_answer_status [OF assms True] cleared_over r show ?thesis by auto
  next
    case False
    with r show ?thesis by simp
  qed
qed

text \<open>
  C30: A session of the web client is only ended by the server. A call leaves every key of the storage as
  it is unless a refresh was due, and then: a good answer puts in its token and its time, which the call
  already carries; a 401 takes out the session; anything else, a server that is away above all, leaves
  the session, and the call goes out with the token there was. The refresh itself never refreshes.
\<close>

theorem session_ends_only_on_401:
  fixes stringify :: "'j \<Rightarrow> str" and given :: "('f, 'j) fetch_init option" and now :: int and is_refresh :: bool
    and refresh :: "refresh_answer fetched" and outcome :: "'a fetched" and b :: browser
  assumes "\<forall>init. given = Some init \<longrightarrow> header_get (lit ''Authorization'') (fi_headers init) = None"
  defines "call \<equiv> fetchNoThrow stringify now is_refresh refresh given outcome b"
  shows "(fst call = b \<or>
      (\<not> is_refresh \<and> refresh_due now b \<and> (\<exists>r. refresh = Responded r \<and>
        (hr_status r = 401 \<and> session_over (fst call) \<or>
         http_ok (hr_status r) \<and> (\<exists>a. hr_json r = Some a \<and>
           dev_get (br_local (fst call)) accessTokenKey = Some (ra_token a) \<and>
           refreshTokenAfter (br_local (fst call)) = Some (ra_expires a)))))) \<and>
    (\<forall>req res. snd call = Some (req, res) \<longrightarrow> bearer_of req = bearer_token (fst call))"
proof (cases "is_refresh \<or> \<not> refresh_due now b")
  case True
  then show ?thesis by (auto simp: call_def fetchNoThrow_def bearer_sent [OF assms(1)])
next
  case False
  then show ?thesis
  proof (cases "fetch_answer refresh")
    case None
    with False show ?thesis by (simp add: call_def fetchNoThrow_def)
  next
    case (Some res)
    with False have "call = (auth_answered res b,
        Some (prepare_request stringify (auth_answered res b) given, fetch_answer outcome))"
      by (simp add: call_def fetchNoThrow_def maybeRefreshAuth_def)
    with False refresh_cases [OF Some, of b] show ?thesis by (simp add: bearer_sent [OF assms(1)])
  qed
qed

definition stale_browser :: browser where
  "stale_browser = \<lparr>br_local = empty_device(accessTokenKey \<mapsto> lit ''old''), br_session = empty_device\<rparr>"

lemma session_ends_only_on_401_witness:
  "bearer_token (fst (fetchNoThrow (\<lambda>j. j) 5 False (FetchFailed (lit ''away'')) (None :: (unit, str) fetch_init option)
     (ThrownValue :: unit fetched) stale_browser)) = Some (lit ''Bearer old'')"
  using session_ends_only_on_401 [of "None :: (unit, str) fetch_init option" "\<lambda>j. j" 5 False
      "FetchFailed (lit ''away'')" "ThrownValue :: unit fetched" stale_browser]
  by (auto simp: bearer_token_def stale_browser_def dev_get_def)

section \<open>The first question of a page\<close>

text \<open>
  C36: The question who is signed in ends: after at most three further attempts with the pauses of the
  list, with the first answer that is not transient, or with the fourth one if there is none.
\<close>

theorem auth_question_ends:
  shows "\<exists>k \<le> 3. fetchAuthInfoWithRetry answers = (answers k, take k auth_backoffs) \<and>
    (\<forall>j < k. transient (answers j)) \<and> (k < 3 \<longrightarrow> \<not> transient (answers k))"
proof -
  have steps: "fetchAuthInfoWithRetry answers =
      (if \<not> transient (answers 0) then (answers 0, [])
       else if \<not> transient (answers 1) then (answers 1, [500])
       else if \<not> transient (answers 2) then (answers 2, [500, 1500])
       else (answers 3, [500, 1500, 3000]))"
    by (simp add: fetchAuthInfoWithRetry_def auth_backoffs_def numeral_2_eq_2 numeral_3_eq_3)
  have below: "j < 1 \<longleftrightarrow> j = 0" "j < 2 \<longleftrightarrow> j = 0 \<or> j = 1" "j < 3 \<longleftrightarrow> j = 0 \<or> j = 1 \<or> j = 2" for j :: nat
    by auto
  consider "\<not> transient (answers 0)" | "transient (answers 0)" "\<not> transient (answers 1)"
    | "transient (answers 0)" "transient (answers 1)" "\<not> transient (answers 2)"
    | "transient (answers 0)" "transient (answers 1)" "transient (answers 2)" by blast
  then show ?thesis
  proof cases
    case 1 then show ?thesis by (intro exI [of _ 0]) (simp add: steps)
  next
    case 2 then show ?thesis by (intro exI [of _ 1]) (simp add: steps auth_backoffs_def below)
  next
    case 3 then show ?thesis by (intro exI [of _ 2]) (simp add: steps auth_backoffs_def below)
  next
    case 4 then show ?thesis by (intro exI [of _ 3]) (auto simp: steps auth_backoffs_def below)
  qed
qed

definition one_outage :: "nat \<Rightarrow> unit fetch_res" where
  "one_outage j = (if j = 0 then \<lparr>fr_status = None, fr_json = None, fr_err = Some (lit ''away'')\<rparr>
     else \<lparr>fr_status = Some 200, fr_json = Some (), fr_err = None\<rparr>)"

lemma auth_question_ends_witness: "fetchAuthInfoWithRetry one_outage = (one_outage 1, [500])"
proof -
  have t: "transient (one_outage j) \<longleftrightarrow> j = 0" for j by (simp add: one_outage_def transient_def)
  from auth_question_ends [of one_outage] obtain k where k: "k \<le> 3" "\<forall>j < k. transient (one_outage j)"
      "k < 3 \<longrightarrow> \<not> transient (one_outage k)"
    and res: "fetchAuthInfoWithRetry one_outage = (one_outage k, take k auth_backoffs)" by blast
  have "k \<noteq> 0"
  proof
    assume "k = 0"
    with k(3) t [of 0] show False by simp
  qed
  moreover have "\<not> 1 < k"
  proof
    assume "1 < k"
    with k(2) have "transient (one_outage 1)" by blast
    with t [of 1] show False by simp
  qed
  ultimately have "k = 1" by simp
  with res show ?thesis by (simp add: auth_backoffs_def)
qed

section \<open>The two clients\<close>

text \<open>The two readings of one row of the server: its JSON for the pages and its message for the app.\<close>

fun wire_type :: "NotificationType \<Rightarrow> str option" where
  "wire_type NT_MENTIONED = Some (lit ''mentioned'')"
| "wire_type NT_ADDED_TO_INCIDENT = Some (lit ''added_to_incident'')"
| "wire_type NT_REPORT_REQUESTED = Some (lit ''report_requested'')"
| "wire_type NT_UNSPECIFIED = None"

definition same_row :: "Notification \<Rightarrow> tnotification \<Rightarrow> bool" where
  "same_row n t \<longleftrightarrow> tn_type t = wire_type (nt_type n) \<and> tn_event t = Some (nt_event n) \<and>
     tn_incidentNumber t = nt_incidentNumber n \<and> tn_reportNumber t = nt_reportNumber n \<and> tn_actor t = nt_actor n"

text \<open>
  The bell of the pages and the app's alerts speak alike: for a row that names at most one record
  the texts are the same, and, a request for a report apart, the link of the bell, read as the app reads
  a push's link, leads where the app's alert leads.
\<close>

theorem bell_and_alerts_agree:
  assumes "same_row n t" and "nt_incidentNumber n = None \<or> nt_reportNumber n = None"
    and "\<forall>i. nt_incidentNumber n = Some i \<or> nt_reportNumber n = Some i \<longrightarrow> 0 \<le> i"
    and "nt_event n \<noteq> []" and "units (nt_event n)" and "encodeURIComponent (nt_event n) = Some e"
  shows "notificationText t = alertText n \<and>
    (nt_type n \<noteq> NT_REPORT_REQUESTED \<longrightarrow>
      Option.bind (notificationHref t) (\<lambda>u. pushLinkHref u events) = alertHref n events)"
proof
  show "notificationText t = alertText n"
    using assms(1) by (cases "nt_type n") (simp_all add: same_row_def notificationText_def alertText_def Let_def)
  have dec: "decodeURIComponent e = Some (nt_event n)" by (rule decode_encode [OF assms(5,6)])
  then have "e \<noteq> []" using assms(4) by auto
  note lead = links_lead [OF dec this, of _ events]
  have delims: "\<forall>c \<in> set e. c \<noteq> 47 \<and> c \<noteq> 63 \<and> c \<noteq> 35"
    using encode_no_delimiter [OF assms(5,6)] by auto
  have named: "nonempty (Some (nt_event n)) = Some (nt_event n)" using assms(4) by (cases "nt_event n") simp_all
  show "nt_type n \<noteq> NT_REPORT_REQUESTED \<longrightarrow>
      Option.bind (notificationHref t) (\<lambda>u. pushLinkHref u events) = alertHref n events"
  proof
    assume type: "nt_type n \<noteq> NT_REPORT_REQUESTED"
    have t: "tn_event t = Some (nt_event n)" "tn_incidentNumber t = nt_incidentNumber n" "tn_reportNumber t = nt_reportNumber n"
      using assms(1) by (simp_all add: same_row_def)
    consider i where "nt_incidentNumber n = Some i" "nt_reportNumber n = None"
      | r where "nt_incidentNumber n = None" "nt_reportNumber n = Some r"
      | "nt_incidentNumber n = None" "nt_reportNumber n = None" using assms(2) by fastforce
    then show "Option.bind (notificationHref t) (\<lambda>u. pushLinkHref u events) = alertHref n events"
    proof cases
      case (1 i)
      then have "notificationHref t = Some (incidentAppURL e i)"
        by (simp add: notificationHref_def t named assms(6) incidentAppURL_def PUSH_PREFIX_def)
      with 1 type assms(3) show ?thesis
        by (simp add: lead(1) [OF delims] alertHref_def split: option.split)
    next
      case (2 r)
      then have "notificationHref t = Some (reportAppURL e r)"
        by (simp add: notificationHref_def t named assms(6) reportAppURL_def PUSH_PREFIX_def)
      with 2 type assms(3) show ?thesis
        by (simp add: lead(2) [OF delims] alertHref_def split: option.split)
    next
      case 3
      then have "notificationHref t = Some (lit ''#'')" by (simp add: notificationHref_def t named assms(6))
      moreover have "pushLinkHref (lit ''#'') events = None"
        by (simp add: pushLinkHref_def push_match_def PUSH_PREFIX_def starts_with_def)
      ultimately show ?thesis using 3 type by (simp add: alertHref_def split: option.split)
    qed
  qed
qed

lemma bell_and_alerts_agree_witness:
  "notificationText \<lparr>tn_type = Some (lit ''mentioned''), tn_event = Some (lit ''2026''), tn_incidentNumber = Some 7,
      tn_incidentSummary = None, tn_reportNumber = None, tn_reportSummary = None, tn_actor = Some (lit ''Hub''), tn_created = None\<rparr> =
   alertText (blank_notification\<lparr>nt_type := NT_MENTIONED, nt_event := lit ''2026'', nt_incidentNumber := Some 7, nt_actor := Some (lit ''Hub'')\<rparr>)"
  by (rule conjunct1 [OF bell_and_alerts_agree [of _ _ "lit ''2026''"]])
    (simp_all add: same_row_def blank_notification_def units_def encodeURIComponent_def encode_point_def unreserved_def is_digit_def)

definition nav_event :: "EventData \<Rightarrow> Event" where
  "nav_event ed = \<lparr>ev_id = ed_id ed, ev_name = Some (ed_name ed)\<rparr>"

definition plainly_named :: "EventData \<Rightarrow> bool" where
  "plainly_named ed \<longleftrightarrow> all_digits (trim (ed_name ed)) \<or> trim (ed_name ed) = [] \<or> js_number (ed_name ed) = None"

lemma digits_decimal:
  assumes "all_digits s"
  shows "unsigned_decimal s = Some (of_nat (digits_val s))"
proof -
  have tw: "takeWhile is_digit s = s" and dw: "dropWhile is_digit s = []" and "s \<noteq> []"
    using assms by (auto simp: all_digits_def list_all_iff)
  then show ?thesis unfolding unsigned_decimal_def Let_def tw dw by simp
qed

lemma digits_prefix:
  assumes "all_digits s"
  shows "ascii_lower (take 2 s) \<notin> {lit ''0x'', lit ''0o'', lit ''0b''}" and "hd s \<noteq> 45" and "hd s \<noteq> 43"
  using assms by (cases s; cases "tl s"; auto simp: all_digits_def ascii_lower_def is_digit_def)+

lemma finite_digits: "\<bar>of_nat n :: rat\<bar> < 2 ^ 1024 - 2 ^ 970 \<longleftrightarrow> num_finite (int n)"
proof -
  have "(of_nat n :: rat) < 2 ^ 1024 - 2 ^ 970 \<longleftrightarrow> (of_int (int n) :: rat) < of_int (2 ^ 1024 - 2 ^ 970)"
    by simp
  then show ?thesis by (simp only: of_int_less_iff num_finite_def abs_of_nat)
qed

lemma digits_number:
  "all_digits (trim s) \<Longrightarrow> js_number s =
     (if num_finite (int (digits_val (trim s))) then Some (of_int (int (digits_val (trim s)))) else None)"
  using digits_prefix [of "trim s"] digits_decimal [of "trim s"] finite_digits [of "digits_val (trim s)"]
  by (auto simp: js_number_def Let_def all_digits_def)


lemma plain_year: "plainly_named ed \<Longrightarrow> event_year ed = map_option of_int (numericName (nav_event ed))"
  using digits_number [of "ed_name ed"]
  by (auto simp: plainly_named_def event_year_def numericName_def nav_event_def Let_def)

definition same_best :: "(EventData \<times> rat) option \<Rightarrow> (Event \<times> int) option \<Rightarrow> bool" where
  "same_best a b \<longleftrightarrow>
     (case (a, b) of
        (None, None) \<Rightarrow> True
      | (Some (ed, y), Some (e, n)) \<Rightarrow> e = nav_event ed \<and> y = of_int n
      | _ \<Rightarrow> False)"

lemma newest_years:
  "\<forall>ed \<in> set eds. plainly_named ed \<Longrightarrow> same_best a b \<Longrightarrow>
     same_best (newest_year eds a) (newest_numeric (map nav_event eds) b)"
proof (induction eds arbitrary: a b)
  case (Cons ed eds)
  then have y: "event_year ed = map_option of_int (numericName (nav_event ed))" by (simp add: plain_year)
  have "same_best (case event_year ed of None \<Rightarrow> a
        | Some year \<Rightarrow> (case a of None \<Rightarrow> Some (ed, year)
            | Some (_, bestYear) \<Rightarrow> if year > bestYear then Some (ed, year) else a))
      (case numericName (nav_event ed) of None \<Rightarrow> b
        | Some n \<Rightarrow> (case b of None \<Rightarrow> Some (nav_event ed, n)
            | Some (_, bestNumeric) \<Rightarrow> if n > bestNumeric then Some (nav_event ed, n) else b))"
    using Cons.prems(2) by (auto simp: y same_best_def split: option.split option.splits prod.splits)
  with Cons show ?case by simp
qed simp

lemma newest_ids:
  "foldl (\<lambda>a b. case a of None \<Rightarrow> Some b | Some e \<Rightarrow> if ev_id b > ev_id e then Some b else a) (map_option nav_event x) (map nav_event eds) =
   map_option nav_event (foldl (\<lambda>newest ed. case newest of None \<Rightarrow> Some ed
     | Some n \<Rightarrow> if ed_id ed > ed_id n then Some ed else newest) x eds)"
proof (induction eds arbitrary: x)
  case (Cons ed eds)
  have "(case map_option nav_event x of None \<Rightarrow> Some (nav_event ed)
      | Some e \<Rightarrow> if ev_id (nav_event ed) > ev_id e then Some (nav_event ed) else map_option nav_event x) =
    map_option nav_event (case x of None \<Rightarrow> Some ed | Some n \<Rightarrow> if ed_id ed > ed_id n then Some ed else x)"
    by (auto simp: nav_event_def split: option.split)
  with Cons show ?case by simp
qed simp

text \<open>
  Both clients open the same fair: among events whose names are digits, blank or no number at all
  the pages' active event is the app's current one.
\<close>

theorem clients_agree_on_the_fair:
  assumes "\<forall>ed \<in> set eds. plainly_named ed"
  shows "newestEvent (map nav_event eds) = map_option nav_event (nav_newestEvent eds)"
  using newest_years [OF assms, of None None] newest_ids [of None eds]
  by (auto simp: newestEvent_def nav_newestEvent_def same_best_def split: option.splits prod.splits)

lemma clients_agree_on_the_fair_witness:
  "newestEvent (map nav_event [\<lparr>ed_id = 3, ed_name = lit ''2025''\<rparr>, \<lparr>ed_id = 1, ed_name = lit ''2026''\<rparr>]) =
     map_option nav_event (nav_newestEvent [\<lparr>ed_id = 3, ed_name = lit ''2025''\<rparr>, \<lparr>ed_id = 1, ed_name = lit ''2026''\<rparr>])"
  by (rule clients_agree_on_the_fair)
    (auto simp: plainly_named_def all_digits_def trim_def is_ws_def is_digit_def)

text \<open>The names the two read differently: any other number outranks every id in the pages only.\<close>

lemma ported_rule_differs:
  "newestEvent (map nav_event [\<lparr>ed_id = 3, ed_name = lit ''Spring''\<rparr>, \<lparr>ed_id = 1, ed_name = lit ''2025.5''\<rparr>]) =
     Some (nav_event \<lparr>ed_id = 3, ed_name = lit ''Spring''\<rparr>)"
  "nav_newestEvent [\<lparr>ed_id = 3, ed_name = lit ''Spring''\<rparr>, \<lparr>ed_id = 1, ed_name = lit ''2025.5''\<rparr>] =
     Some \<lparr>ed_id = 1, ed_name = lit ''2025.5''\<rparr>"
  by (simp_all add: newestEvent_def nav_newestEvent_def numericName_def nav_event_def event_year_def js_number_def
      unsigned_decimal_def trim_def is_ws_def is_digit_def all_digits_def ascii_lower_def digits_val_def Let_def)

section \<open>The stream\<close>

text \<open>
  A visit's page is never told to reload: what was missed before an \<open>InitialEvent\<close> reaches the two other
  channels only.
\<close>

lemma visits_never_reload: "(VisitChannel, UpdateAll) \<notin> set (snd (sse_run es dev))"
proof (induction es arbitrary: dev)
  case (Cons e es)
  have "snd (sse_run (e # es) dev) = snd (sse_received e dev) @ snd (sse_run es (fst (sse_received e dev)))"
    by (simp add: split_beta Let_def)
  with Cons.IH [of "fst (sse_received e dev)"] show ?case by (cases e) (auto split: if_splits)
qed simp

lemma missed_events_reload:
  "dev_get dev lastSseIDKey \<noteq> Some i \<Longrightarrow>
     {(IncidentChannel, UpdateAll), (ReportChannel, UpdateAll)} \<subseteq> set (snd (sse_received (InitialEvent i) dev)) \<and>
     dev_get (fst (sse_received (InitialEvent i) dev)) lastSseIDKey = Some i"
  by simp

text \<open>Labels of the empty range and of the minute before the hour.\<close>

lemma empty_range_has_one: "js_range n n None = Some [n]"
  by (simp add: js_range_def)

lemma sixty_stays: "normalizeMinute 58 = lit ''60''"
  by (simp add: normalizeMinute_def round_to_five_def wrap_minute.simps padTwo_def show_int_def show_nat.simps)

end
