(* ===== verification/TemplJournal.thy ===== *)
theory TemplJournal
  imports Templ Compose
begin

text \<open>
  The journal of the server-rendered pages (\<open>src/go/web/typescript/ims.ts\<close>): labels and summaries, the
  rendering of changes and of paragraphs with mentions, what a strike or a download addresses, the draft
  in local storage, and the composer with its mentions, its keys and its submission. What a function
  appends to the document is the list of segments it returns.
\<close>

section \<open>Labels\<close>

definition personDisplayLabel :: "str option \<Rightarrow> str option \<Rightarrow> str" where
  "personDisplayLabel name handle =
     (let fair = trim (nullish handle []); legal = trim (nullish name [])
      in if fair \<noteq> [] \<and> legal \<noteq> [] then fair @ lit '' ('' @ legal @ lit '')''
         else if legal \<noteq> [] then lit ''('' @ legal @ lit '')''
         else fair)"

definition stateNameFromID :: "str \<Rightarrow> str" where
  "stateNameFromID state =
     (if state = lit ''open'' then lit ''Open'' else if state = lit ''closed'' then lit ''Closed'' else lit ''Unknown'')"

definition stateSortKeyFromID :: "str \<Rightarrow> int option" where
  "stateSortKeyFromID state =
     (if state = lit ''open'' then Some 1 else if state = lit ''closed'' then Some 2 else None)"

text \<open>The outer \<open>None\<close> is a missing state, the inner one a null.\<close>

definition stateForIncident :: "str option option \<Rightarrow> str" where
  "stateForIncident state = (case state of None \<Rightarrow> lit ''null'' | Some s \<Rightarrow> or_str s (lit ''null''))"

definition priorityName :: "int \<Rightarrow> str" where
  "priorityName priority =
     (if priority \<ge> 4 then lit ''High'' else if priority \<le> 2 then lit ''Low'' else lit ''Normal'')"

fun capitalize :: "(str \<Rightarrow> str) \<Rightarrow> str \<Rightarrow> str" where
  "capitalize upper [] = []"
| "capitalize upper (c # w) = upper [c] @ w"

definition humanizeAreaSlug :: "(str \<Rightarrow> str) \<Rightarrow> str \<Rightarrow> str" where
  "humanizeAreaSlug upper slug =
     join [32] (map (capitalize upper) (filter (\<lambda>w. length w > 0) (split_on 45 slug)))"

text \<open>\<open>text!\<close> of an entry without one throws: no value.\<close>

fun first_line :: "tentry list \<Rightarrow> str option" where
  "first_line [] = Some []"
| "first_line (e # es) =
     (if flag (te_system e) then first_line es
      else (case te_text e of
              None \<Rightarrow> None
            | Some text \<Rightarrow>
                (case List.find (\<lambda>l. l \<noteq> []) (split_on 10 text) of Some l \<Rightarrow> Some l | None \<Rightarrow> first_line es)))"

definition summarizeIncidentOrReport :: "str option \<Rightarrow> tentry list \<Rightarrow> str option" where
  "summarizeIncidentOrReport summary entries =
     (case nonempty summary of Some s \<Rightarrow> Some s | None \<Rightarrow> first_line entries)"

definition incidentAuthor :: "tentry list \<Rightarrow> str" where
  "incidentAuthor entries =
     (case List.find (\<lambda>e. nonempty (te_author e) \<noteq> None) entries of
        Some e \<Rightarrow> nullish (te_author e) []
      | None \<Rightarrow> lit ''(none)'')"

definition incidentAsString :: "int option \<Rightarrow> str option \<Rightarrow> tentry list \<Rightarrow> str option" where
  "incidentAsString number summary entries =
     (case number of
        None \<Rightarrow> Some (lit ''New Incident'')
      | Some n \<Rightarrow> map_option (\<lambda>s. lit ''#'' @ show_int n @ lit '' '' @ s) (summarizeIncidentOrReport summary entries))"

definition reportAsString :: "int option \<Rightarrow> str option \<Rightarrow> tentry list \<Rightarrow> str option" where
  "reportAsString number summary entries =
     (case number of
        None \<Rightarrow> Some (lit ''New Report'')
      | Some n \<Rightarrow> map_option
          (\<lambda>s. lit ''Report #'' @ show_int n @ lit '' ('' @ incidentAuthor entries @ lit ''): '' @ s)
          (summarizeIncidentOrReport summary entries))"

definition visitAsString :: "int option \<Rightarrow> str option \<Rightarrow> str option \<Rightarrow> str option \<Rightarrow> str" where
  "visitAsString number guest_name guest_handle guest_legal_name =
     (case number of
        None \<Rightarrow> lit ''New Visit''
      | Some n \<Rightarrow> lit ''VS #'' @ show_int n @ lit '': '' @
          or_str (Some (personDisplayLabel guest_name guest_handle)) (or_str guest_legal_name []))"

text \<open>
  The text a record is searched by: the outer \<open>None\<close> is a key the object does not have, the inner one a
  null.
\<close>

record searchable =
  sx_summary :: "str option option"
  sx_guest_name :: "str option option"
  sx_guest_legal_name :: "str option option"
  sx_guest_description :: "str option option"
  sx_entries :: "tentry list option"
  sx_reports :: "int list option option"
  sx_visits :: "int list option option"

definition key_text :: "str option option \<Rightarrow> str list" where
  "key_text v = (case v of None \<Rightarrow> [] | Some s \<Rightarrow> [or_str s []])"

definition own_texts :: "searchable \<Rightarrow> str list" where
  "own_texts x =
     key_text (sx_summary x) @ key_text (sx_guest_name x) @ key_text (sx_guest_legal_name x) @ key_text (sx_guest_description x) @
     List.map_filter (\<lambda>e. if flag (te_system e) then None else te_text e) (nullish (sx_entries x) [])"

definition attached_texts :: "(int \<Rightarrow> searchable option) option \<Rightarrow> int list option option \<Rightarrow> str list" where
  "attached_texts records numbers =
     (case (records, numbers) of
        (Some known, Some ns) \<Rightarrow>
          List.map_filter (\<lambda>n. map_option (\<lambda>r. join [32] (own_texts r)) (known n)) (nullish ns [])
      | _ \<Rightarrow> [])"

definition reportTextFromIncident ::
  "searchable \<Rightarrow> (int \<Rightarrow> searchable option) option \<Rightarrow> (int \<Rightarrow> searchable option) option \<Rightarrow> str" where
  "reportTextFromIncident x eventReports eventVisits =
     join [32] (own_texts x @ attached_texts eventReports (sx_reports x) @ attached_texts eventVisits (sx_visits x))"

section \<open>A change, line by line\<close>

datatype segment =
    Words str
  | Changed str
  | IncidentRefTo int
  | Aside str
  | MentionOf str

record render_context =
  rc_areaSlugToName :: "str \<Rightarrow> str option"
  rc_incidentSummaries :: "int \<Rightarrow> str option"

definition incident_ref :: "render_context \<Rightarrow> int \<Rightarrow> segment list" where
  "incident_ref ctx num =
     IncidentRefTo num # (case nonempty (rc_incidentSummaries ctx num) of
        None \<Rightarrow> [] | Some s \<Rightarrow> [Aside (lit '' ('' @ s @ lit '')'')])"

lemma index_of_bound: "index_of s p = Some i \<Longrightarrow> i + length p \<le> length s"
proof (induction s arbitrary: i)
  case (Cons c s)
  have "starts_with (c # s) p \<Longrightarrow> length p \<le> Suc (length s)"
    by (metis length_Cons length_take min.absorb_iff1 starts_with_def min.commute)
  with Cons show ?case by (auto split: if_splits)
qed (auto split: if_splits)

text \<open>\<open>s.split(sep)\<close> for a text that is not empty.\<close>

function split_str :: "str \<Rightarrow> str \<Rightarrow> str list" where
  "split_str sep s =
     (case index_of s sep of
        None \<Rightarrow> [s]
      | Some i \<Rightarrow> if sep = [] then [s] else take i s # split_str sep (drop (i + length sep) s))"
  by pat_completeness auto

termination
  by (relation "measure (\<lambda>(sep, s). length s)") (auto dest: index_of_bound simp: neq_Nil_conv)

declare split_str.simps [simp del]

text \<open>\<open>/#(\d+)/.exec(part)\<close>: what is before the match and the digits.\<close>

fun find_ref :: "str \<Rightarrow> (str \<times> str) option" where
  "find_ref [] = None"
| "find_ref (c # s) =
     (if c = 35 \<and> takeWhile is_digit s \<noteq> [] then Some ([], takeWhile is_digit s)
      else map_option (\<lambda>(before, ds). (c # before, ds)) (find_ref s))"

definition words :: "str \<Rightarrow> segment list" where
  "words s = (if s = [] then [] else [Words s])"

definition linked_part :: "render_context \<Rightarrow> str \<Rightarrow> segment list" where
  "linked_part ctx part =
     (case find_ref part of
        None \<Rightarrow> [Words part]
      | Some (before, ds) \<Rightarrow> words before @ incident_ref ctx (int (digits_val ds)))"

fun linked_parts :: "render_context \<Rightarrow> bool \<Rightarrow> str list \<Rightarrow> segment list" where
  "linked_parts ctx first [] = []"
| "linked_parts ctx first (p # ps) =
     (if first then [] else [Words (lit '', '')]) @ linked_part ctx p @ linked_parts ctx False ps"

definition linkedIncidentRefs :: "render_context \<Rightarrow> str \<Rightarrow> segment list" where
  "linkedIncidentRefs ctx value = linked_parts ctx True (split_str (lit '', '') value)"

definition shown_value :: "render_context \<Rightarrow> str \<Rightarrow> str \<Rightarrow> str" where
  "shown_value ctx label value =
     (if label = lit ''Changed location area'' then nullish (rc_areaSlugToName ctx value) value
      else if label = lit ''Changed state'' then stateNameFromID value
      else if label = lit ''Changed priority''
        then (case parse_int value of None \<Rightarrow> value | Some n \<Rightarrow> if num_finite n then priorityName n else value)
      else value)"

definition system_line :: "render_context \<Rightarrow> str \<Rightarrow> segment list" where
  "system_line ctx line =
     (case index_of line (lit '': '') of
        None \<Rightarrow> [Words line]
      | Some sep \<Rightarrow>
          (let label = take sep line; value = drop (sep + 2) line; head = Words (label @ lit '': '');
               attached = (label = lit ''Attached to incident'' \<or> label = lit ''Detached from incident'');
               linked = (label = lit ''Incident linked'' \<or> label = lit ''Incident unlinked'')
           in case (attached, parse_int value) of
                (True, Some n) \<Rightarrow> if num_finite n then head # incident_ref ctx n else [head, Changed value]
              | _ \<Rightarrow> if linked then head # linkedIncidentRefs ctx value
                     else [head, Changed (shown_value ctx label value)]))"

definition systemEntryText :: "render_context \<Rightarrow> str \<Rightarrow> segment list list" where
  "systemEntryText ctx text =
     map (system_line ctx) (filter (\<lambda>l. l \<noteq> []) (map trim (split_on 10 text)))"

section \<open>A paragraph with its mentions\<close>

text \<open>\<open>text.split(/\n\s*\n/)\<close>: a match runs from a line end to the last line end of the white space after it.\<close>

definition blank_run :: "str \<Rightarrow> nat option" where
  "blank_run s = map_option Suc (last_index 10 (takeWhile is_ws s))"

function paragraphs :: "str \<Rightarrow> str \<Rightarrow> str list" where
  "paragraphs acc [] = [acc]"
| "paragraphs acc (c # s) =
     (case (if c = 10 then blank_run s else None) of
        None \<Rightarrow> paragraphs (acc @ [c]) s
      | Some n \<Rightarrow> acc # paragraphs [] (drop n s))"
  by pat_completeness auto
termination by (relation "measure (\<lambda>(acc, s). length s)") auto

record mention =
  mn_personId :: "int option"
  mn_handle :: "str option"
  mn_name :: "str option"

definition mention_tokens :: "mention list \<Rightarrow> str list" where
  "mention_tokens ms =
     concat (map (\<lambda>m. map ((#) 64) (maybe_part (mn_handle m)) @ map ((#) 64) (maybe_part (mn_name m))) ms)"

text \<open>
  The loop over the matches of the tokens' regular expression: at each place the first alternative that
  matches there, and the text before a match as it is. A token is never empty.
\<close>

function mention_segments :: "str list \<Rightarrow> str \<Rightarrow> str \<Rightarrow> segment list" where
  "mention_segments tokens acc [] = words acc"
| "mention_segments tokens acc (c # s) =
     (case List.find (\<lambda>t. t \<noteq> [] \<and> starts_with (c # s) t) tokens of
        None \<Rightarrow> mention_segments tokens (acc @ [c]) s
      | Some t \<Rightarrow> words acc @ MentionOf t # mention_segments tokens [] (drop (length t - 1) s))"
  by pat_completeness auto
termination by (relation "measure (\<lambda>(tokens, acc, s). length s)") auto

definition journalParagraph :: "mention list \<Rightarrow> str \<Rightarrow> segment list" where
  "journalParagraph ms paragraph =
     (if mention_tokens ms = [] then words paragraph
      else mention_segments (js_sort (\<lambda>a b. int (length b) - int (length a)) (mention_tokens ms)) [] paragraph)"

definition entryText :: "render_context \<Rightarrow> bool \<Rightarrow> mention list \<Rightarrow> str \<Rightarrow> segment list list" where
  "entryText ctx system ms text =
     (if system then systemEntryText ctx text else map (journalParagraph ms) (paragraphs [] text))"

fun segment_text :: "segment \<Rightarrow> str" where
  "segment_text (Words s) = s"
| "segment_text (Changed s) = s"
| "segment_text (IncidentRefTo n) = 35 # show_int n"
| "segment_text (Aside s) = s"
| "segment_text (MentionOf s) = s"

lemma words_text [simp]: "concat (map segment_text (words s)) = s"
  by (simp add: words_def)

lemma find_starts:
  "List.find (\<lambda>t. t \<noteq> [] \<and> starts_with s t) tokens = Some t \<Longrightarrow>
     t \<in> set tokens \<and> t \<noteq> [] \<and> starts_with s t"
  by (auto simp: find_Some_iff)

lemma starts_split: "starts_with (c # s) t \<Longrightarrow> t \<noteq> [] \<Longrightarrow> t @ drop (length t - 1) s = c # s"
proof -
  assume "starts_with (c # s) t" and t: "t \<noteq> []"
  then obtain zs where zs: "c # s = t @ zs" by (auto simp: starts_with_iff_prefix prefix_def)
  with t obtain u where "t = c # u" by (cases t) auto
  with zs show ?thesis by simp
qed

lemma segments_text: "concat (map segment_text (mention_segments tokens acc s)) = acc @ s"
proof (induction tokens acc s rule: mention_segments.induct)
  case (2 tokens acc c s)
  show ?case
  proof (cases "List.find (\<lambda>t. t \<noteq> [] \<and> starts_with (c # s) t) tokens")
    case None
    with 2(1) show ?thesis by simp
  next
    case (Some t)
    from find_starts [OF Some] starts_split [of c s t] 2(2) [OF Some] Some show ?thesis by simp
  qed
qed simp

lemma segments_marked: "MentionOf t \<in> set (mention_segments tokens acc s) \<Longrightarrow> t \<in> set tokens"
proof (induction tokens acc s rule: mention_segments.induct)
  case (2 tokens acc c s)
  then show ?case
    by (cases "List.find (\<lambda>t. t \<noteq> [] \<and> starts_with (c # s) t) tokens")
      (auto simp: words_def split: if_splits dest: find_starts)
qed (simp add: words_def split: if_splits)

text \<open>No token starts at a place of the text before a match: none is left unmarked.\<close>

definition unmarked :: "str list \<Rightarrow> str \<Rightarrow> str \<Rightarrow> bool" where
  "unmarked tokens acc s \<longleftrightarrow>
     (\<forall>i < length acc. \<forall>t \<in> set tokens. t \<noteq> [] \<longrightarrow> \<not> starts_with (drop i acc @ s) t)"

lemma has_sub_at: "has_sub p t \<Longrightarrow> t \<noteq> [] \<Longrightarrow> \<exists>i < length p. starts_with (drop i p) t"
proof (induction p)
  case (Cons c p)
  then show ?case
    by (metis drop0 drop_Suc_Cons has_sub.simps(2) length_Cons not_less_eq zero_less_Suc)
qed simp

lemma starts_with_longer: "starts_with p t \<Longrightarrow> starts_with (p @ s) t"
  by (auto simp: starts_with_iff_prefix)

lemma unmarked_free: "unmarked tokens acc s \<Longrightarrow> t \<in> set tokens \<Longrightarrow> t \<noteq> [] \<Longrightarrow> \<not> has_sub acc t"
proof
  assume u: "unmarked tokens acc s" "t \<in> set tokens" "t \<noteq> []" and "has_sub acc t"
  from has_sub_at [OF this(4,3)] obtain i where "i < length acc" "starts_with (drop i acc) t" by blast
  with starts_with_longer [of "drop i acc" t s] u show False unfolding unmarked_def by blast
qed

lemma unmarked_snoc:
  assumes "unmarked tokens acc (c # s)" and "List.find (\<lambda>t. t \<noteq> [] \<and> starts_with (c # s) t) tokens = None"
  shows "unmarked tokens (acc @ [c]) s"
proof -
  have none: "\<not> starts_with (c # s) t" if "t \<in> set tokens" "t \<noteq> []" for t
    using assms(2) that by (auto simp: find_None_iff)
  have "\<not> starts_with (drop i (acc @ [c]) @ s) t" if "i < Suc (length acc)" "t \<in> set tokens" "t \<noteq> []" for i t
  proof (cases "i = length acc")
    case True
    with none that show ?thesis by simp
  next
    case False
    with that assms(1) show ?thesis by (auto simp: unmarked_def)
  qed
  then show ?thesis by (simp add: unmarked_def)
qed

lemma segments_plain:
  "unmarked tokens acc s \<Longrightarrow> Words p \<in> set (mention_segments tokens acc s) \<Longrightarrow> t \<in> set tokens \<Longrightarrow> t \<noteq> [] \<Longrightarrow>
     \<not> has_sub p t"
proof (induction tokens acc s arbitrary: p rule: mention_segments.induct)
  case (1 tokens acc)
  then show ?case using unmarked_free by (auto simp: words_def split: if_splits)
next
  case (2 tokens acc c s)
  show ?case
  proof (cases "List.find (\<lambda>t. t \<noteq> [] \<and> starts_with (c # s) t) tokens")
    case None
    from 2(1) [OF None unmarked_snoc [OF 2(3) None]] 2(4,5,6) None show ?thesis by simp
  next
    case (Some u)
    have "unmarked tokens [] (drop (length u - 1) s)" by (simp add: unmarked_def)
    with 2(2) [OF Some this] 2(4,5,6) unmarked_free [OF 2(3)] Some show ?thesis
      by (auto simp: words_def split: if_splits)
  qed
qed

lemma find_first_longest:
  assumes "sorted_wrt (\<lambda>a b. length b \<le> length a) tokens" and "List.find P tokens = Some t" and "u \<in> set tokens" and "P u"
  shows "length u \<le> length (t :: str)"
  using assms by (induction tokens) (auto split: if_splits)

lemma segments_longest:
  "sorted_wrt (\<lambda>a b. length b \<le> length a) tokens \<Longrightarrow> u \<in> set tokens \<Longrightarrow> u \<noteq> [] \<Longrightarrow>
    mention_segments tokens acc s = pre @ MentionOf t # post \<Longrightarrow>
    starts_with (t @ concat (map segment_text post)) u \<Longrightarrow> length u \<le> length t"
proof (induction tokens acc s arbitrary: pre rule: mention_segments.induct)
  case (1 tokens acc)
  then show ?case by (auto simp: words_def append_eq_Cons_conv Cons_eq_append_conv split: if_splits)
next
  case (2 tokens acc c s)
  show ?case
  proof (cases "List.find (\<lambda>t. t \<noteq> [] \<and> starts_with (c # s) t) tokens")
    case None
    with 2 show ?thesis by simp
  next
    case (Some v)
    let ?rest = "mention_segments tokens [] (drop (length v - 1) s)"
    from Some 2(6) have eq: "words acc @ MentionOf v # ?rest = pre @ MentionOf t # post" by simp
    consider "pre = words acc" "v = t" "?rest = post" | pre' where "?rest = pre' @ MentionOf t # post"
      using eq by (cases "acc = []"; cases pre) (auto simp: words_def Cons_eq_append_conv)
    then show ?thesis
    proof cases
      case 1
      have "t @ concat (map segment_text post) = c # s"
        using find_starts [OF Some] starts_split [of c s v] segments_text [of tokens "[]" "drop (length v - 1) s"] 1 by auto
      with 2(7,5) have "u \<noteq> [] \<and> starts_with (c # s) u" by simp
      with find_first_longest [OF 2(3) Some 2(4)] 1 show ?thesis by simp
    next
      case (2 pre')
      with "2.IH"(2) [OF Some] "2.prems" show ?thesis by blast
    qed
  qed
qed

text \<open>
  C28: However a paragraph is cut into segments, its text stays whole; every mention shown is
  one of the entry's tokens, the longest one that the text has at that place; and no token is left
  unmarked in the text between two mentions.
\<close>

theorem mentions_marked:
  "concat (map segment_text (journalParagraph ms paragraph)) = paragraph \<and>
   (\<forall>pre t post. journalParagraph ms paragraph = pre @ MentionOf t # post \<longrightarrow>
      t \<in> set (mention_tokens ms) \<and>
      (\<forall>u \<in> set (mention_tokens ms). starts_with (t @ concat (map segment_text post)) u \<longrightarrow> length u \<le> length t)) \<and>
   (\<forall>p. Words p \<in> set (journalParagraph ms paragraph) \<longrightarrow> (\<forall>t \<in> set (mention_tokens ms). \<not> has_sub p t))"
proof (cases "mention_tokens ms = []")
  case True
  then show ?thesis by (auto simp: journalParagraph_def words_def append_eq_Cons_conv Cons_eq_append_conv)
next
  case False
  let ?cmp = "\<lambda>a b. int (length b) - int (length (a :: str))"
  let ?sorted = "js_sort ?cmp (mention_tokens ms)"
  have shown: "journalParagraph ms paragraph = mention_segments ?sorted [] paragraph"
    using False by (simp add: journalParagraph_def)
  have same: "set ?sorted = set (mention_tokens ms)" by (metis mset_js_sort set_mset_mset)
  have full: "t \<noteq> []" if "t \<in> set (mention_tokens ms)" for t
    using that by (auto simp: mention_tokens_def)
  have "comparison ?cmp"
    using comparison_reverse [OF comparison_diff [of "\<lambda>a :: str. int (length a)"]] by simp
  from comparison.sorted_js_sort [OF this, of "mention_tokens ms"]
  have sorted: "sorted_wrt (\<lambda>a b. length b \<le> length a) ?sorted"
    by (rule sorted_wrt_mono_rel [rotated]) simp
  have "unmarked ?sorted [] paragraph" by (simp add: unmarked_def)
  from segments_plain [OF this] full
  have plain: "\<forall>p. Words p \<in> set (journalParagraph ms paragraph) \<longrightarrow> (\<forall>t \<in> set (mention_tokens ms). \<not> has_sub p t)"
    unfolding shown same by blast
  have marked: "t \<in> set (mention_tokens ms) \<and>
      (\<forall>u \<in> set (mention_tokens ms). starts_with (t @ concat (map segment_text post)) u \<longrightarrow> length u \<le> length t)"
    if "journalParagraph ms paragraph = pre @ MentionOf t # post" for pre t post
  proof -
    have cut: "mention_segments ?sorted [] paragraph = pre @ MentionOf t # post" using that shown by simp
    then have "MentionOf t \<in> set (mention_segments ?sorted [] paragraph)" by simp
    from segments_marked [OF this] segments_longest [OF sorted _ _ cut] full show ?thesis
      unfolding same by blast
  qed
  have "concat (map segment_text (journalParagraph ms paragraph)) = paragraph"
    by (simp add: shown segments_text)
  with plain marked show ?thesis by blast
qed

definition two_sams :: "mention list" where
  "two_sams = [\<lparr>mn_personId = Some 1, mn_handle = Some (lit ''Sam''), mn_name = Some (lit ''Sam Smith'')\<rparr>]"

lemma two_sams_shown:
  "journalParagraph two_sams (lit ''ask @Sam Smith or @Sam now'') =
   [Words (lit ''ask '')] @ MentionOf (lit ''@Sam Smith'') # [Words (lit '' or ''), MentionOf (lit ''@Sam''), Words (lit '' now'')]"
  by code_simp

lemma mentions_marked_witness:
  "lit ''@Sam Smith'' \<in> set (mention_tokens two_sams) \<and> length (lit ''@Sam'') \<le> length (lit ''@Sam Smith'') \<and>
   \<not> has_sub (lit ''ask '') (lit ''@Sam'')"
proof -
  note claim = mentions_marked [of two_sams "lit ''ask @Sam Smith or @Sam now''"]
  have token: "lit ''@Sam'' \<in> set (mention_tokens two_sams)" by code_simp
  have starts: "starts_with (lit ''@Sam Smith'' @ concat (map segment_text
      [Words (lit '' or ''), MentionOf (lit ''@Sam''), Words (lit '' now'')])) (lit ''@Sam'')"
    by code_simp
  have shown: "Words (lit ''ask '') \<in> set (journalParagraph two_sams (lit ''ask @Sam Smith or @Sam now''))"
    unfolding two_sams_shown by simp
  from claim two_sams_shown token starts shown show ?thesis by blast
qed

end
