(* ===== verification/TemplComposer.thy ===== *)
theory TemplComposer
  imports TemplJournal "HOL-Library.AList"
begin

text \<open>
  The journal composer of the server-rendered incident and report pages (\<open>ims.ts\<close>, with the \<open>sendEdits\<close> of
  \<open>incident.ts\<close> and \<open>report.ts\<close>): the draft in local storage, the mention picker, the keys, the submission
  and the numbering of a record on its first edit; what a strike and a download address. A page is a
  record of its state; \<open>page_step\<close> runs it over what the user, the timer and the server do.
\<close>

section \<open>Strikes and downloads\<close>

definition truthy :: "int option \<Rightarrow> int option" where
  "truthy n = (if n = Some 0 then None else n)"

datatype owner = OfIncident int | OfReport int | OfVisit int

definition strike_target :: "path_ids \<Rightarrow> tentry \<Rightarrow> owner option" where
  "strike_target ids e =
     (case path_incidentNumber ids of
        Some i \<Rightarrow>
          (case truthy (te_reportNum e) of
             Some r \<Rightarrow> Some (OfReport r)
           | None \<Rightarrow> (case truthy (te_visitNum e) of Some v \<Rightarrow> Some (OfVisit v) | None \<Rightarrow> Some (OfIncident i)))
      | None \<Rightarrow>
          (case path_reportNumber ids of
             Some r \<Rightarrow> Some (OfReport r)
           | None \<Rightarrow> map_option OfVisit (path_visitNumber ids)))"

definition url_incident_journalEntry :: str where
  "url_incident_journalEntry =
     lit ''/ims/api/events/<event_id>/incidents/<incident_number>/journal_entries/<journal_entry_id>''"
definition url_report_journalEntry :: str where
  "url_report_journalEntry =
     lit ''/ims/api/events/<event_id>/reports/<report_number>/journal_entries/<journal_entry_id>''"
definition url_visit_journalEntry :: str where
  "url_visit_journalEntry =
     lit ''/ims/api/events/<event_id>/visits/<visit_number>/journal_entries/<journal_entry_id>''"
definition url_incidentAttachmentNumber :: str where
  "url_incidentAttachmentNumber =
     lit ''/ims/api/events/<event_id>/incidents/<incident_number>/attachments/<attachment_number>''"
definition url_reportAttachmentNumber :: str where
  "url_reportAttachmentNumber =
     lit ''/ims/api/events/<event_id>/reports/<report_number>/attachments/<attachment_number>''"
definition url_visitAttachmentNumber :: str where
  "url_visitAttachmentNumber =
     lit ''/ims/api/events/<event_id>/visits/<visit_number>/attachments/<attachment_number>''"

fun strike_url :: "path_ids \<Rightarrow> owner \<Rightarrow> int \<Rightarrow> str" where
  "strike_url ids (OfIncident n) entry =
     js_replace (js_replace (urlReplace ids url_incident_journalEntry) (lit ''<incident_number>'') (show_int n))
       (lit ''<journal_entry_id>'') (show_int entry)"
| "strike_url ids (OfReport n) entry =
     js_replace (js_replace (urlReplace ids url_report_journalEntry) (lit ''<report_number>'') (show_int n))
       (lit ''<journal_entry_id>'') (show_int entry)"
| "strike_url ids (OfVisit n) entry =
     js_replace (js_replace (urlReplace ids url_visit_journalEntry) (lit ''<visit_number>'') (show_int n))
       (lit ''<journal_entry_id>'') (show_int entry)"

text \<open>The click on the button of an entry: the address and the value of \<open>stricken\<close>; an entry of the system has no button.\<close>

definition strike_clicked :: "path_ids \<Rightarrow> tentry \<Rightarrow> (str \<times> bool) option" where
  "strike_clicked ids e =
     (if flag (te_system e) then None
      else Option.bind (strike_target ids e)
        (\<lambda>t. map_option (\<lambda>entry. (strike_url ids t entry, \<not> flag (te_stricken e))) (te_id e)))"

definition strike_label :: "tentry \<Rightarrow> str" where
  "strike_label e = (if flag (te_stricken e) then lit ''Unstrike'' else lit ''Strike'')"

definition strike_answered :: "str option \<Rightarrow> str option" where
  "strike_answered err = map_option ((@) (lit ''Failed to set journal entry strike status: '')) err"

definition entry_classes :: "tentry \<Rightarrow> string list" where
  "entry_classes e =
     [''journal_entry''] @
     (if flag (te_system e) then [''journal_entry_system'']
      else if flag (te_stricken e) then [''journal_entry_stricken'']
      else [''journal_entry_user'']) @
     (if truthy (te_reportNum e) \<noteq> None \<or> truthy (te_visitNum e) \<noteq> None then [''journal_entry_merged''] else []) @
     (if truthy (te_reportNum e) \<noteq> None then [''journal_entry_from_report''] else [])"

definition entry_source :: "path_ids \<Rightarrow> tentry \<Rightarrow> (str \<times> str) option" where
  "entry_source ids e =
     (case truthy (te_reportNum e) of
        Some r \<Rightarrow> Some (lit ''report #'' @ show_int r, urlReplace ids url_viewReports @ [47] @ show_int r)
      | None \<Rightarrow> map_option (\<lambda>v. (lit ''VS #'' @ show_int v, urlReplace ids url_viewVisits @ [47] @ show_int v))
          (truthy (te_visitNum e)))"

fun attachment_url :: "path_ids \<Rightarrow> owner \<Rightarrow> int \<Rightarrow> str" where
  "attachment_url ids (OfIncident n) entry =
     js_replace (js_replace (urlReplace ids url_incidentAttachmentNumber) (lit ''<incident_number>'') (show_int n))
       (lit ''<attachment_number>'') (show_int entry)"
| "attachment_url ids (OfReport n) entry =
     js_replace (js_replace (urlReplace ids url_reportAttachmentNumber) (lit ''<report_number>'') (show_int n))
       (lit ''<attachment_number>'') (show_int entry)"
| "attachment_url ids (OfVisit n) entry =
     js_replace (js_replace (urlReplace ids url_visitAttachmentNumber) (lit ''<visit_number>'') (show_int n))
       (lit ''<attachment_number>'') (show_int entry)"

text \<open>Whose attachment the download asks for, in the order of the branches.\<close>

definition attachment_of :: "path_ids \<Rightarrow> tentry \<Rightarrow> owner option" where
  "attachment_of ids e =
     (case path_reportNumber ids of
        Some r \<Rightarrow> Some (OfReport r)
      | None \<Rightarrow>
          (case path_visitNumber ids of
             Some v \<Rightarrow> Some (OfVisit v)
           | None \<Rightarrow>
               (case path_incidentNumber ids of
                  None \<Rightarrow> None
                | Some i \<Rightarrow> (case te_reportNum e of None \<Rightarrow> Some (OfIncident i) | Some r \<Rightarrow> Some (OfReport r)))))"

definition attachment_shown :: "path_ids \<Rightarrow> str option \<Rightarrow> bool" where
  "attachment_shown ids name \<longleftrightarrow>
     nonempty name \<noteq> None \<and>
     (truthy (path_incidentNumber ids) \<noteq> None \<or> truthy (path_reportNumber ids) \<noteq> None \<or> truthy (path_visitNumber ids) \<noteq> None)"

definition download_asks :: "path_ids \<Rightarrow> tentry \<Rightarrow> str option \<Rightarrow> str option" where
  "download_asks ids e name =
     (if attachment_shown ids name
      then Option.bind (attachment_of ids e) (\<lambda>t. map_option (attachment_url ids t) (te_id e))
      else None)"

text \<open>
  An attachment that came from a visit is asked for under the incident on the incident page: the branch
  for an entry with no report number comes before the branch for a visit's.
\<close>

lemma visit_attachment_asked_of_incident:
  assumes "path_incidentNumber ids = Some i" and "path_reportNumber ids = None" and "path_visitNumber ids = None"
    and "te_reportNum e = None" and "te_visitNum e = Some v" and "v \<noteq> 0"
  shows "attachment_of ids e = Some (OfIncident i)" and "strike_target ids e = Some (OfVisit v)"
  using assms by (simp_all add: attachment_of_def strike_target_def truthy_def)

section \<open>Edits\<close>

text \<open>\<open>editValue\<close> and \<open>editFromElement\<close> send the value under a dotted key; a null is sent as the empty text.\<close>

fun edit_map :: "str list \<Rightarrow> json \<Rightarrow> json" where
  "edit_map [] v = v"
| "edit_map (k # ks) v = JObj [(k, edit_map ks v)]"

definition edit_value :: "json \<Rightarrow> json" where
  "edit_value v = (if v = JNull then JStr [] else v)"

definition editValue :: "str \<Rightarrow> json \<Rightarrow> json" where
  "editValue jsonKey v = edit_map (split_on 46 jsonKey) (edit_value v)"

text \<open>The transform of a control may throw, which marks the control and sends nothing.\<close>

definition editFromElement :: "str \<Rightarrow> (str \<Rightarrow> json option) option \<Rightarrow> str \<Rightarrow> json option" where
  "editFromElement jsonKey transform raw =
     map_option (editValue jsonKey) (case transform of None \<Rightarrow> Some (JStr raw) | Some f \<Rightarrow> f raw)"

fun at_path :: "json \<Rightarrow> str list \<Rightarrow> json option" where
  "at_path v [] = Some v"
| "at_path (JObj kvs) (k # ks) = Option.bind (obj_get kvs k) (\<lambda>v. at_path v ks)"
| "at_path _ (k # ks) = None"

lemma edit_lands: "at_path (editValue jsonKey v) (split_on 46 jsonKey) = Some (edit_value v)"
proof -
  have "at_path (edit_map ks w) ks = Some w" for ks w by (induction ks) (simp_all add: obj_get_def)
  then show ?thesis by (simp add: editValue_def)
qed

section \<open>The mention picker\<close>

definition mentionTokenFor :: "str option \<Rightarrow> str option \<Rightarrow> str" where
  "mentionTokenFor name handle =
     64 # (case handle of Some h \<Rightarrow> if trim h \<noteq> [] then h else nullish name [] | None \<Rightarrow> nullish name [])"

definition currentMentionQuery :: "str \<Rightarrow> nat \<Rightarrow> (nat \<times> str) option" where
  "currentMentionQuery value caret =
     (let upto = take caret value
      in case last_index 64 upto of
           None \<Rightarrow> None
         | Some start \<Rightarrow>
             if start > 0 \<and> \<not> is_ws (upto ! (start - 1)) then None
             else (let query = drop (start + 1) upto
                   in if list_ex is_ws query then None else Some (start, query)))"

text \<open>A JavaScript set lists its elements in the order they were first added.\<close>

definition set_add :: "int \<Rightarrow> int list \<Rightarrow> int list" where
  "set_add x xs = (if x \<in> set xs then xs else xs @ [x])"

definition journalMentionPersonIDs :: "Picked list \<Rightarrow> str \<Rightarrow> int list" where
  "journalMentionPersonIDs pending text =
     foldl (\<lambda>ids m. if has_sub text (pi_token m) then set_add (pi_personId m) ids else ids) [] pending"

record found_person =
  fp_id :: "int option"
  fp_name :: "str option"
  fp_handle :: "str option"

record picker =
  pk_rows :: "found_person list"
  pk_active :: int
  pk_hidden :: bool
  pk_seq :: nat

definition closeList :: "picker \<Rightarrow> picker" where
  "closeList k = k\<lparr>pk_hidden := True, pk_rows := [], pk_active := -1\<rparr>"

definition renderRows :: "found_person list \<Rightarrow> picker \<Rightarrow> picker" where
  "renderRows matches k =
     (if matches = [] then closeList (k\<lparr>pk_rows := matches\<rparr>)
      else k\<lparr>pk_rows := matches, pk_hidden := False, pk_active := 0\<rparr>)"

text \<open>A search asks under the number that \<open>++seq\<close> gives it; an answer to an older number is dropped.\<close>

definition runSearch :: "str \<Rightarrow> nat \<Rightarrow> picker \<Rightarrow> picker \<times> (nat \<times> str) option" where
  "runSearch value caret k =
     (case currentMentionQuery value caret of
        None \<Rightarrow> (closeList k, None)
      | Some (_, query) \<Rightarrow>
          if length query < 1 then (closeList k, None)
          else (k\<lparr>pk_seq := Suc (pk_seq k)\<rparr>, Some (Suc (pk_seq k), query)))"

definition searchAnswered :: "nat \<Rightarrow> found_person list \<Rightarrow> picker \<Rightarrow> picker" where
  "searchAnswered mySeq matches k = (if mySeq \<noteq> pk_seq k then k else renderRows matches k)"

text \<open>\<open>pick\<close>: the new text, the caret, and the person to remember.\<close>

definition pick_row :: "int \<Rightarrow> str \<Rightarrow> nat \<Rightarrow> picker \<Rightarrow> picker \<times> (str \<times> nat \<times> Picked) option" where
  "pick_row idx value caret k =
     (closeList k,
      case (nth_opt (pk_rows k) idx, currentMentionQuery value caret) of
        (Some person, Some (start, _)) \<Rightarrow>
          (case fp_id person of
             None \<Rightarrow> None
           | Some pid \<Rightarrow>
               (let token = mentionTokenFor (fp_name person) (fp_handle person);
                    before = take start value; after = drop caret value
                in Some (before @ token @ [32] @ after, length (before @ token @ [32]),
                     \<lparr>pi_personId = pid, pi_token = token\<rparr>)))
      | _ \<Rightarrow> None)"

datatype picker_key = ArrowDown | ArrowUp | EnterKey | EscapeKey | AnyKey

text \<open>The first part of the answer: whether the default was prevented, so that the submit handler leaves the key alone.\<close>

definition picker_keydown ::
  "picker_key \<Rightarrow> str \<Rightarrow> nat \<Rightarrow> picker \<Rightarrow> bool \<times> picker \<times> (str \<times> nat \<times> Picked) option" where
  "picker_keydown key value caret k =
     (let n = int (length (pk_rows k))
      in if pk_hidden k \<or> n = 0 then (False, k, None)
         else case key of
           ArrowDown \<Rightarrow> (True, k\<lparr>pk_active := (pk_active k + 1) mod n\<rparr>, None)
         | ArrowUp \<Rightarrow> (True, k\<lparr>pk_active := (pk_active k - 1 + n) mod n\<rparr>, None)
         | EnterKey \<Rightarrow> (True, pick_row (if pk_active k < 0 then 0 else pk_active k) value caret k)
         | EscapeKey \<Rightarrow> (False, closeList k, None)
         | AnyKey \<Rightarrow> (False, k, None))"

definition picker_ok :: "picker \<Rightarrow> bool" where
  "picker_ok k \<longleftrightarrow> (\<not> pk_hidden k \<longrightarrow> 0 \<le> pk_active k \<and> pk_active k < int (length (pk_rows k)))"

lemma picker_keeps:
  "picker_ok (closeList k)" "picker_ok (renderRows ms k)"
  "picker_ok k \<Longrightarrow> picker_ok (fst (runSearch value caret k))"
  "picker_ok k \<Longrightarrow> picker_ok (searchAnswered i ms k)"
  "picker_ok k \<Longrightarrow> picker_ok (fst (snd (picker_keydown key value caret k)))"
  by (auto simp: picker_ok_def closeList_def renderRows_def runSearch_def searchAnswered_def picker_keydown_def
      pick_row_def Let_def split: option.splits picker_key.splits)

text \<open>\<open>closeList\<close> does not move the number on: an answer that was under way opens the list again, with no trigger left.\<close>

lemma late_answer_reopens:
  assumes "matches \<noteq> []" and "currentMentionQuery value caret = None"
  shows "\<not> pk_hidden (searchAnswered (pk_seq k) matches (fst (runSearch value caret k)))"
  using assms by (simp add: runSearch_def searchAnswered_def renderRows_def closeList_def)

lemma or_str_if: "or_str (Some s) d = (if s = [] then d else s)"
  by (cases s) simp_all

text \<open>
  The composer of the server-rendered pages and the composer of the newer client agree on
  mentions: on the word the caret is in, on the text and the caret after a pick, and on the people that
  are sent; and on the token of a person whose handle and name have no white space around them.
\<close>

theorem composers_agree_on_mentions:
  assumes "map_option trim (fp_handle person) = fp_handle person" and "map_option trim (fp_name person) = fp_name person"
    and "nth_opt (pk_rows k) idx = Some person" and "fp_id person = Some pid"
    and "currentMentionQuery value caret \<noteq> None"
  shows "currentMentionQuery value caret = mentionQuery value caret \<and>
    journalMentionPersonIDs pending value = mentionedIds value pending \<and>
    (\<exists>text' caret' m. snd (pick_row idx value caret k) = Some (text', caret', m) \<and>
      pi_token m = tokenFor (p\<lparr>p_handle := fp_handle person, p_name := fp_name person\<rparr>) \<and>
      insertMention value caret (pi_token m) = (text', caret'))"
proof -
  have query: "currentMentionQuery v c = mentionQuery v c" for v c
    by (simp add: currentMentionQuery_def mentionQuery_def Let_def)
  have ids: "journalMentionPersonIDs pending value = mentionedIds value pending"
    unfolding journalMentionPersonIDs_def mentionedIds_def set_add_def
    by (rule arg_cong [where f = "\<lambda>f. foldl f [] pending"]) (intro ext; simp)
  have token: "mentionTokenFor (fp_name person) (fp_handle person) =
      tokenFor (p\<lparr>p_handle := fp_handle person, p_name := fp_name person\<rparr>)"
    using assms(1,2)
    by (cases "fp_handle person"; cases "fp_name person")
      (auto simp: mentionTokenFor_def tokenFor_def or_str_if)
  from assms(5) obtain start q where trigger: "mentionQuery value caret = Some (start, q)" unfolding query by auto
  show ?thesis
    by (simp add: query ids pick_row_def Let_def assms(3,4) trigger token insertMention_def)
qed

lemma composers_agree_on_mentions_witness:
  "journalMentionPersonIDs [\<lparr>pi_personId = 7, pi_token = lit ''@Al''\<rparr>] (lit ''Hi @Al'') =
     mentionedIds (lit ''Hi @Al'') [\<lparr>pi_personId = 7, pi_token = lit ''@Al''\<rparr>]"
proof -
  let ?person = "\<lparr>fp_id = Some 7, fp_name = None, fp_handle = Some (lit ''Alice'')\<rparr>"
  let ?k = "\<lparr>pk_rows = [?person], pk_active = 0, pk_hidden = False, pk_seq = 1\<rparr>"
  have "trim (lit ''Alice'') = lit ''Alice''" by (simp add: trim_def is_ws_def)
  then have "map_option trim (fp_handle ?person) = fp_handle ?person" by (simp del: lit_simps)
  moreover have "map_option trim (fp_name ?person) = fp_name ?person" by simp
  moreover have "nth_opt (pk_rows ?k) 0 = Some ?person" by (simp add: nth_opt_def)
  moreover have "fp_id ?person = Some 7" by simp
  moreover have "currentMentionQuery (lit ''Hi @Al'') 6 = Some (3, lit ''Al'')" by (simp add: currentMentionQuery_def Let_def is_ws_def)
  then have "currentMentionQuery (lit ''Hi @Al'') 6 \<noteq> None" by (simp only: option.distinct simp_thms)
  ultimately show ?thesis by (rule composers_agree_on_mentions [THEN conjunct2, THEN conjunct1])
qed

section \<open>The draft\<close>

datatype draft_kind = DraftIncident | DraftReport

fun draft_word :: "draft_kind \<Rightarrow> str" where
  "draft_word DraftIncident = lit ''incident''"
| "draft_word DraftReport = lit ''report''"

datatype button_colour = ButtonDefault | ButtonWarning | ButtonDanger

record tpage =
  tp_kind :: "draft_kind option"
  tp_ids :: path_ids
  tp_address :: str
  tp_store :: device
  tp_text :: str
  tp_timer :: bool
  tp_note :: bool
  tp_disabled :: bool
  tp_colour :: button_colour
  tp_mentions :: "Picked list"
  tp_behalf :: "int option"

definition journalDraftKeyFor :: "str \<Rightarrow> str \<Rightarrow> str \<Rightarrow> str" where
  "journalDraftKeyFor eventName pageType numberPart =
     lit ''journal_draft_'' @ eventName @ [95] @ pageType @ [95] @ numberPart"

definition draft_number :: "int option \<Rightarrow> str" where
  "draft_number number = (case number of None \<Rightarrow> lit ''new'' | Some n \<Rightarrow> show_int n)"

fun kind_number :: "draft_kind \<Rightarrow> path_ids \<Rightarrow> int option" where
  "kind_number DraftIncident ids = path_incidentNumber ids"
| "kind_number DraftReport ids = path_reportNumber ids"

definition journalDraftKey :: "tpage \<Rightarrow> str option" where
  "journalDraftKey p =
     (case (tp_kind p, path_eventName (tp_ids p)) of
        (Some kind, Some event) \<Rightarrow>
          Some (journalDraftKeyFor event (draft_word kind) (draft_number (kind_number kind (tp_ids p))))
      | _ \<Rightarrow> None)"

definition hideJournalDraftNote :: "tpage \<Rightarrow> tpage" where
  "hideJournalDraftNote p = p\<lparr>tp_note := False\<rparr>"

text \<open>The write runs 400 ms after the last keystroke; a timer that is set is one to come.\<close>

definition saveJournalDraft :: "tpage \<Rightarrow> tpage" where
  "saveJournalDraft p = (hideJournalDraftNote p)\<lparr>tp_timer := True\<rparr>"

definition flushJournalDraft :: "tpage \<Rightarrow> tpage" where
  "flushJournalDraft p =
     (case journalDraftKey p of
        None \<Rightarrow> p\<lparr>tp_timer := False\<rparr>
      | Some key \<Rightarrow>
          p\<lparr>tp_timer := False,
            tp_store := (if tp_text p = [] then dev_remove (tp_store p) key else dev_set (tp_store p) key (tp_text p))\<rparr>)"

definition journalEntryEdited :: "tpage \<Rightarrow> tpage" where
  "journalEntryEdited p =
     (if trim (tp_text p) = [] then p\<lparr>tp_disabled := True, tp_colour := ButtonDefault\<rparr>
      else p\<lparr>tp_disabled := False, tp_colour := ButtonWarning\<rparr>)"

definition restoreJournalDraft :: "tpage \<Rightarrow> tpage" where
  "restoreJournalDraft p =
     (case journalDraftKey p of
        None \<Rightarrow> p
      | Some key \<Rightarrow>
          if tp_text p \<noteq> [] then p
          else (case nonempty (dev_get (tp_store p) key) of
                  None \<Rightarrow> p
                | Some draft \<Rightarrow> (journalEntryEdited (p\<lparr>tp_text := draft\<rparr>))\<lparr>tp_note := True\<rparr>))"

definition migrateJournalDraftToNumber :: "int \<Rightarrow> tpage \<Rightarrow> tpage" where
  "migrateJournalDraftToNumber newNumber p =
     (case (tp_kind p, path_eventName (tp_ids p)) of
        (Some kind, Some event) \<Rightarrow>
          (let oldKey = journalDraftKeyFor event (draft_word kind) (lit ''new'');
               newKey = journalDraftKeyFor event (draft_word kind) (show_int newNumber)
           in if oldKey = newKey then p
              else (case dev_get (tp_store p) oldKey of
                      None \<Rightarrow> p
                    | Some draft \<Rightarrow> p\<lparr>tp_store := dev_remove (dev_set (tp_store p) newKey draft) oldKey\<rparr>))
      | _ \<Rightarrow> p)"

definition clearJournalDraft :: "tpage \<Rightarrow> tpage" where
  "clearJournalDraft p =
     hideJournalDraftNote (p\<lparr>tp_timer := False,
       tp_store := (case journalDraftKey p of None \<Rightarrow> tp_store p | Some key \<Rightarrow> dev_remove (tp_store p) key)\<rparr>)"

section \<open>Submitting\<close>

definition journalSubmitOnEnterKey :: str where
  "journalSubmitOnEnterKey = lit ''journal_submit_on_enter''"

definition journalSubmitOnEnter :: "device \<Rightarrow> bool" where
  "journalSubmitOnEnter d \<longleftrightarrow>
     (case dev_get d journalSubmitOnEnterKey of None \<Rightarrow> True | Some pref \<Rightarrow> pref = lit ''true'')"

definition setJournalSubmitOnEnter :: "bool \<Rightarrow> device \<Rightarrow> device" where
  "setJournalSubmitOnEnter on d = dev_set d journalSubmitOnEnterKey (if on then lit ''true'' else lit ''false'')"

definition submit_mode_label :: "device \<Rightarrow> str" where
  "submit_mode_label d =
     (if journalSubmitOnEnter d then lit ''Submit (Enter)'' else lit ''Submit (Control '' @ [9166] @ lit '')'')"

record key_down =
  kd_enter :: bool
  kd_shift :: bool
  kd_ctrl :: bool
  kd_meta :: bool
  kd_alt :: bool
  kd_prevented :: bool

text \<open>Whether the key submits, and with it prevents its default.\<close>

definition handleJournalKeydown :: "tpage \<Rightarrow> key_down \<Rightarrow> bool" where
  "handleJournalKeydown p e \<longleftrightarrow>
     (if tp_kind p = Some DraftReport then False
      else if kd_prevented e \<or> tp_disabled p \<or> \<not> kd_enter e then False
      else if journalSubmitOnEnter (tp_store p) then \<not> kd_shift e
      else kd_ctrl e \<or> kd_meta e \<or> kd_alt e)"

text \<open>
  The comment on the shortcut says that Ctrl and Enter submit in either mode. With Shift held they do not
  in the mode of plain Enter.
\<close>

lemma ctrl_enter_not_always:
  assumes "tp_kind p = Some DraftIncident" and "\<not> tp_disabled p" and "kd_enter e" and "kd_ctrl e" and "\<not> kd_prevented e"
  shows "handleJournalKeydown p e \<longleftrightarrow> \<not> (journalSubmitOnEnter (tp_store p) \<and> kd_shift e)"
  using assms by (auto simp: handleJournalKeydown_def)

record sent_entry =
  se_text :: str
  se_mentioned :: "int list"
  se_behalf :: "int option"

definition submitJournalEntry :: "tpage \<Rightarrow> (sent_entry \<times> tpage) option" where
  "submitJournalEntry p =
     (if tp_text p = [] then None
      else Some (\<lparr>se_text = tp_text p, se_mentioned = journalMentionPersonIDs (tp_mentions p) (tp_text p),
          se_behalf = tp_behalf p\<rparr>, p\<lparr>tp_disabled := True\<rparr>))"

definition submit_answered :: "bool \<Rightarrow> tpage \<Rightarrow> tpage" where
  "submit_answered ok p =
     (if \<not> ok then p\<lparr>tp_disabled := False, tp_colour := ButtonDanger\<rparr>
      else clearJournalDraft (journalEntryEdited (p\<lparr>tp_text := [], tp_mentions := []\<rparr>)))"

definition setJournalOnBehalfOf :: "int option \<Rightarrow> tpage \<Rightarrow> tpage" where
  "setJournalOnBehalfOf person p = p\<lparr>tp_behalf := person\<rparr>"

definition applyJournalFilters :: "bool option \<Rightarrow> bool option \<Rightarrow> bool option \<Rightarrow> string list" where
  "applyJournalFilters history stricken reports =
     (if nullish history True then [] else [''hide-history'']) @
     (if nullish stricken True then [] else [''hide-stricken'']) @
     (if nullish reports True then [] else [''hide-reports''])"

section \<open>The page: edits and the number of a new record\<close>

definition url_incidents :: str where "url_incidents = lit ''/ims/api/events/<event_id>/incidents''"
definition url_reports :: str where "url_reports = lit ''/ims/api/events/<event_id>/reports''"

text \<open>\<open>edits.k == null\<close>: absent or null; the key is then set.\<close>

definition set_if_null :: "str \<Rightarrow> json \<Rightarrow> (str \<times> json) list \<Rightarrow> (str \<times> json) list" where
  "set_if_null k v kvs = (case map_of kvs k of Some w \<Rightarrow> if w = JNull then AList.update k v kvs else kvs | None \<Rightarrow> AList.update k v kvs)"

definition edit_message :: "draft_kind \<Rightarrow> path_ids \<Rightarrow> json \<Rightarrow> json \<Rightarrow> (str \<times> json) list \<Rightarrow> str \<times> (str \<times> json) list" where
  "edit_message kind ids state priority edits =
     (let base = urlReplace ids (case kind of DraftIncident \<Rightarrow> url_incidents | DraftReport \<Rightarrow> url_reports)
      in case kind_number kind ids of
           None \<Rightarrow>
             (base, if kind = DraftIncident
                    then set_if_null (lit ''priority'') priority (set_if_null (lit ''state'') state edits) else edits)
         | Some n \<Rightarrow> (base @ 47 # show_int n, AList.update (lit ''number'') (JNum n) edits))"

text \<open>
  A request on its way: the number the record had when it was sent, and whether it carries the entry of the
  composer. A created record's answer has a header with its number, or should have.
\<close>

record edit_flight =
  fl_number :: "int option"
  fl_entry :: bool

datatype edit_outcome = EditRefused | EditDone "str option"

definition numbered :: "draft_kind \<Rightarrow> int \<Rightarrow> tpage \<Rightarrow> tpage" where
  "numbered kind n p =
     (let ids = (case kind of DraftIncident \<Rightarrow> (tp_ids p)\<lparr>path_incidentNumber := Some n\<rparr>
                            | DraftReport \<Rightarrow> (tp_ids p)\<lparr>path_reportNumber := Some n\<rparr>);
          q = migrateJournalDraftToNumber n (p\<lparr>tp_ids := ids\<rparr>)
      in q\<lparr>tp_address := urlReplace ids (case kind of DraftIncident \<Rightarrow> url_viewIncidents | DraftReport \<Rightarrow> url_viewReports) @
             47 # show_int n\<rparr>)"

definition sendEdits_answered :: "draft_kind \<Rightarrow> edit_flight \<Rightarrow> edit_outcome \<Rightarrow> tpage \<Rightarrow> tpage \<times> bool" where
  "sendEdits_answered kind f out p =
     (case out of
        EditRefused \<Rightarrow> (p, False)
      | EditDone header \<Rightarrow>
          (case fl_number f of
             Some n \<Rightarrow> (p, True)
           | None \<Rightarrow> (case parseInt10 header of None \<Rightarrow> (p, False) | Some n \<Rightarrow> (numbered kind n p, True))))"

definition page_answered :: "draft_kind \<Rightarrow> edit_flight \<Rightarrow> edit_outcome \<Rightarrow> tpage \<Rightarrow> tpage" where
  "page_answered kind f out p =
     (let (q, ok) = sendEdits_answered kind f out p in if fl_entry f then submit_answered ok q else q)"

record site =
  st_page :: tpage
  st_flights :: "edit_flight list"
  st_entries :: "sent_entry list"
  st_numbers :: "int list"

datatype page_event =
    TypedText str
  | PickedMention Picked str
  | TimerFired
  | SubmitClicked
  | KeyPressed key_down
  | FieldEdited
  | EditAnswered nat edit_outcome

definition edited :: "tpage \<Rightarrow> tpage" where
  "edited p = saveJournalDraft (journalEntryEdited p)"

definition submitted :: "draft_kind \<Rightarrow> site \<Rightarrow> site" where
  "submitted kind s =
     (case submitJournalEntry (st_page s) of
        None \<Rightarrow> s
      | Some (entry, p) \<Rightarrow>
          s\<lparr>st_page := p, st_entries := st_entries s @ [entry],
            st_flights := st_flights s @ [\<lparr>fl_number = kind_number kind (tp_ids p), fl_entry = True\<rparr>]\<rparr>)"

text \<open>The numbers a page takes from the answers it gets to requests that named none.\<close>

definition given_number :: "edit_flight \<Rightarrow> edit_outcome \<Rightarrow> int option" where
  "given_number f out =
     (case (fl_number f, out) of (None, EditDone header) \<Rightarrow> parseInt10 header | _ \<Rightarrow> None)"

fun page_step :: "draft_kind \<Rightarrow> site \<Rightarrow> page_event \<Rightarrow> site" where
  "page_step kind s (TypedText t) = s\<lparr>st_page := edited ((st_page s)\<lparr>tp_text := t\<rparr>)\<rparr>"
| "page_step kind s (PickedMention m t) =
     s\<lparr>st_page := edited ((st_page s)\<lparr>tp_text := t, tp_mentions := tp_mentions (st_page s) @ [m]\<rparr>)\<rparr>"
| "page_step kind s TimerFired =
     (if tp_timer (st_page s) then s\<lparr>st_page := flushJournalDraft (st_page s)\<rparr> else s)"
| "page_step kind s SubmitClicked = (if tp_disabled (st_page s) then s else submitted kind s)"
| "page_step kind s (KeyPressed e) = (if handleJournalKeydown (st_page s) e then submitted kind s else s)"
| "page_step kind s FieldEdited =
     s\<lparr>st_flights := st_flights s @ [\<lparr>fl_number = kind_number kind (tp_ids (st_page s)), fl_entry = False\<rparr>]\<rparr>"
| "page_step kind s (EditAnswered i out) =
     (if length (st_flights s) \<le> i then s
      else s\<lparr>st_page := page_answered kind (st_flights s ! i) out (st_page s),
             st_flights := take i (st_flights s) @ drop (Suc i) (st_flights s),
             st_numbers := st_numbers s @ (case given_number (st_flights s ! i) out of None \<Rightarrow> [] | Some n \<Rightarrow> [n])\<rparr>)"

definition page_run :: "draft_kind \<Rightarrow> page_event list \<Rightarrow> site \<Rightarrow> site" where
  "page_run kind es s = foldl (page_step kind) s es"

text \<open>A page opened at an address: nothing typed, and the draft of the record restored.\<close>

definition blank_page :: "draft_kind \<Rightarrow> str \<Rightarrow> device \<Rightarrow> tpage" where
  "blank_page kind address store =
     \<lparr>tp_kind = Some kind, tp_ids = idsFromPath address, tp_address = address, tp_store = store, tp_text = [],
      tp_timer = False, tp_note = False, tp_disabled = True, tp_colour = ButtonDefault, tp_mentions = [],
      tp_behalf = None\<rparr>"

definition open_page :: "draft_kind \<Rightarrow> str \<Rightarrow> device \<Rightarrow> tpage" where
  "open_page kind address store = restoreJournalDraft (blank_page kind address store)"

definition opened :: "draft_kind \<Rightarrow> str \<Rightarrow> device \<Rightarrow> site" where
  "opened kind address store =
     \<lparr>st_page = open_page kind address store, st_flights = [], st_entries = [], st_numbers = []\<rparr>"

text \<open>Two fields of a new record edited before the first answer: two records, and the page keeps the second.\<close>

lemma two_quick_edits_make_two:
  assumes "kind_number kind (tp_ids p) = None"
  shows "st_numbers (page_run kind [FieldEdited, FieldEdited, EditAnswered 0 (EditDone (Some (lit ''7''))), EditAnswered 0 (EditDone (Some (lit ''8'')))]
      \<lparr>st_page = p, st_flights = [], st_entries = [], st_numbers = []\<rparr>) = [7, 8]"
  using assms by (simp add: page_run_def given_number_def parseInt10_def parse_int_def parse_digits_def digits_val_def is_digit_def)

text \<open>
  What is typed while the entry is under way is sent with it a second time, as the button is enabled again
  by the typing, and is taken out of the box by the answer to the first.
\<close>

lemma typing_while_sending:
  assumes "trim text \<noteq> []" and "trim (text @ rest) \<noteq> []" and "tp_text p = text" and "\<not> tp_disabled p" and "tp_mentions p = []"
    and "kind_number kind (tp_ids p) = Some n"
  shows "map se_text (st_entries (page_run kind [SubmitClicked, TypedText (text @ rest), SubmitClicked]
      \<lparr>st_page = p, st_flights = [], st_entries = [], st_numbers = []\<rparr>)) = [text, text @ rest]"
    and "tp_text (st_page (page_run kind [SubmitClicked, TypedText (text @ rest), EditAnswered 0 (EditDone h)]
      \<lparr>st_page = p, st_flights = [], st_entries = [], st_numbers = []\<rparr>)) = []"
proof -
  have "text \<noteq> []" using assms(1) by (auto simp: trim_def)
  then show "map se_text (st_entries (page_run kind [SubmitClicked, TypedText (text @ rest), SubmitClicked]
      \<lparr>st_page = p, st_flights = [], st_entries = [], st_numbers = []\<rparr>)) = [text, text @ rest]"
    and "tp_text (st_page (page_run kind [SubmitClicked, TypedText (text @ rest), EditAnswered 0 (EditDone h)]
      \<lparr>st_page = p, st_flights = [], st_entries = [], st_numbers = []\<rparr>)) = []"
    using assms
    by (simp_all add: page_run_def submitted_def submitJournalEntry_def edited_def saveJournalDraft_def
        hideJournalDraftNote_def journalEntryEdited_def page_answered_def sendEdits_answered_def submit_answered_def
        clearJournalDraft_def)
qed

section \<open>What was typed is found again\<close>

definition good_event :: "str \<Rightarrow> bool" where
  "good_event event \<longleftrightarrow> event \<noteq> [] \<and> 36 \<notin> set event \<and> 47 \<notin> set event \<and> event \<notin> range page_word"

fun page_of :: "draft_kind \<Rightarrow> page_kind" where
  "page_of DraftIncident = IncidentPage"
| "page_of DraftReport = ReportPage"

definition record_address :: "str \<Rightarrow> draft_kind \<Rightarrow> int option \<Rightarrow> str" where
  "record_address event kind n = lit ''/ims/app/events/'' @ event @ 47 # page_word (page_of kind) @ 47 # draft_number n"

fun answer_ok :: "page_event \<Rightarrow> bool" where
  "answer_ok (EditAnswered i (EditDone header)) = (case parseInt10 header of None \<Rightarrow> True | Some n \<Rightarrow> 0 \<le> n)"
| "answer_ok _ = True"

definition draft_key :: "str \<Rightarrow> draft_kind \<Rightarrow> int option \<Rightarrow> str" where
  "draft_key event kind n = journalDraftKeyFor event (draft_word kind) (draft_number n)"

definition placed :: "str \<Rightarrow> draft_kind \<Rightarrow> tpage \<Rightarrow> bool" where
  "placed event kind p \<longleftrightarrow>
     tp_kind p = Some kind \<and> path_eventName (tp_ids p) = Some event \<and>
     (case kind_number kind (tp_ids p) of None \<Rightarrow> True | Some n \<Rightarrow> 0 \<le> n) \<and>
     tp_address p = record_address event kind (kind_number kind (tp_ids p))"

lemma draft_number_ok:
  assumes "case n of None \<Rightarrow> True | Some k \<Rightarrow> (0 :: int) \<le> k"
  shows "draft_number n \<noteq> []" "47 \<notin> set (draft_number n)" "draft_number n \<notin> range page_word" "parse_int (draft_number n) = n"
proof -
  have "lit ''new'' \<noteq> page_word k" for k by (cases k) simp_all
  then have new: "lit ''new'' \<notin> range page_word" by (metis rangeE)
  have none: "parse_int (lit ''new'') = None"
    by (simp add: parse_int_def parse_digits_def is_digit_def)
  show "draft_number n \<noteq> []" "47 \<notin> set (draft_number n)" "draft_number n \<notin> range page_word" "parse_int (draft_number n) = n"
    using assms show_int_part new none by (cases n; simp add: draft_number_def del: lit_simps; simp)+
qed

lemma read_record_address:
  assumes "good_event event" and "case n of None \<Rightarrow> True | Some k \<Rightarrow> (0 :: int) \<le> k"
  shows "path_eventName (idsFromPath (record_address event kind n)) = Some event"
    and "kind_number kind (idsFromPath (record_address event kind n)) = n"
  using assms(1) read_page_address [of event "draft_number n" "page_of kind"] draft_number_ok [OF assms(2)]
  by (cases kind; simp add: record_address_def good_event_def del: lit_simps)+

lemma key_of_page:
  "tp_kind p = Some kind \<Longrightarrow> path_eventName (tp_ids p) = Some event \<Longrightarrow>
     journalDraftKey p = Some (draft_key event kind (kind_number kind (tp_ids p)))"
  by (simp add: journalDraftKey_def draft_key_def)

lemma reload_text:
  assumes "good_event event" and "case n of None \<Rightarrow> True | Some k \<Rightarrow> (0 :: int) \<le> k"
  shows "tp_text (open_page kind (record_address event kind n) store) = nullish (nonempty (dev_get store (draft_key event kind n))) []"
proof -
  let ?blank = "blank_page kind (record_address event kind n) store"
  have "journalDraftKey ?blank = Some (draft_key event kind n)"
    using key_of_page [of ?blank kind event] read_record_address [OF assms]
    by (simp add: blank_page_def)
  then show ?thesis
    by (simp add: open_page_def restoreJournalDraft_def blank_page_def journalEntryEdited_def split: option.splits)
qed

text \<open>What leaves the place of a page alone.\<close>

lemma place_frame [simp]:
  "placed event kind (edited p) = placed event kind p"
  "placed event kind (flushJournalDraft p) = placed event kind p"
  "placed event kind (restoreJournalDraft p) = placed event kind p"
  "placed event kind (submit_answered ok p) = placed event kind p"
  "placed event kind (p\<lparr>tp_text := t\<rparr>) = placed event kind p"
  "placed event kind (p\<lparr>tp_mentions := ms\<rparr>) = placed event kind p"
  "placed event kind (p\<lparr>tp_disabled := d\<rparr>) = placed event kind p"
  by (simp_all add: placed_def edited_def saveJournalDraft_def hideJournalDraftNote_def journalEntryEdited_def
      flushJournalDraft_def restoreJournalDraft_def submit_answered_def clearJournalDraft_def split: option.splits)

lemma migrate_frame [simp]:
  "tp_kind (migrateJournalDraftToNumber n p) = tp_kind p"
  "tp_ids (migrateJournalDraftToNumber n p) = tp_ids p"
  "tp_text (migrateJournalDraftToNumber n p) = tp_text p"
  "tp_timer (migrateJournalDraftToNumber n p) = tp_timer p"
  by (simp_all add: migrateJournalDraftToNumber_def Let_def split: option.splits)

lemma numbered_placed:
  assumes "good_event event" and "placed event kind p" and "0 \<le> n"
  shows "placed event kind (numbered kind n p)"
proof -
  have addr: "urlReplace ids (page_url (page_of kind)) @ 47 # show_int n = record_address event kind (Some n)"
    if "path_eventName ids = Some event" for ids
    using urlReplace_page [OF that, of "page_of kind"] assms(1)
    by (simp add: good_event_def record_address_def draft_number_def del: lit_simps)
  then show ?thesis using assms(2,3) by (cases kind) (simp_all add: placed_def numbered_def Let_def)
qed

lemma submitted_placed [simp]: "placed event kind (st_page (submitted kind s)) = placed event kind (st_page s)"
  by (simp add: submitted_def submitJournalEntry_def)

lemma step_placed:
  assumes "good_event event" and "placed event kind (st_page s)" and "answer_ok e"
  shows "placed event kind (st_page (page_step kind s e))"
proof (cases e)
  case (EditAnswered i out)
  then show ?thesis using assms numbered_placed [OF assms(1,2)]
    by (cases out) (auto simp: page_answered_def sendEdits_answered_def split: option.splits)
qed (use assms in simp_all)

lemma run_placed:
  assumes "good_event event" and "list_all answer_ok es"
  shows "placed event kind (st_page s) \<Longrightarrow> placed event kind (st_page (page_run kind es s))"
  using assms(2) by (induction es arbitrary: s) (simp_all add: page_run_def step_placed [OF assms(1)])

lemma opened_placed:
  assumes "good_event event" and "case n of None \<Rightarrow> True | Some k \<Rightarrow> (0 :: int) \<le> k"
  shows "placed event kind (st_page (opened kind (record_address event kind n) store))"
  using read_record_address [OF assms] assms(2)
  by (simp add: opened_def open_page_def) (simp add: placed_def blank_page_def)

lemma unloaded_text:
  assumes "good_event event" and "placed event kind p"
  shows "tp_text (open_page kind (tp_address p) (tp_store (flushJournalDraft p))) = tp_text p"
proof -
  let ?n = "kind_number kind (tp_ids p)"
  have key: "journalDraftKey p = Some (draft_key event kind ?n)" and addr: "tp_address p = record_address event kind ?n"
    and num: "case ?n of None \<Rightarrow> True | Some k \<Rightarrow> 0 \<le> k"
    using assms(2) key_of_page by (simp_all add: placed_def)
  have "dev_get (tp_store (flushJournalDraft p)) (draft_key event kind ?n) = (if tp_text p = [] then None else Some (tp_text p))"
    by (simp add: flushJournalDraft_def key)
  then show ?thesis
    using reload_text [OF assms(1) num] by (cases "tp_text p") (simp_all add: addr)
qed

text \<open>
  C6: What has been typed and not been sent is found again: after any run of a page, with
  submissions and edits under way in any number and answered in any order, leaving the page and opening
  its address again gives the text that was in the box, also when the record got its number in between.
\<close>

theorem typed_text_survives_reload:
  assumes "good_event event" and "case n of None \<Rightarrow> True | Some k \<Rightarrow> (0 :: int) \<le> k" and "list_all answer_ok es"
    and "p = st_page (page_run kind es (opened kind (record_address event kind n) store))"
  shows "tp_text (open_page kind (tp_address p) (tp_store (flushJournalDraft p))) = tp_text p"
  using unloaded_text [OF assms(1) run_placed [OF assms(1,3) opened_placed [OF assms(1,2)]]] assms(4) by simp

lemma typed_text_survives_reload_witness:
  "tp_text (open_page DraftIncident (lit ''/ims/app/events/2026/incidents/7'')
     (tp_store (flushJournalDraft (st_page (page_run DraftIncident
        [FieldEdited, TypedText (lit ''help''), EditAnswered 0 (EditDone (Some (lit ''7'')))]
        (opened DraftIncident (record_address (lit ''2026'') DraftIncident None) empty_device)))))) = lit ''help''"
proof -
  let ?es = "[FieldEdited, TypedText (lit ''help''), EditAnswered 0 (EditDone (Some (lit ''7'')))]"
  let ?p = "st_page (page_run DraftIncident ?es (opened DraftIncident (record_address (lit ''2026'') DraftIncident None) empty_device))"
  have "lit ''2026'' \<noteq> page_word k" for k by (cases k) simp_all
  then have event: "good_event (lit ''2026'')" by (auto simp: good_event_def)
  have seven: "parseInt10 (Some (lit ''7'')) = Some 7"
    by (simp add: parseInt10_def parse_int_def parse_digits_def digits_val_def is_digit_def)
  have start: "kind_number DraftIncident (idsFromPath (record_address (lit ''2026'') DraftIncident None)) = None"
    and name: "path_eventName (idsFromPath (record_address (lit ''2026'') DraftIncident None)) = Some (lit ''2026'')"
    using read_record_address [OF event, of None] by simp_all
  have "placed (lit ''2026'') DraftIncident ?p"
    using seven by (intro run_placed [OF event] opened_placed [OF event]) simp_all
  moreover have "kind_number DraftIncident (tp_ids ?p) = Some 7 \<and> tp_text ?p = lit ''help''"
    using start seven
    by (simp add: page_run_def opened_def open_page_def blank_page_def restoreJournalDraft_def journalDraftKey_def name
        edited_def saveJournalDraft_def hideJournalDraftNote_def journalEntryEdited_def page_answered_def
        sendEdits_answered_def numbered_def Let_def trim_def is_ws_def dev_get_def empty_device_def split: option.splits)
  moreover have "record_address (lit ''2026'') DraftIncident (Some 7) = lit ''/ims/app/events/2026/incidents/7''"
    by (simp add: record_address_def draft_number_def show_int_def show_nat.simps)
  ultimately have "tp_address ?p = lit ''/ims/app/events/2026/incidents/7'' \<and> tp_text ?p = lit ''help''"
    unfolding placed_def by metis
  moreover have "list_all answer_ok ?es" using seven by simp
  moreover have "case None of None \<Rightarrow> True | Some k \<Rightarrow> (0 :: int) \<le> k" by simp
  ultimately show ?thesis
    using typed_text_survives_reload [OF event, of None ?es ?p DraftIncident empty_device] by metis
qed

text \<open>The edits one after the other: none is sent while another is under way.\<close>

fun starts_edit :: "page_event \<Rightarrow> bool" where
  "starts_edit SubmitClicked = True"
| "starts_edit (KeyPressed _) = True"
| "starts_edit FieldEdited = True"
| "starts_edit _ = False"

fun one_at_a_time :: "draft_kind \<Rightarrow> page_event list \<Rightarrow> site \<Rightarrow> bool" where
  "one_at_a_time kind [] s = True"
| "one_at_a_time kind (e # es) s = ((starts_edit e \<longrightarrow> st_flights s = []) \<and> one_at_a_time kind es (page_step kind s e))"

definition in_turn :: "draft_kind \<Rightarrow> site \<Rightarrow> bool" where
  "in_turn kind s \<longleftrightarrow>
     length (st_flights s) \<le> 1 \<and>
     (\<forall>f \<in> set (st_flights s). fl_number f = kind_number kind (tp_ids (st_page s)))"

definition numbers_kept :: "draft_kind \<Rightarrow> site \<Rightarrow> bool" where
  "numbers_kept kind s \<longleftrightarrow>
     (case st_numbers s of [] \<Rightarrow> kind_number kind (tp_ids (st_page s)) = None
        | [n] \<Rightarrow> kind_number kind (tp_ids (st_page s)) = Some n | _ \<Rightarrow> False)"

lemma ids_frame [simp]:
  "tp_ids (edited p) = tp_ids p" "tp_ids (flushJournalDraft p) = tp_ids p" "tp_ids (restoreJournalDraft p) = tp_ids p"
  "tp_ids (submit_answered ok p) = tp_ids p"
  by (simp_all add: edited_def saveJournalDraft_def hideJournalDraftNote_def journalEntryEdited_def
      flushJournalDraft_def restoreJournalDraft_def submit_answered_def clearJournalDraft_def split: option.splits)

lemma numbered_number [simp]: "kind_number kind (tp_ids (numbered kind n p)) = Some n"
  by (cases kind) (simp_all add: numbered_def Let_def)

lemma answered_number:
  "kind_number kind (tp_ids (page_answered kind f out p)) =
     (case given_number f out of None \<Rightarrow> kind_number kind (tp_ids p) | Some n \<Rightarrow> Some n)"
  by (simp add: page_answered_def sendEdits_answered_def given_number_def split: option.splits edit_outcome.splits)

lemma step_in_turn:
  assumes "in_turn kind s" and "starts_edit e \<Longrightarrow> st_flights s = []"
  shows "in_turn kind (page_step kind s e)"
proof (cases e)
  case (EditAnswered i out)
  with assms(1) show ?thesis by (cases "st_flights s"; cases i) (auto simp: in_turn_def)
qed (use assms in \<open>auto simp: in_turn_def submitted_def submitJournalEntry_def\<close>)

lemma step_numbers:
  assumes "in_turn kind s" and "numbers_kept kind s"
  shows "numbers_kept kind (page_step kind s e)"
proof (cases e)
  case (EditAnswered i out)
  have "given_number f out = None" if "fl_number f = Some n" for f n
    using that by (simp add: given_number_def)
  with EditAnswered assms show ?thesis
    by (cases "st_numbers s"; cases "tl (st_numbers s)"; cases "st_flights s"; cases i)
      (auto simp: in_turn_def numbers_kept_def answered_number split: option.splits)
qed (use assms in \<open>auto simp: in_turn_def numbers_kept_def submitted_def submitJournalEntry_def split: list.splits\<close>)

lemma run_numbers:
  "in_turn kind s \<Longrightarrow> numbers_kept kind s \<Longrightarrow> one_at_a_time kind es s \<Longrightarrow>
     in_turn kind (page_run kind es s) \<and> numbers_kept kind (page_run kind es s)"
proof (induction es arbitrary: s)
  case (Cons e es)
  then show ?case using step_in_turn [of kind s e] step_numbers [of kind s e] by (simp add: page_run_def)
qed (simp add: page_run_def)

text \<open>
  C12: A new record is made once: as long as no edit is sent while another is under way, the page
  takes at most one number from the server, whatever is refused in between and in whatever order fields
  are edited and entries submitted, and it is the number the page then has.
\<close>

theorem record_numbered_once:
  assumes "good_event event" and "s = opened kind (record_address event kind None) store" and "one_at_a_time kind es s"
  shows "st_numbers (page_run kind es s) = [] \<or>
    st_numbers (page_run kind es s) = [the (kind_number kind (tp_ids (st_page (page_run kind es s))))]"
proof -
  have "kind_number kind (tp_ids (st_page s)) = None"
    using read_record_address(2) [OF assms(1), of None kind] by (simp add: assms(2) opened_def open_page_def blank_page_def)
  then have "in_turn kind s" "numbers_kept kind s" by (simp_all add: in_turn_def numbers_kept_def assms(2) opened_def)
  from run_numbers [OF this assms(3)] show ?thesis
    by (auto simp: numbers_kept_def split: list.splits)
qed

lemma record_numbered_once_witness:
  "length (st_numbers (page_run DraftReport [FieldEdited, EditAnswered 0 (EditDone (Some (lit ''7''))), FieldEdited]
     (opened DraftReport (record_address (lit ''2026'') DraftReport None) empty_device))) \<le> 1"
proof -
  let ?s = "opened DraftReport (record_address (lit ''2026'') DraftReport None) empty_device"
  let ?es = "[FieldEdited, EditAnswered 0 (EditDone (Some (lit ''7''))), FieldEdited]"
  have "lit ''2026'' \<noteq> page_word k" for k by (cases k) simp_all
  then have "good_event (lit ''2026'')" by (auto simp: good_event_def)
  moreover have "one_at_a_time DraftReport ?es ?s" by (simp add: opened_def)
  ultimately show ?thesis using record_numbered_once [of "lit ''2026''" ?s DraftReport empty_device ?es] by auto
qed

text \<open>The numbers that the answers of a run bring have no draft on the device yet.\<close>

fun brings_number :: "page_event \<Rightarrow> int option" where
  "brings_number (EditAnswered i (EditDone header)) = parseInt10 header"
| "brings_number _ = None"

definition unused :: "str \<Rightarrow> draft_kind \<Rightarrow> device \<Rightarrow> page_event \<Rightarrow> bool" where
  "unused event kind store e \<longleftrightarrow>
     (case brings_number e of None \<Rightarrow> True | Some n \<Rightarrow> 0 \<le> n \<and> nonempty (dev_get store (draft_key event kind (Some n))) = None)"

definition settled :: "str \<Rightarrow> draft_kind \<Rightarrow> tpage \<Rightarrow> bool" where
  "settled event kind p \<longleftrightarrow>
     (\<not> tp_timer p \<longrightarrow>
        nonempty (dev_get (tp_store p) (draft_key event kind (kind_number kind (tp_ids p)))) = nonempty (Some (tp_text p)))"

lemma draft_key_apart:
  assumes "0 \<le> (n :: int)"
  shows "draft_key event kind (Some n) \<noteq> draft_key event kind None"
  using draft_number_ok(4) [of "Some n"] draft_number_ok(4) [of None] assms
  by (auto simp: draft_key_def journalDraftKeyFor_def simp del: lit_simps)

lemma key_of_placed: "placed event kind p \<Longrightarrow> journalDraftKey p = Some (draft_key event kind (kind_number kind (tp_ids p)))"
  by (simp add: placed_def key_of_page)

lemma flush_settled: "placed event kind p \<Longrightarrow> settled event kind (flushJournalDraft p)"
  using ids_frame(2) [of p] by (simp add: settled_def flushJournalDraft_def key_of_placed)

lemma restore_settled:
  "placed event kind p \<Longrightarrow> tp_text p = [] \<Longrightarrow> settled event kind (restoreJournalDraft p)"
  by (cases "nonempty (dev_get (tp_store p) (draft_key event kind (kind_number kind (tp_ids p))))")
    (auto simp: settled_def restoreJournalDraft_def key_of_placed journalEntryEdited_def elim: nonempty.elims)

lemma submit_settled:
  assumes "placed event kind p" and "settled event kind p"
  shows "settled event kind (submit_answered ok p)"
proof (cases ok)
  case True
  let ?q = "journalEntryEdited (p\<lparr>tp_text := [], tp_mentions := []\<rparr>)"
  have "journalDraftKey ?q = Some (draft_key event kind (kind_number kind (tp_ids p)))"
    using assms(1) by (simp add: key_of_page placed_def journalEntryEdited_def)
  with True show ?thesis
    by (simp add: settled_def submit_answered_def clearJournalDraft_def hideJournalDraftNote_def) (simp add: journalEntryEdited_def)
qed (use assms(2) in \<open>simp add: settled_def submit_answered_def\<close>)

lemma numbered_store:
  assumes "placed event kind p" and "0 \<le> n"
  shows "tp_store (numbered kind n p) =
    (case dev_get (tp_store p) (draft_key event kind None) of
       None \<Rightarrow> tp_store p
     | Some draft \<Rightarrow> dev_remove (dev_set (tp_store p) (draft_key event kind (Some n)) draft) (draft_key event kind None))"
proof -
  let ?ids = "case kind of DraftIncident \<Rightarrow> (tp_ids p)\<lparr>path_incidentNumber := Some n\<rparr>
                         | DraftReport \<Rightarrow> (tp_ids p)\<lparr>path_reportNumber := Some n\<rparr>"
  have keys: "journalDraftKeyFor event (draft_word kind) (lit ''new'') = draft_key event kind None"
    "journalDraftKeyFor event (draft_word kind) (show_int n) = draft_key event kind (Some n)"
    by (simp_all add: draft_key_def draft_number_def)
  have "tp_kind p = Some kind" and "path_eventName ?ids = Some event"
    using assms(1) by (cases kind; simp add: placed_def)+
  then show ?thesis
    using draft_key_apart [OF assms(2), of event kind]
    by (simp add: numbered_def migrateJournalDraftToNumber_def keys Let_def del: lit_simps split: option.splits)
qed

lemma numbered_rest [simp]: "tp_timer (numbered kind n p) = tp_timer p" "tp_text (numbered kind n p) = tp_text p"
  by (simp_all add: numbered_def Let_def)

lemma numbered_settled:
  assumes "placed event kind p" and "settled event kind p" and "kind_number kind (tp_ids p) = None" and "0 \<le> n"
    and "nonempty (dev_get (tp_store p) (draft_key event kind (Some n))) = None"
  shows "settled event kind (numbered kind n p)"
  using assms draft_key_apart [OF assms(4), of event kind]
  by (auto simp: settled_def numbered_store split: option.splits)

lemma answer_settled:
  assumes "good_event event" and "placed event kind p" and "settled event kind p" and "fl_number f = kind_number kind (tp_ids p)"
    and "unused event kind (tp_store p) (EditAnswered i out)" 
  shows "settled event kind (page_answered kind f out p)"
proof (cases "given_number f out")
  case None
  then have "fst (sendEdits_answered kind f out p) = p"
    by (simp add: sendEdits_answered_def given_number_def split: option.splits edit_outcome.splits)
  with submit_settled [OF assms(2,3)] assms(3) show ?thesis by (simp add: page_answered_def split_beta)
next
  case (Some n)
  then have "fl_number f = None" "sendEdits_answered kind f out p = (numbered kind n p, True)"
    and "brings_number (EditAnswered i out) = Some n"
    by (auto simp: sendEdits_answered_def given_number_def split: option.splits edit_outcome.splits)
  moreover from this assms(5) have "0 \<le> n" "nonempty (dev_get (tp_store p) (draft_key event kind (Some n))) = None"
    by (simp_all add: unused_def)
  ultimately show ?thesis
    using numbered_settled [OF assms(2,3)] numbered_placed [OF assms(1,2)] submit_settled assms(4)
    by (simp add: page_answered_def)
qed

lemma step_settled:
  assumes "good_event event" and "placed event kind (st_page s)" and "settled event kind (st_page s)" and "in_turn kind s"
    and "kind_number kind (tp_ids (st_page s)) = None \<longrightarrow> unused event kind (tp_store (st_page s)) e"
  shows "settled event kind (st_page (page_step kind s e))"
proof (cases e)
  case (EditAnswered i out)
  show ?thesis
  proof (cases "st_flights s")
    case (Cons f fs)
    with assms(4) have "fl_number f = kind_number kind (tp_ids (st_page s))" "fs = []" by (simp_all add: in_turn_def)
    moreover have "settled event kind (page_answered kind f out (st_page s))" if "fl_number f = Some n" for n
      using submit_settled [OF assms(2,3)] assms(3) that by (cases out) (simp_all add: page_answered_def sendEdits_answered_def)
    ultimately show ?thesis
      using answer_settled [OF assms(1-3)] assms(3,5) EditAnswered Cons by (cases "fl_number f"; cases i) auto
  qed (use EditAnswered assms(3) in simp)
next
  case (TypedText t)
  then show ?thesis by (simp add: settled_def edited_def saveJournalDraft_def)
next
  case (PickedMention m t)
  then show ?thesis by (simp add: settled_def edited_def saveJournalDraft_def)
qed (use assms(3) flush_settled [OF assms(2)] in \<open>simp_all add: submitted_def submitJournalEntry_def settled_def\<close>)

text \<open>As long as the record has no number, the drafts of the numbered ones are left alone.\<close>

lemma step_others:
  assumes "good_event event" and "placed event kind (st_page s)" and "in_turn kind s" and "0 \<le> n"
    and "kind_number kind (tp_ids (st_page (page_step kind s e))) = None"
  shows "kind_number kind (tp_ids (st_page s)) = None \<and>
    dev_get (tp_store (st_page (page_step kind s e))) (draft_key event kind (Some n)) =
      dev_get (tp_store (st_page s)) (draft_key event kind (Some n))"
proof -
  note apart = draft_key_apart [OF assms(4), of event kind]
  have flush: "dev_get (tp_store (flushJournalDraft p)) (draft_key event kind (Some n)) = dev_get (tp_store p) (draft_key event kind (Some n))"
    and sent: "dev_get (tp_store (submit_answered ok p)) (draft_key event kind (Some n)) = dev_get (tp_store p) (draft_key event kind (Some n))"
    if "placed event kind p" "kind_number kind (tp_ids p) = None" for p ok
  proof -
    have "journalDraftKey (journalEntryEdited (p\<lparr>tp_text := [], tp_mentions := []\<rparr>)) = Some (draft_key event kind None)"
      "journalDraftKey p = Some (draft_key event kind None)"
      using that by (simp_all add: key_of_page placed_def journalEntryEdited_def)
    with apart show "dev_get (tp_store (flushJournalDraft p)) (draft_key event kind (Some n)) = dev_get (tp_store p) (draft_key event kind (Some n))"
      and "dev_get (tp_store (submit_answered ok p)) (draft_key event kind (Some n)) = dev_get (tp_store p) (draft_key event kind (Some n))"
      by (simp_all add: flushJournalDraft_def submit_answered_def clearJournalDraft_def hideJournalDraftNote_def)
        (simp add: journalEntryEdited_def)
  qed
  show ?thesis
  proof (cases e)
    case (EditAnswered i out)
    show ?thesis
    proof (cases "length (st_flights s) \<le> i")
      case False
      with assms(5) EditAnswered have none: "given_number (st_flights s ! i) out = None" and num: "kind_number kind (tp_ids (st_page s)) = None"
        by (auto simp: answered_number split: option.splits)
      then have "fst (sendEdits_answered kind (st_flights s ! i) out (st_page s)) = st_page s"
        by (simp add: sendEdits_answered_def given_number_def split: option.splits edit_outcome.splits)
      with sent [OF assms(2) num] num EditAnswered False show ?thesis by (simp add: page_answered_def split_beta)
    qed (use EditAnswered assms(5) in simp)
  qed (use assms(2,5) flush in \<open>auto simp: edited_def saveJournalDraft_def hideJournalDraftNote_def journalEntryEdited_def
      submitted_def submitJournalEntry_def split: if_splits\<close>)
qed

lemma unused_answer_ok: "unused event kind store e \<Longrightarrow> answer_ok e"
  by (cases e rule: answer_ok.cases) (auto simp: unused_def split: option.splits)

lemma unused_cong:
  assumes "\<And>n. 0 \<le> n \<Longrightarrow> dev_get store' (draft_key event kind (Some n)) = dev_get store (draft_key event kind (Some n))"
    and "unused event kind store e"
  shows "unused event kind store' e"
  using assms by (simp add: unused_def split: option.splits)

definition calm :: "str \<Rightarrow> draft_kind \<Rightarrow> page_event list \<Rightarrow> site \<Rightarrow> bool" where
  "calm event kind es s \<longleftrightarrow>
     placed event kind (st_page s) \<and> in_turn kind s \<and> settled event kind (st_page s) \<and>
     (kind_number kind (tp_ids (st_page s)) = None \<longrightarrow> list_all (unused event kind (tp_store (st_page s))) es)"

lemma calm_step:
  assumes "good_event event" and "calm event kind (e # es) s" and "starts_edit e \<longrightarrow> st_flights s = []" and "answer_ok e"
  shows "calm event kind es (page_step kind s e)"
proof -
  have s: "placed event kind (st_page s)" "in_turn kind s" "settled event kind (st_page s)"
    "kind_number kind (tp_ids (st_page s)) = None \<longrightarrow> unused event kind (tp_store (st_page s)) e \<and> list_all (unused event kind (tp_store (st_page s))) es"
    using assms(2) by (simp_all add: calm_def)
  have "list_all (unused event kind (tp_store (st_page (page_step kind s e)))) es"
    if none: "kind_number kind (tp_ids (st_page (page_step kind s e))) = None"
  proof -
    from step_others [OF assms(1) s(1,2) _ none] have same: "dev_get (tp_store (st_page (page_step kind s e))) (draft_key event kind (Some n)) =
        dev_get (tp_store (st_page s)) (draft_key event kind (Some n))" if "0 \<le> n" for n using that by blast
    from step_others [OF assms(1) s(1,2) order_refl none] s(4) have "list_all (unused event kind (tp_store (st_page s))) es" by simp
    then show ?thesis by (rule list.pred_mono_strong) (rule unused_cong [OF same])
  qed
  then show ?thesis
    using step_placed [OF assms(1) s(1) assms(4)] step_in_turn [OF s(2)] step_settled [OF assms(1) s(1,3,2)] s(4) assms(3)
    by (simp add: calm_def)
qed

lemma calm_run:
  assumes "good_event event"
  shows "calm event kind es s \<Longrightarrow> one_at_a_time kind es s \<Longrightarrow> list_all answer_ok es \<Longrightarrow> calm event kind [] (page_run kind es s)"
proof (induction es arbitrary: s)
  case (Cons e es)
  then show ?case using calm_step [OF assms Cons.prems(1)] by (simp add: page_run_def)
qed (simp add: page_run_def)

text \<open>
  Also a page that dies finds its text again, as soon as the timer has run: whenever no
  write of the draft is pending, opening the address of the page on the device as it is gives the text in
  the box, with the edits sent one after the other and no draft on the device for the numbers the server
  gives.
\<close>

theorem quiet_draft_is_the_text:
  assumes "good_event event" and "s = opened kind (record_address event kind n) store"
    and "case n of None \<Rightarrow> list_all (unused event kind (tp_store (st_page s))) es | Some k \<Rightarrow> 0 \<le> k"
    and "list_all answer_ok es" and "one_at_a_time kind es s"
    and "p = st_page (page_run kind es s)" and "\<not> tp_timer p"
  shows "tp_text (open_page kind (tp_address p) (tp_store p)) = tp_text p"
proof -
  have num: "case n of None \<Rightarrow> True | Some k \<Rightarrow> 0 \<le> k" using assms(3) by (simp split: option.splits)
  let ?blank = "blank_page kind (record_address event kind n) store"
  have page: "st_page s = restoreJournalDraft ?blank" by (simp add: assms(2) opened_def open_page_def)
  have here: "placed event kind (st_page s)" using opened_placed [OF assms(1) num] by (simp add: assms(2))
  then have "settled event kind (st_page s)" unfolding page by (intro restore_settled) (simp_all add: blank_page_def)
  moreover have "kind_number kind (tp_ids (st_page s)) = n"
    using read_record_address(2) [OF assms(1) num] by (simp add: page blank_page_def)
  ultimately have "calm event kind es s"
    using here assms(3) by (auto simp: calm_def in_turn_def assms(2) opened_def)
  from calm_run [OF assms(1) this assms(5,4)] have "placed event kind p" "settled event kind p"
    by (simp_all add: calm_def assms(6))
  then have "nonempty (dev_get (tp_store p) (draft_key event kind (kind_number kind (tp_ids p)))) = nonempty (Some (tp_text p))"
    and "tp_address p = record_address event kind (kind_number kind (tp_ids p))"
    and "case kind_number kind (tp_ids p) of None \<Rightarrow> True | Some k \<Rightarrow> 0 \<le> k"
    using assms(7) by (simp_all add: settled_def placed_def)
  then show ?thesis using reload_text [OF assms(1)] by (cases "tp_text p") simp_all
qed

lemma quiet_draft_is_the_text_witness:
  "tp_text (open_page DraftReport (record_address (lit ''2026'') DraftReport (Some 7))
     (tp_store (st_page (page_run DraftReport [TypedText (lit ''help''), TimerFired]
        (opened DraftReport (record_address (lit ''2026'') DraftReport (Some 7)) empty_device))))) = lit ''help''"
proof -
  let ?addr = "record_address (lit ''2026'') DraftReport (Some 7)"
  let ?es = "[TypedText (lit ''help''), TimerFired]"
  let ?p = "st_page (page_run DraftReport ?es (opened DraftReport ?addr empty_device))"
  have "lit ''2026'' \<noteq> page_word k" for k by (cases k) simp_all
  then have event: "good_event (lit ''2026'')" by (auto simp: good_event_def)
  have answers: "list_all answer_ok ?es" and turn: "one_at_a_time DraftReport ?es s" for s by simp_all
  have place: "placed (lit ''2026'') DraftReport ?p"
    by (intro run_placed [OF event answers] opened_placed [OF event]) simp
  have "kind_number DraftReport (idsFromPath ?addr) = Some 7"
    using read_record_address(2) [OF event, of "Some 7" DraftReport] by simp
  then have "kind_number DraftReport (tp_ids ?p) = Some 7 \<and> tp_text ?p = lit ''help'' \<and> \<not> tp_timer ?p"
    by (simp add: page_run_def opened_def open_page_def blank_page_def restoreJournalDraft_def edited_def saveJournalDraft_def
        hideJournalDraftNote_def journalEntryEdited_def flushJournalDraft_def dev_get_def empty_device_def split: option.splits)
  with place have "tp_address ?p = ?addr" "tp_text ?p = lit ''help''" "\<not> tp_timer ?p"
    unfolding placed_def by metis+
  then show ?thesis
    using quiet_draft_is_the_text [where event = "lit ''2026''" and kind = DraftReport and n = "Some 7" and store = empty_device
        and es = ?es and p = ?p, OF event refl _ answers turn refl]
    by (simp del: lit_simps page_step.simps)
qed

text \<open>
  An entry that the server refuses is kept: the text, the mentions, the draft and the person it
  is filed for are as before the submission, the button can be pressed again, and pressing it sends the
  same entry.
\<close>

theorem refused_entry_kept:
  assumes "submitJournalEntry p = Some (entry, q)" and "out = EditRefused \<or> fl_number f = None \<and> (\<exists>h. out = EditDone h \<and> parseInt10 h = None)"
    and "fl_entry f"
  shows "\<exists>r. page_answered kind f out q = p\<lparr>tp_disabled := False, tp_colour := ButtonDanger\<rparr> \<and>
    submitJournalEntry (page_answered kind f out q) = Some (entry, r)"
  using assms by (auto simp: submitJournalEntry_def page_answered_def sendEdits_answered_def submit_answered_def split: if_splits)

lemma refused_entry_kept_witness:
  "let p = (blank_page DraftIncident (lit ''/'') empty_device)\<lparr>tp_text := lit ''help'', tp_disabled := False\<rparr>
   in page_answered DraftIncident \<lparr>fl_number = Some 7, fl_entry = True\<rparr> EditRefused (p\<lparr>tp_disabled := True\<rparr>) =
        p\<lparr>tp_disabled := False, tp_colour := ButtonDanger\<rparr>"
  unfolding Let_def
  using refused_entry_kept [of "(blank_page DraftIncident (lit ''/'') empty_device)\<lparr>tp_text := lit ''help'', tp_disabled := False\<rparr>"
      _ "(blank_page DraftIncident (lit ''/'') empty_device)\<lparr>tp_text := lit ''help'', tp_disabled := True\<rparr>" EditRefused
      "\<lparr>fl_number = Some 7, fl_entry = True\<rparr>" DraftIncident]
  by (simp add: submitJournalEntry_def)

end
