(* ===== verification/TemplIncidents.thy ===== *)
theory TemplIncidents
  imports TemplJournal
begin

text \<open>
  The incident queue of the server-rendered pages (\<open>src/go/web/typescript/incidents.ts\<close>, with the cells of
  \<open>ims.ts\<close> it shows): the filters and their menus, the fragment they are kept in, the rows and how a
  broadcast changes them, the cells, and where the page sends a viewer without access. A function that
  throws on a menu entry that is not there has no value.
\<close>

section \<open>Types of incidents\<close>

record itype =
  it_id :: "int option"
  it_name :: "str option"
  it_hidden :: "bool option"
  it_group :: "str option"

definition incidentTypeGroups :: "str list" where
  "incidentTypeGroups = [lit ''compliance'', lit ''conduct'', lit ''operations'', lit ''safety'']"

definition incidentTypeGroupName :: "str option \<Rightarrow> str" where
  "incidentTypeGroupName g =
     (if g = Some (lit ''safety'') then lit ''Safety''
      else if g = Some (lit ''conduct'') then lit ''Conduct''
      else if g = Some (lit ''operations'') then lit ''Operations''
      else if g = Some (lit ''compliance'') then lit ''Compliance''
      else lit ''Ungrouped'')"

definition group_rank :: "str option \<Rightarrow> int" where
  "group_rank g =
     (case nonempty g of
        None \<Rightarrow> int (length incidentTypeGroups)
      | Some w \<Rightarrow> (case find_index (\<lambda>x. x = w) incidentTypeGroups of Some i \<Rightarrow> int i | None \<Rightarrow> -1))"

definition compareIncidentTypesByGroup :: "host \<Rightarrow> itype \<Rightarrow> itype \<Rightarrow> int" where
  "compareIncidentTypesByGroup h a b =
     (let diff = group_rank (it_group a) - group_rank (it_group b)
      in if diff \<noteq> 0 then diff else locale_compare h (nullish (it_name a) []) (nullish (it_name b) []))"

text \<open>A group the client does not know is labelled like none, and sorted before all the others, not after them.\<close>

lemma unknown_group_first:
  assumes "g \<noteq> []" and "g \<notin> set incidentTypeGroups" and "it_group a = Some g" and "it_group b = None \<or> it_group b = Some k \<and> k \<in> set incidentTypeGroups"
  shows "incidentTypeGroupName (it_group a) = incidentTypeGroupName None" and "compareIncidentTypesByGroup h a b < 0"
proof -
  have "nonempty (Some g) = Some g" using assms(1) by (cases g) simp_all
  moreover have "find_index (\<lambda>x. x = g) incidentTypeGroups = None"
    using assms(2) by (auto simp: incidentTypeGroups_def)
  ultimately have "group_rank (Some g) = -1" by (simp add: group_rank_def)
  moreover have "0 \<le> group_rank (it_group b)"
    using assms(4) by (auto simp: group_rank_def incidentTypeGroups_def split: option.splits)
  ultimately show "compareIncidentTypesByGroup h a b < 0"
    using assms(3) by (simp add: compareIncidentTypesByGroup_def)
  show "incidentTypeGroupName (it_group a) = incidentTypeGroupName None"
    using assms(2,3) by (auto simp: incidentTypeGroupName_def incidentTypeGroups_def)
qed

definition visibleIncidentTypes :: "itype list \<Rightarrow> itype list" where
  "visibleIncidentTypes types = filter (\<lambda>it. \<not> flag (it_hidden it)) types"

definition type_ids :: "itype list \<Rightarrow> int list" where
  "type_ids types = List.map_filter it_id types"

section \<open>The filters and their menus\<close>

definition defaultState :: str where "defaultState = lit ''open''"
definition defaultDaysBack :: str where "defaultDaysBack = lit ''all''"
definition defaultRows :: str where "defaultRows = lit ''25''"
definition blankPlaceholder :: str where "blankPlaceholder = lit ''(blank)''"
definition otherPlaceholder :: str where "otherPlaceholder = lit ''(other)''"

text \<open>The days a menu entry exists for in the page's template.\<close>

definition days_menu :: "str list" where
  "days_menu = [lit ''all'', lit ''0'', lit ''1'', lit ''2'', lit ''3'']"

datatype menu_item = SelectAll | BlankItem | OtherItem | TypeItem str

record queue =
  qu_types :: "itype list"
  qu_menu :: "(menu_item \<times> bool) list"
  qu_showTypes :: "str list"
  qu_blank :: bool
  qu_other :: bool
  qu_state :: "str option"
  qu_days :: "str option"
  qu_after :: "int option"
  qu_rows :: "str option"
  qu_len :: "int option"
  qu_search :: str
  qu_params :: "(str \<times> str) list"

definition type_text :: "itype \<Rightarrow> str" where
  "type_text it = (case it_id it of Some n \<Rightarrow> show_int n | None \<Rightarrow> lit ''undefined'')"

definition menu_items :: "itype list \<Rightarrow> menu_item list" where
  "menu_items types = [SelectAll, BlankItem, OtherItem] @ map (\<lambda>it. TypeItem (type_text it)) (visibleIncidentTypes types)"

text \<open>The page as the template gives it and the types are added.\<close>

definition fresh_queue :: "itype list \<Rightarrow> queue" where
  "fresh_queue types =
     \<lparr>qu_types = types, qu_menu = map (\<lambda>i. (i, i \<noteq> SelectAll)) (menu_items types), qu_showTypes = [], qu_blank = True,
      qu_other = True, qu_state = None, qu_days = None, qu_after = None, qu_rows = None, qu_len = None, qu_search = [],
      qu_params = []\<rparr>"

fun item_checked :: "int list \<Rightarrow> bool \<Rightarrow> bool \<Rightarrow> menu_item \<Rightarrow> bool" where
  "item_checked types blanks others SelectAll = False"
| "item_checked types blanks others BlankItem = blanks"
| "item_checked types blanks others OtherItem = others"
| "item_checked types blanks others (TypeItem s) = (case parseInt10 (Some s) of None \<Rightarrow> False | Some n \<Rightarrow> n \<in> set types)"

definition setCheckedTypes :: "int list \<Rightarrow> bool \<Rightarrow> bool \<Rightarrow> queue \<Rightarrow> queue" where
  "setCheckedTypes types blanks others q =
     q\<lparr>qu_menu := map (\<lambda>(i, _). (i, item_checked types blanks others i)) (qu_menu q)\<rparr>"

fun read_item :: "queue \<Rightarrow> menu_item \<times> bool \<Rightarrow> queue" where
  "read_item q (BlankItem, c) = q\<lparr>qu_blank := c\<rparr>"
| "read_item q (OtherItem, c) = q\<lparr>qu_other := c\<rparr>"
| "read_item q (SelectAll, c) = (if c then q\<lparr>qu_showTypes := qu_showTypes q @ [[]]\<rparr> else q)"
| "read_item q (TypeItem s, c) = (if c then q\<lparr>qu_showTypes := qu_showTypes q @ [s]\<rparr> else q)"

definition readCheckedTypes :: "queue \<Rightarrow> queue" where
  "readCheckedTypes q = foldl read_item (q\<lparr>qu_showTypes := []\<rparr>) (qu_menu q)"

definition allTypesChecked :: "queue \<Rightarrow> bool" where
  "allTypesChecked q \<longleftrightarrow>
     length (qu_showTypes q) = length (visibleIncidentTypes (qu_types q)) \<and> qu_blank q \<and> qu_other q"

text \<open>The parameters of the fragment, in the order they are written.\<close>

definition window_params :: "queue \<Rightarrow> (str \<times> str) list" where
  "window_params q =
     (if qu_search q \<noteq> [] then [(lit ''q'', qu_search q)] else []) @
     (if \<not> allTypesChecked q
      then map (Pair (lit ''type'')) (qu_showTypes q) @
        (if qu_blank q then [(lit ''type'', blankPlaceholder)] else []) @
        (if qu_other q then [(lit ''type'', otherPlaceholder)] else [])
      else []) @
     (case qu_state q of Some s \<Rightarrow> if s \<noteq> defaultState then [(lit ''state'', s)] else [] | None \<Rightarrow> []) @
     (case qu_days q of Some d \<Rightarrow> if d \<noteq> defaultDaysBack then [(lit ''days'', d)] else [] | None \<Rightarrow> []) @
     (case qu_rows q of Some r \<Rightarrow> if r \<noteq> defaultRows then [(lit ''rows'', r)] else [] | None \<Rightarrow> [])"

definition replaceWindowState :: "bool \<Rightarrow> queue \<Rightarrow> queue" where
  "replaceWindowState replace q = (if replace then q\<lparr>qu_params := window_params q\<rparr> else q)"

definition showCheckedTypes :: "bool \<Rightarrow> queue \<Rightarrow> queue" where
  "showCheckedTypes replace q = replaceWindowState replace (readCheckedTypes q)"

definition show_type_label :: "queue \<Rightarrow> str" where
  "show_type_label q =
     (let n = length (qu_showTypes q) + (if qu_blank q then 1 else 0) + (if qu_other q then 1 else 0)
      in if n = 1 then
           (if qu_blank q then blankPlaceholder
            else if qu_other q then otherPlaceholder
            else (case List.find (\<lambda>it. map_option show_int (it_id it) = Some (hd (qu_showTypes q))) (qu_types q) of
                    Some it \<Rightarrow> nullish (it_name it) (lit ''Unknown'')
                  | None \<Rightarrow> lit ''Unknown''))
         else if allTypesChecked q then lit ''All Types''
         else lit ''Types ('' @ show_int (int n) @ lit '')'')"

text \<open>A click on an entry of the menu; the first one selects or deselects all.\<close>

definition toggle_item :: "nat \<Rightarrow> queue \<Rightarrow> queue" where
  "toggle_item i q =
     (if i < length (qu_menu q) \<and> fst (qu_menu q ! i) \<noteq> SelectAll
      then showCheckedTypes True (q\<lparr>qu_menu := (qu_menu q)[i := (fst (qu_menu q ! i), \<not> snd (qu_menu q ! i))]\<rparr>)
      else q)"

definition toggleCheckAllTypes :: "queue \<Rightarrow> queue" where
  "toggleCheckAllTypes q =
     showCheckedTypes True
       (if qu_showTypes q = [] \<or> length (qu_showTypes q) < length (visibleIncidentTypes (qu_types q))
        then setCheckedTypes (type_ids (qu_types q)) True True q
        else setCheckedTypes [] False False q)"

definition showState :: "str \<Rightarrow> bool \<Rightarrow> queue \<Rightarrow> queue option" where
  "showState state replace q =
     (if state \<in> set incidentTableStates then Some (replaceWindowState replace (q\<lparr>qu_state := Some state\<rparr>)) else None)"

text \<open>\<open>since n\<close> is the start of the day \<open>n\<close> days before today, in milliseconds.\<close>

definition days_after :: "(nat \<Rightarrow> int) \<Rightarrow> str \<Rightarrow> int option" where
  "days_after since days = (if days = lit ''all'' then None else Some (since (digits_val days)))"

definition rows_len :: "str \<Rightarrow> int option" where
  "rows_len rows = parseInt10 (Some (if rows = lit ''all'' then lit ''-1'' else rows))"

definition showDays :: "(nat \<Rightarrow> int) \<Rightarrow> str \<Rightarrow> bool \<Rightarrow> queue \<Rightarrow> queue option" where
  "showDays since days replace q =
     (if days \<in> set days_menu
      then Some (replaceWindowState replace
        (q\<lparr>qu_days := Some days, qu_after := days_after since days\<rparr>))
      else None)"

definition showRows :: "str \<Rightarrow> bool \<Rightarrow> queue \<Rightarrow> queue option" where
  "showRows rows replace q =
     (if rows \<in> set tableRowsPerPage
      then Some ((replaceWindowState replace (q\<lparr>qu_rows := Some rows\<rparr>))\<lparr>qu_len := rows_len rows\<rparr>)
      else None)"

definition param_all :: "str \<Rightarrow> (str \<times> str) list \<Rightarrow> str list" where
  "param_all k params = map snd (filter (\<lambda>p. fst p = k) params)"

definition param_get :: "str \<Rightarrow> (str \<times> str) list \<Rightarrow> str option" where
  "param_get k params = map_of params k"

definition valid_types :: "int list \<Rightarrow> str list \<Rightarrow> int list" where
  "valid_types visible texts =
     List.map_filter (\<lambda>t. case parseInt10 (Some t) of
         Some n \<Rightarrow> if n \<noteq> 0 \<and> n \<in> set visible then Some n else None | None \<Rightarrow> None) texts"

definition has_placeholder :: "int list \<Rightarrow> str \<Rightarrow> str list \<Rightarrow> bool" where
  "has_placeholder visible mark texts \<longleftrightarrow> (\<exists>t \<in> set texts. valid_types visible [t] = [] \<and> t = mark)"

definition types_from_fragment :: "(str \<times> str) list \<Rightarrow> queue \<Rightarrow> queue" where
  "types_from_fragment params q =
     (let texts = param_all (lit ''type'') params; visible = type_ids (visibleIncidentTypes (qu_types q))
      in if texts = [] then q
         else setCheckedTypes (valid_types visible texts) (has_placeholder visible blankPlaceholder texts)
           (has_placeholder visible otherPlaceholder texts) q)"

definition initTableButtons ::
  "(nat \<Rightarrow> int) \<Rightarrow> (str \<times> str) list \<Rightarrow> str option \<Rightarrow> str option \<Rightarrow> queue \<Rightarrow> queue option" where
  "initTableButtons since params preferredState preferredRows q =
     (let q1 = showCheckedTypes False (types_from_fragment params q);
          asked = param_get (lit ''state'') params;
          state = (if is_valid incidentTableStates asked then nullish asked [] else or_str preferredState defaultState)
      in Option.bind (showState state False q1) (\<lambda>q2.
         Option.bind (showDays since (nullish (param_get (lit ''days'') params) defaultDaysBack) False q2) (\<lambda>q3.
         Option.bind (coalesceRowsPerPage [param_get (lit ''rows'') params, preferredRows, Some defaultRows]) (\<lambda>rows.
         showRows rows False q3))))"

definition initSearchField :: "(str \<times> str) list \<Rightarrow> queue \<Rightarrow> queue" where
  "initSearchField params q =
     (case nonempty (param_get (lit ''q'') params) of
        None \<Rightarrow> q
      | Some s \<Rightarrow> replaceWindowState True (q\<lparr>qu_search := s\<rparr>))"

definition load_queue ::
  "(nat \<Rightarrow> int) \<Rightarrow> itype list \<Rightarrow> (str \<times> str) list \<Rightarrow> str option \<Rightarrow> str option \<Rightarrow> queue option" where
  "load_queue since types params preferredState preferredRows =
     map_option (initSearchField params) (initTableButtons since params preferredState preferredRows (fresh_queue types))"

text \<open>The search text and whether it is a regular expression.\<close>

definition table_search :: "str \<Rightarrow> str \<times> bool" where
  "table_search s =
     (if starts_with s [47] \<and> ends_with s [47] then (take (length s - 1 - 1) (drop 1 s), True) else (s, False))"

definition jump_to :: "path_ids \<Rightarrow> str \<Rightarrow> str option" where
  "jump_to ids val = (if all_digits val then Some (urlReplace ids url_viewIncidents @ [47] @ val) else None)"

section \<open>The rows that are shown\<close>

record qrow =
  qr_number :: "int option"
  qr_state :: "str option option"
  qr_types :: "int list option"
  qr_modified :: "int option"
  qr_summary :: "str option"
  qr_entries :: "tentry list"
  qr_private :: "bool option"

text \<open>A last change that does not parse is no date, and compares as false.\<close>

definition shown_by_date :: "queue \<Rightarrow> qrow \<Rightarrow> bool" where
  "shown_by_date q r \<longleftrightarrow>
     \<not> (case (qu_after q, qr_modified r) of (Some after, Some t) \<Rightarrow> t < after | _ \<Rightarrow> False)"

definition shown_by_state :: "queue \<Rightarrow> qrow \<Rightarrow> bool" where
  "shown_by_state q r \<longleftrightarrow>
     (case qu_state q of
        None \<Rightarrow> True
      | Some s \<Rightarrow>
          if s = lit ''open'' then stateForIncident (qr_state r) \<noteq> lit ''closed''
          else if s = lit ''closed'' then stateForIncident (qr_state r) = lit ''closed''
          else True)"

definition shown_by_type :: "queue \<Rightarrow> qrow \<Rightarrow> bool" where
  "shown_by_type q r \<longleftrightarrow>
     (let types = nullish (qr_types r) []; visible = type_ids (visibleIncidentTypes (qu_types q))
      in allTypesChecked q \<or>
         list_ex (\<lambda>t. show_int t \<in> set (qu_showTypes q)) types \<or>
         qu_blank q \<and> types = [] \<or>
         qu_other q \<and> list_ex (\<lambda>t. t \<notin> set visible) types)"

definition shown_row :: "queue \<Rightarrow> qrow \<Rightarrow> bool" where
  "shown_row q r \<longleftrightarrow> shown_by_date q r \<and> shown_by_state q r \<and> shown_by_type q r"

text \<open>What a broadcast of a change does to the rows: the record is put in the place of its number, or added.\<close>

definition put_row :: "int \<Rightarrow> qrow \<Rightarrow> qrow list \<Rightarrow> qrow list" where
  "put_row number json rows =
     (if list_ex (\<lambda>r. qr_number r = Some number) rows
      then map (\<lambda>r. if qr_number r = Some number then json else r) rows
      else rows @ [json])"

datatype row_news = ReloadAll | RowChanged int "int option"

datatype row_effect = AskAll | AskOne int | NoEffect

definition incident_news :: "path_ids \<Rightarrow> row_news \<Rightarrow> row_effect" where
  "incident_news ids news =
     (case news of
        ReloadAll \<Rightarrow> AskAll
      | RowChanged number event \<Rightarrow> if event \<noteq> path_eventId ids then NoEffect else AskOne number)"

definition row_answered :: "int \<Rightarrow> qrow option \<Rightarrow> qrow list \<Rightarrow> qrow list" where
  "row_answered number answer rows = (case answer of None \<Rightarrow> rows | Some json \<Rightarrow> put_row number json rows)"

section \<open>Cells\<close>

datatype render_type = ForDisplay | ForFilter | ForSort | ForType | ForNothing | ForOther

datatype cell = Undefined | NullCell | NumberCell int | TextCell str | LinkCell str str | SpanCell "str list"

definition sorted_texts :: "host \<Rightarrow> str list \<Rightarrow> str list" where
  "sorted_texts h = js_sort (locale_compare h)"

text \<open>The pieces of the span: each text but the last with a comma and a place to break after it.\<close>

fun span_pieces :: "str list \<Rightarrow> str list" where
  "span_pieces [] = []"
| "span_pieces [s] = [s]"
| "span_pieces (s # ss) = (s @ lit '', '') # span_pieces ss"

definition renderSortedSpan :: "host \<Rightarrow> str list \<Rightarrow> cell" where
  "renderSortedSpan h strings = SpanCell (span_pieces (sorted_texts h strings))"

definition url_viewIncidentNumber :: str where
  "url_viewIncidentNumber = lit ''/ims/app/events/<event_id>/incidents/<number>''"

definition renderIncidentNumber :: "path_ids \<Rightarrow> int option \<Rightarrow> render_type \<Rightarrow> cell" where
  "renderIncidentNumber ids number kind =
     (case kind of
        ForDisplay \<Rightarrow>
          (case number of
             None \<Rightarrow> NullCell
           | Some n \<Rightarrow> LinkCell (js_replace (urlReplace ids url_viewIncidentNumber) (lit ''<number>'') (show_int n)) (show_int n))
      | ForOther \<Rightarrow> Undefined
      | _ \<Rightarrow> (case number of None \<Rightarrow> NullCell | Some n \<Rightarrow> NumberCell n))"

definition renderPriority :: "int option \<Rightarrow> render_type \<Rightarrow> cell" where
  "renderPriority priority kind =
     (let p = nullish priority 3
      in case kind of ForSort \<Rightarrow> NumberCell p | ForOther \<Rightarrow> Undefined | _ \<Rightarrow> TextCell (priorityName p))"

definition renderState :: "str option option \<Rightarrow> render_type \<Rightarrow> cell" where
  "renderState state kind =
     (let s = (case state of Some (Some v) \<Rightarrow> v | _ \<Rightarrow> stateForIncident state)
      in case kind of
           ForSort \<Rightarrow> (case stateSortKeyFromID s of Some n \<Rightarrow> NumberCell n | None \<Rightarrow> Undefined)
         | ForOther \<Rightarrow> Undefined
         | _ \<Rightarrow> TextCell (stateNameFromID s))"

definition max_summary :: nat where "max_summary = 250"

definition short_summary :: "str \<Rightarrow> str" where
  "short_summary s = (if length s > max_summary then take (max_summary - 3) s @ lit ''...'' else s)"

text \<open>\<open>safe_text\<close> is the table's own escaping of text; \<open>lock\<close> the fixed badge of a private incident.\<close>

definition renderSummary ::
  "(str \<Rightarrow> str) \<Rightarrow> str \<Rightarrow> str \<Rightarrow> qrow \<Rightarrow> render_type \<Rightarrow> cell option" where
  "renderSummary safe_text lock search_text r kind =
     (case kind of
        ForDisplay \<Rightarrow> map_option
          (\<lambda>s. TextCell ((if flag (qr_private r) then lock else []) @ safe_text (short_summary s)))
          (summarizeIncidentOrReport (qr_summary r) (qr_entries r))
      | ForFilter \<Rightarrow> Some (TextCell search_text)
      | ForOther \<Rightarrow> Some Undefined
      | _ \<Rightarrow> map_option (\<lambda>s. TextCell (safe_text s)) (summarizeIncidentOrReport (qr_summary r) (qr_entries r)))"

definition type_names :: "itype list \<Rightarrow> int list \<Rightarrow> str list" where
  "type_names types ids =
     List.map_filter (\<lambda>it. if nullish (it_id it) (-1) \<in> set ids then nonempty (it_name it) else None) types"

definition texts_cell :: "host \<Rightarrow> str list \<Rightarrow> render_type \<Rightarrow> cell" where
  "texts_cell h texts kind =
     (case kind of
        ForDisplay \<Rightarrow> renderSortedSpan h texts
      | ForOther \<Rightarrow> Undefined
      | _ \<Rightarrow> TextCell (join (lit '', '') (sorted_texts h texts)))"

definition renderIncidentTypes :: "host \<Rightarrow> itype list \<Rightarrow> int list option \<Rightarrow> render_type \<Rightarrow> cell" where
  "renderIncidentTypes h types ids kind =
     (case ids of None \<Rightarrow> Undefined | Some ns \<Rightarrow> texts_cell h (type_names types ns) kind)"

definition renderPersonHandles :: "host \<Rightarrow> (str option \<times> str option) list option \<Rightarrow> render_type \<Rightarrow> cell" where
  "renderPersonHandles h people kind =
     (case people of
        None \<Rightarrow> Undefined
      | Some ps \<Rightarrow> texts_cell h (filter (\<lambda>s. s \<noteq> []) (map (\<lambda>(name, handle). personDisplayLabel name handle) ps)) kind)"

definition renderCreatedBy :: "(str option \<times> str option) option \<Rightarrow> render_type \<Rightarrow> cell" where
  "renderCreatedBy person kind =
     (case kind of
        ForOther \<Rightarrow> Undefined
      | _ \<Rightarrow> TextCell (case person of None \<Rightarrow> [] | Some (name, handle) \<Rightarrow> personDisplayLabel name handle))"

record tlocation =
  tl_area :: "str option"
  tl_booth :: "str option"
  tl_description :: "str option"

definition location_parts :: "(str \<Rightarrow> str) \<Rightarrow> (str \<Rightarrow> str) \<Rightarrow> tlocation \<Rightarrow> str list" where
  "location_parts upper safe_text l =
     filter (\<lambda>s. s \<noteq> [])
       [case nonempty (tl_area l) of Some a \<Rightarrow> humanizeAreaSlug upper a | None \<Rightarrow> [],
        case nonempty (tl_booth l) of Some b \<Rightarrow> lit ''Booth '' @ b | None \<Rightarrow> [],
        case nonempty (tl_description l) of Some d \<Rightarrow> lit ''('' @ safe_text d @ lit '')'' | None \<Rightarrow> []]"

definition safeShortDescribeLocation :: "(str \<Rightarrow> str) \<Rightarrow> (str \<Rightarrow> str) \<Rightarrow> tlocation \<Rightarrow> str" where
  "safeShortDescribeLocation upper safe_text l = join [32] (location_parts upper safe_text l)"

text \<open>The children of the span: a text is preceded by a place to break and a space, unless it is the first.\<close>

definition shortDescribeLocation :: "(str \<Rightarrow> str) \<Rightarrow> tlocation \<Rightarrow> str list" where
  "shortDescribeLocation upper l =
     foldl (\<lambda>parts p. if parts = [] then [p] else parts @ [[32], p]) []
       ((case nonempty (tl_area l) of Some a \<Rightarrow> [humanizeAreaSlug upper a] | None \<Rightarrow> []) @
        (case nonempty (tl_booth l) of Some b \<Rightarrow> [lit ''Booth '' @ b] | None \<Rightarrow> []) @
        (case nonempty (tl_description l) of Some d \<Rightarrow> [lit ''('' @ d @ lit '')''] | None \<Rightarrow> []))"

definition renderLocation :: "(str \<Rightarrow> str) \<Rightarrow> (str \<Rightarrow> str) \<Rightarrow> tlocation option \<Rightarrow> render_type \<Rightarrow> cell" where
  "renderLocation upper safe_text data kind =
     (case data of
        None \<Rightarrow> Undefined
      | Some l \<Rightarrow>
          (case kind of
             ForDisplay \<Rightarrow> SpanCell (shortDescribeLocation upper l)
           | ForOther \<Rightarrow> Undefined
           | _ \<Rightarrow> TextCell (safeShortDescribeLocation upper safe_text l)))"

section \<open>Access, clicks and keys\<close>

datatype queue_access = ShowQueue | GoToReports str | NoQueueAccess

definition queue_access :: "path_ids \<Rightarrow> bool \<Rightarrow> bool \<Rightarrow> bool \<Rightarrow> queue_access" where
  "queue_access ids readIncidents readViaGrant writeReports =
     (if \<not> readIncidents \<and> \<not> readViaGrant
      then (if writeReports then GoToReports (urlReplace ids url_viewReports) else NoQueueAccess)
      else ShowQueue)"

datatype row_click = LeftClick | MiddleClick | OtherClick

datatype row_open = SameTab str | NewTab str

definition openLink :: "path_ids \<Rightarrow> bool \<Rightarrow> row_click \<Rightarrow> bool \<Rightarrow> int \<Rightarrow> row_open option" where
  "openLink ids on_anchor click modifier number =
     (let url = urlReplace ids url_viewIncidents @ [47] @ show_int number
      in if on_anchor then None
         else if click = LeftClick \<and> \<not> modifier then Some (SameTab url)
         else if click = MiddleClick \<or> click = LeftClick \<and> modifier then Some (NewTab url)
         else None)"

datatype queue_key = HelpKey | SearchKey | NewKey | MultisearchKey

definition queue_keydown :: "bool \<Rightarrow> bool \<Rightarrow> nat \<Rightarrow> queue_key option" where
  "queue_keydown field_active modifier c =
     (if field_active \<or> modifier then None
      else if c = 63 then Some HelpKey
      else if c = 47 then Some SearchKey
      else if c = 110 \<or> c = 78 then Some NewKey
      else if c = 109 \<or> c = 77 then Some MultisearchKey
      else None)"

definition multisearch_events :: "host \<Rightarrow> EventData list \<Rightarrow> EventData list" where
  "multisearch_events h events = js_sort (\<lambda>a b. locale_compare h (ed_name b) (ed_name a)) events"

definition multisearch_link :: "((str \<times> str) list \<Rightarrow> str) \<Rightarrow> (str \<times> str) list \<Rightarrow> EventData \<Rightarrow> str" where
  "multisearch_link to_query params event = js_replace url_viewIncidents EVENT_ID (ed_name event) @ [35] @ to_query params"

section \<open>The filters and the fragment\<close>

datatype queue_action =
    ToggleItem nat
  | ToggleAll
  | PickState str
  | PickDays str
  | PickRows str
  | SearchAndDraw str

fun queue_step :: "(nat \<Rightarrow> int) \<Rightarrow> queue_action \<Rightarrow> queue \<Rightarrow> queue option" where
  "queue_step since (ToggleItem i) q = Some (toggle_item i q)"
| "queue_step since ToggleAll q = Some (toggleCheckAllTypes q)"
| "queue_step since (PickState s) q = showState s True q"
| "queue_step since (PickDays d) q = showDays since d True q"
| "queue_step since (PickRows r) q = showRows r True q"
| "queue_step since (SearchAndDraw s) q = Some (replaceWindowState True (q\<lparr>qu_search := s\<rparr>))"

fun queue_run :: "(nat \<Rightarrow> int) \<Rightarrow> queue_action list \<Rightarrow> queue \<Rightarrow> queue option" where
  "queue_run since [] q = Some q"
| "queue_run since (a # acts) q = Option.bind (queue_step since a q) (queue_run since acts)"

text \<open>The types as the server has them: each visible one with a number of its own, from 1 on.\<close>

definition types_ok :: "itype list \<Rightarrow> bool" where
  "types_ok types \<longleftrightarrow>
     list_all (\<lambda>it. case it_id it of Some n \<Rightarrow> 0 < n | None \<Rightarrow> False) (visibleIncidentTypes types) \<and>
     distinct (map it_id (visibleIncidentTypes types))"

definition type_texts :: "itype list \<Rightarrow> str list" where
  "type_texts types = map type_text (visibleIncidentTypes types)"

definition checked_menu :: "itype list \<Rightarrow> (menu_item \<Rightarrow> bool) \<Rightarrow> (menu_item \<times> bool) list" where
  "checked_menu types c = map (\<lambda>i. (i, c i)) (menu_items types)"

definition menu_read :: "itype list \<Rightarrow> (menu_item \<Rightarrow> bool) \<Rightarrow> queue \<Rightarrow> bool" where
  "menu_read types c q \<longleftrightarrow>
     \<not> c SelectAll \<and> qu_menu q = checked_menu types c \<and>
     qu_showTypes q = filter (\<lambda>s. c (TypeItem s)) (type_texts types) \<and> qu_blank q = c BlankItem \<and> qu_other q = c OtherItem"

fun days_ok :: "(nat \<Rightarrow> int) \<Rightarrow> str option \<Rightarrow> int option \<Rightarrow> bool" where
  "days_ok since None after = False"
| "days_ok since (Some d) after = (d \<in> set days_menu \<and> after = days_after since d)"

fun rows_ok :: "str option \<Rightarrow> int option \<Rightarrow> bool" where
  "rows_ok None len = False"
| "rows_ok (Some r) len = (r \<in> set tableRowsPerPage \<and> len = rows_len r)"

fun state_ok :: "str option \<Rightarrow> bool" where
  "state_ok None = False"
| "state_ok (Some s) = (s \<in> set incidentTableStates)"

definition queue_ok :: "(nat \<Rightarrow> int) \<Rightarrow> itype list \<Rightarrow> queue \<Rightarrow> bool" where
  "queue_ok since types q \<longleftrightarrow>
     qu_types q = types \<and> (\<exists>c. menu_read types c q) \<and> state_ok (qu_state q) \<and>
     days_ok since (qu_days q) (qu_after q) \<and> rows_ok (qu_rows q) (qu_len q)"

lemma menu_items_texts: "menu_items types = [SelectAll, BlankItem, OtherItem] @ map TypeItem (type_texts types)"
  by (simp add: menu_items_def type_texts_def)

lemma read_type_items:
  "foldl read_item q (map (\<lambda>i. (i, c i)) (map TypeItem ts)) = q\<lparr>qu_showTypes := qu_showTypes q @ filter (\<lambda>s. c (TypeItem s)) ts\<rparr>"
  by (induction ts arbitrary: q) simp_all

lemma readCheckedTypes_menu:
  assumes "qu_menu q = checked_menu types c" and "\<not> c SelectAll"
  shows "readCheckedTypes q = q\<lparr>qu_showTypes := filter (\<lambda>s. c (TypeItem s)) (type_texts types),
    qu_blank := c BlankItem, qu_other := c OtherItem\<rparr>"
  using assms by (simp add: readCheckedTypes_def checked_menu_def menu_items_texts read_type_items del: map_map)

lemma type_texts_distinct:
  assumes "types_ok types"
  shows "distinct (type_texts types)" and "\<forall>s \<in> set (type_texts types). \<exists>n. 0 < n \<and> s = show_int n \<and> n \<in> set (type_ids (visibleIncidentTypes types))"
proof -
  have ids: "\<exists>n. it_id it = Some n \<and> 0 < n" if "it \<in> set (visibleIncidentTypes types)" for it
    using assms that by (auto simp: types_ok_def list_all_iff split: option.splits)
  have "inj_on type_text (set (visibleIncidentTypes types)) = inj_on it_id (set (visibleIncidentTypes types))"
    using ids unfolding inj_on_def type_text_def by (smt (verit) option.case(2) option.inject parse_int_show_int)
  then show "distinct (type_texts types)"
    using assms by (simp add: types_ok_def type_texts_def distinct_map)
  have "\<exists>n. 0 < n \<and> type_text it = show_int n \<and> n \<in> set (type_ids (visibleIncidentTypes types))"
    if it: "it \<in> set (visibleIncidentTypes types)" for it
  proof -
    from ids [OF it] obtain n where n: "it_id it = Some n" "0 < n" by blast
    with it have "n \<in> set (type_ids (visibleIncidentTypes types))"
      by (force simp: type_ids_def map_filter_def)
    with n show ?thesis by (auto simp: type_text_def)
  qed
  then show "\<forall>s \<in> set (type_texts types). \<exists>n. 0 < n \<and> s = show_int n \<and> n \<in> set (type_ids (visibleIncidentTypes types))"
    by (simp add: type_texts_def)
qed

lemma menu_items_distinct: "types_ok types \<Longrightarrow> distinct (menu_items types)"
  using type_texts_distinct(1) [of types] by (auto simp: menu_items_texts distinct_map inj_on_def)

lemma checked_menu_eq: "checked_menu types c = checked_menu types d \<longleftrightarrow> (\<forall>i \<in> set (menu_items types). c i = d i)"
  by (auto simp: checked_menu_def)

lemma setCheckedTypes_menu:
  "qu_menu q = checked_menu types c \<Longrightarrow> qu_menu (setCheckedTypes ns b o' q) = checked_menu types (item_checked ns b o')"
  by (simp add: setCheckedTypes_def checked_menu_def)

lemma shown_menu:
  assumes "qu_menu q = checked_menu types c" and "\<not> c SelectAll"
  shows "menu_read types c (showCheckedTypes rep q)"
  using assms readCheckedTypes_menu [OF assms]
  by (simp add: showCheckedTypes_def replaceWindowState_def menu_read_def)

lemma all_checked_menu:
  assumes "menu_read types c q" and "qu_types q = types"
  shows "allTypesChecked q \<longleftrightarrow> (\<forall>i \<in> set (menu_items types). c i = (i \<noteq> SelectAll))"
proof -
  have "length (filter (\<lambda>s. c (TypeItem s)) (type_texts types)) = length (visibleIncidentTypes types) \<longleftrightarrow>
      filter (\<lambda>s. c (TypeItem s)) (type_texts types) = type_texts types"
    by (metis filter_id_conv length_filter_less length_map less_irrefl type_texts_def)
  also have "\<dots> \<longleftrightarrow> (\<forall>s \<in> set (type_texts types). c (TypeItem s))"
    by (simp add: filter_id_conv)
  finally show ?thesis
    using assms by (auto simp: allTypesChecked_def menu_read_def menu_items_texts)
qed

lemma valid_types_append: "valid_types v (xs @ ys) = valid_types v xs @ valid_types v ys"
  by (simp add: valid_types_def map_filter_def)

lemma placeholder_plain: "parseInt10 (Some blankPlaceholder) = None" "parseInt10 (Some otherPlaceholder) = None"
  by (simp_all add: blankPlaceholder_def otherPlaceholder_def parseInt10_def parse_int_def parse_digits_def is_digit_def)

lemma valid_types_numbers:
  "\<forall>s \<in> set ss. \<exists>n. 0 < n \<and> s = show_int n \<and> n \<in> set v \<Longrightarrow> valid_types v ss = map (\<lambda>s. the (parse_int s)) ss"
  by (induction ss) (auto simp: valid_types_def map_filter_def parseInt10_def)

lemma placeholders_read:
  assumes "\<forall>s \<in> set ss. \<exists>n. 0 < n \<and> s = show_int n \<and> n \<in> set v" and "parseInt10 (Some mark) = None"
    and "set ps \<subseteq> {blankPlaceholder, otherPlaceholder}"
  shows "has_placeholder v mark (ss @ ps) \<longleftrightarrow> mark \<in> set ps"
proof -
  have "valid_types v [mark] = []" using assms(2) by (simp add: valid_types_def map_filter_def)
  moreover have "mark \<notin> set ss" using assms(1,2) by (auto simp: parseInt10_def)
  ultimately show ?thesis by (auto simp: has_placeholder_def)
qed

text \<open>What the type parameters of a fragment check is what was checked.\<close>

lemma fragment_menu:
  assumes "types_ok types" and "qu_types q = types" and "menu_read types c q"
    and "\<exists>i \<in> set (menu_items types). c i"
    and "param_all (lit ''type'') params = (if allTypesChecked q then [] else
      qu_showTypes q @ (if qu_blank q then [blankPlaceholder] else []) @ (if qu_other q then [otherPlaceholder] else []))"
  shows "qu_menu (types_from_fragment params (fresh_queue types)) = checked_menu types c"
proof (cases "allTypesChecked q")
  case True
  then have "param_all (lit ''type'') params = []" using assms(5) by simp
  moreover have "checked_menu types c = checked_menu types (\<lambda>i. i \<noteq> SelectAll)"
    unfolding checked_menu_eq using all_checked_menu [OF assms(3,2)] True by simp
  ultimately show ?thesis by (simp add: types_from_fragment_def fresh_queue_def checked_menu_def del: lit_simps)
next
  case False
  let ?v = "type_ids (visibleIncidentTypes types)"
  let ?ps = "(if qu_blank q then [blankPlaceholder] else []) @ (if qu_other q then [otherPlaceholder] else [])"
  let ?ts = "qu_showTypes q @ ?ps"
  have texts: "param_all (lit ''type'') params = ?ts" using assms(5) False by simp
  have shown: "qu_showTypes q = filter (\<lambda>s. c (TypeItem s)) (type_texts types)" and sel: "\<not> c SelectAll"
    and blank: "qu_blank q = c BlankItem" and other: "qu_other q = c OtherItem"
    using assms(3) by (simp_all add: menu_read_def)
  have nums: "\<forall>s \<in> set (qu_showTypes q). \<exists>n. 0 < n \<and> s = show_int n \<and> n \<in> set ?v"
    using type_texts_distinct(2) [OF assms(1)] by (auto simp: shown)
  have ne: "?ts \<noteq> []"
    using assms(4) sel blank other by (auto simp: menu_items_texts shown filter_empty_conv)
  have "blankPlaceholder \<noteq> otherPlaceholder" by (simp add: blankPlaceholder_def otherPlaceholder_def)
  then have mem: "blankPlaceholder \<in> set ?ps \<longleftrightarrow> c BlankItem" "otherPlaceholder \<in> set ?ps \<longleftrightarrow> c OtherItem"
    by (auto simp: blank other)
  have "set ?ps \<subseteq> {blankPlaceholder, otherPlaceholder}" by auto
  note read = placeholders_read [OF nums placeholder_plain(1) this] placeholders_read [OF nums placeholder_plain(2) this]
  have marks: "has_placeholder ?v blankPlaceholder ?ts = c BlankItem" "has_placeholder ?v otherPlaceholder ?ts = c OtherItem"
    unfolding read mem by simp_all
  have "valid_types ?v ?ps = []"
    by (simp add: valid_types_def map_filter_def placeholder_plain)
  then have valid: "valid_types ?v ?ts = map (\<lambda>s. the (parse_int s)) (qu_showTypes q)"
    using valid_types_numbers [OF nums] by (simp only: valid_types_append append_Nil2)
  have "item_checked (valid_types ?v ?ts) (c BlankItem) (c OtherItem) i = c i" if "i \<in> set (menu_items types)" for i
  proof (cases i)
    case (TypeItem s)
    with that have s: "s \<in> set (type_texts types)" by (auto simp: menu_items_texts)
    then obtain n where n: "s = show_int n" using type_texts_distinct(2) [OF assms(1)] by blast
    have "n \<in> set (valid_types ?v ?ts) \<longleftrightarrow> s \<in> set (qu_showTypes q)"
      using nums unfolding valid by (auto simp: n image_iff) (metis option.sel parse_int_show_int)
    then show ?thesis using s by (simp add: TypeItem n parseInt10_def shown)
  qed (simp_all add: sel)
  then have "checked_menu types (item_checked (valid_types ?v ?ts) (c BlankItem) (c OtherItem)) = checked_menu types c"
    by (simp add: checked_menu_eq)
  moreover have fresh: "qu_menu (fresh_queue types) = checked_menu types (\<lambda>i. i \<noteq> SelectAll)" and kinds: "qu_types (fresh_queue types) = types"
    by (simp_all add: fresh_queue_def checked_menu_def)
  moreover have "types_from_fragment params (fresh_queue types) =
      setCheckedTypes (valid_types ?v ?ts) (c BlankItem) (c OtherItem) (fresh_queue types)"
    using ne by (simp only: types_from_fragment_def Let_def texts marks kinds if_False)
  ultimately show ?thesis by (simp only: setCheckedTypes_menu [OF fresh])
qed

lemma fragment_only_menu: "types_from_fragment params q = q\<lparr>qu_menu := qu_menu (types_from_fragment params q)\<rparr>"
  by (simp add: types_from_fragment_def setCheckedTypes_def Let_def)

lemma rep_frame [simp]:
  "qu_types (replaceWindowState rep q) = qu_types q" "qu_state (replaceWindowState rep q) = qu_state q"
  "qu_days (replaceWindowState rep q) = qu_days q" "qu_after (replaceWindowState rep q) = qu_after q"
  "qu_rows (replaceWindowState rep q) = qu_rows q" "qu_len (replaceWindowState rep q) = qu_len q"
  "menu_read types c (replaceWindowState rep q) = menu_read types c q"
  by (simp_all add: replaceWindowState_def menu_read_def)

lemma queue_ok_rep [simp]: "queue_ok since types (replaceWindowState rep q) = queue_ok since types q"
  by (simp add: queue_ok_def)

text \<open>A menu with the entries of the types, however checked, is read into a state of the same filters.\<close>

lemma shown_ok:
  assumes "queue_ok since types q" and "qu_menu q' = checked_menu types c" and "\<not> c SelectAll"
    and "q' = q\<lparr>qu_menu := qu_menu q'\<rparr>"
  shows "queue_ok since types (showCheckedTypes rep q')"
proof -
  have rest: "qu_types q' = qu_types q" "qu_state q' = qu_state q" "qu_days q' = qu_days q" "qu_after q' = qu_after q"
    "qu_rows q' = qu_rows q" "qu_len q' = qu_len q"
    by (subst assms(4), simp)+
  show ?thesis
    using assms(1) shown_menu [OF assms(2,3), of rep]
    unfolding queue_ok_def showCheckedTypes_def by (auto simp: readCheckedTypes_menu [OF assms(2,3)] rest)
qed

lemma queue_ok_picks [intro]:
  "queue_ok since types q \<Longrightarrow> s \<in> set incidentTableStates \<Longrightarrow> queue_ok since types (q\<lparr>qu_state := Some s\<rparr>)"
  "queue_ok since types q \<Longrightarrow> d \<in> set days_menu \<Longrightarrow>
     queue_ok since types (q\<lparr>qu_days := Some d, qu_after := days_after since d\<rparr>)"
  "queue_ok since types q \<Longrightarrow> r \<in> set tableRowsPerPage \<Longrightarrow>
     queue_ok since types ((replaceWindowState rep (q\<lparr>qu_rows := Some r\<rparr>))\<lparr>qu_len := rows_len r\<rparr>)"
  "queue_ok since types q \<Longrightarrow> queue_ok since types (q\<lparr>qu_search := t\<rparr>)"
  by (simp_all add: queue_ok_def menu_read_def replaceWindowState_def)

lemma step_ok:
  assumes "types_ok types" and "queue_ok since types q" and "queue_step since a q = Some q'"
  shows "queue_ok since types q'"
proof -
  obtain c where c: "\<not> c SelectAll" "qu_menu q = checked_menu types c"
    using assms(2) by (auto simp: queue_ok_def menu_read_def)
  have len: "length (checked_menu types c) = length (menu_items types)" by (simp add: checked_menu_def)
  show ?thesis
  proof (cases a)
    case (ToggleItem i)
    show ?thesis
    proof (cases "i < length (qu_menu q) \<and> fst (qu_menu q ! i) \<noteq> SelectAll")
      case True
      let ?i = "menu_items types ! i"
      let ?d = "c(?i := \<not> c ?i)"
      have "i < length (menu_items types)" using True by (simp add: c len)
      moreover from this have "qu_menu q ! i = (?i, c ?i)" by (simp add: c checked_menu_def)
      ultimately have i: "i < length (menu_items types)" "?i \<noteq> SelectAll" "qu_menu q ! i = (?i, c ?i)"
        using True by simp_all
      have "(checked_menu types c)[i := (?i, \<not> c ?i)] = checked_menu types ?d"
      proof (rule nth_equalityI)
        fix j assume "j < length ((checked_menu types c)[i := (?i, \<not> c ?i)])"
        then have j: "j < length (menu_items types)" by (simp add: len)
        then have "menu_items types ! j = ?i \<longleftrightarrow> j = i"
          using i(1) menu_items_distinct [OF assms(1)] by (simp add: nth_eq_iff_index_eq)
        then show "(checked_menu types c)[i := (?i, \<not> c ?i)] ! j = checked_menu types ?d ! j"
          using j i(1) by (cases "j = i") (simp_all add: checked_menu_def)
      qed (simp add: checked_menu_def)
      then have "queue_ok since types (showCheckedTypes True (q\<lparr>qu_menu := checked_menu types ?d\<rparr>))"
        using c(1) i(2) by (intro shown_ok [OF assms(2), where c = ?d]) simp_all
      moreover have "q' = showCheckedTypes True (q\<lparr>qu_menu := checked_menu types ?d\<rparr>)"
        using assms(3) True ToggleItem i(3) \<open>_ = checked_menu types ?d\<close> c(2) by (simp add: toggle_item_def)
      ultimately show ?thesis by simp
    qed (use assms(2,3) ToggleItem in \<open>auto simp: toggle_item_def split: if_splits\<close>)
  next
    case ToggleAll
    have "queue_ok since types (showCheckedTypes True (setCheckedTypes ns b o' q))" for ns b o'
      by (rule shown_ok [OF assms(2) setCheckedTypes_menu [OF c(2)]]) (simp_all add: setCheckedTypes_def)
    then show ?thesis using assms(3) ToggleAll by (auto simp: toggleCheckAllTypes_def)
  next
    case (PickState s)
    with assms(2,3) show ?thesis by (auto simp: showState_def simp del: lit_simps split: if_splits)
  next
    case (PickDays d)
    with assms(2,3) show ?thesis by (auto simp: showDays_def simp del: lit_simps split: if_splits)
  next
    case (PickRows r)
    with assms(2,3) show ?thesis by (auto simp: showRows_def simp del: lit_simps split: if_splits)
  next
    case (SearchAndDraw s)
    with assms(2,3) show ?thesis by auto
  qed
qed

lemma run_ok:
  "types_ok types \<Longrightarrow> queue_ok since types q \<Longrightarrow> queue_run since acts q = Some q' \<Longrightarrow> queue_ok since types q'"
proof (induction acts arbitrary: q)
  case (Cons a acts)
  then obtain q1 where "queue_step since a q = Some q1" "queue_run since acts q1 = Some q'"
    by (cases "queue_step since a q") auto
  with Cons step_ok show ?case by blast
qed simp

text \<open>Reading one value of a fragment that is put together piece by piece.\<close>

lemma param_get_append:
  "param_get k (xs @ ys) = (case param_get k xs of None \<Rightarrow> param_get k ys | Some v \<Rightarrow> Some v)"
  by (simp add: param_get_def map_add_def split: option.split)

lemma param_get_one: "param_get k [(j, v)] = (if k = j then Some v else None)" "param_get k [] = None"
  by (simp_all add: param_get_def)

lemma param_get_chosen:
  "param_get k (case x of Some s \<Rightarrow> if s \<noteq> d then [(j, s)] else [] | None \<Rightarrow> []) =
     (if k = j \<and> x \<noteq> Some d then x else None)"
  by (auto simp: param_get_def split: option.split)

lemma param_get_pairs: "k \<noteq> j \<Longrightarrow> param_get k (map (Pair j) xs) = None"
  by (induction xs) (simp_all add: param_get_def)

lemmas param_gets = param_get_append param_get_one param_get_chosen param_get_pairs if_distrib [where f = "param_get k" for k]

text \<open>What the fragment says of each filter.\<close>

lemma params_read:
  "param_all (lit ''type'') (window_params q) = (if allTypesChecked q then [] else
      qu_showTypes q @ (if qu_blank q then [blankPlaceholder] else []) @ (if qu_other q then [otherPlaceholder] else []))"
  "param_get (lit ''state'') (window_params q) = (if qu_state q = Some defaultState then None else qu_state q)"
  "param_get (lit ''days'') (window_params q) = (if qu_days q = Some defaultDaysBack then None else qu_days q)"
  "param_get (lit ''rows'') (window_params q) = (if qu_rows q = Some defaultRows then None else qu_rows q)"
  "param_get (lit ''q'') (window_params q) = (if qu_search q = [] then None else Some (qu_search q))"
proof -
  have types: "filter (\<lambda>p. fst p = [116, 121, 112, 101]) (map (Pair [116, 121, 112, 101]) xs) = map (Pair [116, 121, 112, 101]) xs"
    for xs :: "str list" by (induction xs) simp_all
  show "param_all (lit ''type'') (window_params q) = (if allTypesChecked q then [] else
      qu_showTypes q @ (if qu_blank q then [blankPlaceholder] else []) @ (if qu_other q then [otherPlaceholder] else []))"
    by (simp add: param_all_def window_params_def types comp_def split: option.splits)
  show "param_get (lit ''state'') (window_params q) = (if qu_state q = Some defaultState then None else qu_state q)"
    by (simp add: window_params_def param_gets split: option.split)
  show "param_get (lit ''days'') (window_params q) = (if qu_days q = Some defaultDaysBack then None else qu_days q)"
    by (simp add: window_params_def param_gets split: option.split)
  show "param_get (lit ''rows'') (window_params q) = (if qu_rows q = Some defaultRows then None else qu_rows q)"
    by (simp add: window_params_def param_gets split: option.split)
  show "param_get (lit ''q'') (window_params q) = (if qu_search q = [] then None else Some (qu_search q))"
    by (simp add: window_params_def param_gets split: option.split)
qed

lemma fragment_keeps_menu:
  "\<exists>c. \<not> c SelectAll \<and> qu_menu (types_from_fragment params (fresh_queue types)) = checked_menu types c"
proof -
  have "qu_menu (fresh_queue types) = checked_menu types (\<lambda>i. i \<noteq> SelectAll)"
    by (simp add: fresh_queue_def checked_menu_def)
  from setCheckedTypes_menu [OF this] this
  have "\<exists>c. \<not> c SelectAll \<and> qu_menu (setCheckedTypes ns b o' (fresh_queue types)) = checked_menu types c"
    and "\<exists>c. \<not> c SelectAll \<and> qu_menu (fresh_queue types) = checked_menu types c" for ns b o'
    by (metis item_checked.simps(1), metis)
  then show ?thesis unfolding types_from_fragment_def Let_def by (auto simp del: lit_simps)
qed

lemma load_steps:
  assumes "load_queue since types params ps pr = Some q"
  obtains s d r q2 q3 q4 where "showState s False (showCheckedTypes False (types_from_fragment params (fresh_queue types))) = Some q2"
    and "showDays since d False q2 = Some q3" and "showRows r False q3 = Some q4" and "q = initSearchField params q4"
  using assms by (auto simp: load_queue_def initTableButtons_def Let_def bind_eq_Some_conv simp del: lit_simps)

lemma load_ok:
  assumes "load_queue since types params ps pr = Some q"
  shows "queue_ok since types q"
proof -
  obtain c where c: "\<not> c SelectAll" "qu_menu (types_from_fragment params (fresh_queue types)) = checked_menu types c"
    using fragment_keeps_menu by blast
  let ?q1 = "showCheckedTypes False (types_from_fragment params (fresh_queue types))"
  have "qu_types (types_from_fragment params (fresh_queue types)) = types"
    by (subst fragment_only_menu) (simp add: fresh_queue_def)
  then have "qu_types ?q1 = types" using readCheckedTypes_menu [OF c(2,1)] by (simp add: showCheckedTypes_def)
  with shown_menu [OF c(2,1)] have q1: "qu_types ?q1 = types \<and> menu_read types c ?q1" by blast
  from load_steps [OF assms] obtain s d r q2 q3 q' where "showState s False ?q1 = Some q2" "showDays since d False q2 = Some q3"
      "showRows r False q3 = Some q'" and q: "q = initSearchField params q'"
    by metis
  then have "queue_ok since types q'"
    using q1 by (auto simp: showState_def showDays_def showRows_def bind_eq_Some_conv replaceWindowState_def queue_ok_def menu_read_def
        simp del: lit_simps split: if_splits)
  then show ?thesis unfolding q initSearchField_def by (auto split: option.splits)
qed


definition two_types :: "itype list" where
  "two_types =
     [\<lparr>it_id = Some 1, it_name = Some (lit ''Fire''), it_hidden = None, it_group = None\<rparr>,
      \<lparr>it_id = Some 2, it_name = Some (lit ''Junk''), it_hidden = Some True, it_group = None\<rparr>]"

definition left_queue :: queue where
  "left_queue =
     \<lparr>qu_types = two_types, qu_menu = [(SelectAll, False), (BlankItem, True), (OtherItem, True), (TypeItem (lit ''1''), False)],
      qu_showTypes = [], qu_blank = True, qu_other = True, qu_state = Some (lit ''closed''), qu_days = Some (lit ''2''),
      qu_after = Some 2, qu_rows = Some (lit ''25''), qu_len = Some 25, qu_search = [],
      qu_params = [(lit ''type'', lit ''(blank)''), (lit ''type'', lit ''(other)''), (lit ''state'', lit ''closed''), (lit ''days'', lit ''2'')]\<rparr>"

definition loaded_queue :: queue where
  "loaded_queue = (fresh_queue two_types)\<lparr>qu_showTypes := [lit ''1''], qu_state := Some (lit ''open''), qu_days := Some (lit ''all''),
     qu_rows := Some (lit ''25''), qu_len := Some 25\<rparr>"

lemma two_types_visible: "visibleIncidentTypes two_types = [hd two_types]"
  by (simp add: visibleIncidentTypes_def two_types_def flag_def)

lemma two_types_ok: "types_ok two_types"
  by (simp add: types_ok_def two_types_visible) (simp add: two_types_def)

lemma two_types_items: "menu_items two_types = [SelectAll, BlankItem, OtherItem, TypeItem (lit ''1'')]"
  unfolding menu_items_def two_types_visible by (simp add: two_types_def type_text_def show_int_def show_nat.simps)

lemma two_types_loaded: "load_queue int two_types [] None None = Some loaded_queue"
proof -
  have "rows_len [50, 53] = Some 25"
    by (simp add: rows_len_def parseInt10_def parse_int_def parse_digits_def digits_val_def is_digit_def)
  then show ?thesis
    by (simp add: load_queue_def initTableButtons_def types_from_fragment_def param_all_def param_get_def showCheckedTypes_def
        replaceWindowState_def readCheckedTypes_def fresh_queue_def two_types_items is_valid_def showState_def showDays_def
        showRows_def incidentTableStates_def defaultState_def days_menu_def defaultDaysBack_def days_after_def
        coalesceRowsPerPage_def tableRowsPerPage_def defaultRows_def initSearchField_def loaded_queue_def)
qed

lemma two_types_left:
  "queue_run int [ToggleItem 3, PickState (lit ''closed''), PickDays (lit ''2'')] loaded_queue = Some left_queue"
  by (simp add: toggle_item_def showCheckedTypes_def replaceWindowState_def readCheckedTypes_def fresh_queue_def two_types_items
      showState_def showDays_def incidentTableStates_def days_menu_def days_after_def window_params_def allTypesChecked_def
      two_types_visible left_queue_def blankPlaceholder_def otherPlaceholder_def defaultState_def defaultDaysBack_def defaultRows_def
      digits_val_def loaded_queue_def)


text \<open>
  What the fragment does not say. A filter picked back to its default is not written, so the stored
  preference takes it over on the reload; no type checked at all is not written either, and is all types
  checked on the reload; and a number of days that is not in the menu ends the loading of the page.
\<close>

lemma default_not_kept:
  assumes "qu_state q = Some defaultState" and "preferred \<in> set incidentTableStates" and "d \<in> set days_menu" and "qu_days q = Some d"
    and "qu_rows q = Some r" and "r \<in> set tableRowsPerPage"
  shows "map_option qu_state (load_queue since types (window_params q) (Some preferred) None) = Some (Some preferred)"
proof -
  have "\<not> is_valid incidentTableStates (param_get (lit ''state'') (window_params q))"
    unfolding params_read using assms(1) by (simp add: is_valid_def)
  moreover have "nullish (param_get (lit ''days'') (window_params q)) defaultDaysBack = d"
    unfolding params_read using assms(4) by auto
  moreover have "coalesceRowsPerPage [param_get (lit ''rows'') (window_params q), None, Some defaultRows] = Some r"
    unfolding params_read using assms(5,6)
    by (auto simp: coalesceRowsPerPage_def is_valid_def tableRowsPerPage_def defaultRows_def)
  moreover have "or_str (Some preferred) defaultState = preferred" using assms(2) by (auto simp: incidentTableStates_def)
  ultimately show ?thesis
    using assms(2,3,6)
    by (simp add: load_queue_def initTableButtons_def showState_def showDays_def showRows_def initSearchField_def del: lit_simps
        split: option.splits)
qed

lemma none_checked_not_kept:
  assumes "qu_showTypes q = []" and "\<not> qu_blank q" and "\<not> qu_other q" and "load_queue since types (window_params q) ps pr = Some q'"
  shows "allTypesChecked q'"
proof -
  have none: "param_all (lit ''type'') (window_params q) = []" unfolding params_read using assms(1-3) by simp
  let ?F = "fresh_queue types"
  have menu: "qu_menu ?F = checked_menu types (\<lambda>i. i \<noteq> SelectAll)" by (simp add: fresh_queue_def checked_menu_def)
  have "showCheckedTypes False (types_from_fragment (window_params q) ?F) =
      ?F\<lparr>qu_showTypes := type_texts types, qu_blank := True, qu_other := True\<rparr>"
    using readCheckedTypes_menu [OF menu] unfolding types_from_fragment_def Let_def none
    by (simp add: showCheckedTypes_def replaceWindowState_def)
  then have "allTypesChecked (showCheckedTypes False (types_from_fragment (window_params q) ?F))"
    by (simp add: allTypesChecked_def type_texts_def fresh_queue_def)
  moreover from load_steps [OF assms(4)] obtain s d r q2 q3 q4 where
      "showState s False (showCheckedTypes False (types_from_fragment (window_params q) ?F)) = Some q2"
      "showDays since d False q2 = Some q3" "showRows r False q3 = Some q4" "q' = initSearchField (window_params q) q4"
    by metis
  ultimately show ?thesis
    by (auto simp: showState_def showDays_def showRows_def initSearchField_def replaceWindowState_def allTypesChecked_def
        simp del: lit_simps split: if_splits option.splits)
qed

lemma unknown_days_end_loading:
  assumes "param_get (lit ''days'') params = Some d" and "d \<notin> set days_menu"
  shows "load_queue since types params ps pr = None"
  using assms by (simp add: load_queue_def initTableButtons_def Let_def showDays_def del: lit_simps split: Option.bind_splits)

section \<open>The rows and the menus agree\<close>

text \<open>The row of a number, as the table has it.\<close>

definition row_of :: "qrow list \<Rightarrow> int \<Rightarrow> qrow option" where
  "row_of rows n = List.find (\<lambda>r. qr_number r = Some n) rows"

lemma find_map_same:
  assumes "\<And>x. x \<in> set xs \<Longrightarrow> P (f x) = P x"
  shows "List.find P (map f xs) = map_option f (List.find P xs)"
  using assms by (induction xs) auto

lemma find_append: "List.find P (xs @ ys) = (case List.find P xs of None \<Rightarrow> List.find P ys | Some x \<Rightarrow> Some x)"
  by (induction xs) auto

lemma put_row_rows:
  assumes "qr_number json = Some n"
  shows "row_of (put_row n json rows) = (row_of rows)(n \<mapsto> json)"
    and "distinct (map qr_number rows) \<Longrightarrow> distinct (map qr_number (put_row n json rows))"
    and "map qr_number (put_row n json rows) = map qr_number rows @ (if Some n \<in> set (map qr_number rows) then [] else [Some n])"
proof -
  let ?f = "\<lambda>r. if qr_number r = Some n then json else r"
  have numbers: "map qr_number (map ?f rows) = map qr_number rows" using assms by auto
  have known: "list_ex (\<lambda>r. qr_number r = Some n) rows \<longleftrightarrow> Some n \<in> set (map qr_number rows)"
    by (simp add: list_ex_iff image_iff) metis
  show third: "map qr_number (put_row n json rows) = map qr_number rows @ (if Some n \<in> set (map qr_number rows) then [] else [Some n])"
    unfolding put_row_def known using numbers assms by simp
  show "distinct (map qr_number (put_row n json rows))" if "distinct (map qr_number rows)"
    unfolding third using that by auto
  show "row_of (put_row n json rows) = (row_of rows)(n \<mapsto> json)"
  proof
    fix m
    have same: "List.find (\<lambda>r. qr_number r = Some m) (map ?f rows) = map_option ?f (List.find (\<lambda>r. qr_number r = Some m) rows)"
      using assms by (intro find_map_same) auto
    show "row_of (put_row n json rows) m = ((row_of rows)(n \<mapsto> json)) m"
    proof (cases "list_ex (\<lambda>r. qr_number r = Some n) rows")
      case True
      then have put: "row_of (put_row n json rows) m = map_option ?f (row_of rows m)"
        using same by (simp add: put_row_def row_of_def)
      have number: "qr_number r = Some k" if "row_of rows k = Some r" for r k
        using that by (auto simp: row_of_def find_Some_iff)
      have "row_of rows n \<noteq> None" using True by (auto simp: row_of_def find_None_iff list_ex_iff)
      then obtain r where "row_of rows n = Some r" by blast
      then show ?thesis
        unfolding put using number [of n r] number [of m] by (cases "m = n"; cases "row_of rows m") simp_all
    next
      case False
      then have "List.find (\<lambda>r. qr_number r = Some n) rows = None" by (auto simp: find_None_iff list_ex_iff)
      with False show ?thesis
        using assms by (auto simp: put_row_def row_of_def find_append split: option.splits)
    qed
  qed
qed

text \<open>What a run of broadcasts does, each with the answer to the question it makes: the record, or a failure.\<close>

definition rows_run :: "(int \<times> qrow option) list \<Rightarrow> qrow list \<Rightarrow> qrow list" where
  "rows_run news rows = foldl (\<lambda>rows (n, answer). row_answered n answer rows) rows news"

definition records_run :: "(int \<times> qrow option) list \<Rightarrow> (int \<rightharpoonup> qrow) \<Rightarrow> (int \<rightharpoonup> qrow)" where
  "records_run news records = foldl (\<lambda>m (n, answer). case answer of None \<Rightarrow> m | Some json \<Rightarrow> m(n \<mapsto> json)) records news"

text \<open>
  C20: The table that is kept up by broadcasts, row by row, is the map of the records it was
  told of: after any run of them, answered or failed, the row of a number is the last record the server
  answered for it, no number has two rows, and the rows that were there keep their places.
\<close>

theorem rows_refine_records:
  assumes "\<forall>(n, answer) \<in> set news. \<forall>json. answer = Some json \<longrightarrow> qr_number json = Some n" and "distinct (map qr_number rows)"
  shows "row_of (rows_run news rows) = records_run news (row_of rows) \<and> distinct (map qr_number (rows_run news rows)) \<and>
    take (length rows) (map qr_number (rows_run news rows)) = map qr_number rows"
  using assms
proof (induction news arbitrary: rows)
  case (Cons e news)
  obtain n answer where e: "e = (n, answer)" by (cases e)
  show ?case
  proof (cases answer)
    case None
    then show ?thesis using Cons e by (simp add: rows_run_def records_run_def row_answered_def)
  next
    case (Some json)
    let ?rows = "put_row n json rows"
    have json: "qr_number json = Some n" using Cons.prems(1) e Some by auto
    let ?out = "rows_run news ?rows"
    have rest: "row_of ?out = records_run news (row_of ?rows) \<and> distinct (map qr_number ?out) \<and>
        take (length ?rows) (map qr_number ?out) = map qr_number ?rows"
      by (rule Cons.IH) (use Cons.prems(1) in simp, rule put_row_rows(2) [OF json Cons.prems(2)])
    have "take (length rows) (map qr_number ?out) = take (length rows) (take (length ?rows) (map qr_number ?out))"
      by (simp add: put_row_def)
    also have "\<dots> = take (length rows) (map qr_number ?rows)" using rest by (simp only:)
    also have "\<dots> = map qr_number rows" unfolding put_row_rows(3) [OF json] by simp
    finally have "take (length rows) (map qr_number ?out) = map qr_number rows" .
    moreover have "rows_run (e # news) rows = ?out" "records_run (e # news) (row_of rows) = records_run news (row_of ?rows)"
      by (simp_all add: rows_run_def records_run_def row_answered_def e Some put_row_rows(1) [OF json])
    ultimately show ?thesis using rest by simp
  qed
qed (simp add: rows_run_def records_run_def)

definition sample_qrow :: "int \<Rightarrow> str \<Rightarrow> qrow" where
  "sample_qrow n s = \<lparr>qr_number = Some n, qr_state = None, qr_types = None, qr_modified = None, qr_summary = Some s,
     qr_entries = [], qr_private = None\<rparr>"

lemma rows_refine_records_witness:
  "row_of (rows_run [(2, Some (sample_qrow 2 (lit ''new''))), (1, None), (1, Some (sample_qrow 1 (lit ''later'')))] [sample_qrow 1 (lit ''old'')]) 1 =
     Some (sample_qrow 1 (lit ''later''))"
proof -
  let ?news = "[(2, Some (sample_qrow 2 (lit ''new''))), (1, None), (1, Some (sample_qrow 1 (lit ''later'')))]"
  have "\<forall>(n, answer) \<in> set ?news. \<forall>json. answer = Some json \<longrightarrow> qr_number json = Some n" by (simp add: sample_qrow_def)
  from rows_refine_records [OF this, of "[sample_qrow 1 (lit ''old'')]"] show ?thesis by (simp add: records_run_def)
qed

text \<open>The test of the types without its short cut.\<close>

definition type_tested :: "queue \<Rightarrow> qrow \<Rightarrow> bool" where
  "type_tested q r \<longleftrightarrow>
     (let types = nullish (qr_types r) []; visible = type_ids (visibleIncidentTypes (qu_types q))
      in list_ex (\<lambda>t. show_int t \<in> set (qu_showTypes q)) types \<or> qu_blank q \<and> types = [] \<or>
         qu_other q \<and> list_ex (\<lambda>t. t \<notin> set visible) types)"

lemma visible_text: "n \<in> set (type_ids (visibleIncidentTypes types)) \<Longrightarrow> show_int n \<in> set (type_texts types)"
  by (force simp: type_ids_def type_texts_def type_text_def map_filter_def)

text \<open>
  The short cut of the type filter hides nothing and shows nothing more: in every state
  the menus can be brought to, letting all rows through when every kind of type is checked is what testing
  each row gives; so a row is hidden only when neither one of its types nor its kind is checked.
\<close>

theorem type_filter_shortcut:
  assumes "types_ok types" and "load_queue since types params ps pr = Some q0" and "queue_run since acts q0 = Some q"
  shows "shown_by_type q r = type_tested q r"
proof -
  have "queue_ok since types q" by (rule run_ok [OF assms(1) load_ok [OF assms(2)] assms(3)])
  then obtain c where c: "menu_read types c q" and types: "qu_types q = types" by (auto simp: queue_ok_def)
  have "type_tested q r" if all: "allTypesChecked q"
  proof -
    have shown: "qu_showTypes q = type_texts types" "qu_blank q" "qu_other q"
      using all_checked_menu [OF c types] all c by (auto simp: menu_read_def menu_items_texts)
    show ?thesis
    proof (cases "nullish (qr_types r) []")
      case (Cons t ts)
      then show ?thesis using visible_text [of t types] shown types
        by (cases "t \<in> set (type_ids (visibleIncidentTypes types))") (simp_all add: type_tested_def)
    qed (simp add: type_tested_def shown)
  qed
  then show ?thesis by (auto simp: shown_by_type_def type_tested_def Let_def)
qed

lemma type_filter_shortcut_witness:
  "shown_by_type left_queue (sample_qrow 1 []) = type_tested left_queue (sample_qrow 1 [])"
  by (rule type_filter_shortcut [OF two_types_ok two_types_loaded two_types_left])

text \<open>A summary is cut to the room there is for it, and says so.\<close>

lemma summary_fits:
  "length (short_summary s) \<le> max_summary" "length s \<le> max_summary \<Longrightarrow> short_summary s = s"
  "take (max_summary - 3) (short_summary s) = take (max_summary - 3) s"
  by (simp_all add: short_summary_def max_summary_def)

text \<open>The types and the people of a row read the same whether they are shown or searched.\<close>

lemma cells_read_alike: "concat (span_pieces (sorted_texts h texts)) = join (lit '', '') (sorted_texts h texts)"
proof -
  have "concat (span_pieces ss) = join (lit '', '') ss" for ss by (induction ss rule: span_pieces.induct) simp_all
  then show ?thesis .
qed

end
