(* ===== verification/TemplPeople.thy ===== *)
theory TemplPeople
  imports TemplComposer People
begin

text \<open>
  The people page of the server-rendered client (\<open>src/go/web/typescript/people.ts\<close>) and what
  \<open>ims.ts\<close> gives it: the rungs a viewer may hand out, next to those of the newer client; the roster's
  two sections and what a row offers; the forms that add and edit a person and set a password, each as
  its fields and a submission that either names the first thing wrong or the request; the person picker;
  and the selected event with the writes on it.
\<close>

section \<open>People and rungs\<close>

record person_crew =
  pc_name :: str
  pc_slug :: str
  pc_leader :: bool

text \<open>\<open>Personnel\<close>: an optional field is \<open>None\<close> when it is absent or null, which the code never tells apart.\<close>

record personnel =
  pn_handle :: "str option"
  pn_name :: "str option"
  pn_email :: "str option"
  pn_phone :: "str option"
  pn_id :: "int option"
  pn_hasPassword :: "bool option"
  pn_admin :: "bool option"
  pn_wristband :: "str option"
  pn_participation :: "str option"
  pn_crews :: "person_crew list option"

text \<open>The page's two capability flags.\<close>

record viewer =
  vw_admin :: bool
  vw_invite :: bool

record role_rung =
  rr_value :: str
  rr_label :: str
  rr_hint :: str

definition adminOnlyRungs :: "role_rung list" where
  "adminOnlyRungs = [\<lparr>rr_value = lit ''writer'', rr_label = lit ''FC/BUM'', rr_hint = lit ''full access''\<rparr>]"

definition inviterRungs :: "role_rung list" where
  "inviterRungs =
     [\<lparr>rr_value = lit ''reporter'', rr_label = lit ''Reporter'', rr_hint = lit ''own reports''\<rparr>,
      \<lparr>rr_value = lit ''volunteer'', rr_label = lit ''Volunteer'', rr_hint = lit ''at the fair, no access''\<rparr>,
      \<lparr>rr_value = lit ''public'', rr_label = lit ''Public'', rr_hint = lit ''attendee / on an incident''\<rparr>]"

definition roleRungsForViewer :: "viewer \<Rightarrow> role_rung list" where
  "roleRungsForViewer v = (if vw_admin v then adminOnlyRungs @ inviterRungs else inviterRungs)"

definition noLoginRoleValues :: "str list" where
  "noLoginRoleValues = [lit ''volunteer'', lit ''public'']"

definition hasImsAccess :: "personnel \<Rightarrow> bool" where
  "hasImsAccess person = flag (pn_hasPassword person)"

definition roleRungsForPerson :: "viewer \<Rightarrow> personnel \<Rightarrow> role_rung list" where
  "roleRungsForPerson v person =
     (if hasImsAccess person then roleRungsForViewer v
      else filter (\<lambda>r. rr_value r \<in> set noLoginRoleValues) (roleRungsForViewer v))"

definition targetAboveInviterCeiling :: "str option \<Rightarrow> bool" where
  "targetAboveInviterCeiling type \<longleftrightarrow> type = Some (lit ''writer'') \<or> type = Some (lit ''crew_leader'')"

definition participationLabel :: "str \<Rightarrow> str" where
  "participationLabel type =
     (if type = lit ''writer'' then lit ''FC/BUM''
      else if type = lit ''ejected'' then lit ''booted''
      else js_replace type (lit ''_'') (lit '' ''))"

definition participationBadgeClass :: "str \<Rightarrow> str" where
  "participationBadgeClass type =
     (if type = lit ''writer'' then lit ''text-bg-primary''
      else if type = lit ''crew_leader'' then lit ''text-bg-success''
      else if type = lit ''reporter'' then lit ''text-bg-info''
      else if type = lit ''ejected'' then lit ''text-bg-warning''
      else if type = lit ''not_present'' then lit ''text-bg-secondary''
      else lit ''text-bg-light'')"

section \<open>The roster\<close>

definition roleSortOrder :: "str list" where
  "roleSortOrder = [lit ''writer'', lit ''crew_leader'', lit ''reporter'', lit ''volunteer'', lit ''public'',
     lit ''not_present'', lit ''ejected'']"

definition roleRank :: "personnel \<Rightarrow> int" where
  "roleRank person =
     (if flag (pn_admin person) then -1
      else (case find_index (\<lambda>r. r = nullish (pn_participation person) []) roleSortOrder of
              None \<Rightarrow> int (length roleSortOrder)
            | Some idx \<Rightarrow> int idx))"

definition person_label :: "personnel \<Rightarrow> str" where
  "person_label person = personDisplayLabel (pn_name person) (pn_handle person)"

definition comparePeopleByRole :: "host \<Rightarrow> personnel \<Rightarrow> personnel \<Rightarrow> int" where
  "comparePeopleByRole h a b =
     (let byRole = roleRank a - roleRank b
      in if byRole \<noteq> 0 then byRole else locale_compare h (person_label a) (person_label b))"

text \<open>
  \<open>drawPeople\<close>: the people with access and those without, each section with its header, or hidden.
\<close>

definition people_sections :: "host \<Rightarrow> personnel list option \<Rightarrow> personnel list \<times> personnel list" where
  "people_sections h people =
     (let all = nullish people []
      in (js_sort (comparePeopleByRole h) (filter hasImsAccess all),
          js_sort (comparePeopleByRole h) (filter (\<lambda>p. \<not> hasImsAccess p) all)))"

definition section_header :: "str \<Rightarrow> personnel list \<Rightarrow> str option" where
  "section_header label people =
     (if people = [] then None else Some (label @ lit '' ('' @ show_int (int (length people)) @ lit '')''))"

definition canManageTarget :: "viewer \<Rightarrow> personnel \<Rightarrow> bool" where
  "canManageTarget v person \<longleftrightarrow>
     vw_admin v \<or> vw_invite v \<and> \<not> targetAboveInviterCeiling (pn_participation person)"

text \<open>The kebab of a row, by the item that is not hidden.\<close>

datatype row_item = EditItem | PasswordItem | AdminItem | RemoveItem

definition row_item_shown :: "viewer \<Rightarrow> str \<Rightarrow> personnel \<Rightarrow> row_item \<Rightarrow> bool" where
  "row_item_shown v event person item =
     (let no_login = nonempty (pn_handle person) = None \<and> nonempty (pn_email person) = None
      in case item of
           EditItem \<Rightarrow> vw_admin v
         | PasswordItem \<Rightarrow> vw_admin v \<and> \<not> no_login
         | AdminItem \<Rightarrow> vw_admin v \<and> \<not> no_login
         | RemoveItem \<Rightarrow> event \<noteq> [] \<and> nonempty (pn_participation person) \<noteq> None \<and> canManageTarget v person)"

definition row_items :: "viewer \<Rightarrow> str \<Rightarrow> personnel \<Rightarrow> row_item list" where
  "row_items v event person =
     filter (row_item_shown v event person) [EditItem, PasswordItem, AdminItem, RemoveItem]"

definition kebab_shown :: "viewer \<Rightarrow> str \<Rightarrow> personnel \<Rightarrow> bool" where
  "kebab_shown v event person \<longleftrightarrow> row_items v event person \<noteq> []"

definition row_badges :: "personnel \<Rightarrow> bool \<times> bool \<times> (bool \<times> str) list" where
  "row_badges person =
     (let crews = nullish (pn_crews person) []
      in (flag (pn_admin person), list_ex pc_leader crews, map (\<lambda>c. (pc_leader c, pc_name c)) crews))"

definition row_search :: "host \<Rightarrow> personnel \<Rightarrow> str" where
  "row_search h person = lower h (nullish (pn_name person) [] @ [32] @ nullish (pn_handle person) [])"

definition applyFilter :: "host \<Rightarrow> str \<Rightarrow> personnel \<Rightarrow> bool" where
  "applyFilter h search person =
     (let term = lower h (trim search) in term = [] \<or> has_sub (row_search h person) term)"

text \<open>The role column: hidden, a plain label, or a menu of rungs with the current one active.\<close>

datatype role_cell = NoRole | AdminPill | RoleLabel str str | RoleMenu str str "(role_rung \<times> bool) list"

definition drawParticipationDropdown :: "viewer \<Rightarrow> str \<Rightarrow> personnel \<Rightarrow> role_cell" where
  "drawParticipationDropdown v event person =
     (if flag (pn_admin person) then AdminPill
      else (case nonempty (pn_participation person) of
              None \<Rightarrow> NoRole
            | Some type \<Rightarrow>
                if event = [] then NoRole
                else if \<not> (vw_admin v \<or> vw_invite v \<and> \<not> targetAboveInviterCeiling (Some type))
                then RoleLabel (participationLabel type) (participationBadgeClass type)
                else RoleMenu (participationLabel type) (participationBadgeClass type)
                       (map (\<lambda>r. (r, rr_value r = type)) (roleRungsForPerson v person))))"

section \<open>Adding a person\<close>

text \<open>
  The fields that the page's form and the quick-add form of the pickers have in common. \<open>fm_access\<close> is
  whether the section with the credentials is shown.
\<close>

record person_form =
  fm_name :: str
  fm_handle :: str
  fm_email :: str
  fm_phone :: str
  fm_password :: str
  fm_confirm :: str
  fm_participation :: str
  fm_crew :: str
  fm_access :: bool
  fm_masked :: bool
  fm_confirmMasked :: bool

text \<open>
  The page's form also has the search step and the choice of the shared default password:
  \<open>af_specific\<close> is the other radio button, \<open>af_fields\<close> whether the password fields are shown.
\<close>

record add_form = person_form +
  af_search :: str
  af_creating :: bool
  af_specific :: bool
  af_fields :: bool

definition clear_password :: "'a person_form_scheme \<Rightarrow> 'a person_form_scheme" where
  "clear_password f = f\<lparr>fm_password := [], fm_confirm := [], fm_masked := True, fm_confirmMasked := True\<rparr>"

definition updateAddPasswordMode :: "bool \<Rightarrow> add_form \<Rightarrow> add_form" where
  "updateAddPasswordMode configured f =
     (let useSpecific = (\<not> configured \<or> af_specific f); f' = f\<lparr>af_fields := useSpecific\<rparr>
      in if useSpecific then f' else clear_password f')"

definition setAccessShown :: "bool \<Rightarrow> 'a person_form_scheme \<Rightarrow> 'a person_form_scheme" where
  "setAccessShown shown f = f\<lparr>fm_access := shown\<rparr>"

definition access_labels :: "bool \<Rightarrow> str \<times> str \<times> str" where
  "access_labels shown =
     (if shown
      then (lit ''Don'' @ [39] @ lit ''t provide IMS access'', lit ''Fair Name (required for login)'', lit ''Email (required for login)'')
      else (lit ''Provide Access to IMS'', lit ''Fair Name'', lit ''Email (optional)''))"

definition resetAddPersonForm :: "viewer \<Rightarrow> bool \<Rightarrow> add_form \<Rightarrow> add_form" where
  "resetAddPersonForm v configured f =
     setAccessShown (\<not> vw_admin v)
       (updateAddPasswordMode configured
         (f\<lparr>af_search := [], fm_name := [], fm_handle := [], fm_email := [], fm_password := [], fm_confirm := [],
            fm_participation := lit ''volunteer'', fm_crew := [], fm_masked := True, fm_confirmMasked := True,
            af_specific := False\<rparr>))"

definition setAddPersonStep :: "bool \<Rightarrow> add_form \<Rightarrow> add_form" where
  "setAddPersonStep creating f = f\<lparr>af_creating := creating\<rparr>"

definition back_shown :: "str \<Rightarrow> add_form \<Rightarrow> bool" where
  "back_shown event f \<longleftrightarrow> af_creating f \<and> event \<noteq> []"

definition showAddPersonModal :: "viewer \<Rightarrow> bool \<Rightarrow> str \<Rightarrow> add_form \<Rightarrow> add_form" where
  "showAddPersonModal v configured event f =
     setAddPersonStep (event = []) (resetAddPersonForm v configured f)"

definition add_modal_labels :: "viewer \<Rightarrow> str \<times> str" where
  "add_modal_labels v =
     (if vw_admin v then (lit ''Add Person'', lit ''Add person'') else (lit ''Invite reporter'', lit ''Invite''))"

definition showCreatePersonForm :: "add_form \<Rightarrow> add_form" where
  "showCreatePersonForm = setAddPersonStep True"

definition backToPersonSearch :: "viewer \<Rightarrow> bool \<Rightarrow> add_form \<Rightarrow> add_form" where
  "backToPersonSearch v configured f = setAddPersonStep False (resetAddPersonForm v configured f)"

definition toggleProvideAccess :: "'a person_form_scheme \<Rightarrow> 'a person_form_scheme" where
  "toggleProvideAccess f =
     (if fm_access f then clear_password (setAccessShown False f) else setAccessShown True f)"

definition access_focus :: "'a person_form_scheme \<Rightarrow> str" where
  "access_focus f = (if trim (fm_handle f) = [] then lit ''handle'' else lit ''email'')"

definition flipPasswordVisibility :: "bool \<Rightarrow> bool \<times> str" where
  "flipPasswordVisibility masked = (\<not> masked, if masked then lit ''Hide'' else lit ''Show'')"

datatype form_field = NameField | HandleField | EmailField | PasswordField | ConfirmField

record create_body =
  cb_name :: str
  cb_handle :: str
  cb_email :: str
  cb_phone :: str
  cb_password :: str
  cb_useDefault :: bool
  cb_event :: "(str \<times> str) option"

text \<open>The checks of a typed password, with the field each marks.\<close>

definition typed_password_problem :: "str \<Rightarrow> str \<Rightarrow> (form_field \<times> str) option" where
  "typed_password_problem password confirm =
     map_option (\<lambda>m. (if length password < minPasswordLength then PasswordField else ConfirmField, m))
       (password_problem password confirm)"

definition add_useDefault :: "bool \<Rightarrow> add_form \<Rightarrow> bool" where
  "add_useDefault configured f \<longleftrightarrow> fm_access f \<and> configured \<and> \<not> af_specific f"

definition create_problem :: "bool \<Rightarrow> add_form \<Rightarrow> (form_field \<times> str) option" where
  "create_problem configured f =
     (let name = trim (fm_name f); handle = trim (fm_handle f) in
      if name = [] \<and> handle = [] then Some (HandleField, lit ''A fair name or full legal name is required.'')
      else if \<not> fm_access f then None
      else if handle = [] then Some (HandleField, lit ''A fair name is required to provide IMS access.'')
      else if trim (fm_email f) = [] then Some (EmailField, lit ''An email is required to provide IMS access.'')
      else if add_useDefault configured f then None
      else typed_password_problem (fm_password f) (fm_confirm f))"

definition submitCreatePerson :: "viewer \<Rightarrow> bool \<Rightarrow> str \<Rightarrow> add_form \<Rightarrow> (form_field \<times> str) + create_body" where
  "submitCreatePerson v configured event f =
     (case create_problem configured f of
        Some problem \<Rightarrow> Inl problem
      | None \<Rightarrow>
          Inr \<lparr>cb_name = trim (fm_name f), cb_handle = trim (fm_handle f), cb_email = trim (fm_email f),
            cb_phone = trim (fm_phone f),
            cb_password = (if fm_access f \<and> \<not> add_useDefault configured f then fm_password f else []),
            cb_useDefault = add_useDefault configured f,
            cb_event =
              (if event = [] then None
               else Some (event, if vw_admin v then fm_participation f else lit ''reporter''))\<rparr>)"

text \<open>
  The answers: that of the creation (an error, or the new number), then, when a crew was chosen and the
  event and the number are there, that of the crew.
\<close>

datatype create_outcome = CreateFailed str | CreatedCrewFailed str | Created

definition crew_after_create :: "str \<Rightarrow> str \<Rightarrow> int option \<Rightarrow> bool" where
  "crew_after_create event crew pid \<longleftrightarrow> event \<noteq> [] \<and> crew \<noteq> [] \<and> nullish pid 0 \<noteq> 0"

definition create_answered :: "str \<Rightarrow> str \<Rightarrow> str + int option \<Rightarrow> str option \<Rightarrow> create_outcome" where
  "create_answered event crew answer crewErr =
     (case answer of
        Inl e \<Rightarrow> CreateFailed (lit ''Failed to create person:'' @ [10] @ e)
      | Inr pid \<Rightarrow>
          (case crewErr of
             Some e \<Rightarrow>
               if crew_after_create event crew pid
               then CreatedCrewFailed (lit ''Created the person, but adding them to the crew failed:'' @ [10] @ e)
               else Created
           | None \<Rightarrow> Created))"

subsection \<open>The quick-add form\<close>

definition openQuickAddPersonModal :: "str \<Rightarrow> person_form" where
  "openQuickAddPersonModal prefillName =
     \<lparr>fm_name = [], fm_handle = prefillName, fm_email = [], fm_phone = [], fm_password = [], fm_confirm = [],
      fm_participation = lit ''volunteer'', fm_crew = [], fm_access = False, fm_masked = True, fm_confirmMasked = True\<rparr>"

definition quick_problem :: "person_form \<Rightarrow> str option" where
  "quick_problem f =
     (let name = trim (fm_name f); handle = trim (fm_handle f) in
      if name = [] \<and> handle = [] then Some (lit ''A fair name or full legal name is required.'')
      else if \<not> fm_access f then None
      else if handle = [] then Some (lit ''A fair name is required to provide IMS access.'')
      else if trim (fm_email f) = [] then Some (lit ''An email is required to provide IMS access.'')
      else if length (fm_password f) < 8 then Some (lit ''Password must be at least 8 characters.'')
      else if fm_password f \<noteq> fm_confirm f then Some (lit ''Passwords do not match.'')
      else None)"

definition quick_submit :: "str \<Rightarrow> person_form \<Rightarrow> str + create_body" where
  "quick_submit event f =
     (case quick_problem f of
        Some message \<Rightarrow> Inl message
      | None \<Rightarrow>
          Inr \<lparr>cb_name = trim (fm_name f), cb_handle = trim (fm_handle f), cb_email = trim (fm_email f),
            cb_phone = trim (fm_phone f), cb_password = (if fm_access f then fm_password f else []),
            cb_useDefault = False,
            cb_event = (if event = [] then None else Some (event, fm_participation f))\<rparr>)"

text \<open>The answer to the creation: an error to show, with the form left open, or the person to resolve with.\<close>

definition quick_answered :: "'p fetch_res \<Rightarrow> str + 'p" where
  "quick_answered res =
     (case (fr_err res, fr_json res) of
        (None, Some person) \<Rightarrow> Inr person
      | (err, _) \<Rightarrow> Inl (lit ''Failed to create person: '' @ nullish err (lit ''no response'')))"

section \<open>Setting a password\<close>

record set_form =
  sp_person :: str
  sp_specific :: bool
  sp_password :: str
  sp_confirm :: str

definition updateSetPasswordMode :: "bool \<Rightarrow> set_form \<Rightarrow> set_form" where
  "updateSetPasswordMode configured f =
     (if \<not> configured \<or> sp_specific f then f else f\<lparr>sp_password := [], sp_confirm := []\<rparr>)"

definition show_set_password :: "bool \<Rightarrow> int option \<Rightarrow> set_form" where
  "show_set_password configured pid =
     updateSetPasswordMode configured
       \<lparr>sp_person = (case pid of None \<Rightarrow> [] | Some i \<Rightarrow> show_int i), sp_specific = False, sp_password = [], sp_confirm = []\<rparr>"

datatype set_outcome = NoPerson | SetProblem "form_field \<times> str" | SetDefault str | SetPassword str str

definition submitSetPassword :: "bool \<Rightarrow> set_form \<Rightarrow> set_outcome" where
  "submitSetPassword configured f =
     (let useDefault = configured \<and> \<not> sp_specific f in
      if sp_person f = [] then NoPerson
      else if useDefault then SetDefault (sp_person f)
      else (case typed_password_problem (sp_password f) (sp_confirm f) of
              Some problem \<Rightarrow> SetProblem problem
            | None \<Rightarrow> SetPassword (sp_person f) (sp_password f)))"

section \<open>Editing a person\<close>

text \<open>The crews a viewer may put somebody on: the slug and what is shown.\<close>

type_synonym manageable = "(str \<times> str) list"

definition fetchManageableCrews :: "str \<Rightarrow> (str \<times> str option) list fetch_res \<Rightarrow> manageable" where
  "fetchManageableCrews eventName res =
     (if eventName = [] then []
      else (case (fr_err res, fr_json res) of
              (None, Some crews) \<Rightarrow> map (\<lambda>(slug, name). (slug, nullish name slug)) crews
            | _ \<Rightarrow> []))"

text \<open>The options, no crew first, and the value the element has afterwards.\<close>

definition populateCrewSelect :: "manageable \<Rightarrow> str \<Rightarrow> manageable \<times> str" where
  "populateCrewSelect crews selected =
     (([], [8212] @ lit '' no crew '' @ [8212]) # crews, if selected \<in> fst ` set crews then selected else [])"

definition currentManageableCrew :: "manageable \<Rightarrow> personnel \<Rightarrow> str" where
  "currentManageableCrew crews person =
     (case List.find (\<lambda>c. \<not> pc_leader c \<and> pc_slug c \<in> fst ` set crews) (nullish (pn_crews person) []) of
        None \<Rightarrow> []
      | Some c \<Rightarrow> pc_slug c)"

text \<open>The fields of the edit form with what the opening of it stashed.\<close>

record edit_form =
  ef_person :: str
  ef_handle :: str
  ef_name :: str
  ef_email :: str
  ef_phone :: str
  ef_participation :: str
  ef_crew :: str
  ef_picture :: bool
  ef_wristband :: str
  ef_crewSlug :: str

definition id_text :: "int option \<Rightarrow> str" where
  "id_text i = (case i of None \<Rightarrow> [] | Some n \<Rightarrow> show_int n)"

definition show_edit :: "manageable \<Rightarrow> personnel \<Rightarrow> edit_form" where
  "show_edit crews person =
     (let slug = currentManageableCrew crews person in
      \<lparr>ef_person = id_text (pn_id person), ef_handle = nullish (pn_handle person) [],
       ef_name = nullish (pn_name person) [], ef_email = nullish (pn_email person) [],
       ef_phone = nullish (pn_phone person) [], ef_participation = nullish (pn_participation person) [],
       ef_crew = snd (populateCrewSelect crews slug), ef_picture = False,
       ef_wristband = nullish (pn_wristband person) [], ef_crewSlug = slug\<rparr>)"

record edit_body =
  eb_handle :: str
  eb_name :: str
  eb_email :: str
  eb_phone :: str
  eb_event :: "(str \<times> str \<times> str) option"

definition edit_body_of :: "str \<Rightarrow> edit_form \<Rightarrow> edit_body" where
  "edit_body_of event f =
     \<lparr>eb_handle = trim (ef_handle f), eb_name = trim (ef_name f), eb_email = trim (ef_email f),
      eb_phone = trim (ef_phone f),
      eb_event = (if event = [] then None else Some (event, ef_wristband f, ef_participation f))\<rparr>"

datatype edit_ask = PutProfile str edit_body | PutPicture str | PutCrew str str int bool

text \<open>How it ends: nothing to do, a message with the form open or closed, or all saved.\<close>

datatype edit_end = EditIdle | EditOpen str | EditClosed str | EditSaved

definition crew_asks :: "str \<Rightarrow> edit_form \<Rightarrow> edit_ask list" where
  "crew_asks event f =
     (let pid = nullish (parseInt10 (Some (ef_person f))) 0 in
      if event \<noteq> [] \<and> pid > 0 \<and> ef_crew f \<noteq> ef_crewSlug f
      then (if ef_crewSlug f \<noteq> [] then [PutCrew event (ef_crewSlug f) pid True] else [])
         @ (if ef_crew f \<noteq> [] then [PutCrew event (ef_crew f) pid False] else [])
      else [])"

text \<open>The crew requests one after the other; \<open>err\<close> is the server's answer to each.\<close>

fun send_crews :: "(edit_ask \<Rightarrow> str option) \<Rightarrow> edit_ask list \<Rightarrow> edit_ask list \<times> edit_end" where
  "send_crews err [] = ([], EditSaved)"
| "send_crews err (a # rest) =
     (case err a of
        Some e \<Rightarrow> ([a], EditClosed (lit ''Saved the profile, but changing the crew failed:'' @ [10] @ e))
      | None \<Rightarrow> (let (sent, end) = send_crews err rest in (a # sent, end)))"

definition submitEditPerson :: "(edit_ask \<Rightarrow> str option) \<Rightarrow> str \<Rightarrow> edit_form \<Rightarrow> edit_ask list \<times> edit_end" where
  "submitEditPerson err event f =
     (let profile = PutProfile (ef_person f) (edit_body_of event f); picture = PutPicture (ef_person f) in
      if ef_person f = [] then ([], EditIdle)
      else (case err profile of
              Some e \<Rightarrow> ([profile], EditOpen (lit ''Failed to edit person:'' @ [10] @ e))
            | None \<Rightarrow>
                if ef_picture f
                then (case err picture of
                        Some e \<Rightarrow>
                          ([profile, picture], EditOpen (lit ''Saved the profile, but the picture upload failed:'' @ [10] @ e))
                      | None \<Rightarrow> (let (sent, end) = send_crews err (crew_asks event f) in (profile # picture # sent, end)))
                else (let (sent, end) = send_crews err (crew_asks event f) in (profile # sent, end))))"

section \<open>The person picker\<close>

record search_hit =
  sh_id :: "int option"
  sh_name :: "str option"
  sh_handle :: "str option"
  sh_wristband :: "str option"

datatype combo_row = PersonRow search_hit | CreateRow str

record combobox =
  co_value :: str
  co_rows :: "combo_row list"
  co_active :: int
  co_hidden :: bool
  co_seq :: nat

definition combo_close :: "combobox \<Rightarrow> combobox" where
  "combo_close k = k\<lparr>co_hidden := True, co_rows := [], co_active := -1\<rparr>"

definition exact_hit :: "host \<Rightarrow> str \<Rightarrow> search_hit \<Rightarrow> bool" where
  "exact_hit h typed hit \<longleftrightarrow>
     lower h (nullish (sh_handle hit) []) = lower h typed \<or> lower h (nullish (sh_name hit) []) = lower h typed"

definition combo_render :: "host \<Rightarrow> bool \<Rightarrow> search_hit list \<Rightarrow> str \<Rightarrow> combobox \<Rightarrow> combobox" where
  "combo_render h allowCreate hits typed k =
     (let rows = map PersonRow hits @ (if allowCreate \<and> \<not> list_ex (exact_hit h typed) hits then [CreateRow typed] else [])
      in if rows = [] then combo_close k else k\<lparr>co_rows := rows, co_hidden := False, co_active := 0\<rparr>)"

definition combo_choose :: "int \<Rightarrow> combobox \<Rightarrow> combobox \<times> combo_row option" where
  "combo_choose idx k =
     (case nth_opt (co_rows k) idx of
        None \<Rightarrow> (combo_close k, None)
      | Some row \<Rightarrow> ((combo_close k)\<lparr>co_value := []\<rparr>, Some row))"

definition combo_search :: "combobox \<Rightarrow> combobox \<times> (nat \<times> str) option" where
  "combo_search k =
     (let typed = trim (co_value k) in
      if length typed < 2 then (combo_close k, None)
      else (k\<lparr>co_seq := Suc (co_seq k)\<rparr>, Some (Suc (co_seq k), typed)))"

definition combo_answered :: "host \<Rightarrow> bool \<Rightarrow> nat \<Rightarrow> str \<Rightarrow> search_hit list \<Rightarrow> combobox \<Rightarrow> combobox" where
  "combo_answered h allowCreate mySeq typed hits k =
     (if mySeq \<noteq> co_seq k then k else combo_render h allowCreate hits typed k)"

definition combo_keydown :: "picker_key \<Rightarrow> combobox \<Rightarrow> combobox \<times> combo_row option" where
  "combo_keydown key k =
     (if co_hidden k then (k, None)
      else case key of
        ArrowDown \<Rightarrow> (k\<lparr>co_active := min (co_active k + 1) (int (length (co_rows k)) - 1)\<rparr>, None)
      | ArrowUp \<Rightarrow> (k\<lparr>co_active := max (co_active k - 1) 0\<rparr>, None)
      | EnterKey \<Rightarrow> (if co_active k \<ge> 0 then combo_choose (co_active k) k else (k, None))
      | EscapeKey \<Rightarrow> (combo_close k, None)
      | AnyKey \<Rightarrow> (k, None))"

section \<open>The selected event\<close>

text \<open>
  The state of the page: the event of the listing, the event the person picker was set up with, the
  show-all toggle and the device.
\<close>

record people_page =
  pg_event :: str
  pg_comboEvent :: str
  pg_showAll :: bool
  pg_device :: device

definition lastEventKey :: str where "lastEventKey = lit ''admin_people_event''"

datatype people_access = PeopleLogin | PeopleRefused str | PeopleShown viewer

definition people_access :: "bool \<Rightarrow> bool \<Rightarrow> bool option \<Rightarrow> str option \<Rightarrow> people_access" where
  "people_access authenticated canManagePersonnel inviteReporters urlEvent =
     (let canInvite = flag inviteReporters in
      if \<not> authenticated then PeopleLogin
      else if \<not> canManagePersonnel \<and> (urlEvent = None \<or> \<not> canInvite)
      then PeopleRefused (lit ''You don'' @ [39] @ lit ''t have permission to manage people for this event.'')
      else PeopleShown \<lparr>vw_admin = canManagePersonnel, vw_invite = canInvite\<rparr>)"

text \<open>What the page starts with; \<open>options\<close> are the names in the event menu, which also has the empty one.\<close>

definition initPeoplePage :: "str list \<Rightarrow> str option \<Rightarrow> device \<Rightarrow> people_page" where
  "initPeoplePage options urlEvent dev =
     (let event =
        (case urlEvent of
           Some e \<Rightarrow> e
         | None \<Rightarrow>
             (case nonempty (dev_get dev lastEventKey) of
                None \<Rightarrow> []
              | Some l \<Rightarrow> if l \<in> set options then trim l else []))
      in \<lparr>pg_event = event, pg_comboEvent = event, pg_showAll = False, pg_device = dev\<rparr>)"

definition changeEvent :: "str \<Rightarrow> people_page \<Rightarrow> people_page" where
  "changeEvent value p =
     (let event = trim value in
      if event \<noteq> [] then p\<lparr>pg_event := event, pg_device := dev_set (pg_device p) lastEventKey event\<rparr>
      else p\<lparr>pg_event := [], pg_device := dev_remove (pg_device p) lastEventKey, pg_showAll := False\<rparr>)"

definition changeShowAll :: "bool \<Rightarrow> people_page \<Rightarrow> people_page" where
  "changeShowAll checked p = p\<lparr>pg_showAll := checked\<rparr>"

definition show_all_shown :: "viewer \<Rightarrow> people_page \<Rightarrow> bool" where
  "show_all_shown v p \<longleftrightarrow> pg_event p \<noteq> [] \<and> vw_admin v"

definition url_personnel :: str where "url_personnel = lit ''/ims/api/personnel''"

text \<open>\<open>None\<close>: the name cannot be encoded, which raises.\<close>

definition people_url :: "people_page \<Rightarrow> str option" where
  "people_url p =
     (let url = url_personnel @ lit ''?all=true'' in
      if pg_event p = [] then Some url
      else map_option (\<lambda>e. url @ lit ''&event='' @ e @ (if pg_showAll p then lit ''&showAll=true'' else []))
             (encodeURIComponent (pg_event p)))"

section \<open>Writes on the event\<close>

datatype event_write = WriteParticipation str str str str | DeleteParticipation str str

definition setParticipationInline :: "people_page \<Rightarrow> personnel \<Rightarrow> str \<Rightarrow> event_write option" where
  "setParticipationInline p person participation =
     (let personId = id_text (pn_id person) in
      if personId = [] \<or> pg_event p = [] then None
      else Some (WriteParticipation personId (pg_event p) participation (nullish (pn_wristband person) [])))"

text \<open>A click on a rung of the menu; the active one does nothing.\<close>

definition rung_clicked :: "people_page \<Rightarrow> personnel \<Rightarrow> role_rung \<Rightarrow> event_write option" where
  "rung_clicked p person r =
     (if Some (rr_value r) \<noteq> pn_participation person then setParticipationInline p person (rr_value r) else None)"

definition enrollPerson :: "viewer \<Rightarrow> people_page \<Rightarrow> add_form \<Rightarrow> search_hit \<Rightarrow> event_write option" where
  "enrollPerson v p f hit =
     (if pg_event p = [] then None
      else Some (WriteParticipation (id_text (sh_id hit)) (pg_event p)
             (if vw_admin v then fm_participation f else lit ''reporter'') (nullish (sh_wristband hit) [])))"

text \<open>The removal form: the person's number and the wristband stashed when it was opened.\<close>

definition show_remove :: "personnel \<Rightarrow> str \<times> str" where
  "show_remove person = (id_text (pn_id person), nullish (pn_wristband person) [])"

definition submitMarkParticipation :: "people_page \<Rightarrow> str \<times> str \<Rightarrow> str \<Rightarrow> event_write option" where
  "submitMarkParticipation p form participation =
     (if fst form = [] \<or> pg_event p = [] then None
      else Some (WriteParticipation (fst form) (pg_event p) participation (snd form)))"

definition submitRemoveFromEvent :: "people_page \<Rightarrow> str \<times> str \<Rightarrow> event_write option" where
  "submitRemoveFromEvent p form =
     (if fst form = [] \<or> pg_event p = [] then None else Some (DeleteParticipation (fst form) (pg_event p)))"

definition toggleAdmin :: "personnel \<Rightarrow> str \<times> bool" where
  "toggleAdmin person = (id_text (pn_id person), \<not> flag (pn_admin person))"

definition admin_item_label :: "bool \<Rightarrow> str" where
  "admin_item_label admin = (if admin then lit ''Remove admin'' else lit ''Make admin'')"

section \<open>My crew\<close>

record crew_member =
  cm_id :: int
  cm_handle :: "str option"
  cm_name :: "str option"
  cm_leader :: bool

record my_crew =
  mc_slug :: str
  mc_name :: "str option"
  mc_members :: "crew_member list option"

text \<open>What the section shows, \<open>None\<close> when it is hidden: for each crew its name and, for each member, the label and whether there is a button to remove.\<close>

definition loadAndDrawMyCrews :: "str \<Rightarrow> my_crew list fetch_res \<Rightarrow> (str \<times> (str \<times> bool) list) list option" where
  "loadAndDrawMyCrews event res =
     (if event = [] then None
      else (case (fr_err res, fr_json res) of
              (None, Some crews) \<Rightarrow>
                if crews = [] then None
                else Some (map (\<lambda>c. (nullish (mc_name c) [],
                       map (\<lambda>m. (personDisplayLabel (cm_name m) (cm_handle m), \<not> cm_leader m))
                         (nullish (mc_members c) []))) crews)
            | _ \<Rightarrow> None))"

definition addMyCrewMember :: "str \<Rightarrow> int \<Rightarrow> (str \<times> int \<times> bool) option" where
  "addMyCrewMember slug personID = (if personID \<le> 0 then None else Some (slug, personID, False))"

definition removeMyCrewMember :: "str option \<Rightarrow> str option \<Rightarrow> (str \<times> int \<times> bool) option" where
  "removeMyCrewMember slug personId =
     (let personID = nullish (parseInt10 personId) 0 in
      if nonempty slug = None \<or> personID \<le> 0 then None else Some (nullish slug [], personID, True))"

section \<open>The menu of roles, in both clients\<close>

text \<open>The name of a rung on the wire of the older interface.\<close>

fun wire_participation :: "ParticipationType \<Rightarrow> str" where
  "wire_participation PT_UNSPECIFIED = []"
| "wire_participation PT_WRITER = lit ''writer''"
| "wire_participation PT_CREW_LEADER = lit ''crew_leader''"
| "wire_participation PT_REPORTER = lit ''reporter''"
| "wire_participation PT_VOLUNTEER = lit ''volunteer''"
| "wire_participation PT_PUBLIC = lit ''public''"
| "wire_participation PT_NOT_PRESENT = lit ''not_present''"
| "wire_participation PT_EJECTED = lit ''ejected''"

fun menu_values :: "role_cell \<Rightarrow> str list" where
  "menu_values (RoleMenu label cls rungs) = map (\<lambda>(r, active). rr_value r) rungs"
| "menu_values cell = []"

text \<open>
  The same person as the two clients read it. The older listing sends whether somebody is an
  administrator or has a password to personnel administrators only.
\<close>

definition same_person :: "bool \<Rightarrow> Person \<Rightarrow> personnel \<Rightarrow> bool" where
  "same_person toAdmin p q \<longleftrightarrow>
     pn_participation q = Some (wire_participation (p_participationType p)) \<and>
     pn_hasPassword q = (if toAdmin then Some (p_hasPassword p) else None) \<and>
     pn_admin q = (if toAdmin then Some (p_isAdmin p) else None)"

definition same_viewer :: "RosterAccess \<Rightarrow> viewer" where
  "same_viewer access = \<lparr>vw_admin = ra_admin access, vw_invite = ra_inviteReporters access\<rparr>"



section \<open>The form over a session\<close>

text \<open>What the form lets its user do: a hidden control cannot be used.\<close>

datatype form_action =
    OpenForm
  | TypeIdentity str str str str
  | TypePasswords str str
  | PickRole str
  | PickCrew str
  | ChooseMode bool
  | ToggleAccess
  | ToCreate
  | ToSearch

fun add_form_step :: "viewer \<Rightarrow> bool \<Rightarrow> str \<Rightarrow> form_action \<Rightarrow> add_form \<Rightarrow> add_form" where
  "add_form_step v configured event OpenForm f = showAddPersonModal v configured event f"
| "add_form_step v configured event (TypeIdentity name handle email phone) f =
     f\<lparr>fm_name := name, fm_handle := handle, fm_email := email, fm_phone := phone\<rparr>"
| "add_form_step v configured event (TypePasswords password confirm) f =
     (if fm_access f \<and> af_fields f then f\<lparr>fm_password := password, fm_confirm := confirm\<rparr> else f)"
| "add_form_step v configured event (PickRole role) f = (if vw_admin v then f\<lparr>fm_participation := role\<rparr> else f)"
| "add_form_step v configured event (PickCrew crew) f = f\<lparr>fm_crew := crew\<rparr>"
| "add_form_step v configured event (ChooseMode specific) f =
     (if configured \<and> fm_access f then updateAddPasswordMode configured (f\<lparr>af_specific := specific\<rparr>) else f)"
| "add_form_step v configured event ToggleAccess f = (if vw_admin v then toggleProvideAccess f else f)"
| "add_form_step v configured event ToCreate f = showCreatePersonForm f"
| "add_form_step v configured event ToSearch f = backToPersonSearch v configured f"

definition form_run :: "viewer \<Rightarrow> bool \<Rightarrow> str \<Rightarrow> form_action list \<Rightarrow> add_form \<Rightarrow> add_form" where
  "form_run v configured event = fold (add_form_step v configured event)"

definition form_ok :: "viewer \<Rightarrow> bool \<Rightarrow> add_form \<Rightarrow> bool" where
  "form_ok v configured f \<longleftrightarrow>
     (af_fields f \<longleftrightarrow> \<not> configured \<or> af_specific f) \<and>
     (\<not> fm_access f \<or> \<not> af_fields f \<longrightarrow> fm_password f = [] \<and> fm_confirm f = []) \<and>
     (vw_admin v \<or> fm_access f)"

lemmas add_form_defs = showAddPersonModal_def resetAddPersonForm_def updateAddPasswordMode_def clear_password_def
  setAccessShown_def setAddPersonStep_def toggleProvideAccess_def backToPersonSearch_def showCreatePersonForm_def

lemma reset_ok: "form_ok v configured (resetAddPersonForm v configured f)"
  by (simp add: form_ok_def add_form_defs Let_def)

lemma open_ok: "form_ok v configured (showAddPersonModal v configured event f)"
  using reset_ok [of v configured f] by (simp add: form_ok_def showAddPersonModal_def setAddPersonStep_def)

lemma add_form_step_ok: "form_ok v configured f \<Longrightarrow> form_ok v configured (add_form_step v configured event a f)"
proof (cases a)
  case OpenForm
  then show ?thesis by (simp add: open_ok)
next
  case ToSearch
  then show ?thesis using reset_ok [of v configured f]
    by (simp add: form_ok_def backToPersonSearch_def setAddPersonStep_def)
qed (auto simp: form_ok_def updateAddPasswordMode_def clear_password_def setAccessShown_def setAddPersonStep_def
    toggleProvideAccess_def showCreatePersonForm_def Let_def)

lemma form_run_ok: "form_ok v configured f \<Longrightarrow> form_ok v configured (form_run v configured event actions f)"
  by (induction actions arbitrary: f) (simp_all add: form_run_def add_form_step_ok)

lemma typed_password_ok: "typed_password_problem p c = None \<longleftrightarrow> 8 \<le> length p \<and> p = c"
  by (auto simp: typed_password_problem_def password_problem_def minPasswordLength_def)

text \<open>
  C13: Whatever has been opened, typed, toggled and taken back in the form: what is sent carries
  the password that stands in the box, so none that is no longer shown; somebody is given access exactly
  when the section is open, and then with the name and the address to sign in with and the default
  password or one of eight characters typed twice; and what an inviter sends always gives access, to a reporter.
\<close>

theorem sent_form_is_what_shows:
  assumes "f = form_run v configured event actions (showAddPersonModal v configured event f0)"
    and "submitCreatePerson v configured event f = Inr body"
  shows "cb_password body = fm_password f \<and>
    (if fm_access f
     then cb_handle body \<noteq> [] \<and> cb_email body \<noteq> [] \<and>
       (if cb_useDefault body then configured \<and> cb_password body = []
        else 8 \<le> length (cb_password body) \<and> cb_password body = fm_confirm f)
     else cb_password body = [] \<and> \<not> cb_useDefault body) \<and>
    (vw_admin v \<or> fm_access f \<and> map_option snd (cb_event body) \<in> {None, Some (lit ''reporter'')}) \<and>
    (cb_name body \<noteq> [] \<or> cb_handle body \<noteq> [])"
proof -
  have ok: "form_ok v configured f" unfolding assms(1) by (intro form_run_ok open_ok)
  have none: "create_problem configured f = None"
    using assms(2) by (simp add: submitCreatePerson_def split: option.splits)
  then have body: "cb_name body = trim (fm_name f)" "cb_handle body = trim (fm_handle f)" "cb_email body = trim (fm_email f)"
      "cb_password body = (if fm_access f \<and> \<not> add_useDefault configured f then fm_password f else [])"
      "cb_useDefault body = add_useDefault configured f"
      "cb_event body = (if event = [] then None else Some (event, if vw_admin v then fm_participation f else lit ''reporter''))"
    using assms(2) by (auto simp: submitCreatePerson_def)
  have password: "cb_password body = fm_password f"
    using ok by (auto simp: body form_ok_def add_useDefault_def)
  have identity: "cb_name body \<noteq> [] \<or> cb_handle body \<noteq> []"
    using none by (simp add: body create_problem_def Let_def split: if_splits)
  have "cb_handle body \<noteq> [] \<and> cb_email body \<noteq> [] \<and>
      (if cb_useDefault body then configured \<and> cb_password body = []
       else 8 \<le> length (cb_password body) \<and> cb_password body = fm_confirm f)" if "fm_access f"
    using none that
    by (auto simp: body create_problem_def Let_def add_useDefault_def typed_password_ok split: if_splits)
  moreover have "cb_password body = [] \<and> \<not> cb_useDefault body" if "\<not> fm_access f"
    using that by (simp add: body add_useDefault_def)
  moreover have "vw_admin v \<or> fm_access f" using ok by (simp add: form_ok_def)
  ultimately show ?thesis using password identity by (auto simp: body(6))
qed

definition empty_form :: add_form where
  "empty_form = \<lparr>fm_name = [], fm_handle = [], fm_email = [], fm_phone = [], fm_password = [], fm_confirm = [],
     fm_participation = [], fm_crew = [], fm_access = False, fm_masked = True, fm_confirmMasked = True,
     af_search = [], af_creating = False, af_specific = False, af_fields = False\<rparr>"

lemma sent_form_is_what_shows_witness:
  "case submitCreatePerson \<lparr>vw_admin = False, vw_invite = True\<rparr> False (lit ''2026'')
     (form_run \<lparr>vw_admin = False, vw_invite = True\<rparr> False (lit ''2026'')
       [ToCreate, TypeIdentity [] (lit ''Sparky'') (lit ''s@x.org'') [], TypePasswords (lit ''campfire'') (lit ''campfire'')]
       (showAddPersonModal \<lparr>vw_admin = False, vw_invite = True\<rparr> False (lit ''2026'') empty_form)) of
     Inl problem \<Rightarrow> False
   | Inr body \<Rightarrow> cb_password body = lit ''campfire'' \<and> map_option snd (cb_event body) = Some (lit ''reporter'')"
proof -
  let ?v = "\<lparr>vw_admin = False, vw_invite = True\<rparr>"
  let ?f = "form_run ?v False (lit ''2026'')
       [ToCreate, TypeIdentity [] (lit ''Sparky'') (lit ''s@x.org'') [], TypePasswords (lit ''campfire'') (lit ''campfire'')]
       (showAddPersonModal ?v False (lit ''2026'') empty_form)"
  have fields: "fm_password ?f = lit ''campfire''" "fm_confirm ?f = lit ''campfire''" "fm_access ?f" "fm_name ?f = []"
      "fm_handle ?f = lit ''Sparky''" "fm_email ?f = lit ''s@x.org''"
    by (simp_all add: form_run_def add_form_defs Let_def)
  have "trim (lit ''Sparky'') \<noteq> []" "trim (lit ''s@x.org'') \<noteq> []" by (simp_all add: trim_def is_ws_def)
  moreover have "typed_password_problem (lit ''campfire'') (lit ''campfire'') = None" by (simp add: typed_password_ok)
  ultimately have "create_problem False ?f = None"
    by (simp add: create_problem_def fields Let_def del: lit_simps)
  then obtain body where body: "submitCreatePerson ?v False (lit ''2026'') ?f = Inr body"
      "map_option snd (cb_event body) = Some (lit ''reporter'')"
    by (simp add: submitCreatePerson_def)
  show ?thesis
    using sent_form_is_what_shows [OF refl body(1)] body(2) unfolding body(1) by (simp add: fields(1) del: lit_simps)
qed

text \<open>The reset that clears every field leaves the phone: the next person is given that of the last one.\<close>

lemma phone_is_kept:
  "fm_phone (showAddPersonModal v configured event f) = fm_phone f \<and> fm_handle (showAddPersonModal v configured event f) = []"
  by (simp add: add_form_defs Let_def)

text \<open>
  The quick-add form of the pickers refuses what the page's form refuses, with the same
  words, and sends what it sends, as far as the two can be compared: no shared default password is
  configured, and the viewer may choose the role.
\<close>

theorem both_forms_add_alike:
  assumes "vw_admin v \<or> event = []"
  shows "quick_submit event (person_form.truncate f) = map_sum snd id (submitCreatePerson v False event f)"
proof -
  have "quick_problem (person_form.truncate f) = map_option snd (create_problem False f)"
    by (auto simp: quick_problem_def create_problem_def person_form.truncate_def add_useDefault_def
        typed_password_problem_def password_problem_def minPasswordLength_def Let_def show_int_def)
  then show ?thesis using assms
    by (auto simp: quick_submit_def submitCreatePerson_def person_form.truncate_def add_useDefault_def split: option.splits)
qed

lemma both_forms_add_alike_witness:
  "quick_submit [] (person_form.truncate (empty_form\<lparr>fm_name := lit ''Bo''\<rparr>)) =
     map_sum snd id (submitCreatePerson \<lparr>vw_admin = False, vw_invite = True\<rparr> False [] (empty_form\<lparr>fm_name := lit ''Bo''\<rparr>))"
  by (rule both_forms_add_alike) simp

section \<open>The edit as a list of requests\<close>

definition edit_plan :: "str \<Rightarrow> edit_form \<Rightarrow> edit_ask list" where
  "edit_plan event f =
     PutProfile (ef_person f) (edit_body_of event f) #
     (if ef_picture f then [PutPicture (ef_person f)] else []) @ crew_asks event f"

fun upto_failure :: "('a \<Rightarrow> str option) \<Rightarrow> 'a list \<Rightarrow> 'a list" where
  "upto_failure err [] = []"
| "upto_failure err (a # rest) = a # (if err a = None then upto_failure err rest else [])"

fun first_failure :: "('a \<Rightarrow> str option) \<Rightarrow> 'a list \<Rightarrow> ('a \<times> str) option" where
  "first_failure err [] = None"
| "first_failure err (a # rest) = (case err a of Some e \<Rightarrow> Some (a, e) | None \<Rightarrow> first_failure err rest)"

fun edit_failed :: "edit_ask \<times> str \<Rightarrow> edit_end" where
  "edit_failed (PutProfile i b, e) = EditOpen (lit ''Failed to edit person:'' @ [10] @ e)"
| "edit_failed (PutPicture i, e) = EditOpen (lit ''Saved the profile, but the picture upload failed:'' @ [10] @ e)"
| "edit_failed (PutCrew ev slug i r, e) = EditClosed (lit ''Saved the profile, but changing the crew failed:'' @ [10] @ e)"

lemma send_crews_upto:
  assumes "\<forall>a \<in> set asks. \<exists>ev slug i r. a = PutCrew ev slug i r"
  shows "send_crews err asks =
    (upto_failure err asks, case first_failure err asks of None \<Rightarrow> EditSaved | Some fail \<Rightarrow> edit_failed fail)"
  using assms by (induction asks) (auto split: option.splits)

lemma crew_asks_crews: "\<forall>a \<in> set (crew_asks event f). \<exists>ev slug i r. a = PutCrew ev slug i r"
  by (auto simp: crew_asks_def Let_def)

lemma submit_edit_upto:
  assumes "ef_person f \<noteq> []"
  shows "submitEditPerson err event f =
    (upto_failure err (edit_plan event f),
     case first_failure err (edit_plan event f) of None \<Rightarrow> EditSaved | Some fail \<Rightarrow> edit_failed fail)"
  using assms send_crews_upto [OF crew_asks_crews [of event f], of err]
  by (auto simp: submitEditPerson_def edit_plan_def Let_def split: option.splits)

lemma find_manageable:
  "currentManageableCrew crews person \<in> insert [] (fst ` set crews)"
  by (auto simp: currentManageableCrew_def dest!: find_SomeD split: option.splits)

text \<open>
  Saving the form of a person sends the profile, the picture that was chosen and the moves
  between crews, in this order, up to the first one that fails, whose message it ends with; it ends as
  saved only when none failed. The profile carries the wristband of the row, which the form does not
  show, and the crews are touched only when another one was chosen: the old one first left, then the new one joined.
\<close>

theorem edit_stops_at_first_failure:
  assumes "f = (show_edit crews person)\<lparr>ef_handle := handle, ef_name := name, ef_email := email, ef_phone := phone,
      ef_participation := role, ef_crew := crew, ef_picture := chosen\<rparr>"
    and "pn_id person = Some i" and "0 < i" and "event \<noteq> []"
  shows "submitEditPerson err event f =
      (upto_failure err (edit_plan event f),
       case first_failure err (edit_plan event f) of None \<Rightarrow> EditSaved | Some fail \<Rightarrow> edit_failed fail) \<and>
    edit_plan event f =
      PutProfile (show_int i) \<lparr>eb_handle = trim handle, eb_name = trim name, eb_email = trim email, eb_phone = trim phone,
          eb_event = Some (event, nullish (pn_wristband person) [], role)\<rparr> #
      (if chosen then [PutPicture (show_int i)] else []) @
      (let old = currentManageableCrew crews person in
       if crew = old then []
       else (if old \<noteq> [] then [PutCrew event old i True] else []) @ (if crew \<noteq> [] then [PutCrew event crew i False] else []))"
proof -
  have person: "ef_person f = show_int i" "show_int i \<noteq> []"
    using show_int_nonempty [of i] by (simp_all add: assms(1,2) show_edit_def id_text_def Let_def)
  have "crew_asks event f =
      (let old = currentManageableCrew crews person in
       if crew = old then []
       else (if old \<noteq> [] then [PutCrew event old i True] else []) @ (if crew \<noteq> [] then [PutCrew event crew i False] else []))"
    using assms(3,4) by (simp add: crew_asks_def person(1) parseInt10_def Let_def) (simp add: assms(1) show_edit_def Let_def)
  then show ?thesis
    using submit_edit_upto [of f err event] person assms(4)
    by (simp add: edit_plan_def edit_body_of_def) (simp add: assms(1) show_edit_def Let_def)
qed

lemma edit_stops_at_first_failure_witness:
  "let person = \<lparr>pn_handle = None, pn_name = Some (lit ''Bo''), pn_email = None, pn_phone = None, pn_id = Some 4,
      pn_hasPassword = None, pn_admin = None, pn_wristband = Some (lit ''W7''), pn_participation = None,
      pn_crews = Some [\<lparr>pc_name = lit ''Gate'', pc_slug = lit ''gate'', pc_leader = False\<rparr>]\<rparr>;
     f = (show_edit [(lit ''gate'', lit ''Gate''), (lit ''hub'', lit ''Hub'')] person)
       \<lparr>ef_handle := [], ef_name := [], ef_email := [], ef_phone := [], ef_participation := [], ef_crew := lit ''hub'', ef_picture := True\<rparr>
   in fst (submitEditPerson (\<lambda>a. if a = PutCrew (lit ''26'') (lit ''gate'') 4 True then Some (lit ''no'') else None) (lit ''26'') f) =
     [PutProfile (show_int 4) \<lparr>eb_handle = [], eb_name = [], eb_email = [], eb_phone = [], eb_event = Some (lit ''26'', lit ''W7'', [])\<rparr>,
      PutPicture (show_int 4), PutCrew (lit ''26'') (lit ''gate'') 4 True]"
proof -
  let ?person = "\<lparr>pn_handle = None, pn_name = Some (lit ''Bo''), pn_email = None, pn_phone = None, pn_id = Some 4,
      pn_hasPassword = None, pn_admin = None, pn_wristband = Some (lit ''W7''), pn_participation = None,
      pn_crews = Some [\<lparr>pc_name = lit ''Gate'', pc_slug = lit ''gate'', pc_leader = False\<rparr>]\<rparr>"
  let ?crews = "[(lit ''gate'', lit ''Gate''), (lit ''hub'', lit ''Hub'')]"
  let ?err = "\<lambda>a. if a = PutCrew (lit ''26'') (lit ''gate'') 4 True then Some (lit ''no'') else None"
  have "currentManageableCrew ?crews ?person = lit ''gate''" by (simp add: currentManageableCrew_def)
  moreover have "trim [] = []" by (simp add: trim_def)
  moreover note edit_stops_at_first_failure
    [OF refl, where person = ?person and i = 4 and event = "lit ''26''" and crews = ?crews and handle = "[]" and name = "[]"
      and email = "[]" and phone = "[]" and role = "[]" and crew = "lit ''hub''" and chosen = True and err = ?err]
  ultimately show ?thesis by (simp add: Let_def del: lit_simps) simp
qed

section \<open>The two sections of the roster\<close>

lemma role_order:
  assumes "comparison (locale_compare h)"
  shows "comparison (comparePeopleByRole h)"
  using comparison.antisym [OF assms] comparison.trans [OF assms]
  by unfold_locales (auto simp: comparePeopleByRole_def Let_def split: if_splits)

lemma rank_of_order: "comparePeopleByRole h a b \<le> 0 \<Longrightarrow> roleRank a \<le> roleRank b"
  by (auto simp: comparePeopleByRole_def Let_def split: if_splits)

lemma admins_rank: "roleRank p = -1 \<longleftrightarrow> flag (pn_admin p)" "-1 \<le> roleRank p"
  by (auto simp: roleRank_def split: option.splits)

text \<open>
  Everybody of the listing is in one of the two sections, once; each goes down the ladder of roles, the
  administrators first.
\<close>

lemma roster_in_order:
  assumes "comparison (locale_compare h)" and "people_sections h (Some people) = (withAccess, without)"
  shows "mset people = mset withAccess + mset without" "list_all hasImsAccess withAccess"
    "list_all (\<lambda>p. \<not> hasImsAccess p) without"
    "sorted (map roleRank withAccess)" "sorted (map roleRank without)"
proof -
  have eq: "withAccess = js_sort (comparePeopleByRole h) (filter hasImsAccess people)"
      "without = js_sort (comparePeopleByRole h) (filter (\<lambda>p. \<not> hasImsAccess p) people)"
    using assms(2) by (simp_all add: people_sections_def Let_def nullish_def)
  have "sorted (map roleRank (js_sort (comparePeopleByRole h) xs))" for xs
    using comparison.sorted_js_sort [OF role_order [OF assms(1)], of xs]
    by (auto simp: sorted_map elim: sorted_wrt_mono_rel [rotated] dest: rank_of_order)
  then show "sorted (map roleRank withAccess)" "sorted (map roleRank without)" by (simp_all add: eq)
  show "mset people = mset withAccess + mset without" by (simp add: eq multiset_partition [symmetric])
  show "list_all hasImsAccess withAccess" "list_all (\<lambda>p. \<not> hasImsAccess p) without"
    by (simp_all add: eq list_all_iff)
qed

section \<open>The picker and the event\<close>

lemma combo_close_hidden [simp]: "co_hidden (combo_close k)" by (simp add: combo_close_def)

definition combo_ok :: "combobox \<Rightarrow> bool" where
  "combo_ok k \<longleftrightarrow> co_hidden k \<or> 0 \<le> co_active k \<and> co_active k < int (length (co_rows k))"

lemma combo_keeps:
  "combo_ok (combo_close k)" "combo_ok (combo_render h b hits typed k)" "combo_ok (fst (combo_choose i k))"
  "combo_ok k \<Longrightarrow> combo_ok (fst (combo_search k))" "combo_ok k \<Longrightarrow> combo_ok (combo_answered h b n typed hits k)"
  "combo_ok k \<Longrightarrow> combo_ok (fst (combo_keydown key k))"
  by (auto simp: combo_ok_def combo_close_def combo_render_def combo_choose_def combo_search_def combo_answered_def
      combo_keydown_def Let_def split: option.splits picker_key.splits)

text \<open>
  On the page of all events the picker goes on searching in the event the page was opened with. After a
  change of the event a pick therefore writes the wristband of that event over the one of the event it writes to.
\<close>

lemma enrolment_carries_other_wristband:
  assumes "trim value \<noteq> []" and "p = changeEvent value (initPeoplePage options None dev)"
    and "sh_wristband hit = wristband_in (pg_comboEvent p)" and "vw_admin v"
  shows "enrollPerson v p f hit =
    Some (WriteParticipation (id_text (sh_id hit)) (trim value) (fm_participation f)
      (nullish (wristband_in (pg_event (initPeoplePage options None dev))) []))"
  using assms by (simp add: enrollPerson_def changeEvent_def initPeoplePage_def Let_def)

text \<open>Every other write to the event sends the wristband of the row it was offered on.\<close>

lemma row_writes_keep_wristband:
  assumes "w \<in> {setParticipationInline p person role, rung_clicked p person r,
      submitMarkParticipation p (show_remove person) role}"
    and "w = Some (WriteParticipation i event participation wristband)"
  shows "wristband = nullish (pn_wristband person) [] \<and> i = id_text (pn_id person) \<and> event = pg_event p"
  using assms by (auto simp: setParticipationInline_def rung_clicked_def submitMarkParticipation_def show_remove_def
      Let_def split: if_splits)

end
