(* ===== verification/TemplIncident.thy ===== *)
theory TemplIncident
  imports TemplIncidents TemplPeople Controls
begin

text \<open>
  The incident page of the server-rendered client (\<open>src/go/web/typescript/incident.ts\<close>): the incident
  and the lists of reports and visits it is loaded with and kept up by broadcasts, what is drawn of
  them, and what each control asks for. How an edit is sent and a new record numbered is in
  \<open>TemplComposer\<close>.
\<close>

section \<open>The incident\<close>

record linked_incident =
  ln_eventId :: "int option"
  ln_eventName :: "str option"
  ln_number :: "int option"
  ln_summary :: "str option"

record incident_person =
  in_id :: "int option"
  in_name :: "str option"
  in_handle :: "str option"
  in_involvement :: "str option"
  in_granted :: "bool option"
  in_hasAccess :: "bool option"

record tincident =
  ti_number :: "int option"
  ti_state :: "str option option"
  ti_private :: "bool option"
  ti_outcome :: "int option"
  ti_priority :: "int option"
  ti_summary :: "str option"
  ti_creator :: "(int option \<times> str option \<times> str option) option"
  ti_people :: "incident_person list option"
  ti_types :: "int list option"
  ti_location :: "tlocation option"
  ti_entries :: "tentry list option"
  ti_mayAdd :: "bool option"
  ti_linked :: "linked_incident list option"

record incident_access =
  ia_write :: bool
  ia_attach :: bool
  ia_admin :: bool
  ia_person :: "int option"

text \<open>What the page shows beside the fields: the message, and which of its controls are enabled.\<close>

record incident_page =
  ig_incident :: "tincident option"
  ig_ids :: path_ids
  ig_error :: "str option"
  ig_editing :: bool
  ig_journal :: bool
  ig_attachShown :: bool

datatype page_entry = EntryLogin | EntryRefused | EntryShown

definition incident_entry :: "bool \<Rightarrow> bool \<Rightarrow> bool \<Rightarrow> page_entry" where
  "incident_entry authenticated readIncidents viaGrant =
     (if \<not> authenticated then EntryLogin
      else if \<not> readIncidents \<and> \<not> viaGrant then EntryRefused
      else EntryShown)"

definition new_tincident :: tincident where
  "new_tincident =
     \<lparr>ti_number = None, ti_state = Some (Some (lit ''open'')), ti_private = None, ti_outcome = None,
      ti_priority = Some 3, ti_summary = Some [], ti_creator = None, ti_people = None, ti_types = None,
      ti_location = None, ti_entries = None, ti_mayAdd = None, ti_linked = None\<rparr>"

definition load_number :: "incident_page \<Rightarrow> int option" where
  "load_number p =
     (case ig_incident p of None \<Rightarrow> path_incidentNumber (ig_ids p) | Some i \<Rightarrow> ti_number i)"

text \<open>
  The answer for the number asked for, unused when there is none. An answer without a body leaves no incident.
\<close>

definition loadIncident :: "tincident fetch_res \<Rightarrow> incident_page \<Rightarrow> incident_page" where
  "loadIncident res p =
     (case load_number p of
        None \<Rightarrow> p\<lparr>ig_incident := Some new_tincident\<rparr>
      | Some n \<Rightarrow>
          (case fr_err res of
             Some e \<Rightarrow>
               p\<lparr>ig_editing := False, ig_journal := False,
                 ig_error := Some (lit ''Failed to load Incident '' @ show_int n @ lit '': '' @ e)\<rparr>
           | None \<Rightarrow> p\<lparr>ig_incident := fr_json res\<rparr>))"

definition displayIncident :: "incident_access \<Rightarrow> incident_page \<Rightarrow> incident_page" where
  "displayIncident a p =
     (case ig_incident p of
        None \<Rightarrow> p\<lparr>ig_error := Some (lit ''Incident failed to load'')\<rparr>
      | Some i \<Rightarrow>
          p\<lparr>ig_error := None,
            ig_editing := ig_editing p \<or> ia_write a,
            ig_journal := ig_journal p \<or> ia_write a \<or> flag (ti_mayAdd i),
            ig_attachShown := ig_attachShown p \<or> ia_attach a\<rparr>)"

definition loadAndDisplayIncident :: "tincident fetch_res \<Rightarrow> incident_access \<Rightarrow> incident_page \<Rightarrow> incident_page" where
  "loadAndDisplayIncident res a p = displayIncident a (loadIncident res p)"

text \<open>
  A reload that fails draws the incident it already had, takes its own message down and, for a writer,
  lets the stale fields be edited again.
\<close>

lemma reload_error_wiped:
  assumes "ig_incident p = Some i" and "ti_number i = Some n" and "fr_err res = Some e"
  shows "ig_error (loadIncident res p) \<noteq> None" and "ig_error (loadAndDisplayIncident res a p) = None"
    and "ig_editing (loadAndDisplayIncident res a p) = ia_write a"
  using assms by (simp_all add: loadAndDisplayIncident_def displayIncident_def loadIncident_def load_number_def)

section \<open>Reports and visits\<close>

record treport =
  rt_number :: "int option"
  rt_incident :: "int option"
  rt_summary :: "str option"
  rt_entries :: "tentry list option"

record tvisit =
  vt_number :: "int option"
  vt_incident :: "int option"
  vt_guestName :: "str option"
  vt_guestHandle :: "str option"
  vt_guestLegalName :: "str option"
  vt_entries :: "tentry list option"

text \<open>\<open>null\<close>, \<open>undefined\<close> once the viewer was refused, or the list.\<close>

datatype 'a loaded = NotLoaded | Refused | Loaded "'a list"

fun loaded_list :: "'a loaded \<Rightarrow> 'a list" where
  "loaded_list (Loaded xs) = xs"
| "loaded_list NotLoaded = []"
| "loaded_list Refused = []"

definition by_number :: "('a \<Rightarrow> int option) \<Rightarrow> 'a \<Rightarrow> 'a \<Rightarrow> int" where
  "by_number num a b = nullish (num b) (-1) - nullish (num a) (-1)"

text \<open>
  \<open>loadAllReports\<close>: the list and the message, or \<open>None\<close> for the exception that an answer without a
  body makes.
\<close>

definition loadAllReports :: "treport list fetch_res \<Rightarrow> treport loaded \<Rightarrow> (treport loaded \<times> str option) option" where
  "loadAllReports res all =
     (if all = Refused then Some (Refused, None)
      else case fr_err res of
        Some e \<Rightarrow>
          if fr_status res = Some 403 then Some (Refused, None)
          else Some (all, Some (lit ''Failed to load reports: '' @ e))
      | None \<Rightarrow>
          (case fr_json res of
             None \<Rightarrow> None
           | Some xs \<Rightarrow> Some (Loaded (js_sort (by_number rt_number) xs), None)))"

definition upsert :: "('a \<Rightarrow> int option) \<Rightarrow> 'a \<Rightarrow> 'a list \<Rightarrow> 'a list" where
  "upsert num x xs =
     (if list_ex (\<lambda>y. num y = num x) xs then map (\<lambda>y. if num y = num x then x else y) xs
      else js_sort (by_number num) (xs @ [x]))"

text \<open>
  \<open>loadOneReport\<close>. A refusal with 403 is let through to the part that reads the answer, which is not
  there: an exception when there are reports, and a null among none.
\<close>

datatype 'a one_loaded = OneLoaded "'a loaded" "str option" | OneThrew | NullInList

definition loadOneReport :: "int \<Rightarrow> treport fetch_res \<Rightarrow> treport loaded \<Rightarrow> treport one_loaded" where
  "loadOneReport number res all =
     (if all = Refused then OneLoaded Refused None
      else case fr_err res of
        Some e \<Rightarrow>
          if fr_status res \<noteq> Some 403
          then OneLoaded all (Some (lit ''Failed to load report '' @ show_int number @ lit '' '' @ e))
          else if loaded_list all = [] then NullInList else OneThrew
      | None \<Rightarrow>
          (case fr_json res of
             None \<Rightarrow> if loaded_list all = [] then NullInList else OneThrew
           | Some r \<Rightarrow> OneLoaded (Loaded (upsert rt_number r (loaded_list all))) None))"

text \<open>
  \<open>loadAllVisits\<close> with the constant that turns visits off. A refusal marks the reports, not the visits.
\<close>

definition loadAllVisits ::
  "bool \<Rightarrow> tvisit list fetch_res \<Rightarrow> treport loaded \<times> tvisit loaded
     \<Rightarrow> ((treport loaded \<times> tvisit loaded) \<times> str option) option" where
  "loadAllVisits visitsEnabled res both =
     (let (reports, visits) = both in
      if visits = Refused then Some (both, None)
      else if \<not> visitsEnabled then Some ((reports, Loaded []), None)
      else case fr_err res of
        Some e \<Rightarrow>
          if fr_status res = Some 403 then Some ((Refused, visits), None)
          else Some (both, Some (lit ''Failed to load visits: '' @ e))
      | None \<Rightarrow>
          (case fr_json res of
             None \<Rightarrow> None
           | Some xs \<Rightarrow> Some ((reports, Loaded (js_sort (by_number vt_number) xs)), None)))"

definition attached_to :: "('a \<Rightarrow> int option) \<Rightarrow> path_ids \<Rightarrow> 'a loaded \<Rightarrow> 'a list option \<Rightarrow> 'a list option" where
  "attached_to inc ids all before =
     (case path_incidentNumber ids of
        None \<Rightarrow> before
      | Some n \<Rightarrow> Some (filter (\<lambda>x. inc x = Some n) (loaded_list all)))"

definition loadAttachedReports :: "path_ids \<Rightarrow> treport loaded \<Rightarrow> treport list option \<Rightarrow> treport list option" where
  "loadAttachedReports = attached_to rt_incident"

definition loadAttachedVisits :: "path_ids \<Rightarrow> tvisit loaded \<Rightarrow> tvisit list option \<Rightarrow> tvisit list option" where
  "loadAttachedVisits = attached_to vt_incident"

definition report_text :: "treport \<Rightarrow> str option" where
  "report_text r = reportAsString (rt_number r) (rt_summary r) (nullish (rt_entries r) [])"

definition visit_text :: "tvisit \<Rightarrow> str" where
  "visit_text v = visitAsString (vt_number v) (vt_guestName v) (vt_guestHandle v) (vt_guestLegalName v)"

text \<open>The menu of what can be attached: the group of the unattached, and that of what is attached elsewhere.\<close>

datatype attachable = AttachReport int | AttachVisit int

definition unattached :: "('a \<Rightarrow> int option) \<Rightarrow> 'a list \<Rightarrow> 'a list" where
  "unattached inc xs = filter (\<lambda>x. inc x = None) xs"

definition attached_elsewhere :: "('a \<Rightarrow> int option) \<Rightarrow> path_ids \<Rightarrow> 'a list \<Rightarrow> 'a list" where
  "attached_elsewhere inc ids xs = filter (\<lambda>x. inc x \<noteq> None \<and> inc x \<noteq> path_incidentNumber ids) xs"

fun option_value :: "attachable \<Rightarrow> str" where
  "option_value (AttachReport n) = lit ''R#'' @ show_int n"
| "option_value (AttachVisit n) = lit ''VS#'' @ show_int n"

definition drawReportsToAttach ::
  "path_ids \<Rightarrow> treport loaded \<Rightarrow> tvisit loaded \<Rightarrow> attachable list \<times> attachable list" where
  "drawReportsToAttach ids reports visits =
     (let rs = loaded_list reports; vs = loaded_list visits;
          report = (\<lambda>r. AttachReport (nullish (rt_number r) 0)); visit = (\<lambda>v. AttachVisit (nullish (vt_number v) 0))
      in (map report (unattached rt_incident rs) @ map visit (unattached vt_incident vs),
          map report (attached_elsewhere rt_incident ids rs) @ map visit (attached_elsewhere vt_incident ids vs)))"

text \<open>What a choice in the menu asks for, and what taking an item off the list asks for.\<close>

datatype attach_ask =
    ReportAction str bool "int option"
  | VisitIncident str "int option" "int option"
  | AskNothing

definition attach_value :: "path_ids \<Rightarrow> str \<Rightarrow> attach_ask" where
  "attach_value ids value =
     (if starts_with value (lit ''R#'') then ReportAction (drop 2 value) True (path_incidentNumber ids)
      else if starts_with value (lit ''VS#'')
      then VisitIncident (drop 3 value) (parseInt10 (Some (drop 3 value))) (path_incidentNumber ids)
      else AskNothing)"

definition detachReport :: "path_ids \<Rightarrow> str option \<Rightarrow> str option \<Rightarrow> attach_ask" where
  "detachReport ids reportNumber visitNumber =
     (case nonempty reportNumber of
        Some r \<Rightarrow> ReportAction r False (path_incidentNumber ids)
      | None \<Rightarrow>
          (case nonempty visitNumber of
             Some v \<Rightarrow> VisitIncident v (parseInt10 (Some v)) (Some 0)
           | None \<Rightarrow> AskNothing))"

section \<open>The title and the plain fields\<close>

definition replace_all :: "nat \<Rightarrow> str \<Rightarrow> str \<Rightarrow> str" where
  "replace_all c r s = concat (map (\<lambda>x. if x = c then r else [x]) s)"

definition strip_dashes :: "str \<Rightarrow> str" where
  "strip_dashes s = rev (dropWhile (\<lambda>c. c = 45) (rev (dropWhile (\<lambda>c. c = 45) s)))"

definition file_safe :: "str \<Rightarrow> str" where
  "file_safe s =
     strip_dashes (replace_all 36 [] (replace_all 33 [45] (replace_all 59 [45] (replace_all 58 [45]
       (replace_all 32 [45] (replace_all 10 [45] (replace_all 35 [45] s)))))))"

definition null_text :: "str option \<Rightarrow> str" where
  "null_text s = nullish s (lit ''null'')"

definition drawIncidentTitle :: "path_ids \<Rightarrow> bool \<Rightarrow> tincident \<Rightarrow> str option" where
  "drawIncidentTitle ids printing i =
     (let entries = nullish (ti_entries i) [] in
      if printing \<and> nullish (ti_number i) 0 \<noteq> 0
      then map_option (\<lambda>s. lit ''IMS-'' @ null_text (path_eventName ids) @ lit ''-'' @ show_int (nullish (ti_number i) 0) @
             lit ''_'' @ file_safe s)
             (summarizeIncidentOrReport (ti_summary i) entries)
      else map_option (\<lambda>s. s @ (case path_eventName ids of None \<Rightarrow> [] | Some e \<Rightarrow> lit '' | '' @ e))
             (incidentAsString (ti_number i) (ti_summary i) entries))"

definition drawIncidentNumber :: "tincident \<Rightarrow> str" where
  "drawIncidentNumber i = (case ti_number i of None \<Rightarrow> lit ''(new)'' | Some n \<Rightarrow> show_int n)"

text \<open>The label of the state, and which of the two buttons is shown: closing, opening again.\<close>

definition drawState :: "incident_access \<Rightarrow> tincident \<Rightarrow> str \<times> bool \<times> bool" where
  "drawState a i =
     (let state = stateForIncident (ti_state i); closed = (state = lit ''closed'')
      in (stateNameFromID state, \<not> closed \<and> ia_write a, closed \<and> ia_write a))"

record outcome =
  ou_id :: "int option"
  ou_name :: "str option"
  ou_hidden :: "bool option"

definition drawOutcomesToSelect :: "outcome list \<Rightarrow> tincident \<Rightarrow> (str \<times> str) list" where
  "drawOutcomesToSelect outcomes i =
     map (\<lambda>o'. (id_text (ou_id o'), nullish (ou_name o') []))
       (filter (\<lambda>o'. \<not> (flag (ou_hidden o') \<and> ou_id o' \<noteq> ti_outcome i)) outcomes)"

definition drawOutcome :: "outcome list \<Rightarrow> tincident \<Rightarrow> str option" where
  "drawOutcome outcomes i =
     (let wanted = id_text (ti_outcome i); options = [] # map fst (drawOutcomesToSelect outcomes i)
      in if wanted \<in> set options then Some wanted else None)"

definition mayEditPrivacy :: "incident_access \<Rightarrow> tincident \<Rightarrow> bool" where
  "mayEditPrivacy a i \<longleftrightarrow>
     ia_write a \<and> (ia_admin a \<or>
       (case Option.bind (ti_creator i) fst of None \<Rightarrow> False | Some c \<Rightarrow> ia_person a = Some c))"

text \<open>The box of the privacy: checked, disabled, and whether the lock is shown.\<close>

definition drawPrivate :: "incident_access \<Rightarrow> tincident \<Rightarrow> bool \<times> bool \<times> bool" where
  "drawPrivate a i = (flag (ti_private i), \<not> mayEditPrivacy a i, flag (ti_private i))"

definition drawCreatedBy :: "tincident \<Rightarrow> str" where
  "drawCreatedBy i =
     (case ti_creator i of None \<Rightarrow> [8212] | Some (pid, name, handle) \<Rightarrow> personDisplayLabel name handle)"

definition drawIncidentSummary :: "tincident \<Rightarrow> str option \<times> str" where
  "drawIncidentSummary i =
     (case nonempty (ti_summary i) of
        Some s \<Rightarrow> (Some s, [])
      | None \<Rightarrow> (summarizeIncidentOrReport (ti_summary i) (nullish (ti_entries i) []), lit ''One-line summary of incident''))"

text \<open>The two free fields of the location are written over only by a text that is not empty.\<close>

definition draw_location_text :: "(tlocation \<Rightarrow> str option) \<Rightarrow> tincident \<Rightarrow> str \<Rightarrow> str" where
  "draw_location_text field i shown = or_str (Option.bind (ti_location i) field) shown"

definition drawLocationBooth :: "tincident \<Rightarrow> str \<Rightarrow> str" where
  "drawLocationBooth = draw_location_text tl_booth"

definition drawLocationDescription :: "tincident \<Rightarrow> str \<Rightarrow> str" where
  "drawLocationDescription = draw_location_text tl_description"

lemma cleared_location_stays:
  assumes "nonempty (Option.bind (ti_location i) tl_booth) = None"
    and "nonempty (Option.bind (ti_location i) tl_description) = None"
  shows "drawLocationBooth i shown = shown" and "drawLocationDescription i shown' = shown'"
  using assms
  by (cases "Option.bind (ti_location i) tl_booth"; cases "Option.bind (ti_location i) tl_description";
      auto simp: drawLocationBooth_def drawLocationDescription_def draw_location_text_def or_str_if split: if_splits)+

text \<open>
  Closing an incident that has no type warns and closes it all the same; \<open>markClosed\<close> answers whether it
  warned and the state it sends.
\<close>

definition markClosed :: "tincident \<Rightarrow> bool \<times> json" where
  "markClosed i = (nullish (ti_types i) [] = [], editValue (lit ''state'') (JStr (lit ''closed'')))"

definition reopenIncident :: json where
  "reopenIncident = editValue (lit ''state'') (JStr (lit ''open''))"

lemma closes_without_type: "ti_types i = None \<Longrightarrow> markClosed i = (True, snd (markClosed i)) \<and>
    at_path (snd (markClosed i)) [lit ''state''] = Some (JStr (lit ''closed''))"
  by (simp add: markClosed_def editValue_def edit_value_def obj_get_def)

definition num_or_null :: "int option \<Rightarrow> json" where
  "num_or_null n = (case n of None \<Rightarrow> JNull | Some i \<Rightarrow> JNum i)"

definition editPriority :: "str \<Rightarrow> json option" where
  "editPriority raw = editFromElement (lit ''priority'') (Some (\<lambda>v. Some (num_or_null (parseInt10 (Some v))))) raw"

definition editOutcome :: "str \<Rightarrow> json option" where
  "editOutcome raw =
     editFromElement (lit ''outcome_id'') (Some (\<lambda>v. Some (if v = [] then JNum 0 else num_or_null (parseInt10 (Some v))))) raw"

definition editIncidentSummary :: "str \<Rightarrow> json option" where
  "editIncidentSummary raw = editFromElement (lit ''summary'') None raw"

definition editLocationBooth :: "str \<Rightarrow> json option" where
  "editLocationBooth raw = editFromElement (lit ''location.booth'') None raw"

definition editLocationDescription :: "str \<Rightarrow> json option" where
  "editLocationDescription raw = editFromElement (lit ''location.description'') None raw"

text \<open>The box after the answer to a change of the privacy: what was stored when it was refused.\<close>

definition editPrivate :: "bool \<Rightarrow> json" where
  "editPrivate checked = editValue (lit ''private'') (JBool checked)"

definition private_answered :: "str option \<Rightarrow> tincident option \<Rightarrow> bool \<Rightarrow> bool" where
  "private_answered err i checked =
     (if err = None then checked else flag (Option.bind i ti_private))"

text \<open>The start: the milliseconds picked against those of the incident, that of an absent one being zero.\<close>

definition setStartDatetime :: "(int \<Rightarrow> str) \<Rightarrow> int option \<Rightarrow> int option \<Rightarrow> json option" where
  "setStartDatetime to_iso started picked =
     (case picked of
        None \<Rightarrow> None
      | Some new \<Rightarrow>
          if new = nullish started 0 then None
          else Some (editValue (lit ''started'') (JStr (to_iso new))))"

section \<open>People on the incident\<close>

text \<open>A row: whom, the involvement in its box, the grant as it is kept, and what is offered for it.\<close>

datatype grant_offer = NoGrantOffer | HasAccessHint | GrantBox bool

record person_row =
  pw_id :: int
  pw_label :: str
  pw_involvement :: str
  pw_granted :: bool
  pw_offer :: grant_offer

definition person_in_label :: "incident_person \<Rightarrow> str" where
  "person_in_label p = personDisplayLabel (in_name p) (in_handle p)"

definition row_of_person :: "incident_access \<Rightarrow> incident_person \<Rightarrow> person_row option" where
  "row_of_person a p =
     map_option (\<lambda>i. \<lparr>pw_id = i, pw_label = person_in_label p, pw_involvement = nullish (in_involvement p) [],
         pw_granted = flag (in_granted p),
         pw_offer =
           (if nonempty (in_handle p) = None \<or> \<not> ia_write a then NoGrantOffer
            else if flag (in_hasAccess p) then HasAccessHint
            else GrantBox (flag (in_granted p)))\<rparr>) (in_id p)"

definition drawPeople :: "host \<Rightarrow> incident_access \<Rightarrow> tincident \<Rightarrow> person_row list" where
  "drawPeople h a i =
     List.map_filter (row_of_person a)
       (js_sort (\<lambda>x y. locale_compare h (person_in_label x) (person_in_label y)) (nullish (ti_people i) []))"

text \<open>The attaching request replaces the whole row of the server: both parts are always sent.\<close>

record person_write =
  pt_involvement :: str
  pt_granted :: bool

definition OTHER_OPTION_LABEL :: str where "OTHER_OPTION_LABEL = lit ''Other''"

definition normalize :: "host \<Rightarrow> str \<Rightarrow> str" where
  "normalize h s = trim (lower h s)"

text \<open>The text committed in the box of a row: \<open>None\<close> when it only clears the box for a text of one's own.\<close>

definition setPersonInvolvement :: "host \<Rightarrow> str \<Rightarrow> person_row \<Rightarrow> person_row \<times> person_write option" where
  "setPersonInvolvement h value r =
     (if normalize h value = normalize h OTHER_OPTION_LABEL then (r\<lparr>pw_involvement := []\<rparr>, None)
      else (r\<lparr>pw_involvement := value\<rparr>, Some \<lparr>pt_involvement = value, pt_granted = pw_granted r\<rparr>))"

text \<open>A click on the box of the grant, which flips it, and the answer to the question that is asked first.\<close>

definition setPersonGrant :: "bool \<Rightarrow> person_row \<Rightarrow> person_row \<times> person_write option" where
  "setPersonGrant confirmed r =
     (case pw_offer r of
        GrantBox checked \<Rightarrow>
          if confirmed
          then (r\<lparr>pw_offer := GrantBox (\<not> checked)\<rparr>,
                Some \<lparr>pt_involvement = pw_involvement r, pt_granted = \<not> checked\<rparr>)
          else (r, None)
      | _ \<Rightarrow> (r, None))"

definition grant_answered :: "str option \<Rightarrow> person_row \<Rightarrow> person_row" where
  "grant_answered err r =
     (case pw_offer r of
        GrantBox checked \<Rightarrow>
          if err \<noteq> None then r\<lparr>pw_offer := GrantBox (\<not> checked)\<rparr> else r\<lparr>pw_granted := checked\<rparr>
      | _ \<Rightarrow> r)"

section \<open>Types\<close>

text \<open>The types on the incident, in the order of all types, and whether the marker for a missing one is shown.\<close>

definition drawIncidentTypes :: "itype list \<Rightarrow> tincident \<Rightarrow> (int \<times> str) list \<times> bool" where
  "drawIncidentTypes types i =
     (let ids = nullish (ti_types i) [] in
      (map (\<lambda>t. (nullish (it_id t) (-1), nullish (it_name t) []))
         (filter (\<lambda>t. nullish (it_id t) (-1) \<in> set ids) types),
       ids = []))"

definition named_like :: "host \<Rightarrow> str \<Rightarrow> itype \<Rightarrow> bool" where
  "named_like h key t \<longleftrightarrow>
     \<not> flag (it_hidden t) \<and>
     (case nonempty (it_name t) of None \<Rightarrow> False | Some name \<Rightarrow> normalize h name = key)"

definition drawIncidentTypesToAdd :: "host \<Rightarrow> itype list \<Rightarrow> str list" where
  "drawIncidentTypesToAdd h types =
     map (\<lambda>t. nullish (it_name t) [])
       (js_sort (\<lambda>a b. locale_compare h (nullish (it_name a) []) (nullish (it_name b) []))
         (filter (\<lambda>t. \<not> flag (it_hidden t) \<and> nonempty (it_name t) \<noteq> None \<and>
             \<not> named_like h (normalize h OTHER_OPTION_LABEL) t) types))"

text \<open>The last suggestion of a list: its value and its label.\<close>

definition refreshOtherSuggestion :: "str \<Rightarrow> (str \<Rightarrow> bool) \<Rightarrow> str \<times> str" where
  "refreshOtherSuggestion value hasExactMatch =
     (let typed = trim value in
      if typed = [] \<or> hasExactMatch typed then (OTHER_OPTION_LABEL, []) else (typed, OTHER_OPTION_LABEL))"

definition refreshTypeOtherSuggestion :: "host \<Rightarrow> itype list \<Rightarrow> str \<Rightarrow> str \<times> str" where
  "refreshTypeOtherSuggestion h types value =
     refreshOtherSuggestion value (\<lambda>typed. list_ex (named_like h (normalize h typed)) types)"

text \<open>What a committed text does: nothing, prompt for a text of one's own, attach a type, or offer to propose one.\<close>

datatype type_commit = TypeCleared | TypePrompt | TypeAttach "int option" | TypeOffer str

definition addIncidentType :: "host \<Rightarrow> bool \<Rightarrow> itype list \<Rightarrow> str \<Rightarrow> type_commit" where
  "addIncidentType h write types value =
     (let typed = trim value; key = normalize h typed in
      if key = [] then TypeCleared
      else if key = normalize h OTHER_OPTION_LABEL then TypePrompt
      else case List.find (named_like h key) types of
        Some match \<Rightarrow> TypeAttach (it_id match)
      | None \<Rightarrow> if \<not> write then TypeCleared else TypeOffer typed)"

definition types_edit :: "int list \<Rightarrow> json" where
  "types_edit ids = JObj [(lit ''incident_type_ids'', JArr (map JNum ids))]"

definition addIncidentTypeById :: "tincident \<Rightarrow> int option \<Rightarrow> int list option" where
  "addIncidentTypeById i wanted =
     (let current = nullish (ti_types i) [] in
      case wanted of
        None \<Rightarrow> None
      | Some t \<Rightarrow> if t \<in> set current then None else Some (current @ [t]))"

definition removeIncidentType :: "tincident \<Rightarrow> int option \<Rightarrow> int list" where
  "removeIncidentType i gone = filter (\<lambda>t. Some t \<noteq> gone) (nullish (ti_types i) [])"

text \<open>A proposed type: the name sent, and the types afterwards with the one to attach.\<close>

definition proposeIncidentType :: "str \<Rightarrow> str option" where
  "proposeIncidentType pending = (if trim pending = [] then None else Some (trim pending))"

definition propose_answered ::
  "host \<Rightarrow> str \<Rightarrow> str option \<Rightarrow> str option \<Rightarrow> itype list \<Rightarrow> itype list \<times> int option" where
  "propose_answered h name err header types =
     (case (err, parseInt10 header) of
        (None, Some n) \<Rightarrow>
          (if list_ex (\<lambda>t. it_id t = Some n) types then types
           else js_sort (compareIncidentTypesByGroup h)
             (types @ [\<lparr>it_id = Some n, it_name = Some name, it_hidden = Some False, it_group = None\<rparr>]),
           Some n)
      | _ \<Rightarrow> (types, None))"

text \<open>The list of types with a heading before each group.\<close>

fun type_info :: "str option option \<Rightarrow> itype list \<Rightarrow> (str + itype) list" where
  "type_info lastGroup [] = []"
| "type_info lastGroup (t # ts) =
     (if flag (it_hidden t) then type_info lastGroup ts
      else if lastGroup \<noteq> Some (it_group t)
      then Inl (incidentTypeGroupName (it_group t)) # Inr t # type_info (Some (it_group t)) ts
      else Inr t # type_info lastGroup ts)"

definition drawIncidentTypeInfo :: "itype list \<Rightarrow> (str + itype) list" where
  "drawIncidentTypeInfo = type_info None"

lemma type_info_shows: "[t. Inr t \<leftarrow> type_info g types] = filter (\<lambda>t. \<not> flag (it_hidden t)) types"
  by (induction g types rule: type_info.induct) simp_all

section \<open>Areas\<close>

record area =
  ar_slug :: "str option"
  ar_name :: "str option"
  ar_sort :: "int option"

definition areaByName :: "host \<Rightarrow> area list \<Rightarrow> str \<Rightarrow> area option" where
  "areaByName h areas name =
     List.find (\<lambda>a. lower h (trim (nullish (ar_name a) [])) = lower h (trim name)) areas"

definition drawAreaOptions :: "host \<Rightarrow> area list \<Rightarrow> str list" where
  "drawAreaOptions h areas =
     map (\<lambda>a. nullish (ar_name a) [])
       (js_sort (\<lambda>a b. locale_compare h (nullish (ar_name a) []) (nullish (ar_name b) [])) areas)"

definition drawLocationArea :: "area list \<Rightarrow> tincident \<Rightarrow> str" where
  "drawLocationArea areas i =
     (case nonempty (Option.bind (ti_location i) tl_area) of
        None \<Rightarrow> []
      | Some slug \<Rightarrow> nullish (Option.bind (List.find (\<lambda>a. ar_slug a = Some slug) areas) ar_name) [])"

text \<open>The slug to send with the text the field is set to, a prompt, or the offer to create an area.\<close>

datatype area_commit = AreaSend str str | AreaPrompt | AreaOffer str

definition editLocationArea :: "host \<Rightarrow> area list \<Rightarrow> str \<Rightarrow> area_commit" where
  "editLocationArea h areas value =
     (let typed = trim value in
      if typed = [] then AreaSend [] value
      else if normalize h typed = normalize h OTHER_OPTION_LABEL then AreaPrompt
      else case areaByName h areas typed of
        Some match \<Rightarrow> AreaSend (nullish (ar_slug match) []) (nullish (ar_name match) [])
      | None \<Rightarrow> AreaOffer typed)"

definition sendAreaSlug :: "str \<Rightarrow> json" where
  "sendAreaSlug slug = JObj [(lit ''location'', JObj [(lit ''area_slug'', JStr slug)])]"

definition createLocationArea :: "area list \<Rightarrow> str \<Rightarrow> (str \<times> int) option" where
  "createLocationArea areas pending =
     (let name = trim pending; maxSort = foldl (\<lambda>m a. max m (nullish (ar_sort a) 0)) (-1) areas
      in if name = [] then None else Some (name, maxSort + 1))"

text \<open>
  After the creation: a message, or the text of the field and the slug to send; the areas are loaded again first.
\<close>

definition area_answered :: "str \<Rightarrow> str option \<Rightarrow> str option \<Rightarrow> area list \<Rightarrow> str + str \<times> str" where
  "area_answered name err slug reloaded =
     (case err of
        Some e \<Rightarrow> Inl (lit ''Failed to create area: '' @ e)
      | None \<Rightarrow>
          (case nonempty slug of
             None \<Rightarrow> Inl (lit ''Area was created but no slug was returned.'')
           | Some s \<Rightarrow>
               Inr (nullish (Option.bind (List.find (\<lambda>a. ar_slug a = Some s) reloaded) ar_name) name, s)))"

lemma foldl_max: "(m :: int) \<le> foldl (\<lambda>m a. max m (f a)) m xs \<and> (\<forall>a \<in> set xs. f a \<le> foldl (\<lambda>m a. max m (f a)) m xs)"
proof (induction xs arbitrary: m)
  case (Cons a xs)
  from Cons [of "max m (f a)"] show ?case by simp
qed simp

lemma new_area_is_last:
  "createLocationArea areas pending = Some (name, k) \<Longrightarrow> a \<in> set areas \<Longrightarrow> nullish (ar_sort a) 0 < k \<and> 0 \<le> k"
  using foldl_max [of "-1" "\<lambda>a. nullish (ar_sort a) 0" areas]
  by (force simp: createLocationArea_def Let_def split: if_splits)

section \<open>Links to other incidents\<close>

definition compare_linked :: "host \<Rightarrow> linked_incident \<Rightarrow> linked_incident \<Rightarrow> int" where
  "compare_linked h a b =
     (let na = nullish (ln_eventName a) []; nb = nullish (ln_eventName b) [] in
      if nb = na then nullish (ln_number a) 0 - nullish (ln_number b) 0 else locale_compare h na nb)"

definition linked_text :: "linked_incident \<Rightarrow> str" where
  "linked_text l =
     lit ''IMS '' @ nullish (ln_eventName l) [] @ lit '' #'' @
     (case ln_number l of None \<Rightarrow> lit ''undefined'' | Some n \<Rightarrow> show_int n) @
     (case nonempty (ln_summary l) of None \<Rightarrow> [] | Some s \<Rightarrow> lit '': '' @ s)"

definition linked_href :: "linked_incident \<Rightarrow> str" where
  "linked_href l =
     js_replace (js_replace url_viewIncidentNumber EVENT_ID (nullish (ln_eventName l) []))
       (lit ''<number>'') (id_text (ln_number l))"

definition drawLinkedIncidents :: "host \<Rightarrow> tincident \<Rightarrow> (str \<times> str) list" where
  "drawLinkedIncidents h i =
     map (\<lambda>l. (linked_href l, linked_text l)) (js_sort (compare_linked h) (nullish (ti_linked i) []))"

text \<open>A link without an event or a number is never the one that is taken off.\<close>

definition unlinkIncident :: "tincident \<Rightarrow> str option \<Rightarrow> str option \<Rightarrow> linked_incident list" where
  "unlinkIncident i eventId number =
     (let e = parseInt10 eventId; n = parseInt10 number in
      filter (\<lambda>l. \<not> (e \<noteq> None \<and> n \<noteq> None \<and> ln_eventId l = e \<and> ln_number l = n)) (nullish (ti_linked i) []))"

datatype link_problem = BadFormat str | NoSuchEvent str | NoOtherIncident

fun link_message :: "link_problem \<Rightarrow> str" where
  "link_message (BadFormat piece) = lit ''Invalid format for linked incident. Got '' @ [39] @ piece @ [39]"
| "link_message (NoSuchEvent name) =
     lit ''There is no Event for name '' @ [39] @ name @ [39] @ lit '' or you'' @ [39] @ lit ''re not may not be authorized to access it''"
| "link_message NoOtherIncident = lit ''No valid other incidents were provided for linking''"

text \<open>One piece between commas: the event and the number it names, or the problem.\<close>

definition link_piece :: "EventData list \<Rightarrow> int \<Rightarrow> str \<Rightarrow> link_problem + int option \<times> int option" where
  "link_piece events current raw =
     (let t = trim raw; piece = strip_hash t in
      case find_index (\<lambda>c. c = 35) piece of
        None \<Rightarrow> Inr (Some current, parseInt10 (Some (trim piece)))
      | Some 0 \<Rightarrow> Inr (Some current, None)
      | Some (Suc k) \<Rightarrow>
          (let pair = split_on 35 piece; eventName = trim (hd pair) in
           if eventName = [] then Inl (BadFormat piece)
           else case Option.bind (List.find (\<lambda>e. ed_name e = eventName) events) (\<lambda>e. if ed_id e = 0 then None else Some (ed_id e)) of
             None \<Rightarrow> Inl (NoSuchEvent eventName)
           | Some e \<Rightarrow> Inr (Some e, parseInt10 (Some (trim (nullish (nth_opt pair 1) []))))))"

definition linked_to :: "int option \<times> int option \<Rightarrow> linked_incident" where
  "linked_to target = \<lparr>ln_eventId = fst target, ln_eventName = None, ln_number = snd target, ln_summary = None\<rparr>"

fun link_pieces ::
  "EventData list \<Rightarrow> int \<Rightarrow> int option \<Rightarrow> str list \<Rightarrow> linked_incident list \<Rightarrow> bool
     \<Rightarrow> link_problem + linked_incident list \<times> bool" where
  "link_pieces events current own [] acc changed = Inr (acc, changed)"
| "link_pieces events current own (raw # rest) acc changed =
     (case link_piece events current raw of
        Inl problem \<Rightarrow> Inl problem
      | Inr target \<Rightarrow>
          if target = (Some current, own) then link_pieces events current own rest acc changed
          else link_pieces events current own rest (acc @ [linked_to target]) True)"

definition linkIncident :: "EventData list \<Rightarrow> int \<Rightarrow> tincident \<Rightarrow> str \<Rightarrow> link_problem + linked_incident list" where
  "linkIncident events current i value =
     (case link_pieces events current (ti_number i) (split_on 44 (trim value)) (nullish (ti_linked i) []) False of
        Inl problem \<Rightarrow> Inl problem
      | Inr (links, changed) \<Rightarrow> if changed then Inr links else Inl NoOtherIncident)"

text \<open>A text that names no incident at all is sent as a link without a number.\<close>

lemma garbage_is_linked:
  "ti_number i = Some n \<Longrightarrow> linkIncident events current i (lit ''xyz'') =
     Inr (nullish (ti_linked i) [] @ [linked_to (Some current, None)])"
  by (simp add: linkIncident_def link_piece_def trim_def is_ws_def strip_hash_def parseInt10_def parse_int_def
      parse_digits_def is_digit_def)

section \<open>The journal\<close>

definition with_origin :: "(tentry \<Rightarrow> tentry) \<Rightarrow> tentry list option \<Rightarrow> tentry list" where
  "with_origin f es = map f (nullish es [])"

definition drawMergedJournalEntries :: "tincident \<Rightarrow> treport list option \<Rightarrow> tvisit list option \<Rightarrow> tentry list" where
  "drawMergedJournalEntries i reports visits =
     js_sort compareJournalEntries
       (nullish (ti_entries i) [] @
        concat (map (\<lambda>r. with_origin (\<lambda>e. e\<lparr>te_reportNum := rt_number r\<rparr>) (rt_entries r)) (nullish reports [])) @
        concat (map (\<lambda>v. with_origin (\<lambda>e. e\<lparr>te_visitNum := vt_number v\<rparr>) (vt_entries v)) (nullish visits [])))"

definition journal_context :: "area list \<Rightarrow> tincident \<Rightarrow> render_context" where
  "journal_context areas i =
     \<lparr>rc_areaSlugToName =
        foldl (\<lambda>m a. case nonempty (ar_slug a) of None \<Rightarrow> m | Some s \<Rightarrow> m(s := Some (nullish (ar_name a) s))) (\<lambda>s. None) areas,
      rc_incidentSummaries =
        foldl (\<lambda>m l. case (ln_number l, nonempty (ln_summary l)) of (Some n, Some s) \<Rightarrow> m(n := Some s) | _ \<Rightarrow> m)
          (\<lambda>n. None) (nullish (ti_linked i) [])\<rparr>"

section \<open>Broadcasts, keys, files\<close>

datatype page_news = IncidentNews bool "int option" "int option" | ReportNews bool "int option" "int option"
  | VisitNews bool "int option" "int option"

datatype reload = ReloadIncident | ReloadVisits | ReloadReports | ReloadReport int | ReloadVisit int

text \<open>Each message: whether it says to update all, the event, the number.\<close>

fun page_reloads :: "path_ids \<Rightarrow> page_news \<Rightarrow> reload list" where
  "page_reloads ids (IncidentNews updateAll event number) =
     (if updateAll \<or> event = path_eventId ids \<and> number = path_incidentNumber ids
      then [ReloadIncident, ReloadVisits, ReloadReports] else [])"
| "page_reloads ids (ReportNews updateAll event number) =
     (if updateAll then [ReloadReports]
      else if event = path_eventId ids then [ReloadReport (nullish number 0)] else [])"
| "page_reloads ids (VisitNews updateAll event number) =
     (if updateAll then [ReloadVisits]
      else if event = path_eventId ids then [ReloadVisit (nullish number 0)] else [])"

datatype page_key = HelpToggle | FocusJournal | ToggleHistory | OpenNew

definition incident_keydown :: "host \<Rightarrow> bool \<Rightarrow> bool \<Rightarrow> str \<Rightarrow> page_key option" where
  "incident_keydown h fieldActive withModifier key =
     (if fieldActive \<or> withModifier then None
      else if key = lit ''?'' then Some HelpToggle
      else if key = lit ''a'' then Some FocusJournal
      else if lower h key = lit ''h'' then Some ToggleHistory
      else if lower h key = lit ''n'' then Some OpenNew
      else None)"

text \<open>The attach button: its label, whether it is disabled, and whether the revert of the label is pending.\<close>

record attach_button =
  ab_label :: str
  ab_disabled :: bool
  ab_revert :: bool

definition attach_started :: "attach_button \<Rightarrow> attach_button" where
  "attach_started b = b\<lparr>ab_label := lit ''Uploading...'', ab_disabled := True, ab_revert := False\<rparr>"

definition attach_answered :: "str option \<Rightarrow> attach_button \<Rightarrow> attach_button" where
  "attach_answered err b =
     (if err \<noteq> None then b\<lparr>ab_label := lit ''Attach file'', ab_disabled := False\<rparr>
      else b\<lparr>ab_label := lit ''Uploaded '' @ [10003], ab_disabled := False, ab_revert := True\<rparr>)"

definition attach_reverted :: "attach_button \<Rightarrow> attach_button" where
  "attach_reverted b = (if ab_revert b then b\<lparr>ab_label := lit ''Attach file'', ab_revert := False\<rparr> else b)"

section \<open>The lists kept up by broadcasts\<close>

definition number_key :: "('a \<Rightarrow> int option) \<Rightarrow> 'a \<Rightarrow> int" where
  "number_key num x = nullish (num x) (-1)"

interpretation newest_number: comparison "by_number num" for num :: "'a \<Rightarrow> int option"
  by unfold_locales (auto simp: by_number_def)

lemma by_number_sorted:
  "sorted_wrt (\<lambda>a b. by_number num a b \<le> 0) xs \<longleftrightarrow> sorted_wrt (\<ge>) (map (number_key num) xs)"
  by (simp add: sorted_wrt_map by_number_def number_key_def)

lemma upsert_keys:
  assumes "list_ex (\<lambda>y. num y = num x) xs"
  shows "map num (upsert num x xs) = map num xs"
  using assms by (simp add: upsert_def)

definition numbered_list :: "('a \<Rightarrow> int option) \<Rightarrow> 'a list \<Rightarrow> bool" where
  "numbered_list num xs \<longleftrightarrow> sorted_wrt (\<ge>) (map (number_key num) xs) \<and> distinct (map num xs) \<and> None \<notin> num ` set xs"

definition by_number_map :: "('a \<Rightarrow> int option) \<Rightarrow> 'a list \<Rightarrow> int \<Rightarrow> 'a option" where
  "by_number_map num xs n = List.find (\<lambda>x. num x = Some n) xs"

lemma numbered_sort:
  "distinct (map num xs) \<Longrightarrow> None \<notin> num ` set xs \<Longrightarrow> numbered_list num (js_sort (by_number num) xs)"
  using newest_number.sorted_js_sort [of num xs]
    mset_eq_imp_distinct_iff [of "map num (js_sort (by_number num) xs)" "map num xs"]
  by (simp add: numbered_list_def flip: by_number_sorted)

lemma find_unique: "distinct (map num xs) \<Longrightarrow> x \<in> set xs \<Longrightarrow> num x = Some n \<Longrightarrow> by_number_map num xs n = Some x"
  using find_by_key [of num xs x] by (simp add: by_number_map_def)

lemma find_absent: "Some n \<notin> num ` set xs \<Longrightarrow> by_number_map num xs n = None"
  by (force simp: by_number_map_def find_None_iff)

lemma map_ext_set:
  assumes "distinct (map num xs)" and "distinct (map num ys)" and "set xs = set ys"
  shows "by_number_map num xs = by_number_map num ys"
proof
  fix n
  show "by_number_map num xs n = by_number_map num ys n"
  proof (cases "Some n \<in> num ` set xs")
    case True
    then obtain x where "x \<in> set xs" "num x = Some n" by auto
    then show ?thesis using find_unique [OF assms(1), of x n] find_unique [OF assms(2), of x n] assms(3) by simp
  next
    case False
    then show ?thesis using find_absent [of n num xs] find_absent [of n num ys] assms(3) by simp
  qed
qed

lemma upsert_refines:
  assumes "numbered_list num xs" and "num x = Some n"
  shows "numbered_list num (upsert num x xs) \<and> by_number_map num (upsert num x xs) = (by_number_map num xs)(n \<mapsto> x)"
proof (cases "list_ex (\<lambda>y. num y = num x) xs")
  case True
  have keys: "map (number_key num) (upsert num x xs) = map (number_key num) xs"
    using True by (auto simp: upsert_def number_key_def)
  have "num ` set (upsert num x xs) = num ` set xs" using upsert_keys [OF True] by (metis set_map)
  then have "numbered_list num (upsert num x xs)"
    using assms(1) by (simp add: numbered_list_def keys upsert_keys [OF True])
  moreover have "by_number_map num (upsert num x xs) m = ((by_number_map num xs)(n \<mapsto> x)) m" for m
    using True assms(2) find_map_upd [of num "Some n" "\<lambda>y. x" "Some m" xs]
    by (cases "List.find (\<lambda>y. num y = Some n) xs")
      (auto simp: upsert_def by_number_map_def find_None_iff list_ex_iff)
  ultimately show ?thesis by blast
next
  case False
  then have new: "Some n \<notin> num ` set xs" using assms(2) by (auto simp: list_ex_iff)
  have ok: "distinct (map num (xs @ [x]))" "None \<notin> num ` set (xs @ [x])"
    using assms new by (auto simp: numbered_list_def)
  have nl: "numbered_list num (upsert num x xs)" using numbered_sort [OF ok] False by (simp add: upsert_def)
  have "by_number_map num (upsert num x xs) = by_number_map num (x # xs)"
    using nl ok False by (intro map_ext_set) (auto simp: numbered_list_def upsert_def)
  also have "\<dots> = (by_number_map num xs)(n \<mapsto> x)" by (auto simp: by_number_map_def assms(2))
  finally show ?thesis using nl by blast
qed

lemma upserts_refine:
  assumes "numbered_list num xs" and "None \<notin> num ` set news"
  shows "numbered_list num (fold (upsert num) news xs) \<and>
    by_number_map num (fold (upsert num) news xs) =
      fold (\<lambda>x m. m(nullish (num x) 0 \<mapsto> x)) news (by_number_map num xs)"
  using assms
proof (induction news arbitrary: xs)
  case (Cons x news)
  then obtain n where "num x = Some n" by (cases "num x") auto
  with Cons upsert_refines [of num xs x n] show ?case by (simp add: fun_upd_def)
qed simp

text \<open>A run of broadcasts, each answered with the report it names.\<close>

definition report_arrived :: "treport \<Rightarrow> treport loaded \<Rightarrow> treport loaded" where
  "report_arrived r all =
     (case loadOneReport (nullish (rt_number r) 0) \<lparr>fr_status = Some 200, fr_json = Some r, fr_err = None\<rparr> all of
        OneLoaded all' err \<Rightarrow> all' | _ \<Rightarrow> all)"

lemma arrivals_upsert: "fold report_arrived news (Loaded xs) = Loaded (fold (upsert rt_number) news xs)"
  by (induction news arbitrary: xs) (simp_all add: report_arrived_def loadOneReport_def)

lemma arrivals_refused: "fold report_arrived news Refused = Refused"
  by (induction news) (simp_all add: report_arrived_def loadOneReport_def)

text \<open>
  The list of reports, loaded once and then kept up one report at a time as the broadcasts come in, is at every
  moment the map of the last answers by number, with the newest number first and no number twice.
\<close>

theorem report_list_refines:
  assumes "fr_err res = None" and "fr_json res = Some answer"
    and "distinct (map rt_number answer)" and "None \<notin> rt_number ` set answer" and "None \<notin> rt_number ` set news"
  shows "\<exists>xs. map_option (\<lambda>(all, err). fold report_arrived news all) (loadAllReports res NotLoaded) = Some (Loaded xs) \<and>
      sorted_wrt (\<ge>) (map (number_key rt_number) xs) \<and> distinct (map rt_number xs) \<and>
      by_number_map rt_number xs =
        fold (\<lambda>x m. m(nullish (rt_number x) 0 \<mapsto> x)) news (by_number_map rt_number answer)"
proof -
  let ?xs = "js_sort (by_number rt_number) answer"
  have nl: "numbered_list rt_number ?xs" by (rule numbered_sort [OF assms(3,4)])
  have "by_number_map rt_number ?xs = by_number_map rt_number answer"
    using nl assms(3) by (intro map_ext_set) (auto simp: numbered_list_def)
  then show ?thesis
    using upserts_refine [OF nl assms(5)] assms(1,2)
    by (simp add: loadAllReports_def numbered_list_def arrivals_upsert)
qed

definition report_no :: "int \<Rightarrow> str \<Rightarrow> treport" where
  "report_no n s = \<lparr>rt_number = Some n, rt_incident = None, rt_summary = Some s, rt_entries = None\<rparr>"

lemma report_list_refines_witness:
  "\<exists>xs. map_option (\<lambda>(all, err). fold report_arrived [report_no 5 [], report_no 2 (lit ''new'')] all)
      (loadAllReports \<lparr>fr_status = Some 200, fr_json = Some [report_no 2 (lit ''old''), report_no 3 []], fr_err = None\<rparr> NotLoaded) =
      Some (Loaded xs) \<and> distinct (map rt_number xs) \<and> by_number_map rt_number xs 2 = Some (report_no 2 (lit ''new''))"
  using report_list_refines [of "\<lparr>fr_status = Some 200, fr_json = Some [report_no 2 (lit ''old''), report_no 3 []], fr_err = None\<rparr>"
      "[report_no 2 (lit ''old''), report_no 3 []]" "[report_no 5 [], report_no 2 (lit ''new'')]"]
  by (auto simp: report_no_def simp del: lit_simps)

text \<open>A report that may not be read ends the handler of its broadcast with an exception instead of being left out.\<close>

lemma refused_report_throws:
  assumes "fr_status res = Some 403" and "fr_err res = Some e" and "all \<noteq> Refused"
  shows "loadOneReport n res all = (if loaded_list all = [] then NullInList else OneThrew)"
  using assms by (simp add: loadOneReport_def)

text \<open>With visits turned on, a viewer who may not read them would lose the reports.\<close>

lemma refused_visits_lose_reports:
  assumes "fr_status res = Some 403" and "fr_err res = Some e" and "visits \<noteq> Refused"
  shows "loadAllVisits True res (reports, visits) = Some ((Refused, visits), None)"
  using assms by (simp add: loadAllVisits_def)

section \<open>Attaching\<close>

lemma three_groups:
  "mset (filter (\<lambda>x. inc x = Some n) xs) + mset (unattached inc xs) +
     mset (filter (\<lambda>x. inc x \<noteq> None \<and> inc x \<noteq> Some n) xs) = mset xs"
  by (induction xs) (auto simp: unattached_def)

text \<open>
  Every report there is stands in exactly one of three places: in the list of those attached to this
  incident, in the menu among those attached to none, or in the menu among those attached elsewhere.
  Choosing it in the menu asks to attach it, and no other, to this incident; taking it off the list asks to detach it from this one.
\<close>

theorem every_report_in_one_place:
  assumes "path_incidentNumber ids = Some n" and "None \<notin> rt_number ` set reports"
    and "drawReportsToAttach ids (Loaded reports) NotLoaded = (unattached_menu, elsewhere_menu)"
    and "loadAttachedReports ids (Loaded reports) before = Some attached"
  shows "mset (map (\<lambda>r. AttachReport (the (rt_number r))) attached) + mset unattached_menu + mset elsewhere_menu =
      mset (map (\<lambda>r. AttachReport (the (rt_number r))) reports) \<and>
    attach_value ids (option_value (AttachReport k)) = ReportAction (show_int k) True (Some n) \<and>
    detachReport ids (Some (show_int k)) v = ReportAction (show_int k) False (Some n)"
proof -
  have key: "AttachReport (nullish (rt_number r) 0) = AttachReport (the (rt_number r))" if "r \<in> set reports" for r
    using assms(2) that by (cases "rt_number r") force+
  have menu: "unattached_menu = map (\<lambda>r. AttachReport (the (rt_number r))) (unattached rt_incident reports)"
      "elsewhere_menu = map (\<lambda>r. AttachReport (the (rt_number r))) (filter (\<lambda>r. rt_incident r \<noteq> None \<and> rt_incident r \<noteq> Some n) reports)"
    using assms(1,3) key
    by (auto simp: drawReportsToAttach_def Let_def unattached_def attached_elsewhere_def)
  have "attached = filter (\<lambda>r. rt_incident r = Some n) reports"
    using assms(1,4) by (simp add: loadAttachedReports_def attached_to_def)
  then have "mset (map (\<lambda>r. AttachReport (the (rt_number r))) attached) + mset unattached_menu + mset elsewhere_menu =
      mset (map (\<lambda>r. AttachReport (the (rt_number r))) reports)"
    using arg_cong [OF three_groups [of rt_incident n reports], of "image_mset (\<lambda>r. AttachReport (the (rt_number r)))"]
    by (simp add: menu)
  moreover have "attach_value ids (option_value (AttachReport k)) = ReportAction (show_int k) True (Some n)"
    by (simp add: attach_value_def starts_with_def assms(1))
  moreover have "detachReport ids (Some (show_int k)) v = ReportAction (show_int k) False (Some n)"
    using show_int_nonempty [of k] by (cases "show_int k") (simp_all add: detachReport_def assms(1))
  ultimately show ?thesis by blast
qed

lemma every_report_in_one_place_witness:
  "mset (map (\<lambda>r. AttachReport (the (rt_number r))) []) + mset [AttachReport 2] + mset [] =
     mset (map (\<lambda>r. AttachReport (the (rt_number r))) [report_no 2 []])"
  using every_report_in_one_place [of "\<lparr>path_eventName = None, path_eventId = None, path_incidentNumber = Some 7,
      path_reportNumber = None, path_visitNumber = None\<rparr>" 7 "[report_no 2 []]" "[AttachReport 2]" "[]" None "[]" 2 None]
  by (simp add: report_no_def drawReportsToAttach_def unattached_def attached_elsewhere_def loadAttachedReports_def attached_to_def)

section \<open>Links, in both clients\<close>

definition event_datas :: "(int \<times> str) list \<Rightarrow> EventData list" where
  "event_datas events = map (\<lambda>(i, name). \<lparr>ed_id = i, ed_name = name\<rparr>) events"

lemma find_event:
  assumes "distinct (map snd events)" and "(i, name) \<in> set events"
  shows "List.find (\<lambda>e. ed_name e = name) (event_datas events) = Some \<lparr>ed_id = i, ed_name = name\<rparr>"
proof -
  have "List.find (\<lambda>e. snd e = name) events = Some (i, name)"
    using find_by_key [OF assms] by simp
  moreover have "List.find (\<lambda>e. ed_name e = name) (event_datas events) =
      map_option (\<lambda>(i, name). \<lparr>ed_id = i, ed_name = name\<rparr>) (List.find (\<lambda>e. snd e = name) events)"
    by (induction events) (auto simp: event_datas_def)
  ultimately show ?thesis by simp
qed

lemma token_chars: "is_token w \<Longrightarrow> c \<in> set w \<Longrightarrow> \<not> is_ws c \<and> c \<noteq> 44"
  by (auto simp: is_token_def is_sep_def)

lemma index_after: "d \<notin> set w \<Longrightarrow> find_index (\<lambda>c. c = d) (w @ d # s) = Some (length w)"
  by (induction w) auto

lemma link_piece_here: "0 \<le> n \<Longrightarrow> link_piece evs this (show_int n) = Inr (Some this, Some n)"
proof -
  assume n: "0 \<le> n"
  then have "find_index (\<lambda>c. c = 35) (show_int n) = None"
    using show_int_pos_digits [OF n] by (fastforce simp: find_index_None is_digit_def)
  then show ?thesis using n by (simp add: link_piece_def strip_hash_show_int parseInt10_def Let_def)
qed

lemma link_piece_there:
  assumes "is_token name" and "35 \<notin> set name" and "0 \<le> n" and "distinct (map snd events)"
    and "(i, name) \<in> set events" and "i \<noteq> 0"
  shows "link_piece (event_datas events) this (name @ [35] @ show_int n) = Inr (Some i, Some n)"
proof -
  have ne: "name \<noteq> []" using assms(1) by (simp add: is_token_def)
  then obtain k where k: "length name = Suc k" by (cases name) auto
  have "is_token (name @ [35] @ show_int n)"
    using assms(1) show_int_token [OF assms(3)] by (auto simp: is_token_def is_sep_def is_ws_def)
  then have t: "trim (name @ 35 # show_int n) = name @ 35 # show_int n" using trim_token by simp
  have h: "strip_hash (name @ 35 # show_int n) = name @ 35 # show_int n"
    using ne assms(2) by (cases name) (auto simp: strip_hash_def)
  have no: "35 \<notin> set (show_int n)"
    using show_int_pos_digits [OF assms(3)] by (fastforce simp: is_digit_def)
  have "split_on 35 (name @ 35 # show_int n) = [name, show_int n]"
    using assms(2) no by (simp add: split_on_append split_on_no_sep)
  then show ?thesis
    using assms ne k
    by (simp add: link_piece_def t h index_after trim_token [OF assms(1)] find_event [OF assms(4,5)] nth_opt_def
        parseInt10_def Let_def)
qed

lemma set_join: "c \<in> set (join sep ws) \<Longrightarrow> c \<in> set sep \<or> (\<exists>w \<in> set ws. c \<in> set w)"
  by (induction sep ws rule: join.induct) auto

lemma trim_join_tokens: "\<forall>w \<in> set ws. is_token w \<Longrightarrow> trim (join [44] ws) = join [44] ws"
proof (rule trim_id)
  assume "\<forall>w \<in> set ws. is_token w"
  then have "\<not> is_ws c" if "c \<in> set (join [44] ws)" for c
    using set_join [OF that] token_chars by (auto simp: is_ws_def)
  then show "join [44] ws = [] \<or> \<not> is_ws (hd (join [44] ws)) \<and> \<not> is_ws (last (join [44] ws))"
    by (metis hd_in_set last_in_set)
qed

lemma link_pieces_read:
  assumes "\<forall>l \<in> set ls. link_piece evs this (g l) = Inr (t l) \<and> t l \<noteq> (Some this, own)"
  shows "link_pieces evs this own (map g ls) acc changed = Inr (acc @ map (\<lambda>l. linked_to (t l)) ls, changed \<or> ls \<noteq> [])"
  using assms by (induction ls arbitrary: acc changed) simp_all

text \<open>
  C37: The two clients read the same links. A list of links, each typed as the number of an incident of this event
  or as the name of another event and a number, joined by commas, is read by both as exactly these links
  in this order; the older one appends them to the ones there are. The names of the events must not
  hold the sign that separates them from the number, and no link may be to the incident itself.
\<close>

theorem both_clients_read_links:
  assumes "ls \<noteq> []" and "\<forall>l \<in> set ls. typeable h events this l"
    and "distinct (map fst events)" and "distinct (map (\<lambda>e. lower h (snd e)) events)"
    and "\<forall>e \<in> set events. fst e \<noteq> 0 \<and> 35 \<notin> set (snd e)"
    and "\<forall>l \<in> set ls. (Some (li_eventId l), Some (li_incidentNumber l)) \<noteq> (Some this, ti_number i)"
    and "text = join [44] (map (link_text events this) ls)"
  shows "parseLinks h text events this = Inr ls \<and>
    linkIncident (event_datas events) this i text =
      Inr (nullish (ti_linked i) [] @ map (\<lambda>l. linked_to (Some (li_eventId l), Some (li_incidentNumber l))) ls)"
proof -
  have names: "distinct (map snd events)"
    using assms(4) by (auto simp: distinct_map inj_on_def)
  have tokens: "\<forall>w \<in> set (map (link_text events this) ls). is_token w"
    using assms(2) link_token_read [OF _ assms(3,4)] by auto
  have "link_piece (event_datas events) this (link_text events this l) = Inr (Some (li_eventId l), Some (li_incidentNumber l))"
    if mem: "l \<in> set ls" for l
  proof (cases "li_eventId l = this")
    case True
    then show ?thesis using bspec [OF assms(2) mem] link_piece_here by (simp add: link_text_def typeable_def)
  next
    case False
    then obtain name where name: "(li_eventId l, name) \<in> set events" "is_token name" "0 \<le> li_incidentNumber l"
      using bspec [OF assms(2) mem] by (auto simp: typeable_def)
    have "map_of events (li_eventId l) = Some name" using name(1) assms(3) by simp
    moreover have "li_eventId l \<noteq> 0" "35 \<notin> set name" using assms(5) name(1) by force+
    ultimately show ?thesis
      using False link_piece_there [OF name(2) _ name(3) names name(1)] by (simp add: link_text_def)
  qed
  then have pieces: "link_pieces (event_datas events) this (ti_number i) (map (link_text events this) ls)
      (nullish (ti_linked i) []) False =
      Inr (nullish (ti_linked i) [] @ map (\<lambda>l. linked_to (Some (li_eventId l), Some (li_incidentNumber l))) ls, True)"
    using link_pieces_read [of ls "event_datas events" this "link_text events this"
        "\<lambda>l. (Some (li_eventId l), Some (li_incidentNumber l))" "ti_number i"] assms(1,6) by simp
  have "44 \<notin> set w" if "w \<in> set (map (link_text events this) ls)" for w
    using tokens that token_chars by blast
  then have "split_on 44 text = map (link_text events this) ls"
    unfolding assms(7) using assms(1) by (intro split_on_join) auto
  moreover have "trim text = text" unfolding assms(7) by (rule trim_join_tokens [OF tokens])
  moreover have "tokens_of text = map (link_text events this) ls"
    unfolding assms(7) by (rule tokens_of_join [OF _ _ tokens]) (simp_all add: is_sep_def)
  ultimately show ?thesis
    using pieces links_loop_read [of ls h events this "link_text events this" "[]"]
      link_token_read [OF _ assms(3,4)] assms(1,2)
    by (simp add: linkIncident_def parseLinks_def Let_def)
qed

lemma both_clients_read_links_witness:
  "linkIncident (event_datas [(4, lit ''Fair''), (9, lit ''Old'')]) 4 (new_tincident\<lparr>ti_number := Some 7\<rparr>)
     (join [44] (map (link_text [(4, lit ''Fair''), (9, lit ''Old'')] 4)
       [\<lparr>li_eventId = 4, li_incidentNumber = 12\<rparr>, \<lparr>li_eventId = 9, li_incidentNumber = 3\<rparr>])) =
   Inr [linked_to (Some 4, Some 12), linked_to (Some 9, Some 3)]"
  using both_clients_read_links [of "[\<lparr>li_eventId = 4, li_incidentNumber = 12\<rparr>, \<lparr>li_eventId = 9, li_incidentNumber = 3\<rparr>]"
      plain_host "[(4, lit ''Fair''), (9, lit ''Old'')]" 4 "new_tincident\<lparr>ti_number := Some 7\<rparr>", OF _ _ _ _ _ _ refl]
  by (auto simp: typeable_def is_token_def is_sep_def is_ws_def plain_host_def ascii_lower_def new_tincident_def)

section \<open>A row of a person over its edits\<close>

text \<open>
  What the server keeps of the row, and the row on the page. Each edit waits for its answer before the
  next: \<open>err\<close> is \<open>None\<close> when the server has taken the request.
\<close>

datatype row_action = CommitInvolvement str "str option" | ClickGrant bool "str option"

definition stored_after :: "person_write \<Rightarrow> person_write option \<Rightarrow> str option \<Rightarrow> person_write" where
  "stored_after srv w err = (case w of None \<Rightarrow> srv | Some x \<Rightarrow> if err = None then x else srv)"

fun row_step :: "host \<Rightarrow> row_action \<Rightarrow> person_write \<times> person_row \<Rightarrow> person_write \<times> person_row" where
  "row_step h (CommitInvolvement value err) (srv, r) =
     (let (r', w) = setPersonInvolvement h value r in (stored_after srv w err, r'))"
| "row_step h (ClickGrant confirmed err) (srv, r) =
     (let (r', w) = setPersonGrant confirmed r
      in (stored_after srv w err, if w = None then r' else grant_answered err r'))"

definition row_run :: "host \<Rightarrow> row_action list \<Rightarrow> person_write \<times> person_row \<Rightarrow> person_write \<times> person_row" where
  "row_run h = fold (row_step h)"

fun grant_after :: "row_action \<Rightarrow> bool \<Rightarrow> bool" where
  "grant_after (ClickGrant confirmed err) g = (if confirmed \<and> err = None then \<not> g else g)"
| "grant_after (CommitInvolvement value err) g = g"

fun grant_shown :: "bool \<Rightarrow> person_write \<times> person_row \<Rightarrow> bool" where
  "grant_shown g (srv, r) \<longleftrightarrow> pt_granted srv = g \<and> pw_granted r = g \<and> pw_offer r = GrantBox g"

lemma row_step_grant: "grant_shown g s \<Longrightarrow> grant_shown (grant_after a g) (row_step h a s)"
  by (cases s; cases a)
    (auto simp: setPersonInvolvement_def setPersonGrant_def stored_after_def grant_answered_def Let_def)

text \<open>
  C16: The access that was granted to a person survives every edit of the involvement, although each request replaces the
  whole row of the server: after any edits, each answered before the next, the server, the row and its
  box agree, and the access is changed by the confirmed clicks that were taken and by nothing else.
\<close>

theorem grant_survives_edits:
  assumes "pt_granted srv = g" and "pw_granted r = g" and "pw_offer r = GrantBox g"
    and "row_run h actions (srv, r) = (srv', r')"
  shows "pt_granted srv' = fold grant_after actions g \<and> pw_granted r' = pt_granted srv' \<and> pw_offer r' = GrantBox (pt_granted srv')"
proof -
  have "grant_shown (fold grant_after actions g) (row_run h actions s)" if "grant_shown g s" for g s
    using that by (induction actions arbitrary: g s) (simp_all add: row_run_def row_step_grant)
  from this [of g "(srv, r)"] show ?thesis using assms by simp
qed

definition sample_person_row :: person_row where
  "sample_person_row = \<lparr>pw_id = 3, pw_label = lit ''Bo'', pw_involvement = [], pw_granted = False, pw_offer = GrantBox False\<rparr>"

lemma grant_survives_edits_witness:
  "pt_granted (fst (row_run plain_host
      [ClickGrant True None, CommitInvolvement (lit ''witness'') None, ClickGrant True (Some (lit ''no'')), ClickGrant False None]
      (\<lparr>pt_involvement = [], pt_granted = False\<rparr>, sample_person_row)))"
  using grant_survives_edits [of "\<lparr>pt_involvement = [], pt_granted = False\<rparr>" False sample_person_row, OF _ _ _ prod.collapse [symmetric]]
  by (simp add: sample_person_row_def)

text \<open>
  Two ways around it. An involvement committed while a grant is under way sends the grant from before; and
  a box that was cleared by choosing the free text has nothing in it for the grant to send back.
\<close>

lemma involvement_undoes_grant:
  assumes "pw_granted r = g" and "pw_offer r = GrantBox g" and "normalize h value \<noteq> normalize h OTHER_OPTION_LABEL"
  shows "map_option pt_granted (snd (setPersonGrant True r)) = Some (\<not> g)"
    and "map_option pt_granted (snd (setPersonInvolvement h value (fst (setPersonGrant True r)))) = Some g"
  using assms by (simp_all add: setPersonGrant_def setPersonInvolvement_def)

lemma other_then_grant_erases:
  assumes "pw_offer r = GrantBox g"
  shows "snd (setPersonInvolvement h (lit ''Other'') r) = None"
    and "map_option pt_involvement (snd (setPersonGrant True (fst (setPersonInvolvement h (lit ''Other'') r)))) = Some []"
  using assms by (simp_all add: setPersonGrant_def setPersonInvolvement_def OTHER_OPTION_LABEL_def)

text \<open>The name of the printed file holds none of the signs that are taken out.\<close>

lemma set_replace_all: "set (replace_all c r s) \<subseteq> (set s - {c}) \<union> set r"
  by (auto simp: replace_all_def split: if_splits)

lemma set_dropWhile: "set (dropWhile P s) \<subseteq> set s"
  by (auto dest: set_dropWhileD)

lemma file_safe_chars: "set (file_safe s) \<inter> {10, 32, 33, 35, 36, 58, 59} = {}"
proof -
  have strip: "set (strip_dashes t) \<subseteq> set t" for t
    unfolding strip_dashes_def using set_dropWhile by (metis set_rev subset_trans)
  have step: "set (replace_all c [45] t) \<inter> insert c B = {}" if "set t \<inter> B = {}" "45 \<notin> insert c B" for c t B
    using set_replace_all [of c "[45]" t] that by auto
  have a: "set (replace_all 35 [45] s) \<inter> {35} = {}" by (rule step) simp_all
  have b: "set (replace_all 10 [45] (replace_all 35 [45] s)) \<inter> {10, 35} = {}" by (rule step [OF a]) simp
  have c: "set (replace_all 32 [45] (replace_all 10 [45] (replace_all 35 [45] s))) \<inter> {32, 10, 35} = {}"
    by (rule step [OF b]) simp
  note d = step [OF c, of 58] note e = step [OF d, of 59] note f = step [OF e, of 33]
  have "set (replace_all 36 [] t) \<inter> insert 36 B = {}" if "set t \<inter> B = {}" for t B
    using set_replace_all [of 36 "[]" t] that by auto
  from this [OF f] strip show ?thesis by (auto simp: file_safe_def)
qed

end
