(* ===== verification/TemplTables.thy ===== *)
theory TemplTables
  imports TemplIncidents
begin

text \<open>
  The tables of the reports and of the sanctuary visits of the server-rendered client
  (\<open>src/go/web/typescript/reports.ts\<close> and \<open>sanctuary_visits.ts\<close>): their filters and the fragment that
  keeps them, the rows they show, their cells, and what a broadcast reloads. What the two fragments
  share is the locale \<open>fragment_table\<close>. A menu entry that is not there ends the loading of the page,
  which is \<open>None\<close>.
\<close>

section \<open>Filters kept in the fragment\<close>

fun act_run :: "('a \<Rightarrow> 'q \<Rightarrow> 'q option) \<Rightarrow> 'a list \<Rightarrow> 'q \<Rightarrow> 'q option" where
  "act_run act [] q = Some q"
| "act_run act (a # acts) q = Option.bind (act a q) (act_run act acts)"

locale fragment_table =
  fixes ok :: "'q \<Rightarrow> bool" and act :: "'a \<Rightarrow> 'q \<Rightarrow> 'q option" and written :: "'q \<Rightarrow> (str \<times> str) list"
    and load :: "(str \<times> str) list \<Rightarrow> 'q option" and bare :: "'q \<Rightarrow> 'q" and lasting :: "'q \<Rightarrow> bool"
  assumes loads_well: "load ps = Some q \<Longrightarrow> ok q"
    and acts_well: "ok q \<Longrightarrow> act a q = Some q' \<Longrightarrow> ok q'"
    and reads_back: "ok q \<Longrightarrow> lasting q \<Longrightarrow> map_option bare (load (written q)) = Some (bare q)"
begin

lemma runs_well: "ok q \<Longrightarrow> act_run act acts q = Some q' \<Longrightarrow> ok q'"
proof (induction acts arbitrary: q)
  case (Cons a acts)
  then obtain q1 where "act a q = Some q1" "act_run act acts q1 = Some q'"
    by (cases "act a q") auto
  with Cons acts_well show ?case by blast
qed simp

lemma found_as_left:
  "load ps = Some q0 \<Longrightarrow> act_run act acts q0 = Some q \<Longrightarrow> lasting q \<Longrightarrow> map_option bare (load (written q)) = Some (bare q)"
  using loads_well runs_well reads_back by blast

end

section \<open>The table of reports\<close>

record report_table =
  rq_days :: "str option"
  rq_after :: "int option"
  rq_rows :: "str option"
  rq_len :: "int option"
  rq_search :: str
  rq_params :: "(str \<times> str) list"

definition fresh_reports :: report_table where
  "fresh_reports =
     \<lparr>rq_days = None, rq_after = None, rq_rows = None, rq_len = None, rq_search = [], rq_params = []\<rparr>"

definition reportDefaultDaysBack :: str where "reportDefaultDaysBack = lit ''all''"
definition reportDefaultRows :: str where "reportDefaultRows = lit ''25''"

definition report_params :: "report_table \<Rightarrow> (str \<times> str) list" where
  "report_params q =
     (if rq_search q \<noteq> [] then [(lit ''q'', rq_search q)] else []) @
     (case rq_days q of Some d \<Rightarrow> if d \<noteq> reportDefaultDaysBack then [(lit ''days'', d)] else [] | None \<Rightarrow> []) @
     (case rq_rows q of Some r \<Rightarrow> if r \<noteq> reportDefaultRows then [(lit ''rows'', r)] else [] | None \<Rightarrow> [])"

definition reportReplaceWindowState :: "bool \<Rightarrow> report_table \<Rightarrow> report_table" where
  "reportReplaceWindowState replace q = (if replace then q\<lparr>rq_params := report_params q\<rparr> else q)"

definition reportShowDays :: "(nat \<Rightarrow> int) \<Rightarrow> str \<Rightarrow> bool \<Rightarrow> report_table \<Rightarrow> report_table option" where
  "reportShowDays since days replace q =
     (if days \<in> set days_menu
      then Some (reportReplaceWindowState replace (q\<lparr>rq_days := Some days, rq_after := days_after since days\<rparr>))
      else None)"

definition reportShowRows :: "str \<Rightarrow> bool \<Rightarrow> report_table \<Rightarrow> report_table option" where
  "reportShowRows rows replace q =
     (if rows \<in> set tableRowsPerPage
      then Some ((reportReplaceWindowState replace (q\<lparr>rq_rows := Some rows\<rparr>))\<lparr>rq_len := rows_len rows\<rparr>)
      else None)"

text \<open>The rows are shown twice, first as the fragment has them.\<close>

definition reportInitTableButtons ::
  "(nat \<Rightarrow> int) \<Rightarrow> (str \<times> str) list \<Rightarrow> str option \<Rightarrow> report_table \<Rightarrow> report_table option" where
  "reportInitTableButtons since params preferredRows q =
     Option.bind (reportShowDays since (nullish (param_get (lit ''days'') params) reportDefaultDaysBack) False q) (\<lambda>q1.
     Option.bind (reportShowRows (nullish (param_get (lit ''rows'') params) reportDefaultRows) False q1) (\<lambda>q2.
     Option.bind (coalesceRowsPerPage [param_get (lit ''rows'') params, preferredRows, Some reportDefaultRows]) (\<lambda>rows.
     reportShowRows rows False q2)))"

definition reportInitSearchField :: "(str \<times> str) list \<Rightarrow> report_table \<Rightarrow> report_table" where
  "reportInitSearchField params q =
     (case nonempty (param_get (lit ''q'') params) of
        None \<Rightarrow> q
      | Some s \<Rightarrow> reportReplaceWindowState True (q\<lparr>rq_search := s\<rparr>))"

definition load_reports :: "(nat \<Rightarrow> int) \<Rightarrow> str option \<Rightarrow> (str \<times> str) list \<Rightarrow> report_table option" where
  "load_reports since preferredRows params =
     map_option (reportInitSearchField params) (reportInitTableButtons since params preferredRows fresh_reports)"

datatype report_action = ReportDays str | ReportRows str | ReportSearch str

fun report_act :: "(nat \<Rightarrow> int) \<Rightarrow> report_action \<Rightarrow> report_table \<Rightarrow> report_table option" where
  "report_act since (ReportDays d) q = reportShowDays since d True q"
| "report_act since (ReportRows r) q = reportShowRows r True q"
| "report_act since (ReportSearch s) q = Some (reportReplaceWindowState True (q\<lparr>rq_search := s\<rparr>))"

definition reports_ok :: "(nat \<Rightarrow> int) \<Rightarrow> report_table \<Rightarrow> bool" where
  "reports_ok since q \<longleftrightarrow> days_ok since (rq_days q) (rq_after q) \<and> rows_ok (rq_rows q) (rq_len q)"

text \<open>A filter at its default is not written, so a stored preference must not stand behind it.\<close>

definition rows_last :: "str option \<Rightarrow> str option \<Rightarrow> bool" where
  "rows_last preferredRows rows \<longleftrightarrow>
     (rows = Some defaultRows \<longrightarrow> preferredRows = None \<or> preferredRows = Some defaultRows)"

lemma report_params_read:
  "param_get (lit ''days'') (report_params q) = (if rq_days q = Some reportDefaultDaysBack then None else rq_days q)"
  "param_get (lit ''rows'') (report_params q) = (if rq_rows q = Some reportDefaultRows then None else rq_rows q)"
  "param_get (lit ''q'') (report_params q) = (if rq_search q = [] then None else Some (rq_search q))"
  by (simp_all add: report_params_def param_gets split: option.split)

lemma rows_kept:
  assumes "r \<in> set tableRowsPerPage" and "rows_last pr (Some r)"
  shows "coalesceRowsPerPage [if r = defaultRows then None else Some r, pr, Some defaultRows] = Some r"
  using assms by (auto simp: coalesceRowsPerPage_def is_valid_def tableRowsPerPage_def defaultRows_def rows_last_def)

lemma default_rows_shown: "defaultRows \<in> set tableRowsPerPage"
  by (simp add: defaultRows_def tableRowsPerPage_def)

lemma days_picked: "d \<in> set days_menu \<Longrightarrow> days_ok since (Some d) (days_after since d)"
  and rows_picked: "r \<in> set tableRowsPerPage \<Longrightarrow> rows_ok (Some r) (rows_len r)"
  by simp_all

lemma days_okE:
  assumes "days_ok since d after"
  obtains x where "d = Some x" "x \<in> set days_menu" "after = days_after since x"
  using assms by (cases d) auto

lemma rows_okE:
  assumes "rows_ok r len"
  obtains x where "r = Some x" "x \<in> set tableRowsPerPage" "len = rows_len x"
  using assms by (cases r) auto

lemmas report_sets = reportShowDays_def reportShowRows_def reportReplaceWindowState_def

interpretation report_rows: fragment_table "reports_ok since" "report_act since" report_params "load_reports since pr"
    "\<lambda>q. q\<lparr>rq_params := []\<rparr>" "\<lambda>q. rows_last pr (rq_rows q)"
  for since pr
proof unfold_locales
  fix ps q assume "load_reports since pr ps = Some q"
  then show "reports_ok since q"
    by (auto simp: load_reports_def reportInitTableButtons_def reportInitSearchField_def report_sets bind_eq_Some_conv reports_ok_def
        simp del: lit_simps split: if_splits option.splits)
next
  fix q a q' assume "reports_ok since q" "report_act since a q = Some q'"
  then show "reports_ok since q'"
    by (cases a) (auto simp: report_sets reports_ok_def simp del: lit_simps split: if_splits)
next
  fix q assume ok: "reports_ok since q" and last: "rows_last pr (rq_rows q)"
  from ok obtain d r where d: "rq_days q = Some d" "d \<in> set days_menu" "rq_after q = days_after since d"
      and r: "rq_rows q = Some r" "r \<in> set tableRowsPerPage" "rq_len q = rows_len r"
    unfolding reports_ok_def by (metis days_okE rows_okE)
  let ?P = "report_params q"
  have rdef: "reportDefaultRows = defaultRows" by (simp add: reportDefaultRows_def defaultRows_def)
  have "nullish (param_get (lit ''days'') ?P) reportDefaultDaysBack = d"
    unfolding report_params_read using d by auto
  moreover have "nullish (param_get (lit ''rows'') ?P) reportDefaultRows = r"
    unfolding report_params_read using r by auto
  moreover have "param_get (lit ''rows'') ?P = (if r = defaultRows then None else Some r)"
    unfolding report_params_read using r rdef by auto
  then have "coalesceRowsPerPage [param_get (lit ''rows'') ?P, pr, Some reportDefaultRows] = Some r"
    using rows_kept [OF r(2), of pr] last r(1) rdef by simp
  ultimately have "reportInitTableButtons since ?P pr fresh_reports = Some (fresh_reports\<lparr>rq_days := Some d,
      rq_after := days_after since d, rq_rows := Some r, rq_len := rows_len r\<rparr>)"
    using d(2) r(2) by (simp add: reportInitTableButtons_def report_sets del: lit_simps)
  moreover have "nonempty (param_get (lit ''q'') ?P) = (if rq_search q = [] then None else Some (rq_search q))"
    unfolding report_params_read by (cases "rq_search q") simp_all
  ultimately show "map_option (\<lambda>q. q\<lparr>rq_params := []\<rparr>) (load_reports since pr ?P) = Some (q\<lparr>rq_params := []\<rparr>)"
    using d r by (cases q) (simp add: load_reports_def reportInitSearchField_def fresh_reports_def reportReplaceWindowState_def)
qed

text \<open>
  Whatever the menus and the search box of the report table have been used for, the fragment of the
  address gives the filters back on a reload, on the same day, unless the rows are at their default and
  a stored preference stands behind it.
\<close>

theorem report_table_survives_reload:
  assumes "load_reports since pr params = Some q0" and "act_run (report_act since) acts q0 = Some q"
    and "rows_last pr (rq_rows q)"
  shows "map_option (\<lambda>q. q\<lparr>rq_params := []\<rparr>) (load_reports since pr (report_params q)) = Some (q\<lparr>rq_params := []\<rparr>)"
  by (rule report_rows.found_as_left [OF assms])

definition left_reports :: report_table where
  "left_reports =
     \<lparr>rq_days = Some (lit ''1''), rq_after = Some 1, rq_rows = Some (lit ''all''), rq_len = Some (-1), rq_search = lit ''fire'',
      rq_params = [(lit ''q'', lit ''fire''), (lit ''days'', lit ''1''), (lit ''rows'', lit ''all'')]\<rparr>"

definition opened_reports :: report_table where
  "opened_reports =
     \<lparr>rq_days = Some (lit ''1''), rq_after = Some 1, rq_rows = Some (lit ''50''), rq_len = Some 50, rq_search = [], rq_params = []\<rparr>"

lemma rows_len_simps: "rows_len (lit ''all'') = Some (-1)" "rows_len (lit ''50'') = Some 50" "rows_len (lit ''25'') = Some 25"
  by (simp_all add: rows_len_def parseInt10_def parse_int_def parse_digits_def digits_val_def is_digit_def is_ws_def)

lemma reports_opened: "load_reports int (Some (lit ''50'')) [(lit ''days'', lit ''1'')] = Some opened_reports"
  using rows_len_simps
  by (simp add: load_reports_def reportInitTableButtons_def reportInitSearchField_def report_sets param_get_def days_menu_def
      days_after_def coalesceRowsPerPage_def is_valid_def tableRowsPerPage_def reportDefaultRows_def fresh_reports_def opened_reports_def digits_val_def)

lemma reports_left: "act_run (report_act int) [ReportRows (lit ''all''), ReportSearch (lit ''fire'')] opened_reports = Some left_reports"
  using rows_len_simps
  by (simp add: report_sets opened_reports_def left_reports_def tableRowsPerPage_def report_params_def reportDefaultDaysBack_def reportDefaultRows_def)

lemma report_table_survives_reload_witness:
  "map_option (\<lambda>q. q\<lparr>rq_params := []\<rparr>) (load_reports int (Some (lit ''50'')) (report_params left_reports)) =
     Some (left_reports\<lparr>rq_params := []\<rparr>)"
  using report_table_survives_reload [OF reports_opened reports_left]
  by (simp add: rows_last_def left_reports_def defaultRows_def)

text \<open>
  The rows of the fragment are shown before they are validated: a number that is not in the menu ends the
  loading of the page, where the queue of incidents falls back to the preference.
\<close>

lemma unknown_rows_end_reports:
  assumes "param_get (lit ''rows'') params = Some r" and "r \<notin> set tableRowsPerPage"
  shows "load_reports since pr params = None"
    and "coalesceRowsPerPage [param_get (lit ''rows'') params, None, Some reportDefaultRows] = Some reportDefaultRows"
proof -
  have "reportInitTableButtons since params pr q = None" for q
    using assms by (cases "reportShowDays since (nullish (param_get (lit ''days'') params) reportDefaultDaysBack) False q")
      (simp_all add: reportInitTableButtons_def reportShowRows_def del: lit_simps)
  then show "load_reports since pr params = None" by (simp add: load_reports_def)
  show "coalesceRowsPerPage [param_get (lit ''rows'') params, None, Some reportDefaultRows] = Some reportDefaultRows"
  proof -
    have "\<not> is_valid tableRowsPerPage (Some r)" using assms(2) by (cases r) (auto simp: is_valid_def)
    moreover have "is_valid tableRowsPerPage (Some reportDefaultRows)"
      by (simp add: is_valid_def tableRowsPerPage_def reportDefaultRows_def)
    moreover have "\<not> is_valid tableRowsPerPage None" by (simp add: is_valid_def)
    ultimately show ?thesis by (simp add: assms(1) coalesceRowsPerPage_def del: lit_simps)
  qed
qed

section \<open>The reports that are shown\<close>

text \<open>Times in milliseconds; one that does not parse is none and compares as false.\<close>

record report_row =
  rr_number :: "int option"
  rr_created :: "int option"
  rr_entries :: "int option list option"

definition after_time :: "int \<Rightarrow> int option \<Rightarrow> bool" where
  "after_time timestamp t \<longleftrightarrow> (case t of None \<Rightarrow> False | Some n \<Rightarrow> timestamp < n)"

definition modifiedAfter :: "report_row \<Rightarrow> int \<Rightarrow> bool" where
  "modifiedAfter r timestamp \<longleftrightarrow>
     after_time timestamp (rr_created r) \<or> list_ex (after_time timestamp) (nullish (rr_entries r) [])"

definition report_shown :: "report_table \<Rightarrow> report_row \<Rightarrow> bool" where
  "report_shown q r \<longleftrightarrow> (case rq_after q of None \<Rightarrow> True | Some after \<Rightarrow> modifiedAfter r after)"

text \<open>Choosing more days never hides a report.\<close>

lemma more_days_show_more:
  assumes "reports_ok since q" and "reportShowDays since d rep q = Some q'" and "rq_days q = Some d0"
    and "d = lit ''all'' \<or> d0 \<noteq> lit ''all'' \<and> since (digits_val d) \<le> since (digits_val d0)" and "report_shown q r"
  shows "report_shown q' r"
proof -
  have weaker: "after_time s t" if "after_time a t" "s \<le> a" for s a t
    using that by (auto simp: after_time_def split: option.splits)
  have after: "rq_after q = days_after since d0" "rq_after q' = days_after since d"
    using assms(1-3) by (auto simp: reports_ok_def report_sets simp del: lit_simps split: if_splits)
  have "modifiedAfter r s" if "modifiedAfter r a" "s \<le> a" for s a
    using that weaker unfolding modifiedAfter_def list_ex_iff by blast
  then show ?thesis
    using assms(4,5) by (auto simp: report_shown_def after days_after_def simp del: lit_simps)
qed

text \<open>What the request for the rows answers: the message, or the rows.\<close>

definition table_answer :: "'r list fetch_res \<Rightarrow> str + 'r list" where
  "table_answer res =
     (case (fr_err res, fr_json res) of
        (None, Some rows) \<Rightarrow> Inr rows
      | (e, _) \<Rightarrow> Inl (lit ''Failed to load table: '' @ nullish e (lit ''null'')))"

datatype table_effect = ReloadFromStart | ReloadInPlace | NoReload

definition report_news :: "path_ids \<Rightarrow> row_news \<Rightarrow> table_effect" where
  "report_news ids news =
     (case news of
        ReloadAll \<Rightarrow> ReloadFromStart
      | RowChanged number event \<Rightarrow> if event \<noteq> path_eventId ids then NoReload else ReloadInPlace)"

section \<open>Cells and links\<close>

definition url_viewReportNumber :: str where
  "url_viewReportNumber = lit ''/ims/app/events/<event_id>/reports/<number>''"

definition renderReportNumber :: "path_ids \<Rightarrow> int option \<Rightarrow> render_type \<Rightarrow> cell" where
  "renderReportNumber ids number kind =
     (case kind of
        ForDisplay \<Rightarrow>
          (case number of
             None \<Rightarrow> NullCell
           | Some n \<Rightarrow> LinkCell (js_replace (urlReplace ids url_viewReportNumber) (lit ''<number>'') (show_int n)) (show_int n))
      | ForOther \<Rightarrow> Undefined
      | _ \<Rightarrow> (case number of None \<Rightarrow> NullCell | Some n \<Rightarrow> NumberCell n))"

definition renderVisitNumber :: "path_ids \<Rightarrow> int option \<Rightarrow> render_type \<Rightarrow> cell" where
  "renderVisitNumber ids number kind =
     (case kind of
        ForDisplay \<Rightarrow>
          (case number of
             None \<Rightarrow> NullCell
           | Some n \<Rightarrow> LinkCell (urlReplace ids url_viewVisits @ [47] @ show_int n) (show_int n))
      | ForOther \<Rightarrow> Undefined
      | _ \<Rightarrow> (case number of None \<Rightarrow> NullCell | Some n \<Rightarrow> NumberCell n))"

text \<open>
  The engine's dates: reading one, and the two formats of a cell and the long one of its title. A text
  that is no date makes the formatters throw, which is \<open>None\<close>.
\<close>

record date_formats =
  df_parse :: "str \<Rightarrow> int option"
  df_shortDate :: "int \<Rightarrow> str"
  df_shortTime :: "int \<Rightarrow> str"
  df_long :: "int \<Rightarrow> str"

text \<open>The title of the cell, when it is an element, and the cell.\<close>

definition renderDate :: "date_formats \<Rightarrow> str option \<Rightarrow> render_type \<Rightarrow> (str option \<times> cell) option" where
  "renderDate f date kind =
     (case date of
        None \<Rightarrow> Some (None, Undefined)
      | Some text \<Rightarrow>
          (case df_parse f text of
             None \<Rightarrow> None
           | Some d \<Rightarrow> Some
               (case kind of
                  ForDisplay \<Rightarrow> (Some (df_long f d), SpanCell [df_shortDate f d, df_shortTime f d])
                | ForFilter \<Rightarrow> (None, TextCell (df_shortDate f d @ [32] @ df_shortTime f d))
                | ForOther \<Rightarrow> (None, Undefined)
                | _ \<Rightarrow> (None, NumberCell d))))"

definition renderReportSummary ::
  "(str \<Rightarrow> str) \<Rightarrow> str \<Rightarrow> str option \<Rightarrow> tentry list \<Rightarrow> render_type \<Rightarrow> cell option" where
  "renderReportSummary safe_text search_text summary entries kind =
     (case kind of
        ForFilter \<Rightarrow> Some (TextCell search_text)
      | ForOther \<Rightarrow> Some Undefined
      | _ \<Rightarrow> map_option (\<lambda>s. TextCell (safe_text s)) (summarizeIncidentOrReport summary entries))"

definition row_link :: "str \<Rightarrow> bool \<Rightarrow> row_click \<Rightarrow> bool \<Rightarrow> row_open option" where
  "row_link url on_anchor click modifier =
     (if on_anchor then None
      else if click = LeftClick \<and> \<not> modifier then Some (SameTab url)
      else if click = MiddleClick \<or> click = LeftClick \<and> modifier then Some (NewTab url)
      else None)"

definition openReport :: "path_ids \<Rightarrow> bool \<Rightarrow> row_click \<Rightarrow> bool \<Rightarrow> int \<Rightarrow> row_open option" where
  "openReport ids on_anchor click modifier number =
     row_link (urlReplace ids url_viewReports @ [47] @ show_int number) on_anchor click modifier"

definition openVisit :: "path_ids \<Rightarrow> bool \<Rightarrow> row_click \<Rightarrow> bool \<Rightarrow> int \<Rightarrow> row_open option" where
  "openVisit ids on_anchor click modifier number =
     row_link (urlReplace ids url_viewVisits @ [47] @ show_int number) on_anchor click modifier"

definition jump_to_report :: "path_ids \<Rightarrow> str \<Rightarrow> str option" where
  "jump_to_report ids val = (if all_digits val then Some (urlReplace ids url_viewReports @ [47] @ val) else None)"

definition jump_to_visit :: "path_ids \<Rightarrow> str \<Rightarrow> str option" where
  "jump_to_visit ids val = (if all_digits val then Some (urlReplace ids url_viewVisits @ [47] @ val) else None)"

definition reports_entry :: "bool \<Rightarrow> bool \<Rightarrow> bool \<Rightarrow> queue_access option" where
  "reports_entry authenticated readIncidents writeReports =
     (if \<not> authenticated then None
      else if \<not> readIncidents \<and> \<not> writeReports then Some NoQueueAccess
      else Some ShowQueue)"

section \<open>The table of visits\<close>

text \<open>The days are never chosen on this page, and nothing sets the time the rows are compared with.\<close>

record visit_table =
  vq_after :: "int option"
  vq_days :: "str option"
  vq_rows :: "str option"
  vq_len :: "int option"
  vq_status :: str
  vq_search :: str
  vq_params :: "(str \<times> str) list"

definition defaultStatus :: str where "defaultStatus = lit ''current''"

definition fresh_visits :: visit_table where
  "fresh_visits =
     \<lparr>vq_after = None, vq_days = None, vq_rows = None, vq_len = None, vq_status = defaultStatus, vq_search = [], vq_params = []\<rparr>"

definition visit_params :: "visit_table \<Rightarrow> (str \<times> str) list" where
  "visit_params q =
     (if vq_search q \<noteq> [] then [(lit ''q'', vq_search q)] else []) @
     (case vq_days q of Some d \<Rightarrow> if d \<noteq> defaultDaysBack then [(lit ''days'', d)] else [] | None \<Rightarrow> []) @
     (case vq_rows q of Some r \<Rightarrow> if r \<noteq> defaultRows then [(lit ''rows'', r)] else [] | None \<Rightarrow> []) @
     (if vq_status q \<noteq> defaultStatus then [(lit ''status'', vq_status q)] else [])"

definition visitReplaceWindowState :: "bool \<Rightarrow> visit_table \<Rightarrow> visit_table" where
  "visitReplaceWindowState replace q = (if replace then q\<lparr>vq_params := visit_params q\<rparr> else q)"

definition visitShowRows :: "str \<Rightarrow> bool \<Rightarrow> visit_table \<Rightarrow> visit_table option" where
  "visitShowRows rows replace q =
     (if rows \<in> set tableRowsPerPage
      then Some ((visitReplaceWindowState replace (q\<lparr>vq_rows := Some rows\<rparr>))\<lparr>vq_len := rows_len rows\<rparr>)
      else None)"

definition showStatus :: "str \<Rightarrow> bool \<Rightarrow> visit_table \<Rightarrow> visit_table option" where
  "showStatus status replace q =
     (if status \<in> set visitsStatusValues then Some (visitReplaceWindowState replace (q\<lparr>vq_status := status\<rparr>)) else None)"

definition visitInitTableButtons ::
  "(str \<times> str) list \<Rightarrow> str option \<Rightarrow> str option \<Rightarrow> visit_table \<Rightarrow> visit_table option" where
  "visitInitTableButtons params preferredRows preferredStatus q =
     (let asked = param_get (lit ''status'') params;
          status = (if asked = Some (lit ''all'') \<or> asked = Some (lit ''current'') then nullish asked []
            else nullish preferredStatus defaultStatus)
      in Option.bind (visitShowRows (nullish (param_get (lit ''rows'') params) defaultRows) False q) (\<lambda>q1.
         Option.bind (coalesceRowsPerPage [param_get (lit ''rows'') params, preferredRows, Some defaultRows]) (\<lambda>rows.
         Option.bind (visitShowRows rows False q1) (showStatus status False))))"

definition visitInitSearchField :: "(str \<times> str) list \<Rightarrow> visit_table \<Rightarrow> visit_table" where
  "visitInitSearchField params q =
     (case nonempty (param_get (lit ''q'') params) of
        None \<Rightarrow> q
      | Some s \<Rightarrow> visitReplaceWindowState True (q\<lparr>vq_search := s\<rparr>))"

definition load_visits :: "str option \<Rightarrow> str option \<Rightarrow> (str \<times> str) list \<Rightarrow> visit_table option" where
  "load_visits preferredRows preferredStatus params =
     map_option (visitInitSearchField params) (visitInitTableButtons params preferredRows preferredStatus fresh_visits)"

datatype visit_action = VisitRows str | VisitStatus str | VisitSearch str

fun visit_act :: "visit_action \<Rightarrow> visit_table \<Rightarrow> visit_table option" where
  "visit_act (VisitRows r) q = visitShowRows r True q"
| "visit_act (VisitStatus s) q = showStatus s True q"
| "visit_act (VisitSearch s) q = Some (visitReplaceWindowState True (q\<lparr>vq_search := s\<rparr>))"

definition visits_ok :: "visit_table \<Rightarrow> bool" where
  "visits_ok q \<longleftrightarrow>
     vq_after q = None \<and> vq_days q = None \<and> rows_ok (vq_rows q) (vq_len q) \<and> vq_status q \<in> set visitsStatusValues"

definition status_last :: "str option \<Rightarrow> str \<Rightarrow> bool" where
  "status_last preferredStatus status \<longleftrightarrow>
     (status = defaultStatus \<longrightarrow> preferredStatus = None \<or> preferredStatus = Some defaultStatus)"

lemma visit_params_read:
  "param_get (lit ''rows'') (visit_params q) = (if vq_rows q = Some defaultRows then None else vq_rows q)"
  "param_get (lit ''status'') (visit_params q) = (if vq_status q = defaultStatus then None else Some (vq_status q))"
  "param_get (lit ''q'') (visit_params q) = (if vq_search q = [] then None else Some (vq_search q))"
  by (simp_all add: visit_params_def param_gets split: option.split)

lemmas visit_sets = visitShowRows_def showStatus_def visitReplaceWindowState_def

interpretation visit_rows: fragment_table visits_ok visit_act visit_params "load_visits pr ps"
    "\<lambda>q. q\<lparr>vq_params := []\<rparr>" "\<lambda>q. rows_last pr (vq_rows q) \<and> status_last ps (vq_status q)"
  for pr ps
proof unfold_locales
  fix params q assume "load_visits pr ps params = Some q"
  then show "visits_ok q"
    by (auto simp: load_visits_def visitInitTableButtons_def visitInitSearchField_def visit_sets bind_eq_Some_conv visits_ok_def
        fresh_visits_def Let_def simp del: lit_simps split: if_splits option.splits)
next
  fix q a q' assume "visits_ok q" "visit_act a q = Some q'"
  then show "visits_ok q'"
    by (cases a) (auto simp: visit_sets visits_ok_def simp del: lit_simps split: if_splits)
next
  fix q assume ok: "visits_ok q" and last: "rows_last pr (vq_rows q) \<and> status_last ps (vq_status q)"
  from ok obtain r where r: "vq_rows q = Some r" "r \<in> set tableRowsPerPage" "vq_len q = rows_len r"
    and rest: "vq_after q = None" "vq_days q = None" "vq_status q \<in> set visitsStatusValues"
    unfolding visits_ok_def by (metis rows_okE)
  let ?P = "visit_params q"
  have "nullish (param_get (lit ''rows'') ?P) defaultRows = r"
    unfolding visit_params_read using r by auto
  moreover have "param_get (lit ''rows'') ?P = (if r = defaultRows then None else Some r)"
    unfolding visit_params_read using r by auto
  then have "coalesceRowsPerPage [param_get (lit ''rows'') ?P, pr, Some defaultRows] = Some r"
    using rows_kept [OF r(2), of pr] last r(1) by simp
  moreover have "(if param_get (lit ''status'') ?P = Some (lit ''all'') \<or> param_get (lit ''status'') ?P = Some (lit ''current'')
      then nullish (param_get (lit ''status'') ?P) [] else nullish ps defaultStatus) = vq_status q"
    unfolding visit_params_read using rest(3) last by (auto simp: status_last_def defaultStatus_def visitsStatusValues_def)
  ultimately have "visitInitTableButtons ?P pr ps fresh_visits = Some (fresh_visits\<lparr>vq_rows := Some r, vq_len := rows_len r,
      vq_status := vq_status q\<rparr>)"
    using r(2) rest(3) by (simp add: visitInitTableButtons_def visit_sets Let_def del: lit_simps)
  moreover have "nonempty (param_get (lit ''q'') ?P) = (if vq_search q = [] then None else Some (vq_search q))"
    unfolding visit_params_read by (cases "vq_search q") simp_all
  ultimately show "map_option (\<lambda>q. q\<lparr>vq_params := []\<rparr>) (load_visits pr ps ?P) = Some (q\<lparr>vq_params := []\<rparr>)"
    using r rest by (cases q) (simp add: load_visits_def visitInitSearchField_def fresh_visits_def visitReplaceWindowState_def)
qed

text \<open>A status picked back to its default is not written: the stored preference takes it over on a reload.\<close>

lemma current_not_kept:
  assumes "visits_ok q" and "vq_status q = defaultStatus" and "rows_last pr (vq_rows q)"
  shows "map_option vq_status (load_visits pr (Some (lit ''all'')) (visit_params q)) = Some (lit ''all'')"
proof -
  have status: "param_get (lit ''status'') (visit_params q) = None"
    unfolding visit_params_read using assms(2) by simp
  from assms(1) obtain r where r: "vq_rows q = Some r" "r \<in> set tableRowsPerPage"
    unfolding visits_ok_def by (metis rows_okE)
  then have shown: "nullish (param_get (lit ''rows'') (visit_params q)) defaultRows = r"
    and written: "param_get (lit ''rows'') (visit_params q) = (if r = defaultRows then None else Some r)"
    unfolding visit_params_read by auto
  have "coalesceRowsPerPage [param_get (lit ''rows'') (visit_params q), pr, Some defaultRows] = Some r"
    using rows_kept [OF r(2), of pr] assms(3) r(1) written by simp
  moreover have "lit ''all'' \<in> set visitsStatusValues" by (simp add: visitsStatusValues_def)
  ultimately have "visitInitTableButtons (visit_params q) pr (Some (lit ''all'')) fresh_visits =
      Some (fresh_visits\<lparr>vq_rows := Some r, vq_len := rows_len r, vq_status := lit ''all''\<rparr>)"
    using r(2) by (simp add: visitInitTableButtons_def visit_sets Let_def status shown del: lit_simps)
  then show ?thesis
    by (simp add: load_visits_def visitInitSearchField_def visitReplaceWindowState_def del: lit_simps split: option.splits)
qed

record visit_row =
  vr_number :: "int option"
  vr_created :: "int option"
  vr_entries :: "int option list option"
  vr_departure :: "str option"
  vr_guestName :: "str option"
  vr_guestHandle :: "str option"
  vr_guestLegalName :: "str option"

definition visitModifiedAfter :: "visit_row \<Rightarrow> int \<Rightarrow> bool" where
  "visitModifiedAfter r timestamp \<longleftrightarrow>
     after_time timestamp (vr_created r) \<or> list_ex (after_time timestamp) (nullish (vr_entries r) [])"

definition visit_shown :: "visit_table \<Rightarrow> visit_row \<Rightarrow> bool" where
  "visit_shown q r \<longleftrightarrow>
     (case vq_after q of None \<Rightarrow> True | Some after \<Rightarrow> visitModifiedAfter r after) \<and>
     (vq_status q = lit ''all'' \<or> nonempty (vr_departure r) = None)"

text \<open>
  On this page the rows are never filtered by date: whatever is done, all visits are shown, or those
  without a departure.
\<close>

lemma visits_shown:
  assumes "load_visits pr ps params = Some q0" and "act_run visit_act acts q0 = Some q"
  shows "visit_shown q r \<longleftrightarrow> vq_status q = lit ''all'' \<or> nonempty (vr_departure r) = None"
  using visit_rows.runs_well [OF visit_rows.loads_well [OF assms(1)] assms(2)]
  by (simp add: visit_shown_def visits_ok_def del: lit_simps)

definition visit_news :: "path_ids \<Rightarrow> row_news \<Rightarrow> table_effect" where
  "visit_news ids news =
     (case news of
        ReloadAll \<Rightarrow> ReloadFromStart
      | RowChanged number event \<Rightarrow> if event \<noteq> path_eventId ids then NoReload else ReloadInPlace)"

definition visit_guest :: "visit_row \<Rightarrow> str" where
  "visit_guest r =
     (case nonempty (Some (personDisplayLabel (vr_guestName r) (vr_guestHandle r))) of
        Some s \<Rightarrow> s | None \<Rightarrow> or_str (vr_guestLegalName r) [])"

definition renderGuestName :: "visit_row \<Rightarrow> render_type \<Rightarrow> cell" where
  "renderGuestName r kind =
     (case kind of ForDisplay \<Rightarrow> SpanCell [visit_guest r] | ForOther \<Rightarrow> Undefined | _ \<Rightarrow> TextCell (visit_guest r))"

definition renderString :: "(str \<Rightarrow> str) \<Rightarrow> str option \<Rightarrow> render_type \<Rightarrow> cell" where
  "renderString safe_text data kind =
     (case kind of
        ForDisplay \<Rightarrow> TextCell (safe_text (short_summary (nullish data [])))
      | ForOther \<Rightarrow> Undefined
      | _ \<Rightarrow> TextCell (safe_text (nullish data [])))"

definition visits_entry :: "bool \<Rightarrow> bool \<Rightarrow> queue_access option" where
  "visits_entry authenticated readVisits =
     (if \<not> authenticated then None else if \<not> readVisits then Some NoQueueAccess else Some ShowQueue)"

end
