(* ===== verification/TemplReport.thy ===== *)
theory TemplReport
  imports TemplIncident
begin

text \<open>
  The pages of one report and of one sanctuary visit of the server-rendered client
  (\<open>src/go/web/typescript/report.ts\<close> and \<open>sanctuary_visit.ts\<close>): what is loaded, what of it is drawn and
  which controls may be used, and what each control asks for. How an edit is sent and a new report
  numbered is in \<open>TemplComposer\<close>, the lists of the incident page in \<open>TemplIncident\<close>.
\<close>

section \<open>The report and its controls\<close>

record full_report = treport +
  rf_creator :: "(str option \<times> str option) option"
  rf_maySummary :: "bool option"
  rf_mayAdd :: "bool option"

record report_access =
  ra_read :: bool
  ra_write :: bool
  ra_attach :: bool

text \<open>The message of the page, and which of the controls are enabled.\<close>

record report_page =
  rg_report :: "full_report option"
  rg_ids :: path_ids
  rg_error :: "str option"
  rg_controls :: bool
  rg_summary :: bool
  rg_entry :: bool
  rg_submit :: bool
  rg_attach :: bool

definition report_entry :: "bool \<Rightarrow> bool \<Rightarrow> bool \<Rightarrow> page_entry" where
  "report_entry authenticated readIncidents writeReports =
     (if \<not> authenticated then EntryLogin
      else if \<not> (readIncidents \<or> writeReports) then EntryRefused
      else EntryShown)"

text \<open>The instructions are opened on a new report for who has nothing to do with incidents.\<close>

definition opens_instructions :: "bool \<Rightarrow> bool \<Rightarrow> full_report \<Rightarrow> bool" where
  "opens_instructions readIncidents writeIncidents r \<longleftrightarrow> rt_number r = None \<and> \<not> readIncidents \<and> \<not> writeIncidents"

text \<open>\<open>enableEditing\<close> and \<open>disableEditing\<close>: the summary and the journal box are form controls like the others.\<close>

definition set_controls :: "bool \<Rightarrow> report_page \<Rightarrow> report_page" where
  "set_controls on p = p\<lparr>rg_controls := on, rg_summary := on, rg_entry := on\<rparr>"

definition new_report :: full_report where
  "new_report =
     \<lparr>rt_number = None, rt_incident = None, rt_summary = None, rt_entries = None, rf_creator = None, rf_maySummary = None,
      rf_mayAdd = None\<rparr>"

definition report_number :: "report_page \<Rightarrow> int option" where
  "report_number p = (case rg_report p of None \<Rightarrow> path_reportNumber (rg_ids p) | Some r \<Rightarrow> rt_number r)"

text \<open>The answer for the number asked for, unused when there is none.\<close>

definition loadReport :: "full_report fetch_res \<Rightarrow> report_page \<Rightarrow> report_page \<times> str option" where
  "loadReport res p =
     (case report_number p of
        None \<Rightarrow> (p\<lparr>rg_report := Some new_report\<rparr>, None)
      | Some n \<Rightarrow>
          (case fr_err res of
             Some e \<Rightarrow>
               (let message = lit ''Failed to load report: '' @ e
                in ((set_controls False p)\<lparr>rg_error := Some message\<rparr>, Some message))
           | None \<Rightarrow> (p\<lparr>rg_report := fr_json res\<rparr>, None)))"

definition report_rights :: "full_report \<Rightarrow> report_page \<Rightarrow> report_page" where
  "report_rights r p =
     (if rt_number r = None then p
      else p\<lparr>rg_summary := flag (rf_maySummary r), rg_entry := flag (rf_mayAdd r), rg_submit := flag (rf_mayAdd r)\<rparr>)"

definition displayReport :: "report_access \<Rightarrow> report_page \<times> str option \<Rightarrow> report_page" where
  "displayReport a loaded =
     (let (p, err) = loaded in
      case rg_report p of
        None \<Rightarrow> p\<lparr>rg_error := Some (nullish err [])\<rparr>
      | Some r \<Rightarrow>
          (case err of
             Some message \<Rightarrow> p\<lparr>rg_error := Some message\<rparr>
           | None \<Rightarrow>
               (let q = report_rights r (set_controls (ra_write a) (p\<lparr>rg_error := None\<rparr>))
                in q\<lparr>rg_attach := rg_attach q \<or> ra_attach a\<rparr>)))"

definition loadAndDisplayReport :: "report_access \<Rightarrow> full_report fetch_res \<Rightarrow> report_page \<Rightarrow> report_page" where
  "loadAndDisplayReport a res p = displayReport a (loadReport res p)"

text \<open>The answers of a server that answers with the report it was asked for.\<close>

definition answers_for :: "int \<Rightarrow> full_report fetch_res \<Rightarrow> bool" where
  "answers_for n res \<longleftrightarrow> (fr_err res = None \<longrightarrow> (\<exists>r. fr_json res = Some r \<and> rt_number r = Some n))"

lemma number_kept:
  assumes "report_number p = Some n" and "answers_for n res"
  shows "report_number (loadAndDisplayReport a res p) = Some n"
  using assms
  by (auto simp: loadAndDisplayReport_def displayReport_def loadReport_def report_number_def answers_for_def set_controls_def
      report_rights_def Let_def split: option.splits)

lemma numbers_kept_over:
  "report_number p = Some n \<Longrightarrow> list_all (answers_for n) ress \<Longrightarrow>
     report_number (foldl (\<lambda>p res. loadAndDisplayReport a res p) p ress) = Some n"
  by (induction ress arbitrary: p) (simp_all add: number_kept)

text \<open>What an answer leaves enabled: the message, the controls, the summary, the journal box.\<close>

definition after_answer :: "report_access \<Rightarrow> full_report fetch_res \<Rightarrow> str option \<times> bool \<times> bool \<times> bool" where
  "after_answer a res =
     (case fr_err res of
        Some e \<Rightarrow> (Some (lit ''Failed to load report: '' @ e), False, False, False)
      | None \<Rightarrow>
          (None, ra_write a, flag (Option.bind (fr_json res) rf_maySummary), flag (Option.bind (fr_json res) rf_mayAdd)))"

definition usable :: "report_page \<Rightarrow> str option \<times> bool \<times> bool \<times> bool" where
  "usable p = (rg_error p, rg_controls p, rg_summary p, rg_entry p)"


definition report_five :: full_report where
  "report_five =
     \<lparr>rt_number = Some 5, rt_incident = None, rt_summary = None, rt_entries = None, rf_creator = None,
      rf_maySummary = Some True, rf_mayAdd = None\<rparr>"

definition report_five_page :: report_page where
  "report_five_page =
     \<lparr>rg_report = None, rg_ids = \<lparr>path_eventName = Some (lit ''2026''), path_eventId = Some 1,
        path_incidentNumber = None, path_reportNumber = Some 5, path_visitNumber = None\<rparr>,
      rg_error = None, rg_controls = False, rg_summary = False, rg_entry = False, rg_submit = False, rg_attach = False\<rparr>"


text \<open>
  A reload of a report one may add to enables the button of the composer, whatever is in the box; the
  message of a refused edit is shown over the reload, as it should.
\<close>

lemma reload_enables_submit:
  assumes "report_number p = Some n" and "fr_err res = None" and "fr_json res = Some r" and "rt_number r = Some n"
    and "rf_mayAdd r = Some True"
  shows "rg_submit (loadAndDisplayReport a res p)"
  using assms by (simp add: loadAndDisplayReport_def loadReport_def displayReport_def report_rights_def set_controls_def flag_def Let_def)

section \<open>What is drawn of a report\<close>

definition drawReportTitle :: "path_ids \<Rightarrow> full_report \<Rightarrow> str option" where
  "drawReportTitle ids r =
     map_option (\<lambda>s. s @ (case path_eventName ids of None \<Rightarrow> [] | Some e \<Rightarrow> lit '' | '' @ e))
       (reportAsString (rt_number r) (rt_summary r) (nullish (rt_entries r) []))"

text \<open>A field is its value and its placeholder.\<close>

definition drawReportNumber :: "full_report \<Rightarrow> str \<times> str" where
  "drawReportNumber r = (case rt_number r of None \<Rightarrow> ([], lit ''(new)'') | Some n \<Rightarrow> (show_int n, []))"

definition drawReportCreator :: "full_report \<Rightarrow> str \<times> str" where
  "drawReportCreator r =
     (case rf_creator r of None \<Rightarrow> ([], [8212]) | Some (name, handle) \<Rightarrow> (personDisplayLabel name handle, []))"

definition drawReportSummary :: "full_report \<Rightarrow> str option \<times> str" where
  "drawReportSummary r =
     (case nonempty (rt_summary r) of
        Some s \<Rightarrow> (Some s, [])
      | None \<Rightarrow> (summarizeIncidentOrReport (rt_summary r) (nullish (rt_entries r) []), lit ''One-line summary of the report''))"

text \<open>The field of the incident's number and the link beside it, which is always there.\<close>

record incident_field =
  if_value :: str
  if_link :: str
  if_editable :: bool
  if_noHistory :: bool

definition drawIncidentField :: "path_ids \<Rightarrow> bool \<Rightarrow> full_report \<Rightarrow> incident_field \<Rightarrow> incident_field" where
  "drawIncidentField ids write r f =
     (let g = f\<lparr>if_value := [], if_noHistory := (rt_number r = None)\<rparr>;
          shown =
            (case (rt_number r, rt_incident r) of
               (Some n, Some i) \<Rightarrow>
                 g\<lparr>if_value := show_int i,
                   if_link := js_replace (urlReplace ids url_viewIncidentNumber) (lit ''<number>'') (show_int i)\<rparr>
             | _ \<Rightarrow> g)
      in if write then shown\<lparr>if_editable := True\<rparr> else shown)"

text \<open>After a report is taken off its incident the link still leads there.\<close>

lemma link_outlives_detach:
  assumes "rt_incident r = None"
  shows "if_value (drawIncidentField ids write r f) = []" and "if_link (drawIncidentField ids write r f) = if_link f"
  using assms by (auto simp: drawIncidentField_def Let_def split: option.split)

section \<open>The number of the incident\<close>

datatype link_ask = LinkRefused | LinkIgnored | LinkInvalid | LinkCreate json | LinkPost str

definition link_url :: "path_ids \<Rightarrow> int \<Rightarrow> str \<Rightarrow> int \<Rightarrow> str" where
  "link_url ids report action incident =
     urlReplace ids url_reports @ [47] @ show_int report @ lit ''?action='' @ action @ lit ''&incident='' @ show_int incident"

definition updateIncident :: "bool \<Rightarrow> path_ids \<Rightarrow> full_report option \<Rightarrow> str \<Rightarrow> link_ask" where
  "updateIncident write ids report value =
     (if \<not> write then LinkRefused
      else case Option.bind report rt_number of
        None \<Rightarrow>
          if trim value = [] then LinkIgnored
          else (case editFromElement (lit ''incident'') (Some (\<lambda>v. map_option JNum (parseInt10 (Some v)))) value of
                  None \<Rightarrow> LinkInvalid | Some edits \<Rightarrow> LinkCreate edits)
      | Some n \<Rightarrow>
          (case (truthy (Option.bind report rt_incident), value) of
             (Some i, []) \<Rightarrow> LinkPost (link_url ids n (lit ''detach'') i)
           | _ \<Rightarrow>
               (case parseInt10 (Some value) of
                  None \<Rightarrow> LinkInvalid
                | Some i \<Rightarrow> LinkPost (link_url ids n (lit ''attach'') i))))"

text \<open>
  What a change of the field asks for. Clearing it takes the report off, but is an error when there was
  nothing to take off, and so is a field of blanks; on a new report both are ignored.
\<close>

lemma number_typed_attaches:
  assumes "rt_number r = Some n"
  shows "updateIncident True ids (Some r) (show_int i) = LinkPost (link_url ids n (lit ''attach'') i)"
proof -
  have "parse_int [] = None" by (simp add: parse_int_def parse_digits_def is_digit_def)
  then have "show_int i \<noteq> []" by (metis option.distinct(1) parse_int_show_int)
  then show ?thesis
    using assms by (auto simp: updateIncident_def parseInt10_def simp del: lit_simps split: option.split list.split)
qed

lemma number_cleared_detaches:
  assumes "rt_number r = Some n" and "rt_incident r = Some i" and "i \<noteq> 0"
  shows "updateIncident True ids (Some r) [] = LinkPost (link_url ids n (lit ''detach'') i)"
  using assms by (simp add: updateIncident_def truthy_def)

lemma nothing_to_clear_is_error:
  assumes "rt_number r = Some n" and "rt_incident r = None" and "rt_number r' = None"
  shows "updateIncident True ids (Some r) [] = LinkInvalid" and "updateIncident True ids (Some r') [] = LinkIgnored"
  using assms
  by (simp_all add: updateIncident_def truthy_def parseInt10_def parse_int_def parse_digits_def is_digit_def trim_def)

lemma new_report_carries_number:
  assumes "report = None \<or> (\<exists>r. report = Some r \<and> rt_number r = None)" and "trim (show_int i) \<noteq> []"
  shows "updateIncident True ids report (show_int i) = LinkCreate (editValue (lit ''incident'') (JNum i))"
  using assms by (auto simp: updateIncident_def editFromElement_def parseInt10_def simp del: lit_simps)

text \<open>The new number of a created report: a message nobody is shown, or the number.\<close>

definition report_created :: "str option \<Rightarrow> str + int" where
  "report_created header =
     (case header of
        None \<Rightarrow> Inl (lit ''No IMS-Report-Number header provided.'')
      | Some text \<Rightarrow>
          (case parseInt10 (Some text) of
             None \<Rightarrow> Inl (lit ''Non-integer IMS-Report-Number header provided: '' @ lit ''null'')
           | Some n \<Rightarrow> Inr n))"

lemma created_with_no_message:
  assumes "parseInt10 (Some text) = None"
  shows "report_created (Some text) = Inl (lit ''Non-integer IMS-Report-Number header provided: null'')"
  using assms by (simp add: report_created_def)

definition editReportSummary :: "str \<Rightarrow> json option" where
  "editReportSummary raw = editFromElement (lit ''summary'') None raw"

section \<open>On behalf of\<close>

text \<open>What is in the box, and whom the next entry is filed for.\<close>

record behalf_box =
  bh_text :: str
  bh_person :: "int option"

definition behalf_picked :: "search_hit \<Rightarrow> behalf_box \<Rightarrow> behalf_box" where
  "behalf_picked hit b = b\<lparr>bh_person := sh_id hit, bh_text := personDisplayLabel (sh_name hit) (sh_handle hit)\<rparr>"

definition behalf_typed :: "str \<Rightarrow> behalf_box \<Rightarrow> behalf_box" where
  "behalf_typed s b = b\<lparr>bh_text := s, bh_person := (if trim s = [] then None else bh_person b)\<rparr>"

text \<open>Another name typed over a picked one does not take the pick back: the entry is filed for the first.\<close>

lemma typed_over_pick:
  "trim s \<noteq> [] \<Longrightarrow> behalf_typed s (behalf_picked hit b) = \<lparr>bh_text = s, bh_person = sh_id hit\<rparr>"
  by (cases b) (simp add: behalf_typed_def behalf_picked_def)

text \<open>
  The broadcasts. The page compares the number of the event with its name; both may be null, the former
  also missing, which is \<open>None\<close> outside.
\<close>

datatype js_key = JsNull | JsNumber int | JsString str | JsUndefined

definition report_page_reloads :: "path_ids \<Rightarrow> bool \<Rightarrow> js_key \<Rightarrow> int option \<Rightarrow> bool" where
  "report_page_reloads ids updateAll event number \<longleftrightarrow>
     updateAll \<or>
     event = (case path_eventName ids of None \<Rightarrow> JsNull | Some e \<Rightarrow> JsString e) \<and> number = path_reportNumber ids"

text \<open>So a change of the report shown never reloads it, where the incident page reloads its incident.\<close>

lemma report_news_missed:
  assumes "path_eventName ids = Some name" and "path_eventId ids = Some e"
  shows "\<not> report_page_reloads ids False (JsNumber e) (path_reportNumber ids)"
    and "page_reloads ids (IncidentNews False (Some e) (path_incidentNumber ids)) \<noteq> []"
  using assms by (simp_all add: report_page_reloads_def)

definition report_keydown :: "host \<Rightarrow> bool \<Rightarrow> bool \<Rightarrow> str \<Rightarrow> page_key option" where
  "report_keydown = incident_keydown"

definition leaving_warns :: "str \<Rightarrow> bool" where
  "leaving_warns text \<longleftrightarrow> text \<noteq> []"

text \<open>A file is sent to the report the page has, which is created first when there is none.\<close>

definition url_reportAttachments :: str where
  "url_reportAttachments = lit ''/ims/api/events/<event_id>/reports/<report_number>/attachments''"

definition report_attach_asks :: "path_ids \<Rightarrow> str option \<Rightarrow> path_ids \<Rightarrow> str option" where
  "report_attach_asks ids create_err ids_after =
     (let upload = (\<lambda>i. js_replace (urlReplace i url_reportAttachments) (lit ''<report_number>'')
            (case path_reportNumber i of None \<Rightarrow> [] | Some n \<Rightarrow> show_int n))
      in case path_reportNumber ids of
           Some n \<Rightarrow> Some (upload ids)
         | None \<Rightarrow> (case create_err of Some e \<Rightarrow> None | None \<Rightarrow> Some (upload ids_after)))"

section \<open>The fields of a visit\<close>

datatype visit_field =
    GuestLegalName | GuestDescription | GuestActionPlan | GuestCampName | GuestCampAddress | GuestCampDescription
  | GuestCampContacts | ArrivalMethod | ArrivalState | ArrivalReason | ArrivalBelongings | DepartureMethod | DepartureState
  | ResourceSitter | ResourceBedID | ResourceRest | ResourceClothes | ResourcePogs | ResourceFoodBev | ResourceOther

primrec visit_key :: "visit_field \<Rightarrow> str" where
  "visit_key GuestLegalName = lit ''guest_legal_name''"
| "visit_key GuestDescription = lit ''guest_description''"
| "visit_key GuestActionPlan = lit ''guest_action_plan''"
| "visit_key GuestCampName = lit ''guest_camp_name''"
| "visit_key GuestCampAddress = lit ''guest_camp_address''"
| "visit_key GuestCampDescription = lit ''guest_camp_description''"
| "visit_key GuestCampContacts = lit ''guest_camp_contacts''"
| "visit_key ArrivalMethod = lit ''arrival_method''"
| "visit_key ArrivalState = lit ''arrival_state''"
| "visit_key ArrivalReason = lit ''arrival_reason''"
| "visit_key ArrivalBelongings = lit ''arrival_belongings''"
| "visit_key DepartureMethod = lit ''departure_method''"
| "visit_key DepartureState = lit ''departure_state''"
| "visit_key ResourceSitter = lit ''resource_sitter''"
| "visit_key ResourceBedID = lit ''resource_bed_id''"
| "visit_key ResourceRest = lit ''resource_rest''"
| "visit_key ResourceClothes = lit ''resource_clothes''"
| "visit_key ResourcePogs = lit ''resource_pogs''"
| "visit_key ResourceFoodBev = lit ''resource_food_bev''"
| "visit_key ResourceOther = lit ''resource_other''"

record full_visit = tvisit +
  fv_guest :: "int option"
  fv_fields :: "visit_field \<Rightarrow> str option"
  fv_arrival :: "str option"
  fv_departure :: "str option"
  fv_people :: "incident_person list option"

definition drawVisitField :: "full_visit \<Rightarrow> visit_field \<Rightarrow> str" where
  "drawVisitField v f = nullish (if f = GuestLegalName then vt_guestLegalName v else fv_fields v f) []"

definition editVisitField :: "visit_field \<Rightarrow> str \<Rightarrow> json option" where
  "editVisitField f raw = editFromElement (visit_key f) None raw"

text \<open>The texts of a visit in the object the server answers, and an edit taken into that object.\<close>

definition text_of :: "(str \<times> json) list \<Rightarrow> str \<Rightarrow> str option" where
  "text_of kvs k = (case map_of kvs k of Some (JStr s) \<Rightarrow> Some s | _ \<Rightarrow> None)"

definition visit_with :: "(str \<times> json) list \<Rightarrow> full_visit \<Rightarrow> full_visit" where
  "visit_with kvs v =
     v\<lparr>vt_guestLegalName := text_of kvs (visit_key GuestLegalName), fv_fields := (\<lambda>f. text_of kvs (visit_key f))\<rparr>"

definition taken_in :: "(str \<times> json) list \<Rightarrow> json option \<Rightarrow> (str \<times> json) list" where
  "taken_in kvs edits = (case edits of Some (JObj es) \<Rightarrow> foldl (\<lambda>m (k, v). AList.update k v m) kvs es | _ \<Rightarrow> kvs)"

lemma visit_key_plain: "split_on 46 (visit_key f) = [visit_key f]"
  by (cases f; simp only: visit_key.simps; simp)

lemma visit_key_sums:
  "sum_list (visit_key GuestLegalName) = 1676"
  "sum_list (visit_key GuestDescription) = 1835"
  "sum_list (visit_key GuestActionPlan) = 1807"
  "sum_list (visit_key GuestCampName) = 1576"
  "sum_list (visit_key GuestCampAddress) = 1901"
  "sum_list (visit_key GuestCampDescription) = 2347"
  "sum_list (visit_key GuestCampContacts) = 2022"
  "sum_list (visit_key ArrivalMethod) = 1489"
  "sum_list (visit_key ArrivalState) = 1393"
  "sum_list (visit_key ArrivalReason) = 1496"
  "sum_list (visit_key ArrivalBelongings) = 1912"
  "sum_list (visit_key DepartureMethod) = 1708"
  "sum_list (visit_key DepartureState) = 1612"
  "sum_list (visit_key ResourceSitter) = 1634"
  "sum_list (visit_key ResourceBedID) = 1566"
  "sum_list (visit_key ResourceRest) = 1413"
  "sum_list (visit_key ResourceClothes) = 1721"
  "sum_list (visit_key ResourcePogs) = 1408"
  "sum_list (visit_key ResourceFoodBev) = 1803"
  "sum_list (visit_key ResourceOther) = 1513"
  by (simp_all only: visit_key.simps) simp_all

lemma visit_key_inj: "visit_key f = visit_key g \<longleftrightarrow> f = g"
proof
  assume "visit_key f = visit_key g"
  then have "sum_list (visit_key f) = sum_list (visit_key g)" by (rule arg_cong)
  then show "f = g" by (cases f; cases g; simp add: visit_key_sums del: visit_key.simps)
qed simp

lemma edit_taken_in: "taken_in kvs (editVisitField f raw) = AList.update (visit_key f) (JStr raw) kvs"
  by (simp add: taken_in_def editVisitField_def editFromElement_def editValue_def visit_key_plain edit_value_def)

lemma draw_taken_in:
  "drawVisitField (visit_with (taken_in kvs (editVisitField f raw)) v) g =
     (if g = f then raw else drawVisitField (visit_with kvs v) g)"
  by (auto simp: edit_taken_in drawVisitField_def visit_with_def text_of_def update_conv' visit_key_inj
      simp del: visit_key.simps)

text \<open>
  Every text field of a visit is its own: after any edits, taken in by the server one after the
  other, each field shows the last text typed into it, or what it showed before if nothing was.
\<close>

theorem visit_fields_apart:
  shows "drawVisitField (visit_with (foldl (\<lambda>m (f, raw). taken_in m (editVisitField f raw)) kvs edits) v) g =
    (case map_of (rev edits) g of Some raw \<Rightarrow> raw | None \<Rightarrow> drawVisitField (visit_with kvs v) g)"
proof (induction edits rule: rev_induct)
  case (snoc e edits)
  obtain f raw where "e = (f, raw)" by (cases e)
  with snoc draw_taken_in show ?case by simp
qed simp

section \<open>The page of a visit\<close>

record visit_page =
  vp_visit :: "full_visit option"
  vp_ids :: path_ids
  vp_error :: "str option"
  vp_controls :: bool
  vp_attach :: bool
  vp_arrival :: str
  vp_departure :: str

definition visit_entry :: "bool \<Rightarrow> bool \<Rightarrow> page_entry" where
  "visit_entry authenticated readVisits =
     (if \<not> authenticated then EntryLogin else if \<not> readVisits then EntryRefused else EntryShown)"

definition new_visit :: full_visit where
  "new_visit =
     \<lparr>vt_number = None, vt_incident = None, vt_guestName = None, vt_guestHandle = None, vt_guestLegalName = None,
      vt_entries = None, fv_guest = None, fv_fields = (\<lambda>f. None), fv_arrival = None, fv_departure = None, fv_people = None\<rparr>"

definition visit_number :: "visit_page \<Rightarrow> int option" where
  "visit_number p = (case vp_visit p of None \<Rightarrow> path_visitNumber (vp_ids p) | Some v \<Rightarrow> vt_number v)"

definition loadVisit :: "full_visit fetch_res \<Rightarrow> visit_page \<Rightarrow> visit_page" where
  "loadVisit res p =
     (case visit_number p of
        None \<Rightarrow> p\<lparr>vp_visit := Some new_visit\<rparr>
      | Some n \<Rightarrow>
          (case fr_err res of
             Some e \<Rightarrow>
               p\<lparr>vp_controls := False,
                 vp_error := Some (lit ''Failed to load Visit '' @ show_int n @ lit '': '' @ e)\<rparr>
           | None \<Rightarrow> p\<lparr>vp_visit := fr_json res\<rparr>))"

text \<open>A picker is only set to a time there is.\<close>

definition set_picker :: "str option \<Rightarrow> str \<Rightarrow> str" where
  "set_picker time shown = (case nonempty time of None \<Rightarrow> shown | Some t \<Rightarrow> t)"

definition displayVisit :: "bool \<Rightarrow> bool \<Rightarrow> visit_page \<Rightarrow> visit_page" where
  "displayVisit write attach p =
     (case vp_visit p of
        None \<Rightarrow> p\<lparr>vp_error := Some (lit ''Visit failed to load'')\<rparr>
      | Some v \<Rightarrow>
          p\<lparr>vp_error := None, vp_controls := write, vp_attach := vp_attach p \<or> attach,
            vp_arrival := set_picker (fv_arrival v) (vp_arrival p),
            vp_departure := set_picker (fv_departure v) (vp_departure p)\<rparr>)"

definition loadAndDisplayVisit :: "bool \<Rightarrow> bool \<Rightarrow> full_visit fetch_res \<Rightarrow> visit_page \<Rightarrow> visit_page" where
  "loadAndDisplayVisit write attach res p = displayVisit write attach (loadVisit res p)"

text \<open>A reload that fails wipes its own message and enables the stale fields, unlike on the page of a report.\<close>

lemma visit_error_wiped:
  assumes "vp_visit p = Some v" and "vt_number v = Some n" and "fr_err res = Some e"
  shows "vp_error (loadVisit res p) \<noteq> None" and "vp_error (loadAndDisplayVisit write attach res p) = None"
    and "vp_controls (loadAndDisplayVisit write attach res p) = write"
  using assms by (simp_all add: loadAndDisplayVisit_def displayVisit_def loadVisit_def visit_number_def)

text \<open>A departure that somebody else has cleared stays in the picker.\<close>

lemma cleared_departure_stays:
  assumes "visit_number p = Some n" and "fr_err res = None" and "fr_json res = Some v" and "nonempty (fv_departure v) = None"
  shows "vp_departure (loadAndDisplayVisit write attach res p) = vp_departure p"
  using assms by (simp add: loadAndDisplayVisit_def displayVisit_def loadVisit_def set_picker_def)

definition guest_label :: "full_visit \<Rightarrow> str" where
  "guest_label v = personDisplayLabel (vt_guestName v) (vt_guestHandle v)"

definition doc_title :: "full_visit \<Rightarrow> str" where
  "doc_title v =
     (let base = lit ''White Bird Visit'';
          titled =
            (if vt_number v = None then lit ''New '' @ base
             else if nonempty (fv_departure v) \<noteq> None then lit ''Past '' @ base
             else lit ''Current '' @ base);
          named = (\<lambda>s. titled @ lit '' ('' @ s @ lit '')'')
      in if guest_label v \<noteq> [] then named (guest_label v)
         else case nonempty (vt_guestLegalName v) of
           Some s \<Rightarrow> named s
         | None \<Rightarrow> if truthy (vt_number v) \<noteq> None then named (lit ''no name'') else titled)"

definition drawVisitTitle :: "path_ids \<Rightarrow> bool \<Rightarrow> full_visit \<Rightarrow> str" where
  "drawVisitTitle ids printing v =
     (case (printing, truthy (vt_number v)) of
        (True, Some n) \<Rightarrow>
          lit ''Visit-'' @ null_text (path_eventName ids) @ [45] @ show_int n @ [95] @ guest_label v
      | _ \<Rightarrow>
          visitAsString (vt_number v) (vt_guestName v) (vt_guestHandle v) (vt_guestLegalName v) @
          (case path_eventName ids of None \<Rightarrow> [] | Some e \<Rightarrow> lit '' | '' @ e))"

definition drawParentIncident :: "path_ids \<Rightarrow> full_visit \<Rightarrow> str \<Rightarrow> str \<times> str" where
  "drawParentIncident ids v link =
     (case truthy (vt_incident v) of
        Some i \<Rightarrow> (show_int i, urlReplace ids (url_viewIncidents @ [47] @ show_int i))
      | None \<Rightarrow> ([], link))"

text \<open>The guest shown, and whether the button that clears it is hidden.\<close>

definition drawGuest :: "full_visit \<Rightarrow> str \<times> bool" where
  "drawGuest v = (if guest_label v \<noteq> [] then guest_label v else lit ''(no guest linked)'', fv_guest v = None)"

section \<open>Edits of a visit\<close>

definition url_visits :: str where "url_visits = lit ''/ims/api/events/<event_id>/visits''"

text \<open>A new visit is sent with the present moment as its arrival, whatever the edit is.\<close>

definition visit_message :: "path_ids \<Rightarrow> str \<Rightarrow> int option \<Rightarrow> (str \<times> json) list \<Rightarrow> str \<times> (str \<times> json) list" where
  "visit_message ids now_iso number edits =
     (case number of
        None \<Rightarrow> (urlReplace ids url_visits, AList.update (lit ''arrival_time'') (JStr now_iso) edits)
      | Some n \<Rightarrow> (urlReplace ids url_visits @ [47] @ show_int n, AList.update (lit ''number'') (JNum n) edits))"

definition visit_created :: "str option \<Rightarrow> str + int" where
  "visit_created header =
     (case header of
        None \<Rightarrow> Inl (lit ''No IMS-Visit-Number header provided.'')
      | Some text \<Rightarrow>
          (case parseInt10 (Some text) of
             None \<Rightarrow> Inl (lit ''Non-integer IMS-Visit-Number header provided:'' @ lit ''null'')
           | Some n \<Rightarrow> Inr n))"

definition zeroTimeValue :: str where "zeroTimeValue = lit ''0001-01-01T00:00:00Z''"

text \<open>The milliseconds of a time: none when there is no time, \<open>Some None\<close> when it does not parse, which equals nothing.\<close>

definition time_millis :: "(str \<Rightarrow> int option) \<Rightarrow> str option \<Rightarrow> int option option" where
  "time_millis parse time = (case nonempty time of None \<Rightarrow> None | Some t \<Rightarrow> Some (parse t))"

definition edit_time :: "(str \<Rightarrow> int option) \<Rightarrow> (int \<Rightarrow> str) \<Rightarrow> str \<Rightarrow> str option \<Rightarrow> int option \<Rightarrow> json option" where
  "edit_time parse to_iso key before picked =
     (let same = (case (picked, time_millis parse before) of
            (None, None) \<Rightarrow> True
          | (Some a, Some (Some b)) \<Rightarrow> a = b
          | _ \<Rightarrow> False)
      in if same then None
         else editFromElement key
           (Some (\<lambda>_. Some (JStr (case nonempty (map_option to_iso picked) of None \<Rightarrow> zeroTimeValue | Some t \<Rightarrow> t)))) [])"

definition editArrivalTime :: "(str \<Rightarrow> int option) \<Rightarrow> (int \<Rightarrow> str) \<Rightarrow> full_visit \<Rightarrow> int option \<Rightarrow> json option" where
  "editArrivalTime parse to_iso v picked = edit_time parse to_iso (lit ''arrival_time'') (fv_arrival v) picked"

definition editDepartureTime :: "(str \<Rightarrow> int option) \<Rightarrow> (int \<Rightarrow> str) \<Rightarrow> full_visit \<Rightarrow> int option \<Rightarrow> json option" where
  "editDepartureTime parse to_iso v picked = edit_time parse to_iso (lit ''departure_time'') (fv_departure v) picked"

lemma time_edit_is_text:
  "edit_time parse to_iso key before picked = Some e \<Longrightarrow>
     \<exists>t. e = editValue key (JStr t) \<and> (picked = None \<longrightarrow> t = zeroTimeValue)"
  by (auto simp: edit_time_def editFromElement_def Let_def split: if_splits)

text \<open>The arrival picked on a new visit is not the one that is sent.\<close>

lemma picked_arrival_lost:
  assumes "editArrivalTime parse to_iso v (Some t) = Some (JObj edits)"
  shows "map_of (snd (visit_message ids now_iso None edits)) (lit ''arrival_time'') = Some (JStr now_iso)"
  by (simp add: visit_message_def update_conv' del: lit_simps)

lemma departure_kept_on_creation:
  assumes "editDepartureTime parse to_iso v (Some t) = Some (JObj edits)" and "to_iso t \<noteq> []"
  shows "map_of (snd (visit_message ids now_iso None edits)) (lit ''departure_time'') = Some (JStr (to_iso t))"
proof -
  have "nonempty (Some (to_iso t)) = Some (to_iso t)" using assms(2) by (cases "to_iso t") simp_all
  moreover have "split_on 46 (lit ''departure_time'') = [lit ''departure_time'']" by simp
  ultimately have "edits = [(lit ''departure_time'', JStr (to_iso t))]"
    using assms(1)
    by (auto simp: editDepartureTime_def edit_time_def editFromElement_def editValue_def edit_value_def Let_def
        simp del: lit_simps split: if_splits)
  then show ?thesis by (simp add: visit_message_def update_conv')
qed

definition editParentIncident :: "str \<Rightarrow> json option" where
  "editParentIncident raw =
     editFromElement (lit ''incident'') (Some (\<lambda>v. Some (if v = [] then JNum 0 else num_or_null (parseInt10 (Some v))))) raw"

text \<open>A number that does not parse is sent as an empty text.\<close>

lemma garbage_parent_sent:
  "raw \<noteq> [] \<Longrightarrow> parseInt10 (Some raw) = None \<Longrightarrow> editParentIncident raw = Some (editValue (lit ''incident'') (JStr []))"
  by (simp add: editParentIncident_def editFromElement_def num_or_null_def editValue_def edit_value_def)

definition setGuestPerson :: "search_hit \<Rightarrow> (str \<times> json) list option" where
  "setGuestPerson hit = map_option (\<lambda>i. [(lit ''guest_person_id'', JNum i)]) (sh_id hit)"

definition clearGuest :: "(str \<times> json) list" where
  "clearGuest = [(lit ''guest_person_id'', JNum 0)]"

section \<open>People with a guest, files, news\<close>

definition url_visitPerson :: str where
  "url_visitPerson = lit ''/ims/api/events/<event_id>/visits/<visit_number>/people/<person_id>''"

definition visit_person_url :: "path_ids \<Rightarrow> int \<Rightarrow> str \<Rightarrow> str" where
  "visit_person_url ids visit person =
     js_replace (js_replace (urlReplace ids url_visitPerson) (lit ''<visit_number>'') (show_int visit)) (lit ''<person_id>'') person"

text \<open>
  A person is attached to the visit the page has after it was created, if it had to be; what a failure
  of the creation or the request leaves is the error mark on the field, for the second one only.
\<close>

definition attachPersonToVisit :: "path_ids \<Rightarrow> str option \<Rightarrow> path_ids \<Rightarrow> search_hit \<Rightarrow> str option" where
  "attachPersonToVisit ids create_err ids_after hit =
     (case sh_id hit of
        None \<Rightarrow> None
      | Some person \<Rightarrow>
          (case path_visitNumber ids of
             Some n \<Rightarrow> Some (visit_person_url ids n (show_int person))
           | None \<Rightarrow>
               (if create_err \<noteq> None then None
                else map_option (\<lambda>n. visit_person_url ids_after n (show_int person)) (path_visitNumber ids_after))))"

definition person_attached :: "str option \<Rightarrow> bool" where
  "person_attached err \<longleftrightarrow> err = None"

text \<open>Taking a person off, and writing the involvement: nothing without a person or a visit.\<close>

definition person_asks :: "path_ids \<Rightarrow> str option \<Rightarrow> str option" where
  "person_asks ids personId =
     Option.bind (nonempty personId) (\<lambda>person.
     Option.bind (path_visitNumber ids) (\<lambda>n.
     map_option (visit_person_url ids n) (encodeURIComponent person)))"

definition visit_involvement :: "path_ids \<Rightarrow> str option \<Rightarrow> str \<Rightarrow> (str \<times> json) option" where
  "visit_involvement ids personId value =
     map_option (\<lambda>url. (url, JObj [(lit ''involvement'', JStr value)])) (person_asks ids personId)"

record visit_person_row =
  vw_id :: int
  vw_label :: str
  vw_involvement :: str

definition drawVisitPeople :: "host \<Rightarrow> full_visit \<Rightarrow> visit_person_row list" where
  "drawVisitPeople h v =
     List.map_filter (\<lambda>p. map_option (\<lambda>i. \<lparr>vw_id = i, vw_label = person_in_label p, vw_involvement = or_str (in_involvement p) []\<rparr>) (in_id p))
       (js_sort (\<lambda>a b. locale_compare h (nullish (in_handle a) []) (nullish (in_handle b) [])) (nullish (fv_people v) []))"

definition url_visitAttachments :: str where
  "url_visitAttachments = lit ''/ims/api/events/<event_id>/visits/<visit_number>/attachments''"

definition visit_attach_asks :: "path_ids \<Rightarrow> str option \<Rightarrow> path_ids \<Rightarrow> str option" where
  "visit_attach_asks ids create_err ids_after =
     (let upload = (\<lambda>i. js_replace (urlReplace i url_visitAttachments) (lit ''<visit_number>'')
            (case path_visitNumber i of None \<Rightarrow> [] | Some n \<Rightarrow> show_int n))
      in case path_visitNumber ids of
           Some n \<Rightarrow> Some (upload ids)
         | None \<Rightarrow> (case create_err of Some e \<Rightarrow> None | None \<Rightarrow> Some (upload ids_after)))"

definition visit_page_reloads :: "path_ids \<Rightarrow> bool option \<Rightarrow> int option \<Rightarrow> int option \<Rightarrow> bool" where
  "visit_page_reloads ids updateAll event number \<longleftrightarrow>
     nullish updateAll False \<or> event = path_eventId ids \<and> number = path_visitNumber ids"

definition visit_keydown :: "host \<Rightarrow> bool \<Rightarrow> bool \<Rightarrow> str \<Rightarrow> page_key option" where
  "visit_keydown = incident_keydown"

definition visit_submit_key :: "bool \<Rightarrow> bool \<Rightarrow> bool \<Rightarrow> str \<Rightarrow> bool" where
  "visit_submit_key submitEnabled ctrl alt key \<longleftrightarrow> submitEnabled \<and> (ctrl \<or> alt) \<and> key = lit ''Enter''"

end
