(* ===== verification/TemplPages.thy ===== *)
theory TemplPages
  imports Templ
begin

text \<open>
  The small pages of the server-rendered client and what runs beside its pages
  (\<open>src/go/web/typescript\<close>): signing in (\<open>login.ts\<close>), the theme (\<open>theme.ts\<close>), the service worker
  (\<open>sw.ts\<close>), the push opt-in of this device (\<open>settings.ts\<close> and \<open>ims.ts\<close>), and the lock by which one
  of the open pages keeps the event stream for all (\<open>ims.ts\<close>).
\<close>

section \<open>Signing in\<close>

definition url_app :: str where "url_app = lit ''/ims/app/''"

text \<open>The password's button says what it does next.\<close>

definition toggleShowPassword :: "str \<Rightarrow> str \<times> str" where
  "toggleShowPassword label =
     (if label = lit ''Show'' then (lit ''Hide'', lit ''text'') else (lit ''Show'', lit ''password''))"

text \<open>The class \<open>[\w\-/?=]\<close>.\<close>

definition login_char :: "nat \<Rightarrow> bool" where
  "login_char c \<longleftrightarrow>
     65 \<le> c \<and> c \<le> 90 \<or> 97 \<le> c \<and> c \<le> 122 \<or> is_digit c \<or> c = 95 \<or> c = 45 \<or> c = 47 \<or> c = 63 \<or> c = 61"

definition internalDest :: "str \<Rightarrow> bool" where
  "internalDest s \<longleftrightarrow> starts_with s (lit ''/ims/'')"

definition looksSafe :: "str \<Rightarrow> bool" where
  "looksSafe s \<longleftrightarrow> s \<noteq> [] \<and> list_all login_char s"

definition activeEventDestination :: "EventData list fetch_res \<Rightarrow> str" where
  "activeEventDestination res =
     (case (fr_err res, fr_json res) of
        (None, Some eds) \<Rightarrow>
          (case nav_newestEvent eds of
             None \<Rightarrow> url_app
           | Some newest \<Rightarrow> js_replace url_viewIncidents EVENT_ID (ed_name newest))
      | _ \<Rightarrow> url_app)"

definition login_destination :: "str option \<Rightarrow> EventData list fetch_res \<Rightarrow> str" where
  "login_destination asked res =
     (case asked of
        Some redirect \<Rightarrow> if internalDest redirect \<and> looksSafe redirect then redirect else activeEventDestination res
      | None \<Rightarrow> activeEventDestination res)"

text \<open>The answer to the credentials: the browser, and where it goes, or that it failed.\<close>

definition signed_in ::
  "refresh_answer fetch_res \<Rightarrow> str option \<Rightarrow> EventData list fetch_res \<Rightarrow> browser \<Rightarrow> browser \<times> str option" where
  "signed_in res asked events b =
     (case (fr_err res, fr_json res) of
        (None, Some answer) \<Rightarrow>
          (b\<lparr>br_local := setRefreshTokenBy (ra_expires answer) (setAccessToken (ra_token answer) (clearLocalStorage (br_local b))),
             br_session := empty_device\<rparr>,
           Some (login_destination asked events))
      | _ \<Rightarrow> (b, None))"

lemma js_replace_keeps_front:
  assumes "index_of s p = Some i"
  shows "prefix (take i s) (js_replace s p r)"
  using assms by (simp add: js_replace_def)

lemma active_inside: "starts_with (activeEventDestination res) (lit ''/ims/'')"
proof -
  have "starts_with (js_replace url_viewIncidents EVENT_ID e) (lit ''/ims/'')" for e
  proof -
    have "prefix (lit ''/ims/'') (take 16 url_viewIncidents)" by (simp add: url_viewIncidents_def)
    moreover have "index_of url_viewIncidents EVENT_ID = Some 16" using page_index [of IncidentPage] by simp
    ultimately have "prefix (lit ''/ims/'') (js_replace url_viewIncidents EVENT_ID e)"
      using prefix_order.trans [OF _ js_replace_keeps_front] by blast
    then show ?thesis by (simp only: starts_with_iff_prefix)
  qed
  then show ?thesis
    by (simp add: activeEventDestination_def url_app_def starts_with_def split: option.split)
qed

lemma login_char_plain: "login_char c \<Longrightarrow> c < 128"
  by (auto simp: login_char_def is_digit_def)

text \<open>
  C31: Signing in never leaves the site, whatever the address asks for; and who was sent to sign in from a
  page whose path has only plain characters comes back to that very path.
\<close>

theorem sign_in_comes_back:
  assumes "internalDest pathname" and "looksSafe pathname"
  shows "starts_with (login_destination asked res) (lit ''/ims/'') \<and>
    (\<exists>enc. snd (redirectToLogin True pathname b) = Some (lit ''/ims/auth/login?o='' @ enc) \<and>
       47 \<notin> set enc \<and> 63 \<notin> set enc \<and> 35 \<notin> set enc \<and>
       login_destination (decodeURIComponent enc) res = pathname)"
proof
  show "starts_with (login_destination asked res) (lit ''/ims/'')"
    using active_inside [of res] by (auto simp: login_destination_def internalDest_def simp del: lit_simps split: option.split)
  have small: "\<forall>c \<in> set pathname. c < 128"
    using assms(2) login_char_plain by (auto simp: looksSafe_def list_all_iff)
  then have u: "units pathname" by (force simp: units_def)
  from small obtain enc where enc: "encodeURIComponent pathname = Some enc"
    using encode_plain [of pathname] by force
  then show "\<exists>enc. snd (redirectToLogin True pathname b) = Some (lit ''/ims/auth/login?o='' @ enc) \<and>
       47 \<notin> set enc \<and> 63 \<notin> set enc \<and> 35 \<notin> set enc \<and> login_destination (decodeURIComponent enc) res = pathname"
    using encode_no_delimiter [OF u enc] decode_encode [OF u enc] assms
    by (simp add: redirectToLogin_def login_destination_def del: lit_simps)
qed

lemma sign_in_comes_back_witness:
  "\<exists>enc. snd (redirectToLogin True (lit ''/ims/app/events/2026/incidents/5'') \<lparr>br_local = empty_device, br_session = empty_device\<rparr>) =
       Some (lit ''/ims/auth/login?o='' @ enc) \<and>
     login_destination (decodeURIComponent enc) \<lparr>fr_status = None, fr_json = None, fr_err = None\<rparr> =
       lit ''/ims/app/events/2026/incidents/5''"
  using sign_in_comes_back [of "lit ''/ims/app/events/2026/incidents/5''" None "\<lparr>fr_status = None, fr_json = None, fr_err = None\<rparr>"
      "\<lparr>br_local = empty_device, br_session = empty_device\<rparr>"]
  by (force simp: internalDest_def looksSafe_def login_char_def is_digit_def starts_with_def simp del: lit_simps simp add: lit_simps)

text \<open>
  The active event is not the one with the highest number, as the page's comment has it, when there is a
  name that reads as a number.
\<close>

lemma active_is_not_last:
  assumes "event_year a = Some year" and "event_year b = None" and "ed_id a < ed_id b"
  shows "activeEventDestination \<lparr>fr_status = Some 200, fr_json = Some [a, b], fr_err = None\<rparr> =
    js_replace url_viewIncidents EVENT_ID (ed_name a)"
  using assms by (simp add: activeEventDestination_def nav_newestEvent_def)

section \<open>The theme\<close>

definition theme_key :: str where "theme_key = lit ''theme''"

definition media_theme :: "bool \<Rightarrow> str" where
  "media_theme prefersDark = (if prefersDark then lit ''dark'' else lit ''light'')"

definition getPreferredTheme :: "bool \<Rightarrow> device \<Rightarrow> str" where
  "getPreferredTheme prefersDark dev = nullish (dev_get dev theme_key) (media_theme prefersDark)"

text \<open>What a theme is set as on the document.\<close>

definition setTheme :: "bool \<Rightarrow> str \<Rightarrow> str" where
  "setTheme prefersDark theme = (if theme = lit ''auto'' then media_theme prefersDark else theme)"

datatype theme_event = ThemeClicked str | MediaChanged bool | BeforePrint | AfterPrint

record theme_page =
  th_dark :: bool
  th_store :: device
  th_shown :: str

definition theme_loaded :: "bool \<Rightarrow> device \<Rightarrow> theme_page" where
  "theme_loaded prefersDark dev =
     \<lparr>th_dark = prefersDark, th_store = dev, th_shown = setTheme prefersDark (getPreferredTheme prefersDark dev)\<rparr>"

text \<open>The page after an event; a change of the media is heeded unless a theme of its own is stored.\<close>

fun theme_step :: "theme_page \<Rightarrow> theme_event \<Rightarrow> theme_page" where
  "theme_step p (ThemeClicked t) =
     (if t = [] then p
      else p\<lparr>th_store := dev_set (th_store p) theme_key t, th_shown := setTheme (th_dark p) t\<rparr>)"
| "theme_step p (MediaChanged dark) =
     (let stored = dev_get (th_store p) theme_key
      in if stored \<noteq> Some (lit ''light'') \<and> stored \<noteq> Some (lit ''dark'')
         then p\<lparr>th_dark := dark, th_shown := setTheme dark (getPreferredTheme dark (th_store p))\<rparr>
         else p\<lparr>th_dark := dark\<rparr>)"
| "theme_step p BeforePrint = p\<lparr>th_shown := setTheme (th_dark p) (lit ''light'')\<rparr>"
| "theme_step p AfterPrint = p\<lparr>th_shown := setTheme (th_dark p) (getPreferredTheme (th_dark p) (th_store p))\<rparr>"

text \<open>Where no print is under way, the theme shown is the one a fresh page would show.\<close>

definition theme_settled :: "theme_page \<Rightarrow> bool" where
  "theme_settled p \<longleftrightarrow> th_shown p = th_shown (theme_loaded (th_dark p) (th_store p))"

lemma theme_stays_settled:
  assumes "theme_settled p" and "e \<noteq> BeforePrint"
  shows "theme_settled (theme_step p e)"
proof (cases e)
  case (MediaChanged dark)
  let ?stored = "dev_get (th_store p) theme_key"
  have fixed: "setTheme d (getPreferredTheme d (th_store p)) = nullish ?stored []"
    if "?stored = Some (lit ''light'') \<or> ?stored = Some (lit ''dark'')" for d
    using that by (auto simp: setTheme_def getPreferredTheme_def)
  show ?thesis
  proof (cases "?stored = Some (lit ''light'') \<or> ?stored = Some (lit ''dark'')")
    case True
    then have "theme_step p e = p\<lparr>th_dark := dark\<rparr>" by (auto simp: MediaChanged Let_def simp del: lit_simps)
    with assms(1) fixed [OF True] show ?thesis by (simp add: theme_settled_def theme_loaded_def)
  next
    case False
    then show ?thesis by (simp add: MediaChanged Let_def theme_settled_def theme_loaded_def del: lit_simps)
  qed
qed (use assms in \<open>auto simp: theme_settled_def theme_loaded_def getPreferredTheme_def\<close>)

lemma printing_is_light: "th_shown (theme_step p BeforePrint) = lit ''light''"
  by (simp add: setTheme_def)

lemma theme_back_after_print: "theme_settled (theme_step (theme_step p BeforePrint) AfterPrint)"
  by (simp add: theme_settled_def theme_loaded_def)

section \<open>The service worker\<close>

record push_payload =
  pp_title :: "str option"
  pp_body :: "str option"
  pp_url :: "str option"

text \<open>The data of a push: none, JSON, of which \<open>None\<close> is the null, or another text.\<close>

datatype push_data = NoData | JsonData "push_payload option" | RawText str

record shown_push =
  sp_title :: str
  sp_body :: str
  sp_tag :: str
  sp_url :: str

definition defaultUrl :: str where "defaultUrl = lit ''/ims/app''"

definition payload_of :: "push_data \<Rightarrow> push_payload option" where
  "payload_of d =
     (let blank = \<lparr>pp_title = None, pp_body = None, pp_url = None\<rparr>
      in case d of NoData \<Rightarrow> Some blank | JsonData p \<Rightarrow> p | RawText s \<Rightarrow> Some (blank\<lparr>pp_body := Some s\<rparr>))"

text \<open>The notification; the null payload throws.\<close>

definition push_received :: "push_data \<Rightarrow> shown_push option" where
  "push_received d =
     map_option (\<lambda>p. let url = or_str (pp_url p) defaultUrl in
         \<lparr>sp_title = or_str (pp_title p) (lit ''OCF IMS''), sp_body = or_str (pp_body p) [], sp_tag = url, sp_url = url\<rparr>)
       (payload_of d)"

datatype click_effect = FocusOnly nat | FocusAndGo nat str | OpenWindow str

text \<open>The windows by their addresses, in the browser's order; \<open>data\<close> is the address of the notification.\<close>

definition notification_clicked :: "str option \<Rightarrow> str list \<Rightarrow> click_effect" where
  "notification_clicked data windows =
     (let target = or_str data defaultUrl
      in case find_index (\<lambda>w. has_sub w (lit ''/ims/'')) windows of
           None \<Rightarrow> OpenWindow target
         | Some i \<Rightarrow> if ends_with (windows ! i) target then FocusOnly i else FocusAndGo i target)"

text \<open>What the window that is brought to the front shows afterwards ends with the address asked for.\<close>

definition front_address :: "str list \<Rightarrow> click_effect \<Rightarrow> str" where
  "front_address windows e = (case e of FocusOnly i \<Rightarrow> windows ! i | FocusAndGo i t \<Rightarrow> t | OpenWindow t \<Rightarrow> t)"

lemma click_shows_target:
  "ends_with (front_address windows (notification_clicked (map_option sp_url (push_received d)) windows))
     (or_str (map_option sp_url (push_received d)) defaultUrl)"
  by (auto simp: notification_clicked_def front_address_def ends_with_def Let_def starts_with_iff_prefix split: option.splits)

section \<open>Push on this device\<close>

text \<open>\<open>urlBase64ToUint8Array\<close>; \<open>atob\<close> is the engine's, \<open>None\<close> when it throws.\<close>

definition urlBase64ToUint8Array :: "(str \<Rightarrow> str option) \<Rightarrow> str \<Rightarrow> nat list option" where
  "urlBase64ToUint8Array atob s =
     (let padding = replicate ((4 - length s mod 4) mod 4) 61
      in atob (map (\<lambda>c. if c = 45 then 43 else if c = 95 then 47 else c) (s @ padding)))"

text \<open>
  The permission, the subscription with the key it was made under, the endpoints the server holds for
  this device, and whether the nudge was dismissed.
\<close>

record push_device =
  pd_permission :: str
  pd_sub :: "(str \<times> nat list option) option"
  pd_server :: "str list"
  pd_store :: device

text \<open>
  What the calls of one switching answer: the prompt, the worker, the push service (\<open>None\<close> when it
  throws), whether the browser could unsubscribe, and whether the server could be reached.
\<close>

record push_answers =
  pa_permission :: str
  pa_worker :: bool
  pa_subscribe :: "str option"
  pa_unsubscribed :: bool
  pa_server :: bool

definition drop_sub :: "push_answers \<Rightarrow> push_device \<Rightarrow> push_device" where
  "drop_sub a d = (if pa_unsubscribed a then d\<lparr>pd_sub := None\<rparr> else d)"

definition postPushSubscription :: "push_answers \<Rightarrow> str \<Rightarrow> push_device \<Rightarrow> bool option \<times> push_device" where
  "postPushSubscription a endpoint d =
     (if pa_server a then (Some True, d\<lparr>pd_server := List.insert endpoint (pd_server d)\<rparr>) else (Some False, d))"

definition subscribe_push :: "nat list option \<Rightarrow> push_answers \<Rightarrow> push_device \<Rightarrow> bool option \<times> push_device" where
  "subscribe_push key a d =
     (case (key, pa_subscribe a) of
        (Some bytes, Some endpoint) \<Rightarrow> postPushSubscription a endpoint (d\<lparr>pd_sub := Some (endpoint, Some bytes)\<rparr>)
      | _ \<Rightarrow> (None, d))"

text \<open>The subscription there is, when it was made under the key; a key that does not decode throws in the comparison.\<close>

definition sameVapidKey :: "nat list option \<Rightarrow> nat list option \<Rightarrow> bool option" where
  "sameVapidKey have want =
     (case have of None \<Rightarrow> Some False | Some bytes \<Rightarrow> map_option (\<lambda>w. bytes = w) want)"

definition enableTemplPush ::
  "(str \<Rightarrow> str option) \<Rightarrow> bool \<Rightarrow> str \<Rightarrow> push_answers \<Rightarrow> push_device \<Rightarrow> bool option \<times> push_device" where
  "enableTemplPush atob supported key a d =
     (if \<not> supported \<or> key = [] then (Some False, d)
      else
        (let d1 = d\<lparr>pd_permission := pa_permission a\<rparr>; bytes = urlBase64ToUint8Array atob key in
         if pa_permission a \<noteq> lit ''granted'' \<or> \<not> pa_worker a then (Some False, d1)
         else case pd_sub d1 of
           None \<Rightarrow> subscribe_push bytes a d1
         | Some (endpoint, made_under) \<Rightarrow>
             (case sameVapidKey made_under bytes of
                None \<Rightarrow> (None, d1)
              | Some True \<Rightarrow> postPushSubscription a endpoint d1
              | Some False \<Rightarrow> subscribe_push bytes a (drop_sub a d1))))"

definition disableTemplPush :: "push_answers \<Rightarrow> push_device \<Rightarrow> bool \<times> push_device" where
  "disableTemplPush a d =
     (case pd_sub d of
        None \<Rightarrow> (True, d)
      | Some (endpoint, _) \<Rightarrow>
          (pa_server a,
           drop_sub a (if pa_server a then d\<lparr>pd_server := filter (\<lambda>e. e \<noteq> endpoint) (pd_server d)\<rparr> else d)))"

text \<open>The switch of the settings page and what it says.\<close>

datatype push_status = NothingSaid | Blocked | Receiving | TurnOn | Working | CouldNotEnable | OffButStale

record push_switch =
  pu_shown :: bool
  pu_checked :: bool
  pu_disabled :: bool
  pu_status :: push_status

definition refreshPushUI :: "push_device \<Rightarrow> push_switch \<Rightarrow> push_switch" where
  "refreshPushUI d u =
     (if pd_permission d = lit ''denied'' then u\<lparr>pu_checked := False, pu_disabled := True, pu_status := Blocked\<rparr>
      else u\<lparr>pu_disabled := False, pu_checked := (pd_sub d \<noteq> None),
             pu_status := (if pd_sub d \<noteq> None then Receiving else TurnOn)\<rparr>)"

definition initPushSection :: "bool \<Rightarrow> str \<Rightarrow> push_device \<Rightarrow> push_switch" where
  "initPushSection supported key d =
     (let hidden = \<lparr>pu_shown = False, pu_checked = False, pu_disabled = False, pu_status = NothingSaid\<rparr>
      in if \<not> supported \<or> key = [] then hidden else refreshPushUI d (hidden\<lparr>pu_shown := True\<rparr>))"

definition setPushEnabled ::
  "(str \<Rightarrow> str option) \<Rightarrow> str \<Rightarrow> bool \<Rightarrow> push_answers \<Rightarrow> push_device \<times> push_switch \<Rightarrow> push_device \<times> push_switch" where
  "setPushEnabled atob key checked a both =
     (let (d, u) = both; busy = u\<lparr>pu_checked := checked, pu_disabled := True, pu_status := Working\<rparr> in
      if checked
      then (case enableTemplPush atob True key a d of
              (None, d1) \<Rightarrow> (d1, busy)
            | (Some False, d1) \<Rightarrow> (d1, busy\<lparr>pu_checked := False, pu_disabled := False, pu_status := CouldNotEnable\<rparr>)
            | (Some True, d1) \<Rightarrow>
                (let d2 = d1\<lparr>pd_store := setPushOptInDismissed False (pd_store d1)\<rparr>
                 in (d2, refreshPushUI d2 (busy\<lparr>pu_disabled := False\<rparr>))))
      else
        (let (ok, d1) = disableTemplPush a d; d2 = d1\<lparr>pd_store := setPushOptInDismissed True (pd_store d1)\<rparr>
         in if ok then (d2, refreshPushUI d2 (busy\<lparr>pu_disabled := False\<rparr>))
            else (d2, busy\<lparr>pu_checked := False, pu_disabled := False, pu_status := OffButStale\<rparr>)))"

text \<open>The nudge in the navigation, and its two buttons; a call that throws leaves it open.\<close>

definition nudge_shown :: "bool \<Rightarrow> str option \<Rightarrow> push_device \<Rightarrow> bool" where
  "nudge_shown supported key d \<longleftrightarrow>
     supported \<and> nullish key [] \<noteq> [] \<and> pd_permission d \<noteq> lit ''denied'' \<and> \<not> pushOptInDismissed (pd_store d) \<and>
     pd_sub d = None"

definition nudge_enabled :: "(str \<Rightarrow> str option) \<Rightarrow> str \<Rightarrow> push_answers \<Rightarrow> push_device \<Rightarrow> push_device \<times> bool" where
  "nudge_enabled atob key a d =
     (case enableTemplPush atob True key a d of
        (None, d1) \<Rightarrow> (d1, True)
      | (Some ok, d1) \<Rightarrow> (d1\<lparr>pd_store := setPushOptInDismissed (\<not> ok) (pd_store d1)\<rparr>, False))"

definition nudge_dismissed :: "push_device \<Rightarrow> push_device" where
  "nudge_dismissed d = d\<lparr>pd_store := setPushOptInDismissed True (pd_store d)\<rparr>"

section \<open>What the switch says\<close>

datatype switch_event = Switched bool push_answers | PageOpened

definition switch_step ::
  "(str \<Rightarrow> str option) \<Rightarrow> str \<Rightarrow> push_device \<times> push_switch \<Rightarrow> switch_event \<Rightarrow> push_device \<times> push_switch" where
  "switch_step atob key both e =
     (case e of
        Switched checked a \<Rightarrow> if pu_disabled (snd both) then both else setPushEnabled atob key checked a both
      | PageOpened \<Rightarrow> (fst both, initPushSection True key (fst both)))"

text \<open>The server and the browser do what they are asked.\<close>

fun event_reached :: "switch_event \<Rightarrow> bool" where
  "event_reached (Switched checked a) = (pa_server a \<and> pa_unsubscribed a)"
| "event_reached PageOpened = True"

definition known_sub :: "push_device \<Rightarrow> bool" where
  "known_sub d \<longleftrightarrow> (case pd_sub d of None \<Rightarrow> True | Some (endpoint, _) \<Rightarrow> endpoint \<in> set (pd_server d))"

definition switch_says :: "push_device \<times> push_switch \<Rightarrow> bool" where
  "switch_says both \<longleftrightarrow>
     known_sub (fst both) \<and>
     (pu_status (snd both) = Receiving \<longrightarrow> pd_sub (fst both) \<noteq> None) \<and>
     (pu_status (snd both) = TurnOn \<longrightarrow> pd_sub (fst both) = None)"

lemma enable_keeps_known:
  assumes "pa_server a" and "pa_unsubscribed a" and "known_sub d"
  shows "known_sub (snd (enableTemplPush atob supported key a d))"
  using assms
  by (auto simp: enableTemplPush_def subscribe_push_def postPushSubscription_def drop_sub_def known_sub_def Let_def
      split: option.splits bool.splits prod.splits)

lemma disable_keeps_known:
  assumes "pa_unsubscribed a" and "known_sub d"
  shows "known_sub (snd (disableTemplPush a d))"
  using assms by (auto simp: disableTemplPush_def drop_sub_def known_sub_def split: option.splits)

lemma known_store [simp]: "known_sub (d\<lparr>pd_store := s\<rparr>) = known_sub d"
  by (simp add: known_sub_def split: option.split)

lemma refresh_says: "known_sub d \<Longrightarrow> switch_says (d, refreshPushUI d u)"
  by (cases "pd_sub d") (auto simp: switch_says_def refreshPushUI_def)

lemma switch_step_says:
  assumes "switch_says both" and "event_reached e"
  shows "switch_says (switch_step atob key both e)"
proof (cases e)
  case PageOpened
  with assms(1) refresh_says show ?thesis
    by (auto simp: switch_step_def initPushSection_def Let_def switch_says_def)
next
  case (Switched checked a)
  obtain d u where both: "both = (d, u)" by (cases both)
  with assms Switched have known: "known_sub d" and ok: "pa_server a" "pa_unsubscribed a"
    by (simp_all add: switch_says_def)
  obtain res d1 where on: "enableTemplPush atob True key a d = (res, d1)" by (cases "enableTemplPush atob True key a d")
  obtain off d2 where dis: "disableTemplPush a d = (off, d2)" by (cases "disableTemplPush a d")
  have k1: "known_sub d1" using enable_keeps_known [OF ok known, of atob True key] on by simp
  have k2: "known_sub d2" using disable_keeps_known [OF ok(2) known] dis by simp
  have busy: "switch_says (x, y)" if "known_sub x" "pu_status y \<notin> {Receiving, TurnOn}" for x y
    using that by (auto simp: switch_says_def)
  have "switch_says (setPushEnabled atob key checked a both)"
    using k1 k2 by (auto simp: both setPushEnabled_def on dis Let_def intro!: refresh_says busy split: option.split bool.split)
  with assms(1) show ?thesis by (simp add: Switched switch_step_def)
qed


definition plain_device :: push_device where
  "plain_device = \<lparr>pd_permission = lit ''default'', pd_sub = None, pd_server = [], pd_store = empty_device\<rparr>"

definition all_granted :: push_answers where
  "all_granted =
     \<lparr>pa_permission = lit ''granted'', pa_worker = True, pa_subscribe = Some (lit ''push/1''), pa_unsubscribed = True,
      pa_server = True\<rparr>"

lemma enabled_plain:
  assumes "key \<noteq> []"
  shows "enableTemplPush Some True key (all_granted\<lparr>pa_server := reached\<rparr>) plain_device =
    (Some reached, plain_device\<lparr>pd_permission := lit ''granted'', pd_sub := Some (lit ''push/1'', urlBase64ToUint8Array Some key),
       pd_server := (if reached then [lit ''push/1''] else [])\<rparr>)"
  using assms
  by (simp add: enableTemplPush_def subscribe_push_def postPushSubscription_def plain_device_def all_granted_def
      urlBase64ToUint8Array_def Let_def del: lit_simps)


text \<open>
  Where it falls short. When the server was not reached, the page says that push could not be enabled,
  but the subscription made in the browser stays: opened again, the page says that this device receives
  notifications, which the server has never heard of. And when the push service throws, the switch
  stays disabled until the page is loaded again.
\<close>

lemma failed_post_shows_on:
  "let one = switch_step Some (lit ''key1'') (plain_device, initPushSection True (lit ''key1'') plain_device)
         (Switched True (all_granted\<lparr>pa_server := False\<rparr>));
       two = switch_step Some (lit ''key1'') one PageOpened
   in pu_status (snd one) = CouldNotEnable \<and> pu_status (snd two) = Receiving \<and> pd_server (fst two) = []"
proof -
  have key: "lit ''key1'' \<noteq> []" "lit ''granted'' \<noteq> lit ''denied''" "lit ''default'' \<noteq> lit ''denied''" by simp_all
  show ?thesis
    using enabled_plain [OF key(1), of False] key
    by (simp add: switch_step_def initPushSection_def refreshPushUI_def setPushEnabled_def plain_device_def Let_def del: lit_simps)
qed

lemma thrown_leaves_disabled:
  assumes "enableTemplPush atob True key a d = (None, d1)" and "\<not> pu_disabled u"
  shows "let both = switch_step atob key (d, u) (Switched True a)
    in pu_status (snd both) = Working \<and> switch_step atob key both (Switched checked a') = both"
  using assms by (simp add: switch_step_def setPushEnabled_def Let_def)

lemma push_service_throws:
  "pa_subscribe a = None \<Longrightarrow> pa_permission a = lit ''granted'' \<Longrightarrow> pa_worker a \<Longrightarrow> key \<noteq> [] \<Longrightarrow> pd_sub d = None \<Longrightarrow>
     fst (enableTemplPush atob True key a d) = None"
  by (simp add: enableTemplPush_def subscribe_push_def Let_def split: option.split)

section \<open>One event stream for all open pages\<close>

text \<open>
  The lock of the browser: who holds it, who waits in order, the event sources that are open, and the
  pages that pause between two attempts.
\<close>

record stream_lock =
  lk_holder :: "nat option"
  lk_queue :: "nat list"
  lk_open :: "nat list"
  lk_pausing :: "nat list"

definition no_pages :: stream_lock where
  "no_pages = \<lparr>lk_holder = None, lk_queue = [], lk_open = [], lk_pausing = []\<rparr>"

text \<open>\<open>tryAcquireLock\<close>: the lock is granted, and the page opens its event source.\<close>

definition lock_granted :: "nat \<Rightarrow> stream_lock \<Rightarrow> stream_lock" where
  "lock_granted c s = s\<lparr>lk_holder := Some c, lk_open := lk_open s @ [c]\<rparr>"

definition lock_asked :: "nat \<Rightarrow> stream_lock \<Rightarrow> stream_lock" where
  "lock_asked c s = (if lk_holder s = None then lock_granted c s else s\<lparr>lk_queue := lk_queue s @ [c]\<rparr>)"

definition lock_released :: "stream_lock \<Rightarrow> stream_lock" where
  "lock_released s =
     (case lk_queue s of
        [] \<Rightarrow> s\<lparr>lk_holder := None\<rparr>
      | c # cs \<Rightarrow> lock_granted c (s\<lparr>lk_queue := cs\<rparr>))"

definition on_page :: "stream_lock \<Rightarrow> nat list" where
  "on_page s = (case lk_holder s of None \<Rightarrow> [] | Some c \<Rightarrow> [c]) @ lk_queue s @ lk_pausing s"

text \<open>
  The event source of the holder ends for good, which gives the lock back and begins the pause; a pause
  ends; a page is opened, over a secure connection; a page goes away, with all it holds.
\<close>

inductive lock_step :: "stream_lock \<Rightarrow> stream_lock \<Rightarrow> bool" where
  page_asks: "c \<notin> set (on_page s) \<Longrightarrow> lock_step s (lock_asked c s)"
| source_closed: "lk_holder s = Some c \<Longrightarrow>
    lock_step s (lock_released (s\<lparr>lk_open := removeAll c (lk_open s), lk_pausing := lk_pausing s @ [c]\<rparr>))"
| pause_over: "c \<in> set (lk_pausing s) \<Longrightarrow> lock_step s (lock_asked c (s\<lparr>lk_pausing := removeAll c (lk_pausing s)\<rparr>))"
| holder_gone: "lk_holder s = Some c \<Longrightarrow> lock_step s (lock_released (s\<lparr>lk_open := removeAll c (lk_open s)\<rparr>))"
| other_gone: "lk_holder s \<noteq> Some c \<Longrightarrow>
    lock_step s (s\<lparr>lk_queue := removeAll c (lk_queue s), lk_pausing := removeAll c (lk_pausing s)\<rparr>)"

inductive lock_reachable :: "stream_lock \<Rightarrow> bool" where
  lock_start: "lock_reachable no_pages"
| lock_next: "lock_reachable s \<Longrightarrow> lock_step s s' \<Longrightarrow> lock_reachable s'"

definition lock_ok :: "stream_lock \<Rightarrow> bool" where
  "lock_ok s \<longleftrightarrow>
     lk_open s = (case lk_holder s of None \<Rightarrow> [] | Some c \<Rightarrow> [c]) \<and> (lk_holder s = None \<longrightarrow> lk_queue s = []) \<and>
     distinct (on_page s)"

lemma asked_ok:
  assumes "lock_ok s" and "c \<notin> set (on_page s)"
  shows "lock_ok (lock_asked c s)"
  using assms by (auto simp: lock_ok_def lock_asked_def lock_granted_def on_page_def split: option.splits)

text \<open>The state just before the lock is handed on: nobody streams, and the queue is as it was.\<close>

lemma released_ok:
  assumes "lk_open s = []" and "distinct (lk_queue s @ lk_pausing s)"
  shows "lock_ok (lock_released s)"
  using assms by (auto simp: lock_ok_def lock_released_def lock_granted_def on_page_def split: list.split)

lemma lock_step_ok:
  assumes "lock_ok s" and "lock_step s s'"
  shows "lock_ok s'"
  using assms(2)
proof (cases rule: lock_step.cases)
  case (page_asks c)
  with assms(1) asked_ok show ?thesis by simp
next
  case (source_closed c)
  have "lk_open (s\<lparr>lk_open := removeAll c (lk_open s), lk_pausing := lk_pausing s @ [c]\<rparr>) = []"
    and "distinct (lk_queue s @ lk_pausing s @ [c])"
    using assms(1) source_closed(2) by (auto simp: lock_ok_def on_page_def)
  then show ?thesis unfolding source_closed(1) by (intro released_ok) simp_all
next
  case (pause_over c)
  have "lock_ok (s\<lparr>lk_pausing := removeAll c (lk_pausing s)\<rparr>)"
    using assms(1) by (auto simp: lock_ok_def on_page_def distinct_removeAll)
  moreover have "c \<notin> set (on_page (s\<lparr>lk_pausing := removeAll c (lk_pausing s)\<rparr>))"
    using assms(1) pause_over(2) by (auto simp: lock_ok_def on_page_def split: option.splits)
  ultimately show ?thesis using pause_over(1) asked_ok by simp
next
  case (holder_gone c)
  have "lk_open (s\<lparr>lk_open := removeAll c (lk_open s)\<rparr>) = []" and "distinct (lk_queue s @ lk_pausing s)"
    using assms(1) holder_gone(2) by (auto simp: lock_ok_def on_page_def)
  then show ?thesis unfolding holder_gone(1) by (intro released_ok) simp_all
next
  case (other_gone c)
  with assms(1) show ?thesis by (auto simp: lock_ok_def on_page_def distinct_removeAll split: option.splits)
qed

text \<open>
  C21: Of all the pages a person has open, at most one has an event stream, and as long as one of them
  waits for it there is one: pages may be opened and closed, streams may end for good and pauses
  run out in any order.
\<close>

theorem one_page_streams:
  assumes "lock_reachable s"
  shows "length (lk_open s) \<le> 1 \<and> (lk_queue s \<noteq> [] \<longrightarrow> length (lk_open s) = 1) \<and> distinct (on_page s)"
proof -
  have "lock_ok s" using assms
  proof induction
    case lock_start
    show ?case by (simp add: lock_ok_def no_pages_def on_page_def)
  next
    case (lock_next s s')
    then show ?case using lock_step_ok by blast
  qed
  then show ?thesis by (auto simp: lock_ok_def split: option.splits)
qed

lemma one_page_streams_witness:
  "let s = lock_asked 2 (lock_asked 1 no_pages) in lk_queue s = [2] \<and> length (lk_open s) = 1"
proof -
  have "lock_step no_pages (lock_asked 1 no_pages)"
    by (rule page_asks) (simp add: on_page_def no_pages_def)
  moreover have "lock_step (lock_asked 1 no_pages) (lock_asked 2 (lock_asked 1 no_pages))"
    by (rule page_asks) (simp add: on_page_def no_pages_def lock_asked_def lock_granted_def)
  ultimately have "lock_reachable (lock_asked 2 (lock_asked 1 no_pages))"
    using lock_start lock_next by blast
  moreover have "lk_queue (lock_asked 2 (lock_asked 1 no_pages)) = [2]"
    by (simp add: lock_asked_def lock_granted_def no_pages_def)
  ultimately show ?thesis using one_page_streams by (metis list.distinct(1))
qed

text \<open>When every page pauses, nobody streams until a pause is over, and then at once.\<close>

lemma pause_then_stream:
  assumes "lk_holder s = None" and "c \<in> set (lk_pausing s)"
  shows "\<exists>s'. lock_step s s' \<and> lk_holder s' = Some c"
  using pause_over [OF assms(2)] assms(1) by (force simp: lock_asked_def lock_granted_def)

end
