(* ===== verification/TemplAdmin.thy ===== *)
theory TemplAdmin
  imports TemplIncident TemplPages
begin

text \<open>
  The administration of the server-rendered client (\<open>src/go/web/typescript\<close>): areas
  (\<open>admin_areas.ts\<close>), types and outcomes of incidents (\<open>admin_types.ts\<close>, \<open>admin_outcomes.ts\<close>), events
  (\<open>admin_events.ts\<close>), crews (\<open>crews.ts\<close>), the log of actions (\<open>admin_action_logs.ts\<close>) and the
  dashboard's logic (\<open>dashboard.ts\<close>). A write is the object that is sent; its keys are in the order of
  the code.
\<close>

section \<open>Things filed under a key\<close>

text \<open>A list shown part by part: each part takes what is filed under its key.\<close>

definition filed_under :: "('a \<Rightarrow> 'k) \<Rightarrow> 'a list \<Rightarrow> 'k \<Rightarrow> 'a list" where
  "filed_under key xs k = filter (\<lambda>x. key x = k) xs"

lemma filed_once:
  assumes "distinct ks"
  shows "mset (concat (map (filed_under key xs) ks)) = filter_mset (\<lambda>x. key x \<in> set ks) (mset xs)"
  using assms
proof (induction ks)
  case (Cons k ks)
  have "filter_mset (\<lambda>x. key x = k) M + filter_mset (\<lambda>x. key x \<in> set ks) M = filter_mset (\<lambda>x. key x = k \<or> key x \<in> set ks) M"
    for M
    using Cons.prems by (induction M) auto
  with Cons show ?case by (simp add: filed_under_def)
qed simp

section \<open>Areas\<close>

record admin_area = area +
  aa_parent :: "str option"
  aa_approved :: "bool option"
  aa_proposer :: "(str option \<times> str option) option"

record areas_page =
  as_options :: "str list"
  as_selected :: str
  as_event :: str
  as_areas :: "admin_area list"
  as_error :: "str option"
  as_shown :: bool
  as_canAdd :: bool
  as_store :: device

definition areas_lastEventKey :: str where "areas_lastEventKey = lit ''admin_areas_event''"

definition url_areas :: str where "url_areas = lit ''/ims/api/events/<event_id>/areas''"

definition areasURL :: "areas_page \<Rightarrow> str" where
  "areasURL p = js_replace url_areas EVENT_ID (as_event p)"

definition loadEventOptions :: "host \<Rightarrow> EventData list fetch_res \<Rightarrow> areas_page \<Rightarrow> areas_page" where
  "loadEventOptions h res p =
     (case (fr_err res, fr_json res) of
        (None, Some events) \<Rightarrow>
          p\<lparr>as_options := map ed_name (js_sort (\<lambda>a b. locale_compare h (ed_name a) (ed_name b)) events)\<rparr>
      | (e, _) \<Rightarrow> p\<lparr>as_error := Some (lit ''Failed to load events: '' @ nullish e (lit ''null''))\<rparr>)"

text \<open>
  The answer is that to the request for the areas of the event chosen. \<open>can_write\<close> is the viewer's right
  to write in an event.
\<close>

definition loadAreas :: "bool \<Rightarrow> (str \<Rightarrow> bool) \<Rightarrow> admin_area list fetch_res \<Rightarrow> areas_page \<Rightarrow> areas_page" where
  "loadAreas isAdm can_write res p =
     (let event = trim (as_selected p);
          q = p\<lparr>as_error := None, as_event := event, as_shown := (event \<noteq> []),
                as_canAdd := (event \<noteq> [] \<and> (isAdm \<or> can_write event))\<rparr>
      in if event = [] then q\<lparr>as_areas := []\<rparr>
         else
           (let r = q\<lparr>as_store := dev_set (as_store q) areas_lastEventKey event\<rparr>
            in case (fr_err res, fr_json res) of
                 (None, Some areas) \<Rightarrow> r\<lparr>as_areas := areas\<rparr>
               | (e, _) \<Rightarrow> r\<lparr>as_error := Some (lit ''Failed to load areas: '' @ nullish e (lit ''null''))\<rparr>))"

text \<open>The two doorways: the event of the address, added to the options when it is missing, or the last one.\<close>

definition enter_areas :: "str option \<Rightarrow> areas_page \<Rightarrow> areas_page \<times> bool" where
  "enter_areas urlEvent p =
     (case urlEvent of
        Some e \<Rightarrow>
          (p\<lparr>as_options := (if e \<in> set (as_options p) then as_options p else as_options p @ [e]), as_selected := e\<rparr>, True)
      | None \<Rightarrow>
          (case nonempty (dev_get (as_store p) areas_lastEventKey) of
             Some e \<Rightarrow> if e \<in> set (as_options p) then (p\<lparr>as_selected := e\<rparr>, True) else (p, False)
           | None \<Rightarrow> (p, False)))"

text \<open>
  When the areas of another event cannot be loaded, those of the one before stay on the page, and are
  edited in the other.
\<close>

lemma other_areas_stay:
  assumes "trim (as_selected p) \<noteq> []" and "fr_err res = Some e"
  shows "as_areas (loadAreas isAdm can_write res p) = as_areas p"
    and "areasURL (loadAreas isAdm can_write res p) = js_replace url_areas EVENT_ID (trim (as_selected p))"
  using assms by (simp_all add: loadAreas_def Let_def areasURL_def)

definition compareAreas :: "host \<Rightarrow> admin_area \<Rightarrow> admin_area \<Rightarrow> int" where
  "compareAreas h a b =
     (let diff = nullish (ar_sort a) 0 - nullish (ar_sort b) 0
      in if diff \<noteq> 0 then diff else locale_compare h (nullish (ar_name a) []) (nullish (ar_name b) []))"

definition top_level :: "admin_area \<Rightarrow> bool" where
  "top_level a \<longleftrightarrow> nonempty (aa_parent a) = None"

definition area_children :: "host \<Rightarrow> admin_area list \<Rightarrow> admin_area \<Rightarrow> admin_area list" where
  "area_children h areas a = js_sort (compareAreas h) (filed_under aa_parent areas (ar_slug a))"

text \<open>The rows of the list, and whether they are indented.\<close>

definition drawAreas :: "host \<Rightarrow> admin_area list \<Rightarrow> (admin_area \<times> bool) list" where
  "drawAreas h areas =
     concat (map (\<lambda>a. (a, False) # map (\<lambda>c. (c, True)) (area_children h areas a))
       (js_sort (compareAreas h) (filter top_level areas)))"

text \<open>The hierarchy has one level: no parent is the empty text, and a parent is an area without one.\<close>

definition one_level :: "admin_area list \<Rightarrow> bool" where
  "one_level areas \<longleftrightarrow>
     distinct (map ar_slug areas) \<and> list_all (\<lambda>a. nonempty (ar_slug a) \<noteq> None \<and> aa_parent a \<noteq> Some []) areas \<and>
     list_all (\<lambda>a. top_level a \<or> (\<exists>b \<in> set areas. top_level b \<and> aa_parent a = ar_slug b)) areas"

lemma children_interleaved:
  "mset (map fst (concat (map (\<lambda>a. (a, False) # map (\<lambda>c. (c, True)) (g a)) ts))) = mset ts + mset (concat (map g ts))"
  by (induction ts) (simp_all add: comp_def)

lemma mset_sorted_children:
  "mset (concat (map (area_children h areas) ts)) = mset (concat (map (filed_under aa_parent areas) (map ar_slug ts)))"
  by (induction ts) (simp_all add: area_children_def)

text \<open>
  With a hierarchy of one level the page shows every area exactly once, and the areas in their order
  below the one they belong to.
\<close>

theorem every_area_shown_once:
  assumes "one_level areas"
  shows "mset (map fst (drawAreas h areas)) = mset areas \<and>
    map fst (filter (\<lambda>(a, indented). \<not> indented) (drawAreas h areas)) = js_sort (compareAreas h) (filter top_level areas)"
proof
  let ?ts = "js_sort (compareAreas h) (filter top_level areas)"
  have "distinct (map ar_slug (filter top_level areas))"
    using assms by (simp add: one_level_def distinct_map_filter)
  then have slugs: "distinct (map ar_slug ?ts)"
    by (metis mset_eq_imp_distinct_iff mset_js_sort mset_map)
  have "aa_parent a \<in> set (map ar_slug ?ts) \<longleftrightarrow> \<not> top_level a" if a: "a \<in> set areas" for a
  proof
    assume "aa_parent a \<in> set (map ar_slug ?ts)"
    then obtain b where "b \<in> set areas" "aa_parent a = ar_slug b" by auto
    moreover from this(1) have "nonempty (ar_slug b) \<noteq> None" using assms by (simp add: one_level_def list_all_iff)
    ultimately show "\<not> top_level a" by (simp add: top_level_def)
  next
    assume "\<not> top_level a"
    with assms a obtain b where "b \<in> set areas" "top_level b" "aa_parent a = ar_slug b"
      by (auto simp: one_level_def list_all_iff)
    then show "aa_parent a \<in> set (map ar_slug ?ts)" by auto
  qed
  then have "filter_mset (\<lambda>x. aa_parent x \<in> set (map ar_slug ?ts)) (mset areas) = filter_mset (\<lambda>a. \<not> top_level a) (mset areas)"
    by (intro filter_mset_cong) simp_all
  then have "mset (concat (map (area_children h areas) ?ts)) = filter_mset (\<lambda>a. \<not> top_level a) (mset areas)"
    unfolding mset_sorted_children filed_once [OF slugs] by simp
  then have "mset (map fst (drawAreas h areas)) = filter_mset top_level (mset areas) + filter_mset (\<lambda>a. \<not> top_level a) (mset areas)"
    unfolding drawAreas_def children_interleaved by simp
  then show "mset (map fst (drawAreas h areas)) = mset areas"
    by (metis multiset_partition)
  have "map fst (filter (\<lambda>(a, i). \<not> i) (concat (map (\<lambda>a. (a, False) # map (\<lambda>c. (c, True)) (g a)) ts))) = ts"
    for g :: "admin_area \<Rightarrow> admin_area list" and ts
    by (induction ts) simp_all
  then show "map fst (filter (\<lambda>(a, i). \<not> i) (drawAreas h areas)) = ?ts" by (simp add: drawAreas_def)
qed

definition plain_area :: "string \<Rightarrow> string option \<Rightarrow> admin_area" where
  "plain_area slug parent =
     \<lparr>ar_slug = Some (lit slug), ar_name = None, ar_sort = None, aa_parent = map_option lit parent, aa_approved = None,
      aa_proposer = None\<rparr>"

lemma every_area_shown_once_witness:
  "mset (map fst (drawAreas h [plain_area ''b'' (Some ''a''), plain_area ''a'' None])) =
     {#plain_area ''a'' None, plain_area ''b'' (Some ''a'')#}"
proof -
  have "one_level [plain_area ''b'' (Some ''a''), plain_area ''a'' None]"
    by (simp add: one_level_def plain_area_def top_level_def)
  from every_area_shown_once [OF this, of h] show ?thesis by (simp add: add_mset_commute)
qed

text \<open>
  But the page itself makes a second level: an area that has children may be given a parent, and its
  children are then shown nowhere.
\<close>

lemma grandchild_vanishes:
  assumes "c \<in> set areas" and "\<not> top_level c" and "\<And>b. b \<in> set areas \<Longrightarrow> top_level b \<Longrightarrow> aa_parent c \<noteq> ar_slug b"
  shows "c \<notin> fst ` set (drawAreas h areas)"
proof
  assume "c \<in> fst ` set (drawAreas h areas)"
  then obtain b where "b \<in> set areas" "top_level b" "c = b \<or> aa_parent c = ar_slug b"
    by (auto simp: drawAreas_def area_children_def filed_under_def)
  with assms(2,3) show False by blast
qed

text \<open>The controls of a row: edit, the mark of a proposal with its title, and the two resolutions.\<close>

record area_controls =
  ac_edit :: bool
  ac_proposed :: "str option option"
  ac_resolve :: bool

definition proposer_name :: "(str option \<times> str option) option \<Rightarrow> str option" where
  "proposer_name p =
     (case p of
        None \<Rightarrow> None
      | Some (handle, name) \<Rightarrow> (case nonempty handle of Some s \<Rightarrow> Some s | None \<Rightarrow> nonempty name))"

definition appendAreaRow :: "bool \<Rightarrow> admin_area \<Rightarrow> area_controls" where
  "appendAreaRow isAdm a =
     (let waiting = (aa_approved a = Some False)
      in \<lparr>ac_edit = isAdm,
          ac_proposed = (if waiting then Some (map_option (\<lambda>w. lit ''Proposed by '' @ w) (proposer_name (aa_proposer a))) else None),
          ac_resolve = (waiting \<and> isAdm)\<rparr>)"

text \<open>The options of the three menus: the slug and the name, below the empty one.\<close>

definition area_options :: "host \<Rightarrow> admin_area list \<Rightarrow> (str \<times> str) list" where
  "area_options h areas = map (\<lambda>a. (nullish (ar_slug a) [], nullish (ar_name a) [])) (js_sort (compareAreas h) areas)"

definition populateParentOptions :: "host \<Rightarrow> admin_area list \<Rightarrow> admin_area \<Rightarrow> (str \<times> str) list" where
  "populateParentOptions h areas editing = area_options h (filter (\<lambda>a. top_level a \<and> ar_slug a \<noteq> ar_slug editing) areas)"

definition populateAddParentOptions :: "host \<Rightarrow> admin_area list \<Rightarrow> (str \<times> str) list" where
  "populateAddParentOptions h areas = area_options h (filter top_level areas)"

definition duplicate_options :: "host \<Rightarrow> admin_area list \<Rightarrow> admin_area \<Rightarrow> (str \<times> str) list" where
  "duplicate_options h areas a =
     area_options h (filter (\<lambda>b. aa_approved b \<noteq> Some False \<and> ar_slug b \<noteq> ar_slug a) areas)"

text \<open>So the menu of parents of an area with children offers a parent, which makes its children vanish.\<close>

lemma parent_offered_to_parent:
  assumes "a \<in> set areas" and "b \<in> set areas" and "top_level b" and "ar_slug b = Some s" and "ar_slug a \<noteq> Some s"
  shows "(s, nullish (ar_name b) []) \<in> set (populateParentOptions h areas a)"
  using assms by (force simp: populateParentOptions_def area_options_def)

text \<open>What the controls send: nothing, a complaint, or the edit.\<close>

datatype 'e admin_ask = AskNone | AskComplaint str | AskEdit 'e

type_synonym json_edit = "(str \<times> json) list"

definition approveArea :: "str \<Rightarrow> json_edit admin_ask" where
  "approveArea slug =
     (if slug = [] then AskNone else AskEdit [(lit ''slug'', JStr slug), (lit ''approved'', JBool True)])"

definition submitMarkDuplicate :: "str option \<Rightarrow> str \<Rightarrow> json_edit admin_ask" where
  "submitMarkDuplicate slug canonical =
     (case nonempty slug of
        None \<Rightarrow> AskNone
      | Some s \<Rightarrow>
          if canonical = [] then AskComplaint (lit ''Choose the area this is a duplicate of.'')
          else AskEdit [(lit ''slug'', JStr s), (lit ''duplicate_of'', JStr canonical)])"

definition submitCreateArea :: "areas_page \<Rightarrow> str \<Rightarrow> str \<Rightarrow> str \<Rightarrow> json_edit admin_ask" where
  "submitCreateArea p nameText parent sortText =
     (if as_event p = [] then AskNone
      else if trim nameText = [] then AskComplaint (lit ''Area name is required.'')
      else AskEdit [(lit ''name'', JStr (trim nameText)), (lit ''parent_slug'', JStr parent),
        (lit ''sort_order'', JNum (nullish (parseInt10 (Some sortText)) 0))])"

definition setAreaName :: "str option \<Rightarrow> str \<Rightarrow> json_edit admin_ask" where
  "setAreaName slug value =
     (case nonempty slug of
        None \<Rightarrow> AskNone
      | Some s \<Rightarrow> if value = [] then AskNone else AskEdit [(lit ''slug'', JStr s), (lit ''name'', JStr value)])"

definition setAreaParent :: "str option \<Rightarrow> str \<Rightarrow> json_edit admin_ask" where
  "setAreaParent slug value =
     (case nonempty slug of
        None \<Rightarrow> AskNone
      | Some s \<Rightarrow> AskEdit [(lit ''slug'', JStr s), (lit ''parent_slug'', JStr value)])"

definition setAreaSortOrder :: "str option \<Rightarrow> str \<Rightarrow> json_edit admin_ask" where
  "setAreaSortOrder slug value =
     (case nonempty slug of
        None \<Rightarrow> AskNone
      | Some s \<Rightarrow> AskEdit [(lit ''slug'', JStr s), (lit ''sort_order'', JNum (nullish (parseInt10 (Some value)) 0))])"

text \<open>The answer to an edit, in which the error is quoted; a field of the modal loads the areas again in any case.\<close>

definition sendArea :: "(str \<Rightarrow> str) \<Rightarrow> str option \<Rightarrow> areas_page \<Rightarrow> areas_page" where
  "sendArea stringify err p =
     (case err of
        None \<Rightarrow> p
      | Some e \<Rightarrow> p\<lparr>as_error := Some (lit ''Failed to edit area:'' @ 10 # stringify e)\<rparr>)"

definition area_field_saved ::
  "bool \<Rightarrow> (str \<Rightarrow> bool) \<Rightarrow> (str \<Rightarrow> str) \<Rightarrow> str option \<Rightarrow> admin_area list fetch_res \<Rightarrow> areas_page \<Rightarrow> areas_page \<times> bool" where
  "area_field_saved isAdm can_write stringify err res p =
     (loadAreas isAdm can_write res (sendArea stringify err p), err = None)"

text \<open>And so takes the message of the refusal down.\<close>

lemma area_error_wiped:
  assumes "fr_err res = None" and "fr_json res = Some areas"
  shows "as_error (sendArea stringify (Some e) p) \<noteq> None"
    and "as_error (fst (area_field_saved isAdm can_write stringify (Some e) res p)) = None"
  using assms by (simp_all add: area_field_saved_def sendArea_def loadAreas_def Let_def)

section \<open>Types and outcomes\<close>

record admin_type = itype +
  at_description :: "str option"
  at_approved :: "bool option"

text \<open>The list: the answer sorted by name, kept as it was after a failure, whose message is an alert.\<close>

definition loadAllIncidentTypes :: "host \<Rightarrow> admin_type list fetch_res \<Rightarrow> admin_type list \<Rightarrow> admin_type list \<times> str option" where
  "loadAllIncidentTypes h res types =
     (case (fr_err res, fr_json res) of
        (None, Some answer) \<Rightarrow>
          (js_sort (\<lambda>a b. locale_compare h (nullish (it_name a) []) (nullish (it_name b) [])) answer, None)
      | (e, _) \<Rightarrow> (types, Some (lit ''Failed to load incident types:'' @ 10 # nullish e (lit ''null''))))"

definition group_order :: "str option list" where
  "group_order = map Some incidentTypeGroups @ [None]"

text \<open>The headings with the types below each, where there are any.\<close>

definition updateIncidentTypes :: "admin_type list \<Rightarrow> (str \<times> admin_type list) list" where
  "updateIncidentTypes types =
     List.map_filter (\<lambda>g. let ts = filed_under it_group types g
         in if ts = [] then None else Some (incidentTypeGroupName g, ts)) group_order"

lemma group_order_distinct: "distinct group_order"
  by (simp add: group_order_def incidentTypeGroups_def)

lemma groups_flat: "concat (map snd (updateIncidentTypes types)) = concat (map (filed_under it_group types) group_order)"
proof -
  have "concat (map snd (List.map_filter (\<lambda>g. let ts = f g in if ts = [] then None else Some (n g, ts)) gs)) = concat (map f gs)"
    for f :: "str option \<Rightarrow> admin_type list" and n :: "str option \<Rightarrow> str" and gs
    by (induction gs) (simp_all add: Let_def)
  then show ?thesis by (simp add: updateIncidentTypes_def)
qed

text \<open>Every type of a known group, or of none, is shown exactly once; the page has no place for the others.\<close>

lemma types_shown_once:
  "mset (concat (map snd (updateIncidentTypes types))) = filter_mset (\<lambda>t. it_group t \<in> set group_order) (mset types)"
  unfolding groups_flat by (rule filed_once [OF group_order_distinct])

lemma unknown_group_not_shown:
  assumes "it_group t = Some g" and "g \<notin> set incidentTypeGroups"
  shows "t \<notin> set (concat (map snd (updateIncidentTypes types)))"
  using assms unfolding groups_flat by (auto simp: filed_under_def group_order_def)

definition createIncidentType :: "str \<Rightarrow> json_edit" where
  "createIncidentType value = [(lit ''name'', JStr value)]"

definition approveIncidentType :: "int option \<Rightarrow> json_edit admin_ask" where
  "approveIncidentType i =
     (case i of None \<Rightarrow> AskNone | Some n \<Rightarrow> AskEdit [(lit ''id'', JNum n), (lit ''approved'', JBool True)])"

definition set_hidden :: "bool \<Rightarrow> str option \<Rightarrow> json_edit admin_ask" where
  "set_hidden hidden typeId =
     (case nonempty typeId of
        None \<Rightarrow> AskNone
      | Some s \<Rightarrow> AskEdit [(lit ''id'', num_or_null (parseInt10 (Some s))), (lit ''hidden'', JBool hidden)])"

definition showIncidentType :: "str option \<Rightarrow> json_edit admin_ask" where "showIncidentType = set_hidden False"
definition hideIncidentType :: "str option \<Rightarrow> json_edit admin_ask" where "hideIncidentType = set_hidden True"

definition set_named :: "str \<Rightarrow> str option \<Rightarrow> str \<Rightarrow> json_edit admin_ask" where
  "set_named key typeId value =
     (case parseInt10 typeId of
        None \<Rightarrow> AskNone
      | Some n \<Rightarrow> if value = [] then AskNone else AskEdit [(lit ''id'', JNum n), (key, JStr value)])"

definition setIncidentTypeName :: "str option \<Rightarrow> str \<Rightarrow> json_edit admin_ask" where
  "setIncidentTypeName = set_named (lit ''name'')"

definition setIncidentTypeDescription :: "str option \<Rightarrow> str \<Rightarrow> json_edit admin_ask" where
  "setIncidentTypeDescription = set_named (lit ''description'')"

definition setIncidentTypeGroup :: "str option \<Rightarrow> str \<Rightarrow> json_edit admin_ask" where
  "setIncidentTypeGroup typeId value =
     (case parseInt10 typeId of
        None \<Rightarrow> AskNone | Some n \<Rightarrow> AskEdit [(lit ''id'', JNum n), (lit ''group'', JStr value)])"

text \<open>A description, once written, cannot be taken away, while a group can.\<close>

lemma description_cannot_be_cleared:
  "setIncidentTypeDescription i [] = AskNone" and
  "parseInt10 i = Some n \<Longrightarrow> setIncidentTypeGroup i [] = AskEdit [(lit ''id'', JNum n), (lit ''group'', JStr [])]"
  by (simp_all add: setIncidentTypeDescription_def set_named_def setIncidentTypeGroup_def split: option.split)

record admin_outcome = outcome +
  ao_approved :: "bool option"

definition loadAllOutcomes :: "host \<Rightarrow> admin_outcome list fetch_res \<Rightarrow> admin_outcome list \<Rightarrow> admin_outcome list \<times> str option" where
  "loadAllOutcomes h res outcomes =
     (case (fr_err res, fr_json res) of
        (None, Some answer) \<Rightarrow>
          (js_sort (\<lambda>a b. locale_compare h (nullish (ou_name a) []) (nullish (ou_name b) [])) answer, None)
      | (e, _) \<Rightarrow> (outcomes, Some (lit ''Failed to load outcomes:'' @ 10 # nullish e (lit ''null''))))"

text \<open>A row: the name, whether it is hidden, and whether it is offered for approval.\<close>

definition drawAllOutcomes :: "admin_outcome list \<Rightarrow> (str option \<times> bool \<times> bool) list" where
  "drawAllOutcomes outcomes = map (\<lambda>o'. (ou_name o', flag (ou_hidden o'), ao_approved o' = Some False)) outcomes"

definition createOutcome :: "str \<Rightarrow> json_edit" where
  "createOutcome value = [(lit ''name'', JStr value)]"

definition approveOutcome :: "int option \<Rightarrow> json_edit admin_ask" where
  "approveOutcome i =
     (case i of None \<Rightarrow> AskNone | Some n \<Rightarrow> AskEdit [(lit ''id'', JNum n), (lit ''approved'', JBool True)])"

definition showOutcome :: "str option \<Rightarrow> json_edit admin_ask" where "showOutcome = set_hidden False"
definition hideOutcome :: "str option \<Rightarrow> json_edit admin_ask" where "hideOutcome = set_hidden True"
definition setOutcomeName :: "str option \<Rightarrow> str \<Rightarrow> json_edit admin_ask" where "setOutcomeName = set_named (lit ''name'')"

text \<open>The box for a new type or outcome after the answer.\<close>

definition created_box :: "str option \<Rightarrow> str \<Rightarrow> str" where
  "created_box err value = (if err = None then [] else value)"

section \<open>Events\<close>

record admin_event = EventData +
  ae_group :: "bool option"

text \<open>The pattern \<open>^[\w-]+$\<close>.\<close>

definition event_char :: "nat \<Rightarrow> bool" where
  "event_char c \<longleftrightarrow> 65 \<le> c \<and> c \<le> 90 \<or> 97 \<le> c \<and> c \<le> 122 \<or> is_digit c \<or> c = 95 \<or> c = 45"

definition eventNamePattern :: "str \<Rightarrow> bool" where
  "eventNamePattern s \<longleftrightarrow> s \<noteq> [] \<and> list_all event_char s"

text \<open>A complaint, or the name that is sent.\<close>

definition submitCreateEvent :: "str \<Rightarrow> str + str" where
  "submitCreateEvent value =
     (let name = trim value
      in if name = [] then Inl (lit ''Event name is required.'')
         else if \<not> eventNamePattern name
         then Inl (lit ''Event names may contain only letters, numbers, underscores, and hyphens (no spaces).'')
         else Inr name)"

definition event_created :: "str option \<Rightarrow> str \<Rightarrow> str + str" where
  "event_created err value =
     (case err of Some e \<Rightarrow> Inl (lit ''Failed to create event: '' @ e) | None \<Rightarrow> Inr [])"

definition loadEvents :: "host \<Rightarrow> admin_event list fetch_res \<Rightarrow> str + admin_event list" where
  "loadEvents h res =
     (case (fr_err res, fr_json res) of
        (None, Some events) \<Rightarrow> Inr (js_sort (\<lambda>a b. locale_compare h (ed_name a) (ed_name b)) events)
      | (e, _) \<Rightarrow> Inl (lit ''Failed to load events: '' @ nullish e (lit ''null'')))"

text \<open>The rows: a text when there are none; a name with its link, or marked as a group. A name with half a surrogate pair throws.\<close>

datatype event_row = NoEvents | GroupRow str | EventRow str "str option"

definition drawEvents :: "admin_event list \<Rightarrow> event_row list" where
  "drawEvents events =
     (if events = [] then [NoEvents]
      else map (\<lambda>e. if flag (ae_group e) then GroupRow (ed_name e)
          else EventRow (ed_name e) (map_option (js_replace url_viewIncidents EVENT_ID) (encodeURIComponent (ed_name e)))) events)"

lemma event_char_login: "event_char c \<Longrightarrow> login_char c \<and> c \<noteq> 36 \<and> c \<noteq> 47"
  by (auto simp: event_char_def login_char_def is_digit_def)

lemma created_name:
  assumes "submitCreateEvent value = Inr name"
  shows "name = trim value" and "name \<noteq> []" and "list_all event_char name"
  using assms by (auto simp: submitCreateEvent_def eventNamePattern_def Let_def split: if_splits)



text \<open>An event called \<open>incidents\<close> is let through, and the page of each of its incidents takes itself for a new one.\<close>

lemma event_called_incidents:
  "submitCreateEvent (lit ''incidents'') = Inr (lit ''incidents'')"
  "path_incidentNumber (idsFromPath (lit ''/ims/app/events/incidents/incidents/5'')) = None"
  by (simp_all add: submitCreateEvent_def trim_def is_ws_def eventNamePattern_def event_char_def is_digit_def idsFromPath_def
      tokenAfter_def parseInt10_def parse_int_def parse_digits_def)

section \<open>Crews\<close>

record crew =
  cw_slug :: str
  cw_name :: "str option"
  cw_members :: "crew_member list option"

text \<open>An edit of a crew: without a slug it creates one.\<close>

datatype crew_edit =
    CreateCrew str
  | RenameCrew str str
  | DeleteCrew str
  | AddMember str int
  | RemoveMember str int
  | SetLeader str int bool

definition crew_access :: "bool \<Rightarrow> bool \<Rightarrow> people_access option" where
  "crew_access authenticated isAdm =
     (if \<not> authenticated then Some PeopleLogin
      else if \<not> isAdm then Some (PeopleRefused (lit ''You don'' @ [39] @ lit ''t have permission to manage crews.''))
      else None)"

definition loadAndDrawCrews :: "crew list fetch_res \<Rightarrow> crew list \<Rightarrow> crew list \<times> str option" where
  "loadAndDrawCrews res crews =
     (case (fr_err res, fr_json res) of
        (None, Some answer) \<Rightarrow> (answer, None)
      | (e, _) \<Rightarrow> (crews, Some (lit ''Failed to load crews: '' @ nullish e (lit ''null''))))"

text \<open>A card: the slug, the name, and the members with the mark of a leader; the text for none is \<open>None\<close>.\<close>

definition buildCrewCard :: "crew \<Rightarrow> str \<times> str \<times> (int \<times> str \<times> bool) list option" where
  "buildCrewCard c =
     (let members = nullish (cw_members c) []
      in (cw_slug c, nullish (cw_name c) [],
          if members = [] then None
          else Some (map (\<lambda>m. (cm_id m, personDisplayLabel (cm_name m) (cm_handle m), cm_leader m)) members)))"

definition createCrew :: "str \<Rightarrow> crew_edit option" where
  "createCrew value = (if trim value = [] then None else Some (CreateCrew (trim value)))"

definition renameCrew :: "str \<Rightarrow> str \<Rightarrow> str + crew_edit" where
  "renameCrew slug value =
     (if trim value = [] then Inl (lit ''Crew name may not be blank.'') else Inr (RenameCrew slug (trim value)))"

definition deleteCrew :: "bool \<Rightarrow> str \<Rightarrow> crew_edit option" where
  "deleteCrew confirmed slug = (if confirmed then Some (DeleteCrew slug) else None)"

definition addMember :: "str \<Rightarrow> int option \<Rightarrow> crew_edit option" where
  "addMember slug person = (let i = nullish person 0 in if i \<le> 0 then None else Some (AddMember slug i))"

definition personIdOf :: "str option \<Rightarrow> int" where
  "personIdOf personId = nullish (parseInt10 personId) 0"

definition removeMember :: "str \<Rightarrow> str option \<Rightarrow> crew_edit" where
  "removeMember slug personId = RemoveMember slug (personIdOf personId)"

definition toggleLeader :: "str \<Rightarrow> str option \<Rightarrow> bool \<Rightarrow> crew_edit" where
  "toggleLeader slug personId checked = SetLeader slug (personIdOf personId) checked"

definition member_json :: "int \<Rightarrow> (str \<times> json) list \<Rightarrow> json" where
  "member_json i more_keys = JObj ((lit ''person_id'', JNum i) # more_keys)"

fun crew_body :: "crew_edit \<Rightarrow> json_edit" where
  "crew_body (CreateCrew name) = [(lit ''name'', JStr name)]"
| "crew_body (RenameCrew slug name) = [(lit ''slug'', JStr slug), (lit ''name'', JStr name)]"
| "crew_body (DeleteCrew slug) = [(lit ''slug'', JStr slug), (lit ''delete'', JBool True)]"
| "crew_body (AddMember slug i) = [(lit ''slug'', JStr slug), (lit ''member'', member_json i [])]"
| "crew_body (RemoveMember slug i) =
     [(lit ''slug'', JStr slug), (lit ''member'', member_json i [(lit ''remove'', JBool True)])]"
| "crew_body (SetLeader slug i b) =
     [(lit ''slug'', JStr slug), (lit ''member'', member_json i [(lit ''is_leader'', JBool b)])]"

text \<open>After an edit: the crews and the message; the list is loaded again only after a success.\<close>

definition sendCrew :: "str option \<Rightarrow> crew list fetch_res \<Rightarrow> crew list \<Rightarrow> (crew list \<times> str option) \<times> bool" where
  "sendCrew err reload crews =
     (case err of
        Some e \<Rightarrow> ((crews, Some (lit ''Crew update failed: '' @ e)), False)
      | None \<Rightarrow> (loadAndDrawCrews reload crews, True))"

text \<open>Every edit but the creation names its crew.\<close>

lemma crew_named: "map_of (crew_body e) (lit ''slug'') = None \<longleftrightarrow> (\<exists>name. e = CreateCrew name)"
  by (cases e) simp_all

section \<open>The log of actions\<close>

record log_filters =
  lf_minTime :: "int option option"
  lf_maxTime :: "int option option"
  lf_userName :: "str option"
  lf_path :: "str option"

text \<open>A filled field of a time is a date, which may be an invalid one.\<close>

definition updateFilters :: "(str \<Rightarrow> int option) \<Rightarrow> str \<Rightarrow> str \<Rightarrow> str \<Rightarrow> str \<Rightarrow> log_filters" where
  "updateFilters parse minText maxText user path =
     \<lparr>lf_minTime = map_option parse (nonempty (Some minText)), lf_maxTime = map_option parse (nonempty (Some maxText)),
      lf_userName = nonempty (Some user), lf_path = nonempty (Some path)\<rparr>"

definition time_param :: "str \<Rightarrow> int option option \<Rightarrow> (str \<times> str) list" where
  "time_param key t =
     (case t of None \<Rightarrow> [] | Some d \<Rightarrow> [(key, case d of None \<Rightarrow> lit ''NaN'' | Some n \<Rightarrow> show_int n)])"

definition log_params :: "log_filters \<Rightarrow> (str \<times> str) list" where
  "log_params f =
     time_param (lit ''minTimeUnixMs'') (lf_minTime f) @ time_param (lit ''maxTimeUnixMs'') (lf_maxTime f) @
     (case lf_userName f of None \<Rightarrow> [] | Some u \<Rightarrow> [(lit ''userName'', u)]) @
     (case lf_path f of None \<Rightarrow> [] | Some p \<Rightarrow> [(lit ''path'', p)])"

lemma garbage_time_sent:
  "parse typed = None \<Longrightarrow> typed \<noteq> [] \<Longrightarrow>
     (lit ''minTimeUnixMs'', lit ''NaN'') \<in> set (log_params (updateFilters parse typed maxText user path))"
  by (cases typed) (simp_all add: log_params_def updateFilters_def time_param_def del: lit_simps)

text \<open>The two cells of its own; the link is written as markup, and a missing type is not a case here.\<close>

definition renderPage :: "(str \<Rightarrow> str) \<Rightarrow> str option \<Rightarrow> render_type \<Rightarrow> cell" where
  "renderPage link_markup pagePath kind =
     (let p = nullish pagePath []
      in case kind of
           ForDisplay \<Rightarrow> if p = [] then TextCell [] else TextCell (link_markup p)
         | ForFilter \<Rightarrow> TextCell p
         | ForType \<Rightarrow> TextCell p
         | ForSort \<Rightarrow> TextCell p
         | _ \<Rightarrow> Undefined)"

definition renderLogDate :: "(str \<Rightarrow> int option) \<Rightarrow> (int \<Rightarrow> str) \<Rightarrow> (int \<Rightarrow> str) \<Rightarrow> str \<Rightarrow> render_type \<Rightarrow> cell option" where
  "renderLogDate parse span_markup nerd date kind =
     map_option (\<lambda>d. case kind of
         ForDisplay \<Rightarrow> TextCell (span_markup d)
       | ForFilter \<Rightarrow> TextCell (nerd d)
       | ForType \<Rightarrow> NumberCell d
       | ForSort \<Rightarrow> NumberCell d
       | _ \<Rightarrow> Undefined) (parse date)"

section \<open>The dashboard\<close>

type_synonym bucket = "str \<times> str \<times> int"

record metrics =
  mt_total :: int
  mt_open :: int
  mt_closed :: int
  mt_byState :: "bucket list"
  mt_byPriority :: "bucket list"
  mt_byCategory :: "bucket list"
  mt_byType :: "bucket list"
  mt_byRole :: "bucket list"
  mt_byArea :: "bucket list"
  mt_byDay :: "(str \<times> int) list"
  mt_followUps :: "(int \<times> str) list"
  mt_avgClose :: "rat option"
  mt_closedCount :: int

text \<open>The cards that glow: those of which a piece changed, in the order of the code.\<close>

definition glowing :: "metrics option \<Rightarrow> metrics \<Rightarrow> str list" where
  "glowing before m =
     (case before of
        None \<Rightarrow> []
      | Some p \<Rightarrow>
          (if mt_total p \<noteq> mt_total m then [lit ''stat_total''] else []) @
          (if mt_open p \<noteq> mt_open m then [lit ''stat_open''] else []) @
          (if mt_closed p \<noteq> mt_closed m then [lit ''stat_closed''] else []) @
          (if mt_avgClose p \<noteq> mt_avgClose m \<or> mt_closedCount p \<noteq> mt_closedCount m then [lit ''stat_avg_close''] else []) @
          (if mt_byState p \<noteq> mt_byState m then [lit ''chart_state''] else []) @
          (if mt_byPriority p \<noteq> mt_byPriority m then [lit ''chart_priority''] else []) @
          (if mt_byCategory p \<noteq> mt_byCategory m then [lit ''chart_category''] else []) @
          (if mt_byType p \<noteq> mt_byType m then [lit ''chart_type''] else []) @
          (if mt_byArea p \<noteq> mt_byArea m then [lit ''chart_area'', lit ''area_table_body''] else []) @
          (if mt_byRole p \<noteq> mt_byRole m then [lit ''chart_role''] else []) @
          (if mt_byDay p \<noteq> mt_byDay m then [lit ''chart_byday''] else []) @
          (if mt_followUps p \<noteq> mt_followUps m then [lit ''followups_table_body''] else []))"

lemma nothing_new_no_glow: "glowing None m = []" "glowing (Some m) m = []"
  by (simp_all add: glowing_def)

lemma glow_says_change: "glowing (Some p) m = [] \<Longrightarrow> p = m"
  by (cases p; cases m) (simp add: glowing_def del: lit_simps split: if_splits)

text \<open>A chart: labels, numbers, and for a doughnut the number of the colour of each piece.\<close>

record chart =
  ch_labels :: "str list"
  ch_counts :: "int list"
  ch_colours :: "nat list"

definition doughnut :: "bucket list \<Rightarrow> chart" where
  "doughnut buckets =
     \<lparr>ch_labels = map (fst \<circ> snd) buckets, ch_counts = map (snd \<circ> snd) buckets,
      ch_colours = map (\<lambda>i. i mod 10) [0..<length buckets]\<rparr>"

definition bar_chart :: "bucket list \<Rightarrow> chart" where
  "bar_chart buckets =
     \<lparr>ch_labels = map (fst \<circ> snd) buckets, ch_counts = map (snd \<circ> snd) buckets, ch_colours = [0]\<rparr>"

definition line_chart :: "(str \<times> int) list \<Rightarrow> chart" where
  "line_chart days = \<lparr>ch_labels = map fst days, ch_counts = map snd days, ch_colours = [0]\<rparr>"

text \<open>A chart is made once and updated in place afterwards.\<close>

definition makeChart :: "str \<Rightarrow> chart \<Rightarrow> (str \<times> chart) list \<Rightarrow> (str \<times> chart) list" where
  "makeChart canvas data charts = AList.update canvas data charts"

definition draw_charts :: "metrics \<Rightarrow> (str \<times> chart) list \<Rightarrow> (str \<times> chart) list" where
  "draw_charts m charts =
     foldl (\<lambda>cs (canvas, data). makeChart canvas data cs) charts
       [(lit ''chart_state'', doughnut (mt_byState m)), (lit ''chart_priority'', bar_chart (mt_byPriority m)),
        (lit ''chart_category'', doughnut (mt_byCategory m)), (lit ''chart_type'', bar_chart (mt_byType m)),
        (lit ''chart_area'', bar_chart (mt_byArea m)), (lit ''chart_role'', doughnut (mt_byRole m)),
        (lit ''chart_byday'', line_chart (mt_byDay m))]"

definition drawAreaTable :: "bucket list \<Rightarrow> (str \<times> str) list" where
  "drawAreaTable buckets = map (\<lambda>(key, label, count). (label, show_int count)) buckets"

text \<open>The number of open follow-ups, their rows with number, address and summary, and whether the text for none is hidden.\<close>

definition drawFollowUps :: "path_ids \<Rightarrow> (int \<times> str) list \<Rightarrow> str \<times> (str \<times> str \<times> str) list \<times> bool" where
  "drawFollowUps ids refs =
     (show_int (int (length refs)),
      map (\<lambda>(n, summary). (show_int n, js_replace (urlReplace ids url_viewIncidentNumber) (lit ''<number>'') (show_int n), summary)) refs,
      refs \<noteq> [])"

record dashboard =
  ds_refreshing :: bool
  ds_timer :: "int option"
  ds_interval :: str
  ds_store :: device
  ds_before :: "metrics option"
  ds_charts :: "(str \<times> chart) list"
  ds_glow :: "str list"
  ds_error :: "str option"

definition dashboard_access :: "bool \<Rightarrow> str option \<Rightarrow> bool \<Rightarrow> (str \<Rightarrow> bool option) \<Rightarrow> people_access option" where
  "dashboard_access authenticated event isAdm writes =
     (if \<not> authenticated then Some PeopleLogin
      else case event of
        None \<Rightarrow> Some (PeopleRefused (lit ''No event selected.''))
      | Some e \<Rightarrow>
          if \<not> (isAdm \<or> nullish (writes e) False)
          then Some (PeopleRefused (lit ''The dashboard is restricted to administrators and event writers.''))
          else None)"

definition autoRefreshKey :: str where "autoRefreshKey = lit ''dashboard_auto_refresh_seconds''"

definition applyAutoRefresh :: "dashboard \<Rightarrow> dashboard" where
  "applyAutoRefresh d =
     (case parseInt10 (Some (ds_interval d)) of
        Some secs \<Rightarrow> if secs > 0 then d\<lparr>ds_timer := Some (secs * 1000)\<rparr> else d\<lparr>ds_timer := None\<rparr>
      | None \<Rightarrow> d\<lparr>ds_timer := None\<rparr>)"

definition interval_chosen :: "str \<Rightarrow> dashboard \<Rightarrow> dashboard" where
  "interval_chosen v d = applyAutoRefresh (d\<lparr>ds_interval := v, ds_store := dev_set (ds_store d) autoRefreshKey v\<rparr>)"

definition dashboard_opened :: "device \<Rightarrow> dashboard" where
  "dashboard_opened dev =
     applyAutoRefresh
       \<lparr>ds_refreshing = False, ds_timer = None, ds_interval = nullish (dev_get dev autoRefreshKey) (lit ''0''), ds_store = dev,
        ds_before = None, ds_charts = [], ds_glow = [], ds_error = None\<rparr>"

text \<open>The cadence chosen is the one the page has when it is opened again.\<close>

lemma cadence_kept:
  "ds_timer (dashboard_opened (ds_store (interval_chosen v d))) = ds_timer (interval_chosen v d)"
  by (simp add: dashboard_opened_def interval_chosen_def applyAutoRefresh_def split: option.split)

text \<open>A load is begun unless one is under way, and ends with its answer.\<close>

definition loadMetrics :: "dashboard \<Rightarrow> dashboard option" where
  "loadMetrics d = (if ds_refreshing d then None else Some (d\<lparr>ds_refreshing := True\<rparr>))"

definition metrics_answered :: "metrics fetch_res \<Rightarrow> dashboard \<Rightarrow> dashboard" where
  "metrics_answered res d =
     (case (fr_err res, fr_json res) of
        (None, Some m) \<Rightarrow>
          d\<lparr>ds_refreshing := False, ds_error := None, ds_glow := glowing (ds_before d) m,
            ds_charts := draw_charts m (ds_charts d), ds_before := Some m\<rparr>
      | (e, _) \<Rightarrow>
          d\<lparr>ds_refreshing := False, ds_error := Some (lit ''Failed to load metrics:'' @ 10 # nullish e (lit ''null''))\<rparr>)"

text \<open>A failed load leaves what is drawn, and what the next answer is compared with.\<close>

lemma failed_load_keeps:
  "fr_err res = Some e \<Longrightarrow>
     ds_charts (metrics_answered res d) = ds_charts d \<and> ds_before (metrics_answered res d) = ds_before d \<and>
     loadMetrics (metrics_answered res d) \<noteq> None"
  by (simp add: metrics_answered_def loadMetrics_def)

text \<open>\<open>Math.round\<close>, and the remainder with the sign of the dividend.\<close>

definition js_round :: "rat \<Rightarrow> int" where
  "js_round x = \<lfloor>x + 1 / 2\<rfloor>"

definition js_rem :: "int \<Rightarrow> int \<Rightarrow> int" where
  "js_rem a b = (if a < 0 then - ((- a) mod b) else a mod b)"

definition duration_parts :: "int \<Rightarrow> int \<times> int \<times> int" where
  "duration_parts s = (s div 86400, js_rem s 86400 div 3600, js_rem s 3600 div 60)"

definition formatDuration :: "rat \<Rightarrow> str" where
  "formatDuration secs =
     (let (d, h, m) = duration_parts (js_round secs);
          days = (if d > 0 then [show_int d @ lit ''d''] else []);
          hours = (if h > 0 then [show_int h @ lit ''h''] else []);
          minutes = (if m > 0 \<or> days @ hours = [] then [show_int m @ lit ''m''] else [])
      in join [32] (days @ hours @ minutes))"

lemma units_bounds:
  fixes d h m s a b c :: int
  assumes "d * 86400 + a = s" "h * 3600 + b = a" "m * 60 + c = b"
    and "0 \<le> c" "c < 60" "0 \<le> b" "b < 3600" "0 \<le> a" "a < 86400" "0 \<le> s"
  shows "d * 86400 + h * 3600 + m * 60 \<le> s \<and> s < d * 86400 + h * 3600 + m * 60 + 60 \<and> 0 \<le> d \<and>
    0 \<le> h \<and> h \<le> 23 \<and> 0 \<le> m \<and> m \<le> 59"
  using assms by linarith

text \<open>The days, hours and minutes shown are the time to the minute, each in its range.\<close>

lemma duration_bounds:
  assumes "0 \<le> s" and "duration_parts s = (d, h, m)"
  shows "d * 86400 + h * 3600 + m * 60 \<le> s \<and> s < d * 86400 + h * 3600 + m * 60 + 60 \<and> 0 \<le> d \<and>
    0 \<le> h \<and> h \<le> 23 \<and> 0 \<le> m \<and> m \<le> 59"
proof (rule units_bounds [of d "s mod 86400" s h "s mod 3600" m "s mod 3600 mod 60"])
  have d: "d = s div 86400" and h: "h = s mod 86400 div 3600" and m: "m = s mod 3600 div 60"
    using assms by (simp_all add: duration_parts_def js_rem_def)
  have hours: "s mod 86400 mod 3600 = s mod 3600" by (rule mod_mod_cancel) simp
  show "d * 86400 + s mod 86400 = s" unfolding d by (rule div_mult_mod_eq)
  show "h * 3600 + s mod 3600 = s mod 86400" unfolding h using div_mult_mod_eq [of "s mod 86400" 3600] by (simp only: hours)
  show "m * 60 + s mod 3600 mod 60 = s mod 3600" unfolding m by (rule div_mult_mod_eq)
qed (use assms(1) in simp_all)

section \<open>What the server was built from\<close>

definition substringBetween :: "str \<Rightarrow> str \<Rightarrow> str \<Rightarrow> str" where
  "substringBetween s start stop =
     (case index_of s start of
        None \<Rightarrow> []
      | Some i \<Rightarrow>
          (let rest = drop (i + length start) s
           in case index_of rest stop of None \<Rightarrow> rest | Some j \<Rightarrow> take j rest))"

definition build_text :: "str \<Rightarrow> str \<times> str" where
  "build_text info =
     (let ref = substringBetween info (lit ''build'' @ 9 # lit ''vcs.revision='') [10];
          dirty = has_sub info (lit ''vcs.modified=true'')
      in (lit ''The server was built at revision '' @ take 12 ref @ [32] @ (if dirty then lit '' (dirty)'' else []),
          lit ''https://github.com/mikeki/ocf-ims/tree/'' @ ref))"

end
