(* ===== verification/Ladder.thy ===== *)
theory Ladder
  imports Complex_Main People
begin

text \<open>
  The roster as the Ladder shows it (\<open>features/people/PeopleScreen.tsx\<close>, \<open>Hovercard.tsx\<close>,
  \<open>ProfileCard.tsx\<close>, \<open>MyCrews.tsx\<close>): the columns, the drag of a card between them, the hovercard with its
  two timers, the menu that is the drag's twin, the side panel. The screen's state and its refs are one
  record, a function takes each event of the pointer, the keyboard and the timers, and a run is any
  sequence of them; what the layout measures comes with the event. Coordinates are real numbers. Colours
  and styles are left out.
\<close>

section \<open>Columns\<close>

definition COLUMN_TYPES :: "ParticipationType list" where
  "COLUMN_TYPES = [PT_WRITER, PT_CREW_LEADER, PT_REPORTER, PT_VOLUNTEER, PT_PUBLIC]"

definition probePerson :: Person where
  "probePerson = blank_person\<lparr>p_personId := -1, p_hasPassword := True, p_participationType := PT_REPORTER\<rparr>"

definition ladder_filtered :: "host \<Rightarrow> Person list \<Rightarrow> str \<Rightarrow> Person list" where
  "ladder_filtered h people search = filter (\<lambda>p. matches h p search) people"

record ladder_column =
  lc_type :: ParticipationType
  lc_label :: str
  lc_fillable :: bool
  lc_people :: "Person list"

definition ladder_columns :: "host \<Rightarrow> RosterAccess \<Rightarrow> Person list \<Rightarrow> str \<Rightarrow> ladder_column list" where
  "ladder_columns h access people search =
     map (\<lambda>t. \<lparr>lc_type = t, lc_label = rungLabel t, lc_fillable = (t \<in> set (rungsFor access probePerson)),
                lc_people = filter (\<lambda>p. p_participationType p = t) (ladder_filtered h people search)\<rparr>)
       COLUMN_TYPES"

definition ladder_order :: "host \<Rightarrow> RosterAccess \<Rightarrow> Person list \<Rightarrow> str \<Rightarrow> int list" where
  "ladder_order h access people search =
     concat (map (\<lambda>c. map p_personId (lc_people c)) (ladder_columns h access people search))"

text \<open>The count of the toolbar, and the empty state that may replace the columns.\<close>

definition toolbar_count :: "host \<Rightarrow> Person list \<Rightarrow> str \<Rightarrow> str" where
  "toolbar_count h people search =
     show_int (int (length (ladder_filtered h people search))) @ lit '' of '' @ show_int (int (length people))"

datatype ladder_shown = NobodyThere | NoMatches | Ladder_columns "ladder_column list"

definition ladder_view :: "host \<Rightarrow> RosterAccess \<Rightarrow> Person list \<Rightarrow> str \<Rightarrow> ladder_shown" where
  "ladder_view h access people search =
     (if ladder_filtered h people search = [] then (if people = [] then NobodyThere else NoMatches)
      else Ladder_columns (ladder_columns h access people search))"

text \<open>What a card says of its person: the marks by its name, the handle below, the crews, the grip.\<close>

record card_shown =
  cd_label :: str
  cd_admin :: bool
  cd_noLogin :: bool
  cd_handle :: "str option"
  cd_crews :: "str list"
  cd_dimmed :: bool
  cd_grip :: bool

definition ladder_card :: "RosterAccess \<Rightarrow> bool \<Rightarrow> Person \<Rightarrow> card_shown" where
  "ladder_card access beingDragged person =
     \<lparr>cd_label = displayName person,
      cd_admin = p_isAdmin person,
      cd_noLogin = (ra_admin access \<and> \<not> p_hasPassword person),
      cd_handle = (if nonempty (p_handle person) \<noteq> None \<and> nonempty (p_name person) \<noteq> None then p_handle person else None),
      cd_crews = map (\<lambda>c. if crew_isLeader c then crew_name c @ lit '' '' @ [183] @ lit '' leads'' else crew_name c)
        (p_crews person),
      cd_dimmed = ((ra_admin access \<and> \<not> p_hasPassword person) \<or> beingDragged),
      cd_grip = (rungsFor access person \<noteq> [])\<rparr>"

section \<open>The screen around the columns\<close>

text \<open>What is asked of the server, and what is shown for the answer; \<open>None\<close> for a list not yet in.\<close>

record people_request =
  lr_eventId :: int
  lr_all :: bool
  lr_showAll :: bool

definition people_request_for :: "RosterAccess \<Rightarrow> int \<Rightarrow> bool \<Rightarrow> people_request" where
  "people_request_for access eventId showAll =
     \<lparr>lr_eventId = eventId, lr_all = True, lr_showAll = (ra_admin access \<and> showAll)\<rparr>"

datatype people_screen = PeopleLoading | PeopleMissing | PeopleFailed AppError | PeopleBody "Person list"

definition people_screen_view :: "bool \<Rightarrow> bool \<Rightarrow> thrown option \<Rightarrow> Person list option \<Rightarrow> people_screen" where
  "people_screen_view isLoading ready failure answer =
     (if isLoading \<or> \<not> ready then PeopleLoading
      else case failure of
        Some thrown \<Rightarrow>
          (let e = toAppError thrown
           in if ae_kind e = KForbidden \<or> ae_kind e = KNotFound then PeopleMissing else PeopleFailed e)
      | None \<Rightarrow> PeopleBody (nullish answer []))"

text \<open>The side panel: opening it closes what the route has open; My crews is offered to who leads one.\<close>

datatype side_panel = AddPersonPanel | MyCrewsPanel

definition openPanel :: "side_panel \<Rightarrow> Params \<Rightarrow> Params \<times> side_panel option" where
  "openPanel panel params = (pclose params, Some panel)"

definition my_crews_offered :: "'crew list option \<Rightarrow> bool" where
  "my_crews_offered answer \<longleftrightarrow> 0 < length (nullish answer [])"

section \<open>The pointer on the Ladder\<close>

record rect =
  rect_x :: real
  rect_y :: real
  rect_width :: real
  rect_height :: real

definition pointInRect :: "real \<Rightarrow> real \<Rightarrow> rect \<Rightarrow> bool" where
  "pointInRect x y r \<longleftrightarrow>
     rect_x r \<le> x \<and> x \<le> rect_x r + rect_width r \<and> rect_y r \<le> y \<and> y \<le> rect_y r + rect_height r"

definition hypot :: "real \<Rightarrow> real \<Rightarrow> real" where
  "hypot x y = sqrt (x ^ 2 + y ^ 2)"

record drag_state =
  dg_personId :: int
  dg_fromRung :: ParticipationType
  dg_allowedRungs :: "ParticipationType list"

record hovercard =
  hc_personId :: int
  hc_pinned :: bool
  hc_anchor :: rect

text \<open>
  \<open>ld_watching\<close> is the listener that waits, after a drop, for the pointer to move: it keeps the drag of
  the render it was made in. \<open>ld_writes\<close> are the calls of \<open>setRole\<close> made so far. \<open>ld_offset\<close> is where
  the ghost is, \<open>ld_spring\<close> says that it is under way home.
\<close>

record ladder =
  ld_drag :: "drag_state option"
  ld_start :: "(real \<times> real \<times> rect) option"
  ld_moved :: bool
  ld_hit :: "ParticipationType option"
  ld_highlight :: "ParticipationType option"
  ld_offset :: "real \<times> real"
  ld_spring :: bool
  ld_columns :: "(ParticipationType \<times> rect) list"
  ld_pointer :: "real \<times> real"
  ld_hovercard :: "hovercard option"
  ld_popover :: "rect option"
  ld_openTimer :: "int option"
  ld_closeTimer :: bool
  ld_overCard :: "int option"
  ld_overPopover :: bool
  ld_suppress :: "(real \<times> real) option"
  ld_pending :: "int option"
  ld_watching :: "drag_state option option"
  ld_selected :: "int option"
  ld_writes :: "(int \<times> ParticipationType) list"

definition fresh_ladder :: "int option \<Rightarrow> ladder" where
  "fresh_ladder sel =
     \<lparr>ld_drag = None, ld_start = None, ld_moved = False, ld_hit = None, ld_highlight = None, ld_offset = (0, 0),
      ld_spring = False, ld_columns = [], ld_pointer = (0, 0), ld_hovercard = None, ld_popover = None,
      ld_openTimer = None, ld_closeTimer = False, ld_overCard = None, ld_overPopover = False, ld_suppress = None,
      ld_pending = None, ld_watching = None, ld_selected = sel, ld_writes = []\<rparr>"

definition clearHoverTimers :: "ladder \<Rightarrow> ladder" where
  "clearHoverTimers s = s\<lparr>ld_openTimer := None, ld_closeTimer := False\<rparr>"

definition closeHovercard :: "ladder \<Rightarrow> ladder" where
  "closeHovercard s =
     (clearHoverTimers s)\<lparr>ld_overCard := None, ld_overPopover := False, ld_popover := None, ld_hovercard := None\<rparr>"

text \<open>The place of the card is measured, if the card is there.\<close>

definition openHovercard :: "drag_state option \<Rightarrow> int \<Rightarrow> bool \<Rightarrow> rect option \<Rightarrow> ladder \<Rightarrow> ladder" where
  "openHovercard dragging personId pinned place s =
     (if dragging \<noteq> None then s
      else
        (let s1 = (if pinned then (clearHoverTimers s)\<lparr>ld_selected := Some personId\<rparr> else s)
         in case place of
              None \<Rightarrow> s1
            | Some anchor \<Rightarrow>
                s1\<lparr>ld_hovercard := Some \<lparr>hc_personId = personId, hc_pinned = pinned, hc_anchor = anchor\<rparr>\<rparr>))"

definition handleCardPress :: "int \<Rightarrow> rect option \<Rightarrow> ladder \<Rightarrow> ladder" where
  "handleCardPress personId place s =
     (if ld_moved s then s\<lparr>ld_moved := False\<rparr> else openHovercard (ld_drag s) personId True place s)"

definition pinned_open :: "ladder \<Rightarrow> bool" where
  "pinned_open s \<longleftrightarrow> (case ld_hovercard s of None \<Rightarrow> False | Some hc \<Rightarrow> hc_pinned hc)"

definition handleCardHoverIn :: "drag_state option \<Rightarrow> int \<Rightarrow> ladder \<Rightarrow> ladder" where
  "handleCardHoverIn dragging personId s =
     (if dragging \<noteq> None \<or> pinned_open s then s
      else if ld_suppress s \<noteq> None then s\<lparr>ld_pending := Some personId\<rparr>
      else
        (let s1 = s\<lparr>ld_overCard := Some personId, ld_closeTimer := False\<rparr>
         in if map_option hc_personId (ld_hovercard s) = Some personId then s1
            else s1\<lparr>ld_openTimer := Some personId\<rparr>))"

text \<open>The timer was armed when nothing was dragged, which is what its callback still sees.\<close>

definition hoverOpenFires :: "rect option \<Rightarrow> ladder \<Rightarrow> ladder" where
  "hoverOpenFires place s =
     (case ld_openTimer s of
        None \<Rightarrow> s
      | Some personId \<Rightarrow>
          (let s1 = s\<lparr>ld_openTimer := None\<rparr>
           in if ld_overCard s1 = Some personId then openHovercard None personId False place s1 else s1))"

definition hoverCloseFires :: "ladder \<Rightarrow> ladder" where
  "hoverCloseFires s =
     (if \<not> ld_closeTimer s then s
      else
        (let s1 = s\<lparr>ld_closeTimer := False\<rparr>
         in if ld_overCard s1 = None \<and> \<not> ld_overPopover s1 then closeHovercard s1 else s1))"

definition handleCardHoverOut :: "int \<Rightarrow> ladder \<Rightarrow> ladder" where
  "handleCardHoverOut personId s =
     (let s1 = s\<lparr>ld_pending := (if ld_pending s = Some personId then None else ld_pending s),
                 ld_overCard := (if ld_overCard s = Some personId then None else ld_overCard s),
                 ld_openTimer := None\<rparr>
      in case ld_hovercard s1 of
           None \<Rightarrow> s1
         | Some hc \<Rightarrow> if hc_pinned hc \<or> hc_personId hc \<noteq> personId then s1 else s1\<lparr>ld_closeTimer := True\<rparr>)"

definition handleHovercardHoverIn :: "ladder \<Rightarrow> ladder" where
  "handleHovercardHoverIn s = s\<lparr>ld_overPopover := True, ld_closeTimer := False\<rparr>"

definition handleHovercardHoverOut :: "ladder \<Rightarrow> ladder" where
  "handleHovercardHoverOut s =
     (let s1 = s\<lparr>ld_overPopover := False\<rparr>
      in case ld_hovercard s1 of
           None \<Rightarrow> s1
         | Some hc \<Rightarrow> if hc_pinned hc then s1 else s1\<lparr>ld_closeTimer := True\<rparr>)"

text \<open>A press anywhere: outside the card and the popover it closes one that is pinned.\<close>

definition outsidePress :: "real \<Rightarrow> real \<Rightarrow> ladder \<Rightarrow> ladder" where
  "outsidePress x y s =
     (case ld_hovercard s of
        None \<Rightarrow> s
      | Some hc \<Rightarrow>
          if hc_pinned hc \<and> \<not> pointInRect x y (hc_anchor hc)
            \<and> \<not> (case ld_popover s of None \<Rightarrow> False | Some r \<Rightarrow> pointInRect x y r)
          then closeHovercard s else s)"

section \<open>The drag\<close>

text \<open>The places of the columns are measured anew when a card is picked up and when the Ladder is scrolled.\<close>

definition startDrag ::
  "RosterAccess \<Rightarrow> Person \<Rightarrow> real \<Rightarrow> real \<Rightarrow> rect option \<Rightarrow> (ParticipationType \<times> rect) list \<Rightarrow> ladder \<Rightarrow> ladder" where
  "startDrag access person x y place columns s =
     (let rungs = rungsFor access person
      in if rungs = [] then s
         else case place of
           None \<Rightarrow> s
         | Some shape \<Rightarrow>
             (closeHovercard s)\<lparr>ld_columns := columns, ld_start := Some (x, y, shape), ld_moved := False, ld_hit := None,
               ld_highlight := None, ld_offset := (0, 0), ld_spring := False,
               ld_drag := Some \<lparr>dg_personId = p_personId person, dg_fromRung = p_participationType person,
                 dg_allowedRungs = rungs\<rparr>\<rparr>)"

definition column_at :: "real \<Rightarrow> real \<Rightarrow> (ParticipationType \<times> rect) list \<Rightarrow> ParticipationType option" where
  "column_at x y columns = map_option fst (List.find (\<lambda>(t, r). pointInRect x y r) columns)"

text \<open>Setting the place of the ghost stops a spring that is under way, without its last step.\<close>

definition onDragMove :: "real \<Rightarrow> real \<Rightarrow> real \<Rightarrow> ladder \<Rightarrow> ladder" where
  "onDragMove threshold x y s =
     (case (ld_drag s, ld_start s) of
        (Some drag, Some (x0, y0, shape)) \<Rightarrow>
          (let hit = column_at x y (ld_columns s)
           in s\<lparr>ld_pointer := (x, y), ld_offset := (x - x0, y - y0), ld_spring := False,
                ld_moved := (ld_moved s \<or> threshold < hypot (x - x0) (y - y0)),
                ld_hit := hit, ld_highlight := (if hit \<noteq> ld_hit s then hit else ld_highlight s)\<rparr>)
      | _ \<Rightarrow> s)"

definition drag_cleared :: "ladder \<Rightarrow> ladder" where
  "drag_cleared s = s\<lparr>ld_drag := None, ld_highlight := None, ld_hit := None, ld_start := None, ld_spring := False\<rparr>"

definition drop_target :: "bool \<Rightarrow> drag_state \<Rightarrow> ladder \<Rightarrow> ParticipationType option" where
  "drop_target committed drag s =
     (case (if committed then ld_hit s else None) of
        None \<Rightarrow> None
      | Some hit \<Rightarrow> if hit \<in> set (dg_allowedRungs drag) \<and> hit \<noteq> dg_fromRung drag then Some hit else None)"

definition watchPointerAfterDrop :: "ladder \<Rightarrow> ladder" where
  "watchPointerAfterDrop s = s\<lparr>ld_watching := Some (ld_drag s)\<rparr>"

definition finishDrag :: "bool \<Rightarrow> bool \<Rightarrow> ladder \<Rightarrow> ladder" where
  "finishDrag reducedMotion committed s =
     (case ld_drag s of
        None \<Rightarrow> s
      | Some drag \<Rightarrow>
          (case drop_target committed drag s of
             Some hit \<Rightarrow>
               (let s1 = drag_cleared (watchPointerAfterDrop (s\<lparr>ld_suppress := Some (ld_pointer s)\<rparr>))
                in s1\<lparr>ld_writes := ld_writes s1 @ [(dg_personId drag, hit)]\<rparr>)
           | None \<Rightarrow>
               if reducedMotion then drag_cleared (s\<lparr>ld_offset := (0, 0)\<rparr>)
               else s\<lparr>ld_offset := (0, 0), ld_spring := True\<rparr>))"

definition onDragEnd :: "real \<Rightarrow> bool \<Rightarrow> real \<Rightarrow> real \<Rightarrow> ladder \<Rightarrow> ladder" where
  "onDragEnd threshold reducedMotion x y s = finishDrag reducedMotion True (onDragMove threshold x y s)"

definition onDragCancel :: "bool \<Rightarrow> ladder \<Rightarrow> ladder" where
  "onDragCancel reducedMotion s = finishDrag reducedMotion False s"

definition springDone :: "ladder \<Rightarrow> ladder" where
  "springDone s = (if ld_spring s then drag_cleared s else s)"

text \<open>The listener after a drop: the pointer has to move a click's worth first.\<close>

definition pointerMovedAfterDrop :: "real \<Rightarrow> real \<Rightarrow> real \<Rightarrow> ladder \<Rightarrow> ladder" where
  "pointerMovedAfterDrop threshold x y s =
     (case ld_watching s of
        None \<Rightarrow> s
      | Some dragging \<Rightarrow>
          if (case ld_suppress s of None \<Rightarrow> False | Some (x0, y0) \<Rightarrow> hypot (x - x0) (y - y0) \<le> threshold) then s
          else
            (let s1 = s\<lparr>ld_watching := None, ld_suppress := None, ld_pending := None\<rparr>
             in case ld_pending s of None \<Rightarrow> s1 | Some personId \<Rightarrow> handleCardHoverIn dragging personId s1))"

section \<open>Runs of events\<close>

record ladder_settings =
  ls_access :: RosterAccess
  ls_threshold :: real
  ls_reducedMotion :: bool

datatype ladder_event =
    CardPressed int "rect option"
  | CardEntered int
  | CardLeft int
  | PopoverEntered
  | PopoverLeft
  | PopoverMeasured rect
  | OpenTimerFired "rect option"
  | CloseTimerFired
  | PressedAt real real
  | PickedUp Person real real "rect option" "(ParticipationType \<times> rect) list"
  | DragMoved real real
  | DragEnded real real
  | DragCancelled
  | SpringDone
  | PointerMoved real real
  | Scrolled "(ParticipationType \<times> rect) list"
  | OpenKey int "rect option"
  | EscapeKey
  | PanelOpened

fun ladder_step :: "ladder_settings \<Rightarrow> ladder_event \<Rightarrow> ladder \<Rightarrow> ladder" where
  "ladder_step g (CardPressed i place) s = handleCardPress i place s"
| "ladder_step g (CardEntered i) s = handleCardHoverIn (ld_drag s) i s"
| "ladder_step g (CardLeft i) s = handleCardHoverOut i s"
| "ladder_step g PopoverEntered s = handleHovercardHoverIn s"
| "ladder_step g PopoverLeft s = handleHovercardHoverOut s"
| "ladder_step g (PopoverMeasured r) s = s\<lparr>ld_popover := Some r\<rparr>"
| "ladder_step g (OpenTimerFired place) s = hoverOpenFires place s"
| "ladder_step g CloseTimerFired s = hoverCloseFires s"
| "ladder_step g (PressedAt x y) s = outsidePress x y s"
| "ladder_step g (PickedUp person x y place columns) s = startDrag (ls_access g) person x y place columns s"
| "ladder_step g (DragMoved x y) s = onDragMove (ls_threshold g) x y s"
| "ladder_step g (DragEnded x y) s = onDragEnd (ls_threshold g) (ls_reducedMotion g) x y s"
| "ladder_step g DragCancelled s = onDragCancel (ls_reducedMotion g) s"
| "ladder_step g SpringDone s = springDone s"
| "ladder_step g (PointerMoved x y) s = pointerMovedAfterDrop (ls_threshold g) x y s"
| "ladder_step g (Scrolled columns) s = s\<lparr>ld_columns := columns\<rparr>"
| "ladder_step g (OpenKey i place) s = openHovercard (ld_drag s) i True place s"
| "ladder_step g EscapeKey s = closeHovercard s"
| "ladder_step g PanelOpened s = closeHovercard s"

definition ladder_run :: "ladder_settings \<Rightarrow> ladder_event list \<Rightarrow> ladder \<Rightarrow> ladder" where
  "ladder_run g = fold (ladder_step g)"

section \<open>What every run keeps\<close>

text \<open>
  While a card is dragged no hovercard is open and none is about to open; a pinned one has no timer
  against it; and the listener after a drop always holds the drag that was dropped.
\<close>

definition ladder_ok :: "ladder \<Rightarrow> bool" where
  "ladder_ok s \<longleftrightarrow>
     (ld_drag s \<noteq> None \<longrightarrow> ld_hovercard s = None \<and> ld_openTimer s = None \<and> ld_start s \<noteq> None) \<and>
     (pinned_open s \<longrightarrow> ld_openTimer s = None \<and> \<not> ld_closeTimer s) \<and>
     ld_watching s \<noteq> Some None"

lemmas hover_defs =
  clearHoverTimers_def closeHovercard_def openHovercard_def handleCardPress_def handleCardHoverIn_def
  hoverOpenFires_def hoverCloseFires_def handleCardHoverOut_def handleHovercardHoverIn_def
  handleHovercardHoverOut_def outsidePress_def pinned_open_def Let_def

lemmas drag_defs =
  startDrag_def onDragMove_def finishDrag_def onDragEnd_def onDragCancel_def springDone_def drag_cleared_def
  watchPointerAfterDrop_def closeHovercard_def clearHoverTimers_def Let_def

lemma fresh_ladder_ok: "ladder_ok (fresh_ladder sel)"
  by (simp add: ladder_ok_def fresh_ladder_def pinned_open_def)

lemma hover_in_ok: "ladder_ok s \<Longrightarrow> d = ld_drag s \<or> d \<noteq> None \<Longrightarrow> ladder_ok (handleCardHoverIn d i s)"
  by (auto simp: ladder_ok_def hover_defs split: option.splits if_splits)

lemma closed_ok: "ladder_ok s \<Longrightarrow> ladder_ok (closeHovercard s)"
  by (simp add: ladder_ok_def hover_defs)

lemma open_hover_ok: "ladder_ok s \<Longrightarrow> ladder_ok (openHovercard (ld_drag s) i True place s)"
  by (auto simp: ladder_ok_def hover_defs split: option.splits)

lemma open_fires_ok: "ladder_ok s \<Longrightarrow> ladder_ok (hoverOpenFires place s)"
  by (auto simp: ladder_ok_def hover_defs split: option.splits)

lemma finish_ok: "ladder_ok s \<Longrightarrow> ladder_ok (finishDrag r c s)"
  by (auto simp: ladder_ok_def drag_defs pinned_open_def split: option.splits)

lemma move_ok: "ladder_ok s \<Longrightarrow> ladder_ok (onDragMove t x y s)"
  by (auto simp: ladder_ok_def drag_defs pinned_open_def split: option.splits)

lemma ladder_step_ok:
  assumes "ladder_ok s"
  shows "ladder_ok (ladder_step g e s)"
proof (cases e)
  case (CardPressed i place)
  then show ?thesis using assms open_hover_ok [OF assms] by (auto simp: handleCardPress_def ladder_ok_def pinned_open_def)
next
  case (CardEntered i)
  then show ?thesis using hover_in_ok [OF assms] by simp
next
  case (PointerMoved x y)
  then show ?thesis using assms
    by (auto simp: ladder_ok_def pointerMovedAfterDrop_def handleCardHoverIn_def pinned_open_def Let_def split: option.splits)
next
  case (DragEnded x y)
  then show ?thesis using finish_ok [OF move_ok [OF assms]] by (simp add: onDragEnd_def)
next
  case DragCancelled
  then show ?thesis using finish_ok [OF assms] by (simp add: onDragCancel_def)
next
  case (OpenTimerFired place)
  then show ?thesis using open_fires_ok [OF assms] by simp
next
  case (OpenKey i place)
  then show ?thesis using open_hover_ok [OF assms] by simp
qed (use assms in \<open>auto simp: ladder_ok_def hover_defs drag_defs split: option.splits\<close>)

lemma ladder_run_ok: "ladder_ok s \<Longrightarrow> ladder_ok (ladder_run g es s)"
  unfolding ladder_run_def by (induction es arbitrary: s) (auto intro: ladder_step_ok)

text \<open>Where a drag comes from.\<close>

definition picked_up :: "RosterAccess \<Rightarrow> ladder_event list \<Rightarrow> drag_state \<Rightarrow> bool" where
  "picked_up access es d \<longleftrightarrow>
     (\<exists>p x y place columns. PickedUp p x y place columns \<in> set es \<and>
        d = \<lparr>dg_personId = p_personId p, dg_fromRung = p_participationType p, dg_allowedRungs = rungsFor access p\<rparr>)"

lemma hover_keeps_drag [simp]:
  "ld_drag (handleCardHoverIn d i s) = ld_drag s" "ld_writes (handleCardHoverIn d i s) = ld_writes s"
  "ld_drag (handleCardHoverOut i s) = ld_drag s" "ld_writes (handleCardHoverOut i s) = ld_writes s"
  "ld_drag (handleCardPress i place s) = ld_drag s" "ld_writes (handleCardPress i place s) = ld_writes s"
  "ld_drag (openHovercard d i pin place s) = ld_drag s" "ld_writes (openHovercard d i pin place s) = ld_writes s"
  "ld_drag (hoverOpenFires place s) = ld_drag s" "ld_writes (hoverOpenFires place s) = ld_writes s"
  "ld_drag (hoverCloseFires s) = ld_drag s" "ld_writes (hoverCloseFires s) = ld_writes s"
  "ld_drag (handleHovercardHoverIn s) = ld_drag s" "ld_writes (handleHovercardHoverIn s) = ld_writes s"
  "ld_drag (handleHovercardHoverOut s) = ld_drag s" "ld_writes (handleHovercardHoverOut s) = ld_writes s"
  "ld_drag (outsidePress x y s) = ld_drag s" "ld_writes (outsidePress x y s) = ld_writes s"
  "ld_drag (closeHovercard s) = ld_drag s" "ld_writes (closeHovercard s) = ld_writes s"
  by (auto simp: hover_defs split: option.split)

lemma watcher_keeps_drag [simp]:
  "ld_drag (pointerMovedAfterDrop t x y s) = ld_drag s" "ld_writes (pointerMovedAfterDrop t x y s) = ld_writes s"
  by (auto simp: pointerMovedAfterDrop_def Let_def split: option.split)

lemma move_keeps [simp]:
  "ld_drag (onDragMove t x y s) = ld_drag s" "ld_writes (onDragMove t x y s) = ld_writes s"
  "ld_hovercard (onDragMove t x y s) = ld_hovercard s" "ld_columns (onDragMove t x y s) = ld_columns s"
  by (auto simp: onDragMove_def Let_def split: option.split)

lemma finish_drag: "ld_drag (finishDrag r c s) \<in> {None, ld_drag s}"
  by (auto simp: finishDrag_def drag_cleared_def Let_def split: option.split)

lemma drag_comes_from:
  assumes "ld_drag (ladder_step g e s) = Some d"
  shows "ld_drag s = Some d \<or> picked_up (ls_access g) [e] d"
proof (cases e)
  case (PickedUp p x y place columns)
  then show ?thesis using assms
    by (auto simp: picked_up_def startDrag_def Let_def split: option.splits if_splits)
next
  case (DragEnded x y)
  then show ?thesis using assms finish_drag [of "ls_reducedMotion g" True "onDragMove (ls_threshold g) x y s"]
    by (auto simp: onDragEnd_def)
next
  case DragCancelled
  then show ?thesis using assms finish_drag [of "ls_reducedMotion g" False s] by (auto simp: onDragCancel_def)
next
  case SpringDone
  then show ?thesis using assms by (auto simp: springDone_def drag_cleared_def split: if_splits)
qed (use assms in simp_all)

lemma picked_up_more: "picked_up access es d \<Longrightarrow> set es \<subseteq> set es' \<Longrightarrow> picked_up access es' d"
  unfolding picked_up_def by blast

lemma drag_was_picked_up: "ld_drag (ladder_run g es (fresh_ladder sel)) = Some d \<Longrightarrow> picked_up (ls_access g) es d"
proof (induction es rule: rev_induct)
  case Nil
  then show ?case by (simp add: ladder_run_def fresh_ladder_def)
next
  case (snoc e es)
  have "ladder_run g (es @ [e]) (fresh_ladder sel) = ladder_step g e (ladder_run g es (fresh_ladder sel))"
    by (simp add: ladder_run_def)
  with snoc.prems have "ld_drag (ladder_run g es (fresh_ladder sel)) = Some d \<or> picked_up (ls_access g) [e] d"
    by (intro drag_comes_from) simp
  then show ?case
  proof
    assume "ld_drag (ladder_run g es (fresh_ladder sel)) = Some d"
    from snoc.IH [OF this] show ?thesis by (rule picked_up_more) auto
  next
    assume "picked_up (ls_access g) [e] d"
    then show ?thesis by (rule picked_up_more) simp
  qed
qed

lemma column_at_in: "column_at x y columns = Some t \<Longrightarrow> \<exists>r. (t, r) \<in> set columns \<and> pointInRect x y r"
  by (auto simp: column_at_def dest!: find_SomeD)

lemma moved_hit:
  "ld_start s \<noteq> None \<Longrightarrow> ld_drag s \<noteq> None \<Longrightarrow> ld_hit (onDragMove t x y s) = column_at x y (ld_columns s)"
  by (auto simp: onDragMove_def Let_def)

lemma finish_writes:
  "ld_writes (finishDrag r c s) =
     ld_writes s @ (case ld_drag s of None \<Rightarrow> []
       | Some d \<Rightarrow> (case drop_target c d s of None \<Rightarrow> [] | Some hit \<Rightarrow> [(dg_personId d, hit)]))"
  by (auto simp: finishDrag_def drag_cleared_def watchPointerAfterDrop_def Let_def split: option.split)

lemma writes_only_on_drop:
  assumes "ladder_ok s" and "ld_writes (ladder_step g e s) \<noteq> ld_writes s"
  shows "\<exists>x y d r. e = DragEnded x y \<and> ld_drag s = Some d \<and> ld_writes (ladder_step g e s) = ld_writes s @ [(dg_personId d, r)] \<and>
    r \<in> set (dg_allowedRungs d) \<and> r \<noteq> dg_fromRung d \<and> column_at x y (ld_columns s) = Some r"
proof (cases e)
  case (DragEnded x y)
  then obtain d r where "ld_drag s = Some d" "drop_target True d (onDragMove (ls_threshold g) x y s) = Some r"
    using assms(2) by (auto simp: onDragEnd_def finish_writes split: option.splits)
  with assms(1) DragEnded show ?thesis
    by (auto simp: onDragEnd_def finish_writes drop_target_def ladder_ok_def moved_hit split: option.splits if_splits)
next
  case DragCancelled
  then show ?thesis using assms(2) by (auto simp: onDragCancel_def finish_writes drop_target_def split: option.splits)
next
  case (PickedUp p x y place columns)
  then show ?thesis using assms(2) by (auto simp: startDrag_def Let_def split: option.splits if_splits)
next
  case SpringDone
  then show ?thesis using assms(2) by (auto simp: springDone_def drag_cleared_def split: if_splits)
qed (use assms in simp_all)

lemma offered_is_allowed:
  assumes "r \<in> set (rungsFor access p)"
  shows "server_allows (ra_admin access) (ra_inviteReporters access) w r (Some (p_participationType p))"
  using assms
  by (cases "p_participationType p")
    (auto simp: rungsFor_def server_allows_def mayAssignParticipation_def ADMIN_RUNGS_def INVITER_RUNGS_def
      NO_LOGIN_RUNGS_def Let_def split: if_splits)


text \<open>A witness: a volunteer is dragged by an administrator onto the column of the public.\<close>

definition vic :: Person where
  "vic = blank_person\<lparr>p_personId := 14, p_hasPassword := True, p_participationType := PT_VOLUNTEER\<rparr>"

definition admin_ladder :: ladder_settings where
  "admin_ladder = \<lparr>ls_access = \<lparr>ra_admin = True, ra_inviteReporters = False, ra_writeIncidents = True\<rparr>,
     ls_threshold = 6, ls_reducedMotion = False\<rparr>"

definition square :: "real \<Rightarrow> rect" where
  "square x = \<lparr>rect_x = x, rect_y = 0, rect_width = 200, rect_height = 600\<rparr>"


section \<open>Pinned hovercards\<close>

text \<open>What the pointer does without pressing, and the timers.\<close>

fun hover_only :: "ladder_event \<Rightarrow> bool" where
  "hover_only (CardPressed i place) = False"
| "hover_only (PressedAt x y) = False"
| "hover_only (PickedUp p x y place columns) = False"
| "hover_only (OpenKey i place) = False"
| "hover_only EscapeKey = False"
| "hover_only PanelOpened = False"
| "hover_only e = True"

lemma pinned_step:
  assumes "ladder_ok s" and "ld_hovercard s = Some hc" and "hc_pinned hc" and "hover_only e"
  shows "ld_hovercard (ladder_step g e s) = Some hc \<and> ld_selected (ladder_step g e s) = ld_selected s"
proof -
  have still: "ld_drag s = None" "ld_openTimer s = None" "\<not> ld_closeTimer s"
    using assms(1-3) by (auto simp: ladder_ok_def pinned_open_def)
  show ?thesis
    using assms(2-4) still
    by (cases e)
      (auto simp: hover_defs onDragMove_def onDragEnd_def onDragCancel_def finishDrag_def springDone_def drag_cleared_def
        pointerMovedAfterDrop_def split: option.split)
qed

text \<open>
  C22: A hovercard that was pinned stays, and so does the selection, whatever the pointer does short of a
  press and whichever timers run out; the timers that were under way when it was pinned can no longer
  take it away.
\<close>

theorem pinned_card_stays:
  assumes "s = ladder_run g es (fresh_ladder sel)" and "ld_hovercard s = Some hc" and "hc_pinned hc"
    and "list_all hover_only es'"
  shows "ld_hovercard (ladder_run g es' s) = Some hc \<and> ld_selected (ladder_run g es' s) = ld_selected s"
proof -
  have "ladder_ok s" unfolding assms(1) by (intro ladder_run_ok fresh_ladder_ok)
  then show ?thesis using assms(2-4)
  proof (induction es' arbitrary: s)
    case Nil
    then show ?case by (simp add: ladder_run_def)
  next
    case (Cons e es')
    have "ladder_run g (e # es') s = ladder_run g es' (ladder_step g e s)" by (simp add: ladder_run_def)
    moreover note pinned_step [OF Cons.prems(1-3), of e g] Cons.IH [OF ladder_step_ok [OF Cons.prems(1)], of g e]
    ultimately show ?case using Cons.prems by simp
  qed
qed

lemma pinned_card_stays_witness:
  "ld_hovercard (ladder_run admin_ladder [CardEntered 2, CardLeft 1, OpenTimerFired None, CloseTimerFired]
      (ladder_run admin_ladder [CardEntered 1, CardPressed 1 (Some (square 0))] (fresh_ladder None))) =
    Some \<lparr>hc_personId = 1, hc_pinned = True, hc_anchor = square 0\<rparr> \<and>
   ld_selected (ladder_run admin_ladder [CardEntered 2, CardLeft 1, OpenTimerFired None, CloseTimerFired]
      (ladder_run admin_ladder [CardEntered 1, CardPressed 1 (Some (square 0))] (fresh_ladder None))) =
    ld_selected (ladder_run admin_ladder [CardEntered 1, CardPressed 1 (Some (square 0))] (fresh_ladder None))"
  by (rule pinned_card_stays [OF refl])
    (simp_all add: ladder_run_def hover_defs fresh_ladder_def)

section \<open>Where the Ladder falls short\<close>

text \<open>
  A card passed over on the way: the hovercard of the card left before stays open, with no timer left to
  close it and the pointer over nothing.
\<close>

lemma hovercard_left_behind:
  assumes "s = ladder_run g [CardEntered 1, OpenTimerFired (Some r), CardLeft 1, CardEntered 2, CardLeft 2] (fresh_ladder None)"
  shows "ld_hovercard s = Some \<lparr>hc_personId = 1, hc_pinned = False, hc_anchor = r\<rparr> \<and>
    ld_overCard s = None \<and> \<not> ld_overPopover s \<and>
    ladder_step g CloseTimerFired s = s \<and> ladder_step g (OpenTimerFired place) s = s \<and> ladder_step g (PointerMoved x y) s = s"
  by (simp add: assms ladder_run_def hover_defs fresh_ladder_def pointerMovedAfterDrop_def)

text \<open>
  The hover reported while a drop rests is to be replayed once the pointer moves; the listener asks a
  handler that still sees the drag, so nothing opens or is about to.
\<close>

lemma pending_hover_lost:
  assumes "s = ladder_run g es (fresh_ladder sel)"
  shows "ld_hovercard (ladder_step g (PointerMoved x y) s) = ld_hovercard s \<and>
    ld_openTimer (ladder_step g (PointerMoved x y) s) = ld_openTimer s \<and>
    ld_overCard (ladder_step g (PointerMoved x y) s) = ld_overCard s"
proof -
  have "ladder_ok s" unfolding assms by (intro ladder_run_ok fresh_ladder_ok)
  then show ?thesis
    by (auto simp: ladder_ok_def pointerMovedAfterDrop_def handleCardHoverIn_def Let_def split: option.split)
qed

text \<open>
  A refused drop sends the ghost home; the pointer moved meanwhile, with no button held, takes it along
  again, and the end of the spring, which would have ended the drag, never comes.
\<close>

lemma refused_drop_drags_on:
  assumes "ld_drag s = Some d" and "ld_start s = Some (x0, y0, shape)"
  shows "ld_drag (onDragMove t x y s) = Some d \<and> ld_offset (onDragMove t x y s) = (x - x0, y - y0) \<and>
    springDone (onDragMove t x y s) = onDragMove t x y s"
  using assms by (simp add: onDragMove_def springDone_def Let_def)

text \<open>
  Everyone the server lists beyond the roster has no rung in the event: Show everyone counts them, and
  puts them in no column. The same goes for who is not present or ejected.
\<close>

lemma show_everyone_shows_nobody_more:
  assumes "list_all (\<lambda>p. p_participationType p \<in> {PT_UNSPECIFIED, PT_NOT_PRESENT, PT_EJECTED}) others" and "lower h [] = []"
  shows "ladder_columns h access (people @ others) search = ladder_columns h access people search \<and>
    ladder_order h access (people @ others) search = ladder_order h access people search \<and>
    toolbar_count h (people @ others) [] =
      show_int (int (length people + length others)) @ lit '' of '' @ show_int (int (length people + length others))"
proof -
  have none: "filter (\<lambda>p. p_participationType p = t) (ladder_filtered h others search) = []" if "t \<in> set COLUMN_TYPES" for t
    using assms(1) that by (auto simp: COLUMN_TYPES_def ladder_filtered_def filter_empty_conv list_all_iff)
  have cols: "ladder_columns h access (people @ others) search = ladder_columns h access people search"
    unfolding ladder_columns_def using none by (auto simp: ladder_filtered_def intro!: map_cong)
  have all: "ladder_filtered h ps [] = ps" for ps
    using assms(2) by (simp add: ladder_filtered_def matches_def trim_def Let_def)
  show ?thesis by (simp add: cols ladder_order_def toolbar_count_def all)
qed

section \<open>The hovercard in its place\<close>

text \<open>The sizes are those of the theme: 20, 6 and 10 for the spacings, 44 for a touch target.\<close>

record hovercard_place =
  pl_left :: real
  pl_top :: real
  pl_width :: real
  pl_maxHeight :: real

definition MIN_VISIBLE_HEIGHT :: real where
  "MIN_VISIBLE_HEIGHT = 44 * 4"

definition Hovercard :: "rect \<Rightarrow> real \<Rightarrow> real \<Rightarrow> hovercard_place" where
  "Hovercard anchor stageWidth stageHeight =
     (let width = 20 * 16; gap = 6; margin = 10;
          beside = rect_x anchor + rect_width anchor + gap;
          left = (if stageWidth < beside + width + margin then rect_x anchor - width - gap else beside);
          top = max margin (min (rect_y anchor) (stageHeight - margin - MIN_VISIBLE_HEIGHT))
      in \<lparr>pl_left = min (max left margin) (max margin (stageWidth - width - margin)), pl_top = top, pl_width = width,
          pl_maxHeight = max MIN_VISIBLE_HEIGHT (stageHeight - top - margin)\<rparr>)"

text \<open>
  On a stage wide and high enough for it the hovercard is all on the stage, with its margins, and where
  there is room for it on either side of its card it does not cover the card.
\<close>

theorem hovercard_fits:
  assumes "340 \<le> W" and "196 \<le> H" and "pl = Hovercard anchor W H" and "0 \<le> rect_width anchor"
  shows "10 \<le> pl_left pl \<and> pl_left pl + pl_width pl + 10 \<le> W \<and> 10 \<le> pl_top pl \<and> pl_top pl + pl_maxHeight pl + 10 \<le> H \<and>
    (rect_x anchor + rect_width anchor + 336 \<le> W \<or> 336 \<le> rect_x anchor \<and> rect_x anchor \<le> W \<longrightarrow>
      rect_x anchor + rect_width anchor < pl_left pl \<or> pl_left pl + pl_width pl < rect_x anchor)"
proof -
  let ?beside = "rect_x anchor + rect_width anchor + 6"
  let ?left = "if W < ?beside + 330 then rect_x anchor - 326 else ?beside"
  let ?top = "max 10 (min (rect_y anchor) (H - 186))"
  have pl: "pl_left pl = min (max ?left 10) (W - 330)" "pl_width pl = 320" "pl_top pl = ?top"
      "pl_maxHeight pl = max 176 (H - ?top - 10)"
    using assms(1) unfolding assms(3) by (simp_all add: Hovercard_def MIN_VISIBLE_HEIGHT_def Let_def)
  have "?top \<le> H - 186" using assms(2) by simp
  then have "pl_top pl + pl_maxHeight pl + 10 \<le> H" unfolding pl(3,4) by linarith
  moreover have "10 \<le> pl_left pl" "pl_left pl + pl_width pl + 10 \<le> W" using assms(1) unfolding pl by simp_all
  moreover have "10 \<le> pl_top pl" unfolding pl(3) by simp
  moreover have "rect_x anchor + rect_width anchor < pl_left pl"
    if "rect_x anchor + rect_width anchor + 336 \<le> W" "10 \<le> ?beside"
    using that unfolding pl by simp
  moreover have "rect_x anchor + rect_width anchor < pl_left pl"
    if "rect_x anchor + rect_width anchor + 336 \<le> W" "?beside < 10"
    using that assms(1) unfolding pl by simp
  moreover have "pl_left pl + pl_width pl < rect_x anchor"
    if "\<not> rect_x anchor + rect_width anchor + 336 \<le> W" "336 \<le> rect_x anchor"
    using that assms(1) unfolding pl by simp
  ultimately show ?thesis by linarith
qed

lemma hovercard_fits_witness:
  "10 \<le> pl_left (Hovercard (square 400) 800 600) \<and>
   pl_left (Hovercard (square 400) 800 600) + pl_width (Hovercard (square 400) 800 600) + 10 \<le> 800 \<and>
   10 \<le> pl_top (Hovercard (square 400) 800 600) \<and>
   pl_top (Hovercard (square 400) 800 600) + pl_maxHeight (Hovercard (square 400) 800 600) + 10 \<le> 600 \<and>
   pl_left (Hovercard (square 400) 800 600) + pl_width (Hovercard (square 400) 800 600) < 400"
  using hovercard_fits [of 800 600 "Hovercard (square 400) 800 600" "square 400"]
  by (simp add: square_def) (simp add: Hovercard_def Let_def)

section \<open>Menus\<close>

text \<open>
  The menu of each card is open or not by itself; the Ladder remembers the one to raise above the cards
  below it.
\<close>

record move_menus =
  mm_open :: "int set"
  mm_openMenuFor :: "int option"

definition setOpenState :: "int \<Rightarrow> bool \<Rightarrow> move_menus \<Rightarrow> move_menus" where
  "setOpenState i on m =
     \<lparr>mm_open = (if on then insert i (mm_open m) else mm_open m - {i}), mm_openMenuFor = (if on then Some i else None)\<rparr>"

definition menu_pressed :: "int \<Rightarrow> move_menus \<Rightarrow> move_menus" where
  "menu_pressed i m = setOpenState i (i \<notin> mm_open m) m"

definition menu_picked :: "int \<Rightarrow> ParticipationType \<Rightarrow> move_menus \<Rightarrow> move_menus \<times> (int \<times> ParticipationType)" where
  "menu_picked i rung m = (setOpenState i False m, (i, rung))"

definition raised :: "int \<Rightarrow> move_menus \<Rightarrow> bool" where
  "raised i m \<longleftrightarrow> mm_openMenuFor m = Some i"

text \<open>Closing one of two open menus takes the other one down behind the cards below it.\<close>

lemma raised_menu_dropped:
  assumes "i \<noteq> j" and "i \<notin> mm_open m" and "j \<notin> mm_open m"
  shows "j \<in> mm_open (menu_pressed i (menu_pressed j (menu_pressed i m))) \<and>
    \<not> raised j (menu_pressed i (menu_pressed j (menu_pressed i m)))"
  using assms by (auto simp: menu_pressed_def setOpenState_def raised_def)

text \<open>The role menu of the profile: a label where nothing may be set, else the rungs with the current one marked.\<close>

datatype role_menu = RoleLabel str | RoleButton str "(ParticipationType \<times> bool) list option"

definition RoleMenu :: "Person \<Rightarrow> ParticipationType list \<Rightarrow> bool \<Rightarrow> role_menu" where
  "RoleMenu person rungs isOpen =
     (let current = p_participationType person
      in if rungs = [] then RoleLabel (rungLabel current)
         else RoleButton (rungLabel current) (if isOpen then Some (map (\<lambda>r. (r, r = current)) rungs) else None))"

section \<open>The profile\<close>

text \<open>Withheld fields are simply absent; leaving the event has two forms, behind a confirmation.\<close>

record profile_shown =
  ps_label :: str
  ps_admin :: bool
  ps_handle :: "str option"
  ps_noLogin :: bool
  ps_role :: role_menu
  ps_crews :: "(str \<times> bool) list"
  ps_wristband :: "str option"
  ps_email :: "str option"
  ps_phone :: "str option"
  ps_removable :: bool
  ps_removals :: "ParticipationType list"

definition ProfileCard :: "RosterAccess \<Rightarrow> bool \<Rightarrow> bool \<Rightarrow> Person \<Rightarrow> profile_shown" where
  "ProfileCard access menuOpen confirmingRemove person =
     \<lparr>ps_label = displayName person, ps_admin = p_isAdmin person,
      ps_handle = (if nonempty (p_handle person) \<noteq> None \<and> nonempty (p_name person) \<noteq> None then p_handle person else None),
      ps_noLogin = (ra_admin access \<and> \<not> p_hasPassword person),
      ps_role = RoleMenu person (rungsFor access person) menuOpen,
      ps_crews = map (\<lambda>c. (if crew_isLeader c then crew_name c @ lit '' '' @ [183] @ lit '' leads'' else crew_name c, crew_isLeader c))
        (p_crews person),
      ps_wristband = nonempty (p_wristband person), ps_email = nonempty (p_email person), ps_phone = nonempty (p_phone person),
      ps_removable = mayRemove access person,
      ps_removals =
        (if mayRemove access person \<and> confirmingRemove
         then PT_NOT_PRESENT # (if ra_admin access then [PT_EJECTED] else []) else [])\<rparr>"

text \<open>Every way out of the event that the profile offers is one the server takes from this viewer.\<close>

lemma removals_are_allowed:
  assumes "r \<in> set (ps_removals (ProfileCard access menuOpen confirmingRemove person))"
  shows "server_allows (ra_admin access) (ra_inviteReporters access) w r (Some (p_participationType person))"
  using assms
  by (cases "p_participationType person")
    (auto simp: ProfileCard_def mayRemove_def rungsFor_def server_allows_def mayAssignParticipation_def Let_def
      split: if_splits)

section \<open>My crews\<close>

record led_member =
  cm_person :: "PersonRef option"
  cm_isLeader :: bool

record led_crew =
  mc_slug :: "str option"
  mc_name :: str
  mc_members :: "led_member list"

definition member_person :: "Person list \<Rightarrow> led_member \<Rightarrow> Person" where
  "member_person people member =
     nullish (Option.bind (cm_person member) (\<lambda>r. byId people (ref_personId r)))
       (blank_person\<lparr>p_personId := nullish (map_option ref_personId (cm_person member)) (-1),
          p_handle := Option.bind (cm_person member) ref_handle, p_name := Option.bind (cm_person member) ref_name\<rparr>)"

definition member_label :: "Person list \<Rightarrow> led_member \<Rightarrow> str" where
  "member_label people member =
     (let p = member_person people member
      in if cm_person member = None \<and> nullish (p_name p) [] = [] \<and> nullish (p_handle p) [] = [] then lit ''Unknown''
         else displayName p)"

datatype member_button = LeaderBadge | NoControl | RemoveButton int bool

definition member_control :: "roster \<Rightarrow> led_member \<Rightarrow> member_button" where
  "member_control roster member =
     (if cm_isLeader member then LeaderBadge
      else case cm_person member of
        None \<Rightarrow> NoControl
      | Some r \<Rightarrow> RemoveButton (ref_personId r) (pendingFor roster (ref_personId r)))"

datatype crew_screen = NoCrews | CrewSections "(str \<times> (str \<times> member_button) list) list"

definition MyCrews :: "led_crew list \<Rightarrow> Person list \<Rightarrow> roster \<Rightarrow> crew_screen" where
  "MyCrews crews people roster =
     (if crews = [] then NoCrews
      else CrewSections (map (\<lambda>c. (if mc_name c = [] then nullish (mc_slug c) [] else mc_name c,
             map (\<lambda>m. (member_label people m, member_control roster m)) (mc_members c))) crews))"

text \<open>Removal is confirmed first; a press while one is under way asks nothing.\<close>

definition remove_pressed :: "roster \<Rightarrow> int \<Rightarrow> bool \<Rightarrow> bool" where
  "remove_pressed roster personId confirming = (confirming \<or> \<not> pendingFor roster personId)"

definition remove_confirmed :: "int \<Rightarrow> str option \<Rightarrow> int \<Rightarrow> roster \<Rightarrow> bool \<times> roster \<times> membership_request" where
  "remove_confirmed eventId slug personId roster =
     (False, removeFromCrew_begin eventId (nullish slug []) personId roster)"

definition member_picked :: "int \<Rightarrow> str option \<Rightarrow> Person \<Rightarrow> roster \<Rightarrow> roster \<times> membership_request" where
  "member_picked eventId slug person roster = addToCrew_begin eventId (nullish slug []) (p_personId person) roster"

section \<open>Pictures\<close>

datatype avatar = InitialLetter str | PublicPicture str | ServedPicture str

definition isRelative :: "str \<Rightarrow> bool" where
  "isRelative url \<longleftrightarrow> starts_with url (lit ''/'') \<and> \<not> starts_with url (lit ''//'')"

text \<open>\<open>upper\<close> is the engine's \<open>toUpperCase\<close>; without a configured address the path stands.\<close>

definition initialFor :: "(str \<Rightarrow> str) \<Rightarrow> Person \<Rightarrow> str" where
  "initialFor upper person =
     (let name = or_str (p_name person) (or_str (p_handle person) []); first = upper (take 1 name)
      in if first = [] then lit ''?'' else first)"

definition Avatar :: "(str \<Rightarrow> str) \<Rightarrow> Person \<Rightarrow> avatar" where
  "Avatar upper person =
     (case nonempty (p_profilePictureUrl person) of
        None \<Rightarrow> InitialLetter (initialFor upper person)
      | Some url \<Rightarrow> if isRelative url then ServedPicture url else PublicPicture url)"

definition absoluteUrl :: "str option \<Rightarrow> str \<Rightarrow> str" where
  "absoluteUrl base path = stripTrailingSlash (nullish base []) @ path"

text \<open>A served picture: fetched with the token; a path that changed meanwhile takes no late answer.\<close>

record served_picture =
  sv_path :: str
  sv_run :: nat
  sv_source :: "str option"
  sv_failed :: bool

definition load_picture :: "str \<Rightarrow> served_picture \<Rightarrow> served_picture" where
  "load_picture path s = s\<lparr>sv_path := path, sv_run := sv_run s + 1, sv_source := None, sv_failed := False\<rparr>"

definition picture_loaded :: "nat \<Rightarrow> str option \<Rightarrow> served_picture \<Rightarrow> served_picture" where
  "picture_loaded n answer s =
     (if n \<noteq> sv_run s then s
      else case answer of None \<Rightarrow> s\<lparr>sv_failed := True\<rparr> | Some uri \<Rightarrow> s\<lparr>sv_source := Some uri\<rparr>)"

definition served_shown :: "(str \<Rightarrow> str) \<Rightarrow> bool \<Rightarrow> Person \<Rightarrow> served_picture \<Rightarrow> avatar" where
  "served_shown upper broken person s =
     (case sv_source s of
        None \<Rightarrow> InitialLetter (initialFor upper person)
      | Some uri \<Rightarrow> if sv_failed s \<or> broken then InitialLetter (initialFor upper person) else PublicPicture uri)"

text \<open>The picture shown is never that of a path asked for before.\<close>

lemma late_picture_ignored:
  "n \<le> sv_run s \<Longrightarrow> picture_loaded n answer (load_picture path s) = load_picture path s"
  by (simp add: picture_loaded_def load_picture_def)

text \<open>One image that broke keeps the initial for every later picture: nothing takes \<open>broken\<close> back.\<close>

lemma broken_stays: "served_shown upper True person s = InitialLetter (initialFor upper person)"
  by (cases "sv_source s") (simp_all add: served_shown_def)

end
