(* ===== verification/AddPerson.thy ===== *)
theory AddPerson
  imports People Append
begin

text \<open>
  Adding a person in the newer client (\<open>features/people/AddPerson.tsx\<close>): the search with its hits and
  their enrolment, the form for a new person with its checks and the server's refusal at the field it
  names, and the panel that leads from one to the other, over runs of what is typed, pressed and answered.
  The writes themselves are those of \<open>People\<close>.
\<close>

section \<open>Hits and enrolment\<close>

text \<open>The rung an administrator may enrol at, by a probe that can sign in; \<open>signIn\<close> is the switch of the form.\<close>

definition probe_for :: "bool \<Rightarrow> Person" where
  "probe_for signIn = blank_person\<lparr>p_personId := -1, p_hasPassword := signIn\<rparr>"

definition enrolOptions :: "RosterAccess \<Rightarrow> ParticipationType list" where
  "enrolOptions access = (if ra_admin access then rungsFor access (probe_for True) else [])"

definition rungOptions :: "RosterAccess \<Rightarrow> bool \<Rightarrow> ParticipationType list" where
  "rungOptions access signIn = (if ra_admin access then rungsFor access (probe_for signIn) else [])"

datatype search_result = TooShort | NoOneNamed str | HitsShown "Person list"

definition search_shown :: "(str \<Rightarrow> Person list option) \<Rightarrow> str \<Rightarrow> search_result" where
  "search_shown answers query =
     (let trimmed = trim query; hits = mentionSearch answers trimmed
      in if length trimmed < 2 then TooShort else if hits = [] then NoOneNamed trimmed else HitsShown hits)"

definition on_roster :: "Person \<Rightarrow> bool \<Rightarrow> bool" where
  "on_roster person enrolled \<longleftrightarrow>
     \<not> enrolled \<and> p_participationType person \<notin> {PT_UNSPECIFIED, PT_NOT_PRESENT, PT_EJECTED}"

datatype hit_shown = OnRosterAs str | EnrolledAs str | EnrolButton bool

definition Hit :: "roster \<Rightarrow> ParticipationType \<Rightarrow> bool \<Rightarrow> Person \<Rightarrow> hit_shown \<times> str option" where
  "Hit roster rung enrolled person =
     (if on_roster person enrolled then OnRosterAs (rungLabel (p_participationType person))
      else if enrolled then EnrolledAs (rungLabel rung)
      else EnrolButton (pendingFor roster (p_personId person)),
      map_option ae_message (errorFor roster (p_personId person)))"

section \<open>The form\<close>

datatype new_field = FairName | LegalName | EmailField | PhoneField | PasswordBox

definition FIELD_OF :: "(str \<times> new_field) list" where
  "FIELD_OF =
     [(lit ''handle'', FairName), (lit ''name'', LegalName), (lit ''email'', EmailField), (lit ''phone'', PhoneField),
      (lit ''password'', PasswordBox)]"

text \<open>The last piece of a path cut at its dots and brackets.\<close>

definition field_tail :: "str \<Rightarrow> str" where
  "field_tail path = last (split_on 91 (last (split_on 46 path)))"

type_synonym field_messages = "new_field \<Rightarrow> str option"

definition violation_placed :: "FieldViolation \<Rightarrow> field_messages \<Rightarrow> field_messages" where
  "violation_placed v boxes =
     (case map_of FIELD_OF (field_tail (fv_field v)) of
        None \<Rightarrow> boxes
      | Some key \<Rightarrow> if nullish (boxes key) [] = [] then boxes(key \<mapsto> fv_message v) else boxes)"

definition serverFieldErrors :: "AppError option \<Rightarrow> field_messages \<times> str option" where
  "serverFieldErrors err =
     (case err of
        None \<Rightarrow> (\<lambda>_. None, None)
      | Some e \<Rightarrow>
          (let placed = fold violation_placed (ae_violations e) (\<lambda>_. None);
               boxes = (if ae_kind e = KConflict then placed(FairName \<mapsto> ae_message e) else placed)
           in (boxes,
               if list_ex (\<lambda>k. boxes k \<noteq> None) [FairName, LegalName, EmailField, PhoneField, PasswordBox] then None
               else Some (ae_message e))))"

record new_form =
  nf_fairName :: str
  nf_legalName :: str
  nf_email :: str
  nf_phone :: str
  nf_signIn :: bool
  nf_explicit :: bool
  nf_password :: str
  nf_rung :: "ParticipationType option"
  nf_errors :: field_messages
  nf_submitting :: bool
  nf_serial :: nat

text \<open>The effect that keeps the rung among those offered.\<close>

definition rung_kept :: "ParticipationType list \<Rightarrow> ParticipationType option \<Rightarrow> ParticipationType option" where
  "rung_kept options current =
     (case options of
        [] \<Rightarrow> None
      | r # _ \<Rightarrow> (case current of None \<Rightarrow> Some r | Some c \<Rightarrow> if c \<in> set options then Some c else Some r))"

definition open_form :: "RosterAccess \<Rightarrow> str \<Rightarrow> nat \<Rightarrow> new_form" where
  "open_form access seed serial =
     \<lparr>nf_fairName = seed, nf_legalName = [], nf_email = [], nf_phone = [], nf_signIn = False, nf_explicit = False,
      nf_password = [], nf_rung = rung_kept (rungOptions access False) None, nf_errors = (\<lambda>_. None),
      nf_submitting = False, nf_serial = serial\<rparr>"

definition setSignIn :: "RosterAccess \<Rightarrow> bool \<Rightarrow> new_form \<Rightarrow> new_form" where
  "setSignIn access on f = f\<lparr>nf_signIn := on, nf_rung := rung_kept (rungOptions access on) (nf_rung f)\<rparr>"

definition form_errors :: "new_form \<Rightarrow> field_messages" where
  "form_errors f =
     (\<lambda>k. case k of
        FairName \<Rightarrow> if trim (nf_fairName f) = [] then Some (lit ''A fair name is required.'') else None
      | EmailField \<Rightarrow>
          if nf_signIn f \<and> trim (nf_email f) = [] then Some (lit ''An email is required to sign in.'') else None
      | PasswordBox \<Rightarrow>
          if nf_signIn f \<and> nf_explicit f \<and> nf_password f = []
          then Some (lit ''Set a password, or use the shared default.'') else None
      | _ \<Rightarrow> None)"

definition filled :: "str \<Rightarrow> str option" where
  "filled s = (if trim s = [] then None else Some (trim s))"

definition form_request :: "RosterAccess \<Rightarrow> new_form \<Rightarrow> CreatePersonForm" where
  "form_request access f =
     \<lparr>cf_handle = Some (trim (nf_fairName f)), cf_name = filled (nf_legalName f), cf_email = filled (nf_email f),
      cf_phone = filled (nf_phone f), cf_password = (if nf_signIn f \<and> nf_explicit f then Some (nf_password f) else None),
      cf_useDefaultPassword = Some (nf_signIn f \<and> \<not> nf_explicit f), cf_wristband = None,
      cf_participationType = (if ra_admin access then nf_rung f else None)\<rparr>"

definition submit_form :: "RosterAccess \<Rightarrow> new_form \<Rightarrow> new_form \<times> CreatePersonForm option" where
  "submit_form access f =
     (let f1 = f\<lparr>nf_errors := form_errors f\<rparr>
      in if form_errors f FairName \<noteq> None \<or> form_errors f EmailField \<noteq> None \<or> form_errors f PasswordBox \<noteq> None
         then (f1, None)
         else (f1\<lparr>nf_submitting := True\<rparr>, Some (form_request access f)))"

text \<open>The messages on the form: at the boxes that are shown, and the line below them.\<close>

definition form_messages :: "new_form \<Rightarrow> AppError option \<Rightarrow> (new_field \<times> str option) list \<times> str option" where
  "form_messages f err =
     (let (boxes, general) = serverFieldErrors err;
          own = (\<lambda>k. case nf_errors f k of None \<Rightarrow> boxes k | Some m \<Rightarrow> Some m)
      in ([(FairName, own FairName), (LegalName, boxes LegalName), (EmailField, own EmailField), (PhoneField, boxes PhoneField)]
            @ (if nf_signIn f \<and> nf_explicit f then [(PasswordBox, own PasswordBox)] else []),
          general))"

section \<open>The panel\<close>

text \<open>
  Every form opened is a new one, told apart by its number; a creation under way knows the form it came
  from, and ends the waiting of that form only.
\<close>

datatype add_stage = SearchStage | CreateStage new_form | CreatedStage Person

record add_panel =
  ap_query :: str
  ap_stage :: add_stage
  ap_enrolled :: "int set"
  ap_enrolRung :: ParticipationType
  ap_roster :: roster
  ap_forms :: nat
  ap_flight :: "nat list"
  ap_sent :: "CreatePersonForm list"

definition open_panel :: "roster \<Rightarrow> add_panel" where
  "open_panel roster =
     \<lparr>ap_query = [], ap_stage = SearchStage, ap_enrolled = {}, ap_enrolRung = PT_REPORTER, ap_roster = roster,
      ap_forms = 0, ap_flight = [], ap_sent = []\<rparr>"

definition hit_rung :: "RosterAccess \<Rightarrow> add_panel \<Rightarrow> ParticipationType" where
  "hit_rung access s = (if ra_admin access then ap_enrolRung s else PT_REPORTER)"

definition hit_on_panel :: "RosterAccess \<Rightarrow> add_panel \<Rightarrow> Person \<Rightarrow> hit_shown \<times> str option" where
  "hit_on_panel access s person =
     Hit (ap_roster s) (hit_rung access s) (p_personId person \<in> ap_enrolled s) person"

datatype add_event =
    SearchTyped str
  | EnrolRungPicked ParticipationType
  | EnrolAnswered int bool
  | CreateOpened
  | CreateCancelled
  | FieldTyped new_field str
  | SignInSwitched bool
  | PasswordModePicked bool
  | RungPicked ParticipationType
  | CreateSubmitted int
  | CreateAnswered nat "thrown + Person option"
  | AnotherAdded

fun type_field :: "new_field \<Rightarrow> str \<Rightarrow> new_form \<Rightarrow> new_form" where
  "type_field FairName v f = f\<lparr>nf_fairName := v\<rparr>"
| "type_field LegalName v f = f\<lparr>nf_legalName := v\<rparr>"
| "type_field EmailField v f = f\<lparr>nf_email := v\<rparr>"
| "type_field PhoneField v f = f\<lparr>nf_phone := v\<rparr>"
| "type_field PasswordBox v f = (if nf_signIn f \<and> nf_explicit f then f\<lparr>nf_password := v\<rparr> else f)"

definition on_form :: "(new_form \<Rightarrow> new_form) \<Rightarrow> add_panel \<Rightarrow> add_panel" where
  "on_form g s = (case ap_stage s of CreateStage f \<Rightarrow> s\<lparr>ap_stage := CreateStage (g f)\<rparr> | _ \<Rightarrow> s)"

text \<open>
  One event. The chips are only there for the rungs offered, and the button for a new person from two
  letters on; a submission carries the event it is for; an answer is for a creation that is under way,
  whatever the panel shows by then.
\<close>

fun add_step :: "RosterAccess \<Rightarrow> add_event \<Rightarrow> add_panel \<Rightarrow> add_panel" where
  "add_step access (SearchTyped q) s = (if ap_stage s = SearchStage then s\<lparr>ap_query := q\<rparr> else s)"
| "add_step access (EnrolRungPicked r) s =
     (if ap_stage s = SearchStage \<and> r \<in> set (enrolOptions access) then s\<lparr>ap_enrolRung := r\<rparr> else s)"
| "add_step access (EnrolAnswered i ok) s = (if ok then s\<lparr>ap_enrolled := insert i (ap_enrolled s)\<rparr> else s)"
| "add_step access CreateOpened s =
     (if ap_stage s = SearchStage \<and> 2 \<le> length (trim (ap_query s))
      then s\<lparr>ap_stage := CreateStage (open_form access (trim (ap_query s)) (ap_forms s)), ap_forms := ap_forms s + 1\<rparr> else s)"
| "add_step access CreateCancelled s =
     (case ap_stage s of CreateStage f \<Rightarrow> s\<lparr>ap_stage := SearchStage\<rparr> | _ \<Rightarrow> s)"
| "add_step access (FieldTyped field v) s = on_form (type_field field v) s"
| "add_step access (SignInSwitched on) s = on_form (setSignIn access on) s"
| "add_step access (PasswordModePicked explicit) s =
     on_form (\<lambda>f. if nf_signIn f then f\<lparr>nf_explicit := explicit\<rparr> else f) s"
| "add_step access (RungPicked r) s =
     on_form (\<lambda>f. if r \<in> set (rungOptions access (nf_signIn f)) then f\<lparr>nf_rung := Some r\<rparr> else f) s"
| "add_step access (CreateSubmitted eventId) s =
     (case ap_stage s of
        CreateStage f \<Rightarrow>
          if nf_submitting f then s
          else (case submit_form access f of
                  (f1, None) \<Rightarrow> s\<lparr>ap_stage := CreateStage f1\<rparr>
                | (f1, Some form) \<Rightarrow>
                    s\<lparr>ap_stage := CreateStage f1, ap_roster := fst (createPerson_begin eventId form (ap_roster s)),
                      ap_flight := ap_flight s @ [nf_serial f], ap_sent := ap_sent s @ [form]\<rparr>)
      | _ \<Rightarrow> s)"
| "add_step access (CreateAnswered k answer) s =
     (case nth_opt (ap_flight s) (int k) of
        None \<Rightarrow> s
      | Some serial \<Rightarrow>
          (let (roster, created) = createPerson_end answer (ap_roster s);
               s1 = s\<lparr>ap_roster := roster, ap_flight := take k (ap_flight s) @ drop (k + 1) (ap_flight s)\<rparr>
           in case created of
                Some person \<Rightarrow> s1\<lparr>ap_stage := CreatedStage person\<rparr>
              | None \<Rightarrow> on_form (\<lambda>f. if nf_serial f = serial then f\<lparr>nf_submitting := False\<rparr> else f) s1))"
| "add_step access AnotherAdded s =
     (case ap_stage s of CreatedStage p \<Rightarrow> s\<lparr>ap_stage := SearchStage, ap_query := []\<rparr> | _ \<Rightarrow> s)"

definition add_run :: "RosterAccess \<Rightarrow> add_event list \<Rightarrow> add_panel \<Rightarrow> add_panel" where
  "add_run access = fold (add_step access)"

section \<open>What is sent\<close>

definition signs_in :: "CreatePersonForm \<Rightarrow> bool" where
  "signs_in form \<longleftrightarrow> cf_password form \<noteq> None \<or> cf_useDefaultPassword form = Some True"

text \<open>The rung of the form is among those offered for its switch, or there is none to choose.\<close>

definition new_form_ok :: "RosterAccess \<Rightarrow> new_form \<Rightarrow> bool" where
  "new_form_ok access f \<longleftrightarrow>
     (if ra_admin access then \<exists>r. nf_rung f = Some r \<and> r \<in> set (rungsFor access (probe_for (nf_signIn f)))
      else nf_rung f = None)"

definition sendable :: "RosterAccess \<Rightarrow> CreatePersonForm \<Rightarrow> bool" where
  "sendable access form \<longleftrightarrow>
     (\<exists>handle. cf_handle form = Some handle \<and> handle \<noteq> []) \<and>
     (signs_in form \<longrightarrow> (\<exists>email. cf_email form = Some email \<and> email \<noteq> [])) \<and>
     cf_password form \<noteq> Some [] \<and>
     cf_useDefaultPassword form = Some (signs_in form \<and> cf_password form = None) \<and>
     (if ra_admin access
      then \<exists>r. cf_participationType form = Some r \<and> r \<in> set (rungsFor access (probe_for (signs_in form)))
      else cf_participationType form = None)"

definition panel_ok :: "RosterAccess \<Rightarrow> add_panel \<Rightarrow> bool" where
  "panel_ok access s \<longleftrightarrow>
     (\<forall>f. ap_stage s = CreateStage f \<longrightarrow> new_form_ok access f) \<and> (\<forall>form \<in> set (ap_sent s). sendable access form)"

lemma rung_kept_ok: "ra_admin access \<Longrightarrow> \<exists>r. rung_kept (rungOptions access on) c = Some r \<and> r \<in> set (rungsFor access (probe_for on))"
  by (auto simp: rung_kept_def rungOptions_def rungsFor_def ADMIN_RUNGS_def NO_LOGIN_RUNGS_def split: option.splits list.splits)

lemma no_rung_kept: "\<not> ra_admin access \<Longrightarrow> rung_kept (rungOptions access on) c = None"
  by (simp add: rung_kept_def rungOptions_def)

lemma open_form_ok: "new_form_ok access (open_form access seed n)"
  using rung_kept_ok [of access False None] no_rung_kept [of access False None]
  by (simp add: new_form_ok_def open_form_def)

lemma setSignIn_ok: "new_form_ok access (setSignIn access on f)"
  using rung_kept_ok no_rung_kept by (simp add: new_form_ok_def setSignIn_def)

lemma type_field_ok: "new_form_ok access f \<Longrightarrow> new_form_ok access (type_field field v f)"
  by (cases field) (auto simp: new_form_ok_def)

lemma submitted_sendable:
  assumes "new_form_ok access f" and "submit_form access f = (f1, Some form)"
  shows "sendable access form" and "new_form_ok access f1"
proof -
  have made: "form = form_request access f" "f1 = f\<lparr>nf_errors := form_errors f, nf_submitting := True\<rparr>"
    and no: "form_errors f FairName = None" "form_errors f EmailField = None" "form_errors f PasswordBox = None"
    using assms(2) by (auto simp: submit_form_def Let_def split: if_splits)
  have boxes: "trim (nf_fairName f) \<noteq> []" "nf_signIn f \<longrightarrow> trim (nf_email f) \<noteq> []"
      "nf_signIn f \<and> nf_explicit f \<longrightarrow> nf_password f \<noteq> []"
    using no by (auto simp: form_errors_def split: if_splits)
  have signs: "signs_in form = nf_signIn f" by (auto simp: signs_in_def made(1) form_request_def)
  show "sendable access form"
    using assms(1) boxes unfolding sendable_def signs
    by (auto simp: made(1) form_request_def filled_def new_form_ok_def)
  show "new_form_ok access f1" using assms(1) by (simp add: made(2) new_form_ok_def)
qed

lemma kept_form_ok: "new_form_ok access f \<Longrightarrow> submit_form access f = (f1, None) \<Longrightarrow> new_form_ok access f1"
  by (auto simp: submit_form_def new_form_ok_def Let_def split: if_splits)

lemma on_form_ok:
  assumes "panel_ok access s" and "\<And>f. new_form_ok access f \<Longrightarrow> new_form_ok access (g f)"
  shows "panel_ok access (on_form g s)"
  using assms by (auto simp: panel_ok_def on_form_def split: add_stage.splits)

lemma add_step_ok:
  assumes "panel_ok access s"
  shows "panel_ok access (add_step access e s)"
proof (cases e)
  case (CreateSubmitted eventId)
  show ?thesis
  proof (cases "ap_stage s")
    case (CreateStage f)
    obtain f1 sent where sub: "submit_form access f = (f1, sent)" by (cases "submit_form access f")
    have ok: "new_form_ok access f" using assms CreateStage by (simp add: panel_ok_def)
    show ?thesis
      using assms CreateSubmitted CreateStage sub kept_form_ok [OF ok] submitted_sendable [OF ok]
      by (cases sent) (auto simp: panel_ok_def)
  qed (use assms CreateSubmitted in simp_all)
next
  case (CreateAnswered k answer)
  obtain roster created where made: "createPerson_end answer (ap_roster s) = (roster, created)"
    by (cases "createPerson_end answer (ap_roster s)")
  show ?thesis
  proof (cases created)
    case None
    have "panel_ok access (on_form (\<lambda>f. if nf_serial f = n then f\<lparr>nf_submitting := False\<rparr> else f)
        (s\<lparr>ap_roster := roster, ap_flight := fl\<rparr>))" for n fl
      using assms by (intro on_form_ok) (auto simp: panel_ok_def new_form_ok_def)
    then show ?thesis using assms CreateAnswered made None by (auto simp: Let_def split: option.split)
  next
    case (Some p)
    then show ?thesis using assms CreateAnswered made by (auto simp: panel_ok_def Let_def split: option.split)
  qed
next
  case (FieldTyped field v)
  then show ?thesis using assms by (auto intro: on_form_ok type_field_ok)
next
  case (SignInSwitched on)
  then show ?thesis using assms by (auto intro: on_form_ok setSignIn_ok)
next
  case (PasswordModePicked explicit)
  then show ?thesis using assms by (auto intro!: on_form_ok simp: new_form_ok_def)
next
  case (RungPicked r)
  then show ?thesis using assms by (auto intro!: on_form_ok simp: new_form_ok_def rungOptions_def)
next
  case CreateOpened
  then show ?thesis using assms by (auto simp: panel_ok_def open_form_ok)
qed (use assms in \<open>auto simp: panel_ok_def split: add_stage.split\<close>)


text \<open>A witness: an administrator adds somebody who signs in with a password of their own.\<close>

definition chief :: RosterAccess where
  "chief = \<lparr>ra_admin = True, ra_inviteReporters = False, ra_writeIncidents = True\<rparr>"

definition sparky_made :: CreatePersonForm where
  "sparky_made =
     \<lparr>cf_handle = Some (lit ''Sparky''), cf_name = None, cf_email = Some (lit ''s@x''), cf_phone = None,
      cf_password = Some (lit ''pw''), cf_useDefaultPassword = Some False, cf_wristband = None,
      cf_participationType = Some PT_REPORTER\<rparr>"

definition sparky_typed :: "add_event list" where
  "sparky_typed =
     [SearchTyped (lit ''Sparky''), CreateOpened, SignInSwitched True, PasswordModePicked True,
      FieldTyped EmailField (lit ''s@x''), FieldTyped PasswordBox (lit ''pw''), RungPicked PT_REPORTER, CreateSubmitted 7]"


section \<open>Where the panel falls short\<close>

text \<open>
  A refusal stays with the roster until the next creation: a form opened for somebody else begins with the
  refusal of the one before, at its boxes.
\<close>

lemma refusal_greets_next:
  assumes "ap_stage s = CreateStage f" and "nth_opt (ap_flight s) (int k) = Some (nf_serial f)"
    and "2 \<le> length (trim other)"
    and "s' = add_run access [CreateAnswered k (Inl thrown), CreateCancelled, SearchTyped other, CreateOpened] s"
  shows "ap_stage s' = CreateStage (open_form access (trim other) (ap_forms s)) \<and>
    ro_createError (ap_roster s') = Some (toAppError thrown)"
  using assms(1-3) unfolding assms(4)
  by (simp add: add_run_def on_form_def createPerson_end_def settle_def)

text \<open>Until the answer is in, and when it fails, the panel says that nobody has the name.\<close>

lemma no_one_while_loading:
  assumes "2 \<le> length (trim query)"
  shows "search_shown (\<lambda>_. None) query = NoOneNamed (trim query)"
  using assms by (simp add: search_shown_def mentionSearch_def Let_def split: option.split)

text \<open>Who was enrolled as one rung is shown as enrolled as whichever rung is picked for the next.\<close>

lemma enrolled_as_picked_later:
  assumes "p_personId person \<in> ap_enrolled s" and "ap_stage s = SearchStage" and "ra_admin access"
    and "r \<in> set (enrolOptions access)"
  shows "fst (hit_on_panel access (add_step access (EnrolRungPicked r) s) person) = EnrolledAs (rungLabel r)"
  using assms by (simp add: hit_on_panel_def Hit_def on_roster_def hit_rung_def)

text \<open>A refusal of the password is nowhere to be read while the shared default is chosen.\<close>

lemma default_password_refusal_hidden:
  assumes "ae_violations e = [v]" and "field_tail (fv_field v) = lit ''password''" and "ae_kind e \<noteq> KConflict"
    and "\<not> nf_explicit f" and "nf_errors f = (\<lambda>_. None)"
  shows "form_messages f (Some e) = ([(FairName, None), (LegalName, None), (EmailField, None), (PhoneField, None)], None)"
  using assms
  by (simp add: form_messages_def serverFieldErrors_def violation_placed_def FIELD_OF_def Let_def)

text \<open>An answer that comes after the form was left takes the panel from the form opened since, with what was typed.\<close>

lemma late_creation_takes_the_form:
  assumes "nth_opt (ap_flight s) (int k) = Some serial"
  shows "ap_stage (add_step access (CreateAnswered k (Inr (Some person))) s) = CreatedStage person"
  using assms by (simp add: createPerson_end_def)

end
