(* ===== verification/Spec2Isabelle.thy ===== *)
theory Spec2Isabelle
  imports People Session Live Controls Compose Drafts Events Blobs Journal Append Filing FieldControls
    TemplComposer TemplIncidents TemplPeople TemplIncident TemplTables TemplReport TemplPages TemplAdmin Ladder AddPerson
begin

text \<open>
  The logic of the two incident management clients: \<open>packages/interface\<close>, and the client of the
  server-rendered pages, \<open>go/web/typescript\<close>.

  The program. The newer client is an application for web, iOS and Android over a Connect (protobuf)
  API. A session holds a short-lived access token in memory and, on a phone, a refresh token in
  the secure store; every call passes an interceptor that attaches the token and repeats a call
  once after a refresh. Reads go through a query cache that a stream of pokes keeps fresh; writes
  are optimistic edits of that cache. On top are the screens: the Board, the dispatch and report
  tables, which keep their whole view in the route, the editors, the composers with their drafts,
  the roster, the alerts. The older client is a script per page over DOM elements, a JSON API and
  local storage, with one shared library. The theories follow these parts; each opens with the
  files it models.

  Foundations. \<open>Prelude\<close>: strings as UTF-16 code units, the language's string and number
  functions, \<open>Array.sort\<close> as a stable sort (\<open>js_sort\<close>) and the locale \<open>comparison\<close>.
  \<open>Protos\<close>: the messages as records, and the record \<open>host\<close> of what comes from outside the
  repository (time conversion, lower-casing, collation, regular expressions). \<open>Uri\<close>: UTF-8 and
  the URI functions with their round trip. \<open>Lib\<close>: labels, permissions, the guarded return path.
  \<open>Storage\<close>: the device as a map, the locale \<open>key_value\<close> of its storage, the persisted cache.

  Session and transport. \<open>Auth\<close>: \<open>api/tokens.ts\<close>, \<open>api/refresh.ts\<close>, \<open>api/transport.ts\<close>,
  \<open>session/secureStore.ts\<close>; \<open>Session\<close>: \<open>session/session.ts\<close>. An asynchronous function is cut at
  its awaits: the state records what it waits for, one function takes each answer, and the
  answers may come in any order (\<open>handle\<close>, \<open>run\<close>, \<open>reachable\<close>). Shown: one refresh at a time
  answers every caller; what the interceptor may send; only definitive answers end a session;
  signing out completes; the device keeps a usable token or none. \<open>Errors\<close>: every thrown value
  becomes a well-formed error.

  Reads that stay fresh. \<open>Live\<close>: the reconnecting loop of \<open>api/stream.ts\<close> (\<open>watch_step\<close>) and the
  hub of \<open>features/live/hub.ts\<close> as the step relation \<open>hub_step\<close>. Shown: gaps are reported, pauses
  keep their bounds, one stream per watched event, the later of two pokes wins.

  Tables. \<open>Dispatch\<close>, \<open>DispatchView\<close> (incidents), \<open>Reports\<close> (reports), \<open>People\<close> (roster):
  query, filters, order, and the route state, whose contract is the locale \<open>route_state\<close> of
  \<open>Route\<close>. \<open>Keyboard\<close>: which callback a key calls. \<open>Work\<close>: the Board. \<open>Events\<close>: the current fair,
  alerts and push links, the last against the server's builders in
  \<open>go/internal/server/pushfanout.go\<close>. Shown: what a table shows and in which order, round trips
  of the query, drawer and selection in step, Escape leads out, pushes open the bell's screen.

  Writes. \<open>Edit\<close>: \<open>features/incidents/useEditIncident.ts\<close> and \<open>features/reports/useEditReport.ts\<close>;
  the locale \<open>edit_field\<close> is the contract of a field's read and write, interpreted for every
  field. \<open>Controls\<close>: the text controls. \<open>Compose\<close>: the write bodies, mentions, and the server's
  journal-only rule (\<open>go/internal/incident\<close>). \<open>Drafts\<close>: the drafts as a refinement of a map and
  the hook as the step relation \<open>draft_step\<close>. \<open>Blobs\<close>: uploads, downloads, the pending photo.
  Shown: a refused edit puts back its own field, appends are appends to the server too, typed
  text is not lost, typed links and times are read back, what an upload sends and answers.
  \<open>Journal\<close>: the interleaved journal, its gates and strikes. \<open>Append\<close>: the mutations behind the
  composers. \<open>Filing\<close>: the two filing forms over their answers, with the photo. \<open>FieldControls\<close>:
  the field that saves itself, the choosers and their proposals, the lists. Shown: an incident is
  filed once, a sent text is posted once and kept when refused, what is typed stays until saved.

  The people page. \<open>People\<close>: query, keyboard, rungs and writes of \<open>features/people\<close>. \<open>Ladder\<close>: the page
  over runs of pointer, timer and key events (\<open>ladder_step\<close>): the drag between the columns, the
  hovercard, the menus, the profile, the crews. \<open>AddPerson\<close>: the search and the form that add a person
  (\<open>add_step\<close>). Shown: a role is written only by a drop, where the server takes it; a pinned hovercard
  stays; what is sent to add a person is complete and within the ceiling.

  The server-rendered client. \<open>Templ\<close>: the shared library \<open>ims.ts\<close>: addresses, stored choices, the
  session and its requests, the bell, the navigation, the broadcasts. \<open>TemplJournal\<close>: labels, change
  lines, paragraphs with mentions. \<open>TemplComposer\<close>: strikes and downloads, the draft, the mention
  picker, the submission, and the numbering of a new record by \<open>sendEdits\<close>, over runs of page events
  (\<open>page_step\<close>). \<open>TemplIncidents\<close>: \<open>incidents.ts\<close>, with its filters over runs of menu actions
  (\<open>queue_run\<close>). \<open>TemplPeople\<close>: \<open>people.ts\<close> and the person picker, the forms that add, edit and remove
  people, over runs of form actions (\<open>form_run\<close>). \<open>TemplIncident\<close>: \<open>incident.ts\<close>, the loading of an
  incident, the lists beside it, its people, types, area and links. \<open>TemplTables\<close>: \<open>reports.ts\<close> and
  \<open>sanctuary_visits.ts\<close>; the locale \<open>fragment_table\<close> is the contract of filters kept in the fragment,
  interpreted for both. \<open>TemplReport\<close>: \<open>report.ts\<close> and \<open>sanctuary_visit.ts\<close>. \<open>TemplPages\<close>:
  \<open>login.ts\<close>, \<open>theme.ts\<close>, \<open>sw.ts\<close>, the push switch of \<open>settings.ts\<close>, and the lock by which the pages
  share one event stream (\<open>lock_step\<close>). \<open>TemplAdmin\<close>: the administration (\<open>admin_*.ts\<close>),
  \<open>crews.ts\<close> and \<open>dashboard.ts\<close>. Shown: typed text survives a reload and, when the timer has run, a
  crash; a record is numbered once; filters come back from the fragment; broadcasts refine the map of
  the records; a failed load disables what may not be used; one page streams; who signs in comes back;
  the push switch tells the truth while the server is reached; events let through have working
  addresses; and where the two clients agree (the current fair, mentions) and where they do not.

  Some theorems state what the code does where it falls short of its intent: a late status answer
  undoes a sign-out, an explicit open filter is lost on a selection, two overlapping refused
  edits leave the first value, a day that does not exist is accepted, two quick first edits make
  two records, what is typed while an entry is sent is taken out of the box.

  Modelling decisions. Identifiers, counts and milliseconds are \<open>int\<close>; they agree with the
  doubles of the code up to \<open>2 ^ 53\<close>, and nothing in the modelled code computes near that bound;
  \<open>Number.isFinite\<close> on a parsed number is kept. Out-of-range array reads are \<open>None\<close>. Timers are
  events that may happen whenever they are armed. A random number is an argument. Loops are
  structural recursion, or a function with its measure; nothing runs on fuel. Storage, JSON
  coding, base64, regular expressions and the push service are arguments with their documented
  laws as hypotheses, each with a concrete instance in a witness.

  Not modelled: the components of the other screens and all styles, the providers and the query library itself
  (the cache is the value it holds for one key), the time formatters that use the locale
  database, the dashboard prototype of the newer client, the building of the document and the table,
  chart and date libraries of the server-rendered client, and the Go server except the rules named
  above.
\<close>

end
